(* ===== verification/Prelude.thy ===== *)
theory Prelude
  imports Complex_Main "HOL-Library.AList" "HOL-Library.Multiset" "HOL-Library.Sublist"
begin

text \<open>
  Shared vocabulary of the development: the theorem collections, the JavaScript
  containers and string operations the services use, and the interface locales that
  several components rely on.

  Numbers. The services compute with JavaScript numbers obtained from
  \<open>Decimal(18,2)\<close> columns. They are modelled by exact rationals: the rounding of
  binary floating point is the one aspect of arithmetic that is abstracted, and no
  theorem depends on two sums being taken in a different order.

  Dates. A \<open>Date\<close> is its \<open>getTime()\<close> value, an integer number of milliseconds. The
  date part of \<open>toISOString()\<close> is in bijection with the UTC day number, which is what
  the model uses wherever the code compares or keys by that string.
\<close>

named_theorems match_simps \<open>unfolding rules of the matching passes\<close>
named_theorems claim_intros \<open>introduction rules for the matching invariant\<close>
named_theorems group_simps \<open>rules for grouping by key\<close>

type_synonym money = rat
type_synonym instant = int
type_synonym row_id = string

abbreviation ms_per_day :: int where
  "ms_per_day \<equiv> 86400000"

section \<open>Instants and days\<close>

definition iso_day :: "instant \<Rightarrow> int" where
  "iso_day t = t div ms_per_day"

definition days_between :: "instant \<Rightarrow> instant \<Rightarrow> rat" where
  "days_between a b = \<bar>of_int (a - b) / of_int ms_per_day\<bar>"

lemma days_between_sym: "days_between a b = days_between b a"
  by (simp add: days_between_def abs_minus_commute)

lemma days_between_nonneg [simp]: "0 \<le> days_between a b"
  by (simp add: days_between_def)

lemma same_iso_day_lt_one_day:
  assumes "iso_day a = iso_day b"
  shows "days_between a b < 1"
proof -
  have "\<bar>a - b\<bar> < ms_per_day"
    using assms unfolding iso_day_def by presburger
  then have "\<bar>of_int (a - b) :: rat\<bar> < of_int ms_per_day"
    by linarith
  then show ?thesis
    by (simp add: days_between_def)
qed

section \<open>JavaScript truthiness of nullable strings\<close>

fun truthy_str :: "string option \<Rightarrow> bool" where
  "truthy_str None = False"
| "truthy_str (Some s) = (s \<noteq> [])"

section \<open>JavaScript strings\<close>

text \<open>\<open>s.indexOf(c, n)\<close>: the first position at or after \<open>n\<close>; \<open>None\<close> stands for \<open>-1\<close>.\<close>

fun index_of :: "char \<Rightarrow> string \<Rightarrow> nat option" where
  "index_of c [] = None"
| "index_of c (x # xs) = (if x = c then Some 0 else map_option Suc (index_of c xs))"

definition index_of_from :: "char \<Rightarrow> string \<Rightarrow> nat \<Rightarrow> nat option" where
  "index_of_from c s n = map_option (\<lambda>i. n + i) (index_of c (drop n s))"

text \<open>\<open>s.split(c)\<close> on a one-character separator.\<close>

fun split_on :: "char \<Rightarrow> string \<Rightarrow> string list" where
  "split_on c [] = [[]]"
| "split_on c (x # xs) =
     (if x = c then [] # split_on c xs
      else (case split_on c xs of [] \<Rightarrow> [[x]] | w # ws \<Rightarrow> (x # w) # ws))"

text \<open>\<open>parts.join(c)\<close>.\<close>

fun join_with :: "char \<Rightarrow> string list \<Rightarrow> string" where
  "join_with c [] = []"
| "join_with c [w] = w"
| "join_with c (w # v # ws) = w @ c # join_with c (v # ws)"

text \<open>\<open>s.includes(t)\<close>.\<close>

definition includes_str :: "string \<Rightarrow> string \<Rightarrow> bool" where
  "includes_str s t = sublist t s"

text \<open>\<open>toLowerCase\<close> and \<open>toUpperCase\<close> on ASCII strings.\<close>

definition lower_char :: "char \<Rightarrow> char" where
  "lower_char c = (case map_of (zip ''ABCDEFGHIJKLMNOPQRSTUVWXYZ'' ''abcdefghijklmnopqrstuvwxyz'') c of
     Some d \<Rightarrow> d | None \<Rightarrow> c)"

definition to_lower :: "string \<Rightarrow> string" where
  "to_lower s = map lower_char s"

definition upper_char :: "char \<Rightarrow> char" where
  "upper_char c = (case map_of (zip ''abcdefghijklmnopqrstuvwxyz'' ''ABCDEFGHIJKLMNOPQRSTUVWXYZ'') c of
     Some d \<Rightarrow> d | None \<Rightarrow> c)"

definition to_upper :: "string \<Rightarrow> string" where
  "to_upper s = map upper_char s"

lemma case_empty [simp]: "to_lower s = [] \<longleftrightarrow> s = []" "to_upper s = [] \<longleftrightarrow> s = []"
  by (simp_all add: to_lower_def to_upper_def)

text \<open>Decimal digits, as in a template literal of a non-negative integer.\<close>

fun nat_digits :: "nat \<Rightarrow> string" where
  "nat_digits n =
     (if n < 10 then [''0123456789'' ! n] else nat_digits (n div 10) @ [''0123456789'' ! (n mod 10)])"

declare nat_digits.simps [simp del]

definition is_digit :: "char \<Rightarrow> bool" where
  "is_digit c = (c \<in> set ''0123456789'')"

lemma digit_char: "m < 10 \<Longrightarrow> is_digit (''0123456789'' ! m)"
  unfolding is_digit_def by (rule nth_mem) simp

lemma nat_digits_digits: "c \<in> set (nat_digits n) \<Longrightarrow> is_digit c"
proof (induction n rule: nat_digits.induct)
  case (1 n)
  from 1(2) show ?case
    unfolding nat_digits.simps [of n] using 1(1) digit_char [of n] digit_char [of "n mod 10"]
    by (cases "n < 10") auto
qed

lemma nat_digits_no_separator [simp]:
  "CHR '':'' \<notin> set (nat_digits n)" "CHR '','' \<notin> set (nat_digits n)" "CHR ''-'' \<notin> set (nat_digits n)"
  using nat_digits_digits by (fastforce simp: is_digit_def)+

lemma index_of_append_notin:
  "c \<notin> set s \<Longrightarrow> index_of c (s @ c # t) = Some (length s)"
  by (induction s) auto

lemma index_of_None_iff: "index_of c s = None \<longleftrightarrow> c \<notin> set s"
  by (induction s) auto

lemma split_on_nonempty [simp]: "split_on c s \<noteq> []"
  by (induction s) (auto split: list.splits)

lemma split_on_notin: "c \<notin> set s \<Longrightarrow> split_on c s = [s]"
  by (induction s) auto

lemma split_on_append:
  "c \<notin> set s \<Longrightarrow> split_on c (s @ c # t) = s # split_on c t"
  by (induction s) auto

lemma split_on_join:
  "ws \<noteq> [] \<Longrightarrow> \<forall>w \<in> set ws. c \<notin> set w \<Longrightarrow> split_on c (join_with c ws) = ws"
  by (induction c ws rule: join_with.induct) (auto simp: split_on_notin split_on_append)

lemma join_split_on: "join_with c (split_on c s) = s"
proof (induction s)
  case (Cons x xs)
  then show ?case
    by (cases "split_on c xs") (auto, (metis join_with.simps(2,3) neq_Nil_conv append_Cons)+)
qed simp

lemma split_on_pieces: "w \<in> set (split_on c s) \<Longrightarrow> c \<notin> set w"
proof (induction s arbitrary: w)
  case (Cons x xs)
  then show ?case by (fastforce split: if_splits list.splits)
qed simp

section \<open>Insertion-ordered maps\<close>

text \<open>
  A JavaScript \<open>Map\<close> iterates in insertion order and an overwritten key keeps its
  place. The interface lists the operations the services call; the client lemmas
  describe the accumulate-by-key loop that occurs throughout the code base:
  \<^verbatim>\<open>for (const x of xs) {
      const k = key(x);
      if (!m.has(k)) m.set(k, init(x));
      add x to m.get(k) }\<close>
\<close>

locale ordered_map =
  fixes empty :: "'m"
    and get :: "'m \<Rightarrow> 'k \<Rightarrow> 'v option"
    and put :: "'m \<Rightarrow> 'k \<Rightarrow> 'v \<Rightarrow> 'm"
    and keys :: "'m \<Rightarrow> 'k list"
  assumes get_empty: "get empty k = None"
    and get_put: "get (put m k v) k' = (if k' = k then Some v else get m k')"
    and keys_empty: "keys empty = []"
    and keys_put: "keys (put m k v) = (if k \<in> set (keys m) then keys m else keys m @ [k])"
    and get_None_iff: "get m k = None \<longleftrightarrow> k \<notin> set (keys m)"
begin

lemma get_Some_key: "get m k = Some v \<Longrightarrow> k \<in> set (keys m)"
  by (rule ccontr) (simp flip: get_None_iff)

lemma distinct_keys_put: "distinct (keys m) \<Longrightarrow> distinct (keys (put m k v))"
  by (simp add: keys_put)

lemma get_accumulate:
  "get (foldl (\<lambda>m x. put m (kf x) (add (case get m (kf x) of None \<Rightarrow> new x | Some v \<Rightarrow> v) x)) m xs) k
   = (case filter (\<lambda>x. kf x = k) xs of
        [] \<Rightarrow> get m k
      | y # ys \<Rightarrow> Some (foldl add (case get m k of None \<Rightarrow> new y | Some v \<Rightarrow> v) (y # ys)))"
  by (induction xs arbitrary: m) (auto simp: get_put split: list.splits option.splits)

lemma set_keys_fold:
  "set (keys (foldl (\<lambda>m x. put m (kf x) (g m x)) m xs)) = set (keys m) \<union> kf ` set xs"
  by (induction xs arbitrary: m) (auto simp: keys_put)

lemma distinct_keys_fold:
  "distinct (keys m) \<Longrightarrow> distinct (keys (foldl (\<lambda>m x. put m (kf x) (g m x)) m xs))"
  by (induction xs arbitrary: m) (auto simp: distinct_keys_put)

end

type_synonym ('k, 'v) jsmap = "('k \<times> 'v) list"

definition map_get :: "('k, 'v) jsmap \<Rightarrow> 'k \<Rightarrow> 'v option" where
  "map_get m k = map_of m k"

definition map_set :: "('k, 'v) jsmap \<Rightarrow> 'k \<Rightarrow> 'v \<Rightarrow> ('k, 'v) jsmap" where
  "map_set m k v = AList.update k v m"

definition map_keys :: "('k, 'v) jsmap \<Rightarrow> 'k list" where
  "map_keys m = map fst m"

interpretation jsm: ordered_map "[]" map_get map_set map_keys
proof (unfold_locales, goal_cases)
  case 1 show ?case by (simp add: map_get_def)
next
  case 2 show ?case by (simp add: map_get_def map_set_def update_conv')
next
  case 3 show ?case by (simp add: map_keys_def)
next
  case 4 show ?case by (simp add: map_keys_def map_set_def update_keys)
next
  case 5 show ?case by (simp add: map_get_def map_keys_def map_of_eq_None_iff)
qed

text \<open>The accumulate-by-key loop itself, over the association-list map.\<close>

definition accumulate :: "('x \<Rightarrow> 'k) \<Rightarrow> ('x \<Rightarrow> 'v) \<Rightarrow> ('v \<Rightarrow> 'x \<Rightarrow> 'v) \<Rightarrow> 'x list \<Rightarrow> ('k, 'v) jsmap" where
  "accumulate kf new add xs =
     foldl (\<lambda>m x. map_set m (kf x) (add (case map_get m (kf x) of None \<Rightarrow> new x | Some v \<Rightarrow> v) x)) [] xs"

lemma map_get_accumulate [group_simps]:
  "map_get (accumulate kf new add xs) k =
     (case filter (\<lambda>x. kf x = k) xs of [] \<Rightarrow> None | y # ys \<Rightarrow> Some (foldl add (new y) (y # ys)))"
  using jsm.get_accumulate [of kf add new "[]" xs k]
  unfolding accumulate_def by (simp add: jsm.get_empty cong: list.case_cong)

lemma distinct_keys_accumulate [simp]: "distinct (map fst (accumulate kf new add xs))"
  using jsm.distinct_keys_fold [of "[]"] unfolding accumulate_def map_keys_def by simp

lemma set_keys_accumulate [simp]: "fst ` set (accumulate kf new add xs) = kf ` set xs"
  using jsm.set_keys_fold [of kf _ "[]" xs] unfolding accumulate_def map_keys_def by simp

lemma entry_accumulate:
  assumes "(k, v) \<in> set (accumulate kf new add xs)"
  obtains y ys where "filter (\<lambda>x. kf x = k) xs = y # ys" "v = foldl add (new y) (y # ys)"
proof -
  have "map_get (accumulate kf new add xs) k = Some v"
    using assms by (simp add: map_get_def map_of_is_SomeI)
  then show thesis
    using that by (auto simp: map_get_accumulate split: list.splits)
qed

lemma foldl_append_single: "foldl (\<lambda>v x. v @ [f x]) acc xs = acc @ map f xs"
  by (induction xs arbitrary: acc) auto

lemma foldl_plus: "foldl (\<lambda>s x. s + f x) acc xs = acc + sum_list (map f xs)"
  for f :: "'a \<Rightarrow> rat"
  by (induction xs arbitrary: acc) auto

lemma foldl_count: "foldl (\<lambda>n x. n + 1) acc xs = acc + length xs" for acc :: nat
  by (induction xs arbitrary: acc) auto

text \<open>Grouping into lists, \<open>Map<K, T[]>\<close>.\<close>

lemma sum_list_map_concat: "sum_list (map f (concat xss)) = sum_list (map (\<lambda>xs. sum_list (map f xs)) xss)"
  for f :: "'a \<Rightarrow> rat"
  by (induction xss) simp_all

lemma sum_list_map_mset: "mset xs = mset ys \<Longrightarrow> sum_list (map f xs) = sum_list (map f ys)" for f :: "'a \<Rightarrow> rat"
  by (metis mset_map sum_mset_sum_list)

definition group_by :: "('x \<Rightarrow> 'k) \<Rightarrow> 'x list \<Rightarrow> ('k, 'x list) jsmap" where
  "group_by kf xs = accumulate kf (\<lambda>_. []) (\<lambda>v x. v @ [x]) xs"

lemma map_get_group_by [group_simps]:
  "map_get (group_by kf xs) k =
     (if \<exists>x \<in> set xs. kf x = k then Some (filter (\<lambda>x. kf x = k) xs) else None)"
proof (cases "filter (\<lambda>x. kf x = k) xs")
  case Nil
  then show ?thesis
    by (auto simp: group_by_def map_get_accumulate filter_empty_conv)
next
  case (Cons y ys)
  then have "\<exists>x \<in> set xs. kf x = k"
    by (metis (mono_tags, lifting) filter_eq_ConsD in_set_conv_decomp)
  with Cons show ?thesis
    by (simp add: group_by_def map_get_accumulate foldl_append_single [where f = "\<lambda>x. x", simplified])
qed

lemma entry_group_by: "(k, ys) \<in> set (group_by kf xs) \<Longrightarrow> ys = filter (\<lambda>x. kf x = k) xs \<and> ys \<noteq> []"
  unfolding group_by_def
  by (erule entry_accumulate) (auto simp: foldl_append_single [where f = "\<lambda>x. x", simplified])

lemma distinct_keys_group_by [simp]: "distinct (map fst (group_by kf xs))"
  by (simp add: group_by_def)

lemma set_keys_group_by [simp]: "fst ` set (group_by kf xs) = kf ` set xs"
  by (simp add: group_by_def)

text \<open>The groups partition the input: flattening them permutes it.\<close>

lemma mset_concat_partition:
  "distinct ks \<Longrightarrow> kf ` set xs \<subseteq> set ks \<Longrightarrow>
   mset (concat (map (\<lambda>k. filter (\<lambda>x. kf x = k) xs) ks)) = mset xs"
proof (induction ks arbitrary: xs)
  case (Cons k ks)
  have sub: "kf ` set (filter (\<lambda>x. kf x \<noteq> k) xs) \<subseteq> set ks"
    using Cons.prems by auto
  have eq: "map (\<lambda>k'. filter (\<lambda>x. kf x = k') (filter (\<lambda>x. kf x \<noteq> k) xs)) ks
      = map (\<lambda>k'. filter (\<lambda>x. kf x = k') xs) ks"
    using Cons.prems(1) by (auto intro!: filter_cong)
  have "mset (concat (map (\<lambda>k'. filter (\<lambda>x. kf x = k') xs) ks)) = mset (filter (\<lambda>x. kf x \<noteq> k) xs)"
    using Cons.IH [OF _ sub] Cons.prems(1) by (simp only: eq) simp
  moreover have "mset (filter (\<lambda>x. kf x = k) xs) + mset (filter (\<lambda>x. kf x \<noteq> k) xs) = mset xs"
    by (metis mset_filter multiset_partition)
  ultimately show ?case by simp
qed auto

lemma group_by_as_map: "group_by kf xs = map (\<lambda>k. (k, filter (\<lambda>x. kf x = k) xs)) (map fst (group_by kf xs))"
proof -
  have "group_by kf xs = map (\<lambda>(k, ys). (k, ys)) (group_by kf xs)" by simp
  also have "\<dots> = map (\<lambda>e. (fst e, filter (\<lambda>x. kf x = fst e) xs)) (group_by kf xs)"
    by (rule map_cong) (auto dest: entry_group_by)
  finally show ?thesis by (simp add: comp_def)
qed

lemma mset_concat_group_by: "mset (concat (map snd (group_by kf xs))) = mset xs"
proof -
  have "map snd (group_by kf xs) = map (\<lambda>k. filter (\<lambda>x. kf x = k) xs) (map fst (group_by kf xs))"
    by (simp add: comp_def) (auto dest: entry_group_by)
  then show ?thesis
    using mset_concat_partition [of "map fst (group_by kf xs)" kf xs] by (simp del: map_map)
qed

text \<open>\<open>[...new Set(xs)]\<close>: the values in the order of their first occurrence.\<close>

definition js_unique :: "'a list \<Rightarrow> 'a list" where
  "js_unique xs = rev (remdups (rev xs))"

lemma set_js_unique [simp]: "set (js_unique xs) = set xs"
  by (simp add: js_unique_def)

lemma distinct_js_unique [simp]: "distinct (js_unique xs)"
  by (simp add: js_unique_def)

text \<open>The loop that keeps the value of the first element of each key,
  \<^verbatim>\<open>for (const x of xs) if (!m.has(k(x))) m.set(k(x), v(x))\<close>.\<close>

definition first_by :: "('x \<Rightarrow> 'k) \<Rightarrow> ('x \<Rightarrow> 'v) \<Rightarrow> 'x list \<Rightarrow> ('k, 'v) jsmap" where
  "first_by kf vf xs = foldl (\<lambda>m x. if map_get m (kf x) = None then map_set m (kf x) (vf x) else m) [] xs"

lemma map_get_first_by [group_simps]:
  "map_get (first_by kf vf xs) k = map_option vf (List.find (\<lambda>x. kf x = k) xs)"
proof -
  have "map_get (foldl (\<lambda>m x. if map_get m (kf x) = None then map_set m (kf x) (vf x) else m) m xs) k =
      (case map_get m k of None \<Rightarrow> map_option vf (List.find (\<lambda>x. kf x = k) xs) | Some v \<Rightarrow> Some v)" for m
    by (induction xs arbitrary: m) (auto simp: jsm.get_put split: option.splits)
  then show ?thesis by (simp add: first_by_def jsm.get_empty)
qed

lemma keys_first_by: "map_keys (first_by kf vf xs) = js_unique (map kf xs)"
proof (induction xs rule: rev_induct)
  case (snoc x xs)
  have "map_get (first_by kf vf xs) (kf x) = None \<longleftrightarrow> kf x \<notin> kf ` set xs"
    by (simp add: jsm.get_None_iff snoc)
  then show ?case
    using snoc by (auto simp: first_by_def jsm.keys_put js_unique_def)
qed (simp add: first_by_def js_unique_def map_keys_def)

lemma distinct_keys_first_by [simp]: "distinct (map fst (first_by kf vf xs))"
  using keys_first_by [of kf vf xs] by (simp add: map_keys_def)

section \<open>Tolerances\<close>

text \<open>
  Every amount comparison in the services has the shape
  \<open>Math.abs(a - ref) <= Math.max(p * r(ref), floor)\<close>. The interface is the allowance as a
  function of the reference amount; the contract is that it never drops below a
  positive floor.
\<close>

locale tolerance_policy =
  fixes allowance :: "rat \<Rightarrow> rat" and floor_amount :: rat
  assumes floor_pos: "0 < floor_amount"
    and allowance_floor: "floor_amount \<le> allowance r"
begin

lemma allowance_pos: "0 < allowance r"
  using floor_pos allowance_floor [of r] by linarith

lemma equal_amounts_accepted: "\<bar>r - r\<bar> \<le> allowance r"
  using allowance_pos [of r] by simp

lemma within_floor_accepted: "\<bar>a - r\<bar> \<le> floor_amount \<Longrightarrow> \<bar>a - r\<bar> \<le> allowance r"
  using allowance_floor [of r] by linarith

lemma rejected_exceeds_floor: "\<not> \<bar>a - r\<bar> \<le> allowance r \<Longrightarrow> floor_amount < \<bar>a - r\<bar>"
  using allowance_floor [of r] by linarith

end

section \<open>Lists\<close>

lemma find_SomeD: "List.find P xs = Some x \<Longrightarrow> P x \<and> x \<in> set xs"
  by (auto simp: find_Some_iff)

lemma subset_mset_obtain_subseq:
  assumes "mset ys \<subseteq># mset xs"
  obtains zs where "subseq zs xs" "mset zs = mset ys"
  using assms
proof (induction xs arbitrary: ys thesis)
  case Nil
  show ?case by (rule Nil.prems(1) [of "[]"]) (use Nil.prems(2) in auto)
next
  case (Cons x xs)
  show ?case
  proof (cases "x \<in> set ys")
    case True
    then have mset_ys: "mset ys = add_mset x (mset (remove1 x ys))"
      by simp
    then have "mset (remove1 x ys) \<subseteq># mset xs"
      using Cons.prems(2) by (metis mset.simps(2) mset_subset_eq_add_mset_cancel)
    then obtain zs where "subseq zs xs" "mset zs = mset (remove1 x ys)"
      using Cons.IH by blast
    with mset_ys show ?thesis
      using Cons.prems(1) [of "x # zs"] by simp
  next
    case False
    then have "mset ys \<subseteq># mset xs"
      using Cons.prems(2) by (metis diff_single_trivial in_multiset_in_set
          mset.simps(2) subset_eq_diff_conv add_mset_add_single)
    then obtain zs where "subseq zs xs" "mset zs = mset ys"
      using Cons.IH by blast
    then show ?thesis
      using Cons.prems(1) [of zs] by (simp add: list_emb_Cons)
  qed
qed

lemma list_all2_witness: "list_all2 P xs ys \<Longrightarrow> y \<in> set ys \<Longrightarrow> \<exists>x \<in> set xs. P x y"
  by (induction rule: list_all2_induct) auto

lemma submset_map_obtain:
  assumes "mset ys \<subseteq># mset (map f xs)"
  obtains zs where "map f zs = ys" "mset zs \<subseteq># mset xs"
  using assms
proof (induction ys arbitrary: xs thesis)
  case Nil
  show ?case by (rule Nil.prems(1) [of "[]"]) simp_all
next
  case (Cons y ys)
  have "y \<in> set (map f xs)"
    using Cons.prems(2) by (metis list.set_intros(1) mset_subset_eqD set_mset_mset)
  then obtain x where x: "x \<in> set xs" "f x = y" by auto
  then have split: "mset xs = add_mset x (mset (remove1 x xs))" by simp
  then have "mset (map f xs) = add_mset y (mset (map f (remove1 x xs)))"
    by (metis mset_map image_mset_add_mset x(2))
  then have "mset ys \<subseteq># mset (map f (remove1 x xs))"
    using Cons.prems(2) by (metis mset.simps(2) mset_subset_eq_add_mset_cancel)
  then obtain zs where "map f zs = ys" "mset zs \<subseteq># mset (remove1 x xs)"
    using Cons.IH by blast
  then show ?case
    using Cons.prems(1) [of "x # zs"] x split by (metis list.simps(9) mset.simps(2) mset_subset_eq_add_mset_cancel)
qed

lemma distinct_submset:
  assumes "mset ys \<subseteq># mset xs" and "distinct xs"
  shows "distinct ys"
proof -
  obtain zs where "subseq zs xs" "mset zs = mset ys"
    using assms(1) by (rule subset_mset_obtain_subseq)
  with assms(2) show ?thesis
    using mset_eq_imp_distinct_iff subseqs_distinctD by (metis in_set_subseqs)
qed

lemma concat_map_disjoint:
  assumes "distinct (concat (map f xs))" "x \<in> set xs" "y \<in> set xs" "set (f x) \<inter> set (f y) \<noteq> {}"
  shows "x = y"
  using assms
proof (induction xs)
  case (Cons z zs)
  then show ?case by auto
qed simp

lemma distinct_map_sort_key: "distinct (map f (sort_key k xs)) \<longleftrightarrow> distinct (map f xs)"
  by (rule mset_eq_imp_distinct_iff) simp

lemma length_filter_mset: "mset xs = mset ys \<Longrightarrow> length (filter P xs) = length (filter P ys)"
  by (metis mset_filter size_mset)

lemma distinct_subset_mset:
  assumes "distinct xs" "set xs \<subseteq> set ys"
  shows "mset xs \<subseteq># mset ys"
proof (rule mset_subset_eqI)
  fix a
  show "count (mset xs) a \<le> count (mset ys) a"
    using assms by (cases "a \<in> set xs") (auto simp: distinct_count_atmost_1 Suc_le_eq count_greater_zero_iff)
qed

lemma subseq_mset: "subseq zs xs \<Longrightarrow> mset zs \<subseteq># mset xs"
  by (induction rule: list_emb.induct) (auto intro: subset_mset.order_trans)

end
