(* ===== verification/Domain.thy ===== *)
theory Domain
  imports Prelude
begin

text \<open>
  The data model of \<open>prisma/schema.prisma\<close> and \<open>src/types\<close>: the enumerations, the rows
  of the tables the services read and write, and the rows produced by the file
  parsers. A column the services never read is left out of the row.
\<close>

section \<open>Enumerations\<close>

datatype transaction_type = DEPOSIT | WITHDRAWAL | REDEMPTION | SWITCH | DIVIDEND | TRANSFER

fun type_name :: "transaction_type \<Rightarrow> string" where
  "type_name DEPOSIT = ''DEPOSIT''"
| "type_name WITHDRAWAL = ''WITHDRAWAL''"
| "type_name REDEMPTION = ''REDEMPTION''"
| "type_name SWITCH = ''SWITCH''"
| "type_name DIVIDEND = ''DIVIDEND''"
| "type_name TRANSFER = ''TRANSFER''"

datatype transaction_source =
    Transfer_Reversal | AIRTEL_APP | MTN_USSD | AIRTEL_WEB | MTN_APP | MTN_WEB
  | BANK | MTN_MOMO | AIRTEL_MONEY | RT_Adjustment

datatype reconciliation_status =
    RS_PENDING | RS_MATCHED | RS_VARIANCE_DETECTED | RS_AUTO_APPROVED
  | RS_MANUAL_REVIEW | RS_APPROVED | RS_REJECTED | RS_MISSING_IN_FUND

datatype review_tag =
    DUPLICATE_TRANSACTION | NO_ACTION_NEEDED | MISSING_IN_BANK | MISSING_IN_GOAL
  | TIMING_DIFFERENCE | AMOUNT_DISCREPANCY | DATA_ENTRY_ERROR | UNDER_INVESTIGATION
  | REVERSAL_NETTED

datatype processing_status =
    QUEUED | PARSING | VALIDATING | PROCESSING | WAITING_FOR_APPROVAL
  | COMPLETED | FAILED | CANCELED

datatype validation_status = VS_PENDING | VS_PASSED | VS_FAILED | VS_WARNING

datatype approval_status = EA_PENDING | EA_APPROVED | EA_REJECTED

datatype severity = CRITICAL | WARNING | INFO

lemma type_name_inject [simp]: "type_name a = type_name b \<longleftrightarrow> a = b"
  by (cases a; cases b) simp_all

lemma bar_notin_type_name [simp]: "CHR ''|'' \<notin> set (type_name t)"
  by (cases t) simp_all

section \<open>Rows\<close>

text \<open>A row of \<open>bank_goal_transactions\<close>.\<close>

record bank_txn =
  b_id :: row_id
  b_clientId :: row_id
  b_accountId :: row_id
  b_goalId :: row_id
  b_uploadBatchId :: row_id
  b_transactionDate :: instant
  b_transactionType :: transaction_type
  b_transactionId :: string
  b_goalNumber :: string
  b_totalAmount :: money
  b_xummfAmount :: money
  b_xubfAmount :: money
  b_xudefAmount :: money
  b_xurefAmount :: money
  b_reconciliationStatus :: reconciliation_status
  b_matchedGoalTransactionCode :: "string option"
  b_matchedAt :: "instant option"
  b_matchScore :: "int option"
  b_reviewTag :: "review_tag option"
  b_reviewNotes :: "string option"
  b_reviewedAt :: "instant option"
  b_reviewedBy :: "string option"
  b_varianceResolved :: bool
  b_resolvedAt :: "instant option"
  b_resolvedReason :: "string option"
  b_resolvedByBatchId :: "row_id option"
  b_createdAt :: instant
  b_updatedAt :: instant
  b_rowNumber :: nat

text \<open>A row of \<open>fund_transactions\<close>, with the code of its fund (a join in the queries).\<close>

record fund_txn =
  f_id :: row_id
  f_goalTransactionCode :: string
  f_transactionId :: "string option"
  f_source :: "transaction_source option"
  f_clientId :: row_id
  f_accountId :: row_id
  f_goalId :: row_id
  f_fundCode :: string
  f_uploadBatchId :: row_id
  f_transactionDate :: instant
  f_transactionType :: transaction_type
  f_amount :: money
  f_units :: rat
  f_reviewTag :: "review_tag option"
  f_reviewNotes :: "string option"
  f_reviewedAt :: "instant option"
  f_reviewedBy :: "string option"
  f_varianceResolved :: bool
  f_resolvedAt :: "instant option"
  f_resolvedReason :: "string option"
  f_resolvedByBatchId :: "row_id option"
  f_rowNumber :: nat

record client_row =
  cl_id :: row_id
  cl_name :: string

record account_row =
  ac_id :: row_id
  ac_clientId :: row_id
  ac_number :: string

record goal_row =
  go_id :: row_id
  go_accountId :: row_id
  go_number :: string

text \<open>The part of the database the reconciliation services share.\<close>

record database =
  db_bank :: "bank_txn list"
  db_fund :: "fund_txn list"
  db_goals :: "goal_row list"
  db_accounts :: "account_row list"
  db_clients :: "client_row list"

text \<open>
  Prisma's \<open>updateMany\<close> and \<open>update\<close>: every row satisfying the condition is rewritten;
  \<open>count\<close> is the number of such rows.
\<close>

definition update_where :: "('r \<Rightarrow> bool) \<Rightarrow> ('r \<Rightarrow> 'r) \<Rightarrow> 'r list \<Rightarrow> 'r list" where
  "update_where P upd rs = map (\<lambda>r. if P r then upd r else r) rs"

definition count_where :: "('r \<Rightarrow> bool) \<Rightarrow> 'r list \<Rightarrow> nat" where
  "count_where P rs = length (filter P rs)"

lemma length_update_where [simp]: "length (update_where P upd rs) = length rs"
  by (simp add: update_where_def)

lemma update_where_map_same:
  "(\<And>r. f (upd r) = f r) \<Longrightarrow> map f (update_where P upd rs) = map f rs"
  by (simp add: update_where_def)

lemma update_where_id: "(\<And>r. r \<in> set rs \<Longrightarrow> P r \<Longrightarrow> upd r = r) \<Longrightarrow> update_where P upd rs = rs"
  by (simp add: update_where_def map_idI)

lemma in_update_where:
  "r \<in> set (update_where P upd rs) \<longleftrightarrow>
   (\<exists>r0 \<in> set rs. r = (if P r0 then upd r0 else r0))"
  by (auto simp: update_where_def)

section \<open>Decimal columns\<close>

text \<open>PostgreSQL rounds a value for a \<open>Decimal(precision, scale)\<close> column to \<open>scale\<close> digits, halves away from zero, and
  refuses it if the rounded value needs more than \<open>precision - scale\<close> digits before the point. Only the refusal
  is modelled; the value itself is kept exact.\<close>

definition fits_decimal :: "nat \<Rightarrow> nat \<Rightarrow> rat \<Rightarrow> bool" where
  "fits_decimal precision scale v = (\<bar>v\<bar> + 1 / (2 * 10 ^ scale) < 10 ^ (precision - scale))"

lemma fits_decimal_zero [simp]: "fits_decimal 18 2 0" "fits_decimal 18 6 0" "fits_decimal 5 4 0"
  by (simp_all add: fits_decimal_def)

lemma fits_decimal_minus [simp]: "fits_decimal p s (- v) = fits_decimal p s v"
  by (simp add: fits_decimal_def)

text \<open>A value between two that fit also fits.\<close>

lemma fits_decimal_mono: "fits_decimal p s v \<Longrightarrow> \<bar>w\<bar> \<le> \<bar>v\<bar> \<Longrightarrow> fits_decimal p s w"
  by (simp add: fits_decimal_def)

definition number_fits :: "nat \<Rightarrow> nat \<Rightarrow> rat option \<Rightarrow> bool" where
  "number_fits precision scale x = (case x of None \<Rightarrow> False | Some v \<Rightarrow> fits_decimal precision scale v)"

section \<open>Sums over rows selected by id\<close>

lemma sum_rows_by_id:
  fixes amt :: "'r \<Rightarrow> rat"
  assumes "distinct (map idf rows)" "set xs \<subseteq> set rows" "distinct (map idf xs)"
  shows "sum_list (map amt xs) = sum_list (map amt (filter (\<lambda>r. idf r \<in> set (map idf xs)) rows))"
proof -
  have "set xs = set (filter (\<lambda>r. idf r \<in> set (map idf xs)) rows)"
    using assms(1,2) by (auto simp: distinct_map dest: inj_onD)
  then have "mset xs = mset (filter (\<lambda>r. idf r \<in> set (map idf xs)) rows)"
    using assms(1,3) by (intro set_eq_iff_mset_eq_distinct [THEN iffD1]) (auto simp: distinct_map)
  then have "mset (map amt xs) = mset (map amt (filter (\<lambda>r. idf r \<in> set (map idf xs)) rows))"
    by (metis mset_map)
  then show ?thesis by (metis sum_mset_sum_list)
qed

lemma sum_filter_disjoint:
  fixes amt :: "'r \<Rightarrow> rat"
  assumes "\<And>r. r \<in> set rows \<Longrightarrow> \<not> (P r \<and> Q r)"
  shows "sum_list (map amt (filter (\<lambda>r. P r \<or> Q r) rows))
       = sum_list (map amt (filter P rows)) + sum_list (map amt (filter Q rows))"
  using assms by (induction rows) auto

end
