(* ===== verification/CombinationSum.thy ===== *)
theory CombinationSum
  imports Prelude
begin

text \<open>
  \<open>SmartMatcher.findCombinationSum\<close>: a greedy pass over the items in descending order of
  amount, then an exhaustive search over the subsets of the ten largest items, encoded
  as bit masks. The bit masks stay below \<open>2 ^ 10\<close>, so JavaScript's 32-bit shifts never wrap.
  The lemmas show soundness (what is returned is a sub-collection whose sum is within
  the tolerance) and completeness (up to ten items, a combination of at least two items
  that fits is never missed).
\<close>

type_synonym 'i item = "'i \<times> money"

definition item_sum :: "'i item list \<Rightarrow> money" where
  "item_sum xs = sum_list (map snd xs)"

fun greedy_sum :: "money \<Rightarrow> money \<Rightarrow> money \<Rightarrow> 'i item list \<Rightarrow> 'i item list \<Rightarrow> 'i item list option" where
  "greedy_sum target tol s acc [] = None"
| "greedy_sum target tol s acc (x # xs) =
     (if s + snd x \<le> target + tol
      then (if \<bar>s + snd x - target\<bar> \<le> tol then Some (acc @ [x])
            else greedy_sum target tol (s + snd x) (acc @ [x]) xs)
      else greedy_sum target tol s acc xs)"

definition mask_subset :: "nat \<Rightarrow> 'a list \<Rightarrow> 'a list" where
  "mask_subset msk xs = map (\<lambda>i. xs ! i) (filter (\<lambda>i. bit msk i) [0..<length xs])"

definition mask_hit :: "money \<Rightarrow> money \<Rightarrow> 'i item list \<Rightarrow> nat \<Rightarrow> bool" where
  "mask_hit target tol xs msk =
     (length (mask_subset msk xs) > 1 \<and> \<bar>item_sum (mask_subset msk xs) - target\<bar> \<le> tol)"

definition find_combination_sum :: "'i item list \<Rightarrow> money \<Rightarrow> money \<Rightarrow> 'i item list" where
  "find_combination_sum items target tol =
     (let sorted = sort_key (\<lambda>x. - snd x) items in
      case greedy_sum target tol 0 [] sorted of
        Some r \<Rightarrow> r
      | None \<Rightarrow>
          (let limited = take 10 sorted in
           case List.find (mask_hit target tol limited) [1..<2 ^ length limited] of
             Some msk \<Rightarrow> mask_subset msk limited
           | None \<Rightarrow> []))"

section \<open>Soundness\<close>

lemma greedy_sum_spec:
  "greedy_sum target tol (item_sum acc) acc xs = Some r \<Longrightarrow>
   \<bar>item_sum r - target\<bar> \<le> tol \<and> (\<exists>ys. r = acc @ ys \<and> ys \<noteq> [] \<and> subseq ys xs)"
proof (induction xs arbitrary: acc)
  case (Cons x xs)
  have sum_snoc: "item_sum (acc @ [x]) = item_sum acc + snd x"
    by (simp add: item_sum_def)
  show ?case
  proof (cases "item_sum acc + snd x \<le> target + tol")
    case take_it: True
    show ?thesis
    proof (cases "\<bar>item_sum acc + snd x - target\<bar> \<le> tol")
      case True
      with Cons.prems take_it have "r = acc @ [x]" by simp
      with True sum_snoc show ?thesis by auto
    next
      case False
      have "greedy_sum target tol (item_sum (acc @ [x])) (acc @ [x]) xs = Some r"
        using Cons.prems unfolding greedy_sum.simps if_P [OF take_it] if_not_P [OF False] sum_snoc .
      from Cons.IH [OF this] show ?thesis
        by (metis append.assoc append_Cons append_Nil list.distinct(1) subseq_Cons2)
    qed
  next
    case False
    with Cons.prems have "greedy_sum target tol (item_sum acc) acc xs = Some r" by simp
    from Cons.IH [OF this] show ?thesis
      by (blast intro: list_emb_Cons)
  qed
qed simp

lemma greedy_sum_sound:
  assumes "greedy_sum target tol 0 [] xs = Some r"
  shows "\<bar>item_sum r - target\<bar> \<le> tol" and "r \<noteq> []" and "subseq r xs"
  using greedy_sum_spec [of target tol "[]" xs r] assms by (auto simp: item_sum_def)

lemma mask_subset_nths: "mask_subset msk xs = nths xs {i. bit msk i}"
proof (induction xs rule: rev_induct)
  case (snoc x xs)
  have "map (\<lambda>i. (xs @ [x]) ! i) (filter (\<lambda>i. bit msk i) [0..<length xs])
      = map (\<lambda>i. xs ! i) (filter (\<lambda>i. bit msk i) [0..<length xs])"
    by (auto simp: nth_append)
  with snoc show ?case
    by (simp add: mask_subset_def nths_append nths_singleton)
qed (simp add: mask_subset_def)

lemma subseq_mask_subset: "subseq (mask_subset msk xs) xs"
  by (auto simp: mask_subset_nths subseq_conv_nths)

lemma find_combination_cases:
  obtains (greedy) "greedy_sum target tol 0 [] (sort_key (\<lambda>x. - snd x) items)
        = Some (find_combination_sum items target tol)"
  | (masked) msk where "find_combination_sum items target tol
        = mask_subset msk (take 10 (sort_key (\<lambda>x. - snd x) items))"
      "mask_hit target tol (take 10 (sort_key (\<lambda>x. - snd x) items)) msk"
  | (none) "find_combination_sum items target tol = []"
      "\<And>msk. 0 < msk \<Longrightarrow> msk < 2 ^ length (take 10 (sort_key (\<lambda>x. - snd x) items)) \<Longrightarrow>
         \<not> mask_hit target tol (take 10 (sort_key (\<lambda>x. - snd x) items)) msk"
proof -
  let ?s = "sort_key (\<lambda>x. - snd x) items"
  show thesis
  proof (cases "greedy_sum target tol 0 [] ?s")
    case (Some r)
    then show thesis using that(1) by (simp add: find_combination_sum_def)
  next
    case None
    show thesis
    proof (cases "List.find (mask_hit target tol (take 10 ?s)) [1..<2 ^ length (take 10 ?s)]")
      case None2: None
      have "find_combination_sum items target tol = []"
        using None None2 by (simp add: find_combination_sum_def Let_def)
      then show thesis
        using None2 by (intro that(3)) (auto simp: find_None_iff)
    next
      case (Some m)
      with None show thesis
        by (intro that(2) [of m]) (auto simp: find_combination_sum_def Let_def dest: find_SomeD)
    qed
  qed
qed

lemma find_combination_within:
  assumes "find_combination_sum items target tol \<noteq> []"
  shows "\<bar>item_sum (find_combination_sum items target tol) - target\<bar> \<le> tol"
proof (cases rule: find_combination_cases [of target tol items])
  case greedy
  then show ?thesis by (rule greedy_sum_sound)
next
  case (masked msk)
  then show ?thesis by (simp add: mask_hit_def)
next
  case none
  with assms show ?thesis by simp
qed

lemma find_combination_subset: "mset (find_combination_sum items target tol) \<subseteq># mset items"
proof (cases rule: find_combination_cases [of target tol items])
  case greedy
  then have "subseq (find_combination_sum items target tol) (sort_key (\<lambda>x. - snd x) items)"
    by (rule greedy_sum_sound)
  then show ?thesis
    by (metis mset_sort subseq_mset)
next
  case (masked msk)
  have "mset (mask_subset msk (take 10 (sort_key (\<lambda>x. - snd x) items)))
      \<subseteq># mset (take 10 (sort_key (\<lambda>x. - snd x) items))"
    by (rule subseq_mset [OF subseq_mask_subset])
  also have "\<dots> \<subseteq># mset (sort_key (\<lambda>x. - snd x) items)"
    by (intro subseq_mset prefix_imp_subseq take_is_prefix)
  also have "\<dots> = mset items" by simp
  finally show ?thesis using masked by simp
next
  case none
  then show ?thesis by simp
qed

lemma find_combination_distinct:
  assumes "distinct (map fst items)"
  shows "distinct (map fst (find_combination_sum items target tol))"
proof -
  have "mset (map fst (find_combination_sum items target tol)) \<subseteq># mset (map fst items)"
    using find_combination_subset [of items target tol] by (simp add: image_mset_subseteq_mono)
  then show ?thesis
    using assms by (rule distinct_submset)
qed

section \<open>Completeness\<close>

lemma mask_exists:
  fixes xs :: "'a list"
  obtains msk :: nat where "msk < 2 ^ length xs" "mask_subset msk xs = nths xs A"
proof -
  define msk where "msk = (horner_sum of_bool 2 (map (\<lambda>i. i \<in> A) [0..<length xs]) :: nat)"
  have bits: "bit msk i \<longleftrightarrow> i < length xs \<and> i \<in> A" for i
    by (auto simp: msk_def bit_horner_sum_bit_iff)
  have "nths xs {i. bit msk i} = nths xs A"
    unfolding nths_def
    by (intro arg_cong [where f = "map fst"] filter_cong refl) (auto simp: bits set_zip)
  moreover have "msk < 2 ^ length xs"
    using horner_sum_of_bool_2_less [of "map (\<lambda>i. i \<in> A) [0..<length xs]"]
    by (simp add: msk_def)
  ultimately show thesis
    using that by (simp add: mask_subset_nths)
qed

lemma find_combination_complete:
  assumes few: "length items \<le> 10"
    and sub: "mset ys \<subseteq># mset items" and two: "1 < length ys"
    and fits: "\<bar>item_sum ys - target\<bar> \<le> tol"
  shows "find_combination_sum items target tol \<noteq> []"
proof (cases rule: find_combination_cases [of target tol items])
  case greedy
  then show ?thesis by (rule greedy_sum_sound)
next
  case (masked msk)
  then show ?thesis by (auto simp: mask_hit_def)
next
  case none
  let ?s = "sort_key (\<lambda>x. - snd x) items"
  have s10: "take 10 ?s = ?s" using few by simp
  have "mset ys \<subseteq># mset ?s" using sub by simp
  then obtain zs where zs: "subseq zs ?s" "mset zs = mset ys"
    by (rule subset_mset_obtain_subseq)
  then obtain A where A: "zs = nths ?s A"
    by (auto simp: subseq_conv_nths)
  obtain msk where msk: "msk < 2 ^ length ?s" "mask_subset msk ?s = nths ?s A"
    by (rule mask_exists)
  have len: "length zs = length ys" using zs(2) by (rule mset_eq_length)
  have "item_sum zs = item_sum ys"
    using zs(2) by (metis item_sum_def mset_map sum_mset_sum_list)
  then have hit: "mask_hit target tol ?s msk"
    using msk A two fits len by (simp add: mask_hit_def)
  have "msk \<noteq> 0"
  proof
    assume "msk = 0"
    then have "mask_subset msk ?s = []" by (simp add: mask_subset_def)
    with msk A two len show False by simp
  qed
  with none(2) [of msk] msk(1) hit s10 show ?thesis by simp
qed

end
