(* ===== verification/SmartMatch.thy ===== *)
theory SmartMatch
  imports Domain CombinationSum
begin

text \<open>
  \<open>SmartMatcher.getGoalTransactions\<close> (\<open>src/services/reconciliation/SmartMatcher.ts\<close>):
  fund transactions are grouped into goal transactions, and five passes (manual codes,
  exact transaction id, amount in a date window, splits in both directions) pair them
  with bank transactions. Each pass reads and extends the list of matches and the two
  sets of claimed ids; the model threads them as a \<open>match_state\<close>.
\<close>

section \<open>Goal transactions: grouping the fund transactions\<close>

record fund_group =
  g_originalCode :: string
  g_ids :: "row_id list"
  g_total :: money
  g_date :: instant
  g_transactionId :: "string option"
  g_type :: transaction_type
  g_xummf :: money
  g_xubf :: money
  g_xudef :: money
  g_xuref :: money
  g_reviewTag :: "review_tag option"
  g_reviewNotes :: "string option"
  g_reviewedBy :: "string option"
  g_reviewedAt :: "instant option"

definition composite_key :: "string \<Rightarrow> transaction_type \<Rightarrow> string" where
  "composite_key code t = code @ ''|'' @ type_name t"

definition fund_key :: "fund_txn \<Rightarrow> string" where
  "fund_key ft = composite_key (f_goalTransactionCode ft) (f_transactionType ft)"

definition new_group :: "fund_txn \<Rightarrow> fund_group" where
  "new_group ft = \<lparr>g_originalCode = f_goalTransactionCode ft, g_ids = [], g_total = 0,
     g_date = f_transactionDate ft, g_transactionId = f_transactionId ft,
     g_type = f_transactionType ft, g_xummf = 0, g_xubf = 0, g_xudef = 0, g_xuref = 0,
     g_reviewTag = f_reviewTag ft, g_reviewNotes = f_reviewNotes ft,
     g_reviewedBy = f_reviewedBy ft, g_reviewedAt = f_reviewedAt ft\<rparr>"

definition add_fund_amount :: "string \<Rightarrow> money \<Rightarrow> fund_group \<Rightarrow> fund_group" where
  "add_fund_amount code amount g =
     (if code = ''XUMMF'' then g\<lparr>g_xummf := g_xummf g + amount\<rparr>
      else if code = ''XUBF'' then g\<lparr>g_xubf := g_xubf g + amount\<rparr>
      else if code = ''XUDEF'' then g\<lparr>g_xudef := g_xudef g + amount\<rparr>
      else if code = ''XUREF'' then g\<lparr>g_xuref := g_xuref g + amount\<rparr>
      else g)"

definition merge_review :: "fund_txn \<Rightarrow> fund_group \<Rightarrow> fund_group" where
  "merge_review ft g =
     g\<lparr>g_reviewTag := (if g_reviewTag g = None \<and> f_reviewTag ft \<noteq> None
                       then f_reviewTag ft else g_reviewTag g),
       g_reviewNotes := (if \<not> truthy_str (g_reviewNotes g) \<and> truthy_str (f_reviewNotes ft)
                         then f_reviewNotes ft else g_reviewNotes g),
       g_reviewedBy := (if \<not> truthy_str (g_reviewedBy g) \<and> truthy_str (f_reviewedBy ft)
                        then f_reviewedBy ft else g_reviewedBy g),
       g_reviewedAt := (if g_reviewedAt g = None \<and> f_reviewedAt ft \<noteq> None
                        then f_reviewedAt ft else g_reviewedAt g)\<rparr>"

definition add_to_group :: "fund_group \<Rightarrow> fund_txn \<Rightarrow> fund_group" where
  "add_to_group g ft =
     merge_review ft (add_fund_amount (f_fundCode ft) (f_amount ft)
       (g\<lparr>g_ids := g_ids g @ [f_id ft], g_total := g_total g + f_amount ft\<rparr>))"

definition goal_txn_by_code :: "fund_txn list \<Rightarrow> (string, fund_group) jsmap" where
  "goal_txn_by_code fts = accumulate fund_key new_group add_to_group fts"

abbreviation fund_groups :: "fund_txn list \<Rightarrow> fund_group list" where
  "fund_groups fts \<equiv> map snd (goal_txn_by_code fts)"

section \<open>Matches and the matching state\<close>

datatype match_type = EXACT | AMOUNT | SPLIT_BANK_TO_FUND | SPLIT_FUND_TO_BANK | MANUAL

record match_result =
  m_bankIds :: "row_id list"
  m_fundIds :: "row_id list"
  m_matchType :: match_type
  m_confidence :: rat
  m_bankTotal :: money
  m_fundTotal :: money

record match_state =
  ms_matches :: "match_result list"
  ms_banks :: "row_id set"
  ms_funds :: "row_id set"

definition init_state :: match_state where
  "init_state = \<lparr>ms_matches = [], ms_banks = {}, ms_funds = {}\<rparr>"

text \<open>Every pass records a match by the same three effects.\<close>

definition commit :: "match_result \<Rightarrow> match_state \<Rightarrow> match_state" where
  "commit m st = \<lparr>ms_matches = ms_matches st @ [m],
     ms_banks = ms_banks st \<union> set (m_bankIds m), ms_funds = ms_funds st \<union> set (m_fundIds m)\<rparr>"

definition group_free :: "match_state \<Rightarrow> fund_group \<Rightarrow> bool" where
  "group_free st g = (\<not> (\<exists>i \<in> set (g_ids g). i \<in> ms_funds st))"

definition bank_free :: "match_state \<Rightarrow> bank_txn \<Rightarrow> bool" where
  "bank_free st b = (b_id b \<notin> ms_banks st)"

definition match_tolerance :: "money \<Rightarrow> money" where
  "match_tolerance amt = max (amt * (1 / 100)) 1000"

definition amounts_within :: "money \<Rightarrow> money \<Rightarrow> bool" where
  "amounts_within bankAmount fundTotal = (\<bar>bankAmount - fundTotal\<bar> \<le> match_tolerance fundTotal)"

section \<open>The passes\<close>

subsection \<open>Pass 0: manual match codes\<close>

definition match_code :: "bank_txn \<Rightarrow> string" where
  "match_code b = (case b_matchedGoalTransactionCode b of None \<Rightarrow> '''' | Some c \<Rightarrow> c)"

definition has_manual_code :: "bank_txn \<Rightarrow> bool" where
  "has_manual_code b = (truthy_str (b_matchedGoalTransactionCode b) \<and> prefix ''MANUAL:'' (match_code b))"

definition manual_groups :: "bank_txn list \<Rightarrow> (string, bank_txn list) jsmap" where
  "manual_groups banks = group_by match_code (filter has_manual_code banks)"

definition manual_goal_codes :: "string \<Rightarrow> string list option" where
  "manual_goal_codes code =
     (case index_of_from CHR '':'' code 7 of
        None \<Rightarrow> None
      | Some i \<Rightarrow> Some (split_on CHR '','' (drop (Suc i) code)))"

definition collect_group :: "match_state \<Rightarrow> string \<Rightarrow> row_id list \<times> money \<Rightarrow> fund_group \<Rightarrow> row_id list \<times> money" where
  "collect_group st code acc g =
     (if g_originalCode g = code \<and> group_free st g
      then (fst acc @ g_ids g, snd acc + g_total g) else acc)"

definition collect_groups :: "match_state \<Rightarrow> fund_group list \<Rightarrow> string list \<Rightarrow> row_id list \<times> money" where
  "collect_groups st groups codes =
     foldl (\<lambda>acc code. foldl (collect_group st code) acc groups) ([], 0) codes"

definition pass0_step :: "fund_group list \<Rightarrow> match_state \<Rightarrow> string \<times> bank_txn list \<Rightarrow> match_state" where
  "pass0_step groups st entry =
     (let bankGroup = snd entry in
      if \<forall>b \<in> set bankGroup. \<not> bank_free st b then st
      else case manual_goal_codes (fst entry) of
        None \<Rightarrow> st
      | Some codes \<Rightarrow>
          (let found = collect_groups st groups codes;
               unmatched = filter (bank_free st) bankGroup
           in if fst found \<noteq> []
              then commit \<lparr>m_bankIds = map b_id unmatched, m_fundIds = fst found,
                     m_matchType = MANUAL, m_confidence = 1,
                     m_bankTotal = sum_list (map b_totalAmount unmatched),
                     m_fundTotal = snd found\<rparr> st
              else st))"

definition pass0 :: "bank_txn list \<Rightarrow> fund_group list \<Rightarrow> match_state \<Rightarrow> match_state" where
  "pass0 banks groups st = foldl (pass0_step groups) st (manual_groups banks)"

subsection \<open>Pass 1: same transaction id\<close>

definition exact_candidates :: "fund_group list \<Rightarrow> match_state \<Rightarrow> bank_txn \<Rightarrow> fund_group list" where
  "exact_candidates groups st b =
     filter (\<lambda>g. g_transactionId g = Some (b_transactionId b) \<and>
                 g_type g = b_transactionType b \<and> group_free st g) groups"

definition pass1_step :: "fund_group list \<Rightarrow> match_state \<Rightarrow> bank_txn \<Rightarrow> match_state" where
  "pass1_step groups st b =
     (if \<not> bank_free st b then st
      else case exact_candidates groups st b of
        [] \<Rightarrow> st
      | g # _ \<Rightarrow>
          (if amounts_within (b_totalAmount b) (g_total g)
           then commit \<lparr>m_bankIds = [b_id b], m_fundIds = g_ids g, m_matchType = EXACT,
                  m_confidence = 1, m_bankTotal = b_totalAmount b, m_fundTotal = g_total g\<rparr> st
           else st))"

definition pass1 :: "bank_txn list \<Rightarrow> fund_group list \<Rightarrow> match_state \<Rightarrow> match_state" where
  "pass1 banks groups st = foldl (pass1_step groups) st banks"

subsection \<open>Pass 2: amount within the date window\<close>

definition amount_eligible :: "bank_txn \<Rightarrow> fund_group \<Rightarrow> bool" where
  "amount_eligible b g =
     (g_type g = b_transactionType b \<and> days_between (b_transactionDate b) (g_date g) \<le> 30 \<and>
      amounts_within (b_totalAmount b) (g_total g))"

definition amount_confidence :: "bank_txn \<Rightarrow> fund_group \<Rightarrow> rat" where
  "amount_confidence b g = 8 / 10 - days_between (b_transactionDate b) (g_date g) / 30 * (3 / 10)"

definition pass2_step :: "fund_group list \<Rightarrow> match_state \<Rightarrow> bank_txn \<Rightarrow> match_state" where
  "pass2_step groups st b =
     (if \<not> bank_free st b then st
      else case List.find (\<lambda>g. group_free st g \<and> amount_eligible b g) groups of
        None \<Rightarrow> st
      | Some g \<Rightarrow> commit \<lparr>m_bankIds = [b_id b], m_fundIds = g_ids g, m_matchType = AMOUNT,
            m_confidence = amount_confidence b g,
            m_bankTotal = b_totalAmount b, m_fundTotal = g_total g\<rparr> st)"

definition pass2 :: "bank_txn list \<Rightarrow> fund_group list \<Rightarrow> match_state \<Rightarrow> match_state" where
  "pass2 banks groups st =
     foldl (pass2_step (filter (group_free st) groups)) st (filter (bank_free st) banks)"

subsection \<open>Pass 3: several bank transactions, one goal transaction\<close>

definition day_type :: "bank_txn \<Rightarrow> int \<times> transaction_type" where
  "day_type b = (iso_day (b_transactionDate b), b_transactionType b)"

definition split_candidates ::
    "(int \<times> transaction_type, bank_txn list) jsmap \<Rightarrow> match_state \<Rightarrow> fund_group \<Rightarrow> bank_txn list" where
  "split_candidates byDayType st g =
     filter (bank_free st)
       (case map_get byDayType (iso_day (g_date g), g_type g) of None \<Rightarrow> [] | Some bs \<Rightarrow> bs)"

definition pass3_step ::
    "(int \<times> transaction_type, bank_txn list) jsmap \<Rightarrow> match_state \<Rightarrow> fund_group \<Rightarrow> match_state" where
  "pass3_step byDayType st g =
     (if \<not> group_free st g then st
      else let comb = find_combination_sum
                 (map (\<lambda>b. (b_id b, b_totalAmount b)) (split_candidates byDayType st g))
                 (g_total g) (match_tolerance (g_total g))
           in if length comb > 1
              then commit \<lparr>m_bankIds = map fst comb, m_fundIds = g_ids g,
                     m_matchType = SPLIT_BANK_TO_FUND, m_confidence = 7 / 10,
                     m_bankTotal = item_sum comb, m_fundTotal = g_total g\<rparr> st
              else st)"

definition pass3 :: "bank_txn list \<Rightarrow> fund_group list \<Rightarrow> match_state \<Rightarrow> match_state" where
  "pass3 banks groups st =
     foldl (pass3_step (group_by day_type (filter (bank_free st) banks))) st
       (filter (group_free st) groups)"

subsection \<open>Pass 3b: several goal transactions, one bank transaction\<close>

definition same_day_groups :: "fund_group list \<Rightarrow> match_state \<Rightarrow> bank_txn \<Rightarrow> fund_group list" where
  "same_day_groups groups st b =
     filter (\<lambda>g. group_free st g \<and> g_type g = b_transactionType b \<and>
                 iso_day (g_date g) = iso_day (b_transactionDate b)) groups"

definition pass3b_step :: "fund_group list \<Rightarrow> match_state \<Rightarrow> bank_txn \<Rightarrow> match_state" where
  "pass3b_step groups st b =
     (if \<not> bank_free st b then st
      else let cands = same_day_groups groups st b;
               comb = find_combination_sum (map (\<lambda>(i, g). (i, g_total g)) (enumerate 0 cands))
                 (b_totalAmount b) (match_tolerance (b_totalAmount b))
           in if length comb > 1
              then commit \<lparr>m_bankIds = [b_id b],
                     m_fundIds = concat (map (\<lambda>c. g_ids (cands ! fst c)) comb),
                     m_matchType = SPLIT_FUND_TO_BANK, m_confidence = 7 / 10,
                     m_bankTotal = b_totalAmount b, m_fundTotal = item_sum comb\<rparr> st
              else st)"

definition pass3b :: "bank_txn list \<Rightarrow> fund_group list \<Rightarrow> match_state \<Rightarrow> match_state" where
  "pass3b banks groups st =
     foldl (pass3b_step (filter (group_free st) groups)) st (filter (bank_free st) banks)"

definition smart_match :: "bank_txn list \<Rightarrow> fund_group list \<Rightarrow> match_state" where
  "smart_match banks groups =
     pass3b banks groups (pass3 banks groups (pass2 banks groups
       (pass1 banks groups (pass0 banks groups init_state))))"

end
