(* ===== verification/SmartMatchInv.thy ===== *)
theory SmartMatchInv
  imports SmartMatch
begin

text \<open>
  The contract of the matching passes. \<open>justified\<close> says, per kind of match, which
  conditions of the code a recorded match satisfies; \<open>match_inv\<close> that no bank or fund
  transaction is claimed twice and that every match is justified. Every pass is an
  instance of the locale \<open>matching_pass\<close>: its step keeps the invariant and only adds
  claims, so its loop does.
\<close>

section \<open>Well-formed input\<close>

definition wf_manual :: "bank_txn list \<Rightarrow> bool" where
  "wf_manual banks = (\<forall>b \<in> set banks. has_manual_code b \<longrightarrow>
     (case manual_goal_codes (match_code b) of None \<Rightarrow> True | Some codes \<Rightarrow> distinct codes))"

definition wf_groups :: "fund_group list \<Rightarrow> bool" where
  "wf_groups groups = (distinct (concat (map g_ids groups)) \<and> (\<forall>g \<in> set groups. g_ids g \<noteq> []))"

definition wf_input :: "bank_txn list \<Rightarrow> fund_group list \<Rightarrow> bool" where
  "wf_input banks groups = (distinct (map b_id banks) \<and> wf_groups groups \<and> wf_manual banks)"

section \<open>The tolerance\<close>

interpretation match_tol: tolerance_policy match_tolerance 1000
  by unfold_locales (simp_all add: match_tolerance_def)

section \<open>Justified matches\<close>

inductive justified :: "bank_txn list \<Rightarrow> fund_group list \<Rightarrow> match_result \<Rightarrow> bool"
  for banks :: "bank_txn list" and groups :: "fund_group list" where
  by_manual_code:
    "set bs \<subseteq> set banks \<Longrightarrow> bs \<noteq> [] \<Longrightarrow> set gs \<subseteq> set groups \<Longrightarrow> gs \<noteq> [] \<Longrightarrow>
     manual_goal_codes code = Some codes \<Longrightarrow>
     \<forall>b \<in> set bs. has_manual_code b \<and> match_code b = code \<Longrightarrow>
     \<forall>g \<in> set gs. g_originalCode g \<in> set codes \<Longrightarrow>
     justified banks groups \<lparr>m_bankIds = map b_id bs, m_fundIds = concat (map g_ids gs),
       m_matchType = MANUAL, m_confidence = 1,
       m_bankTotal = sum_list (map b_totalAmount bs), m_fundTotal = sum_list (map g_total gs)\<rparr>"
| by_transaction_id:
    "b \<in> set banks \<Longrightarrow> g \<in> set groups \<Longrightarrow> g_transactionId g = Some (b_transactionId b) \<Longrightarrow>
     g_type g = b_transactionType b \<Longrightarrow> amounts_within (b_totalAmount b) (g_total g) \<Longrightarrow>
     justified banks groups \<lparr>m_bankIds = [b_id b], m_fundIds = g_ids g, m_matchType = EXACT,
       m_confidence = 1, m_bankTotal = b_totalAmount b, m_fundTotal = g_total g\<rparr>"
| by_amount:
    "b \<in> set banks \<Longrightarrow> g \<in> set groups \<Longrightarrow> amount_eligible b g \<Longrightarrow>
     justified banks groups \<lparr>m_bankIds = [b_id b], m_fundIds = g_ids g, m_matchType = AMOUNT,
       m_confidence = amount_confidence b g,
       m_bankTotal = b_totalAmount b, m_fundTotal = g_total g\<rparr>"
| by_bank_split:
    "set bs \<subseteq> set banks \<Longrightarrow> 1 < length bs \<Longrightarrow> g \<in> set groups \<Longrightarrow>
     \<forall>b \<in> set bs. day_type b = (iso_day (g_date g), g_type g) \<Longrightarrow>
     amounts_within (sum_list (map b_totalAmount bs)) (g_total g) \<Longrightarrow>
     justified banks groups \<lparr>m_bankIds = map b_id bs, m_fundIds = g_ids g,
       m_matchType = SPLIT_BANK_TO_FUND, m_confidence = 7 / 10,
       m_bankTotal = sum_list (map b_totalAmount bs), m_fundTotal = g_total g\<rparr>"
| by_fund_split:
    "b \<in> set banks \<Longrightarrow> set gs \<subseteq> set groups \<Longrightarrow> 1 < length gs \<Longrightarrow>
     \<forall>g \<in> set gs. day_type b = (iso_day (g_date g), g_type g) \<Longrightarrow>
     \<bar>sum_list (map g_total gs) - b_totalAmount b\<bar> \<le> match_tolerance (b_totalAmount b) \<Longrightarrow>
     justified banks groups \<lparr>m_bankIds = [b_id b], m_fundIds = concat (map g_ids gs),
       m_matchType = SPLIT_FUND_TO_BANK, m_confidence = 7 / 10,
       m_bankTotal = b_totalAmount b, m_fundTotal = sum_list (map g_total gs)\<rparr>"

lemma justified_banks: "justified banks groups m \<Longrightarrow> set (m_bankIds m) \<subseteq> b_id ` set banks"
  by (induction rule: justified.induct) auto

lemma justified_funds: "justified banks groups m \<Longrightarrow> set (m_fundIds m) \<subseteq> set (concat (map g_ids groups))"
  by (induction rule: justified.induct) auto

section \<open>The invariant and the claim order\<close>

definition match_inv :: "bank_txn list \<Rightarrow> fund_group list \<Rightarrow> match_state \<Rightarrow> bool" where
  "match_inv banks groups st =
     (distinct (concat (map m_bankIds (ms_matches st))) \<and>
      distinct (concat (map m_fundIds (ms_matches st))) \<and>
      ms_banks st = set (concat (map m_bankIds (ms_matches st))) \<and>
      ms_funds st = set (concat (map m_fundIds (ms_matches st))) \<and>
      (\<forall>m \<in> set (ms_matches st). justified banks groups m))"

definition grows :: "match_state \<Rightarrow> match_state \<Rightarrow> bool" where
  "grows st st' = (prefix (ms_matches st) (ms_matches st') \<and>
     ms_banks st \<subseteq> ms_banks st' \<and> ms_funds st \<subseteq> ms_funds st')"

lemma grows_refl [simp, intro]: "grows st st"
  by (simp add: grows_def)

lemma grows_trans [trans]: "grows a b \<Longrightarrow> grows b c \<Longrightarrow> grows a c"
  by (auto simp: grows_def intro: prefix_order.trans)

lemma grows_commit [simp, intro]: "grows st (commit m st)"
  by (auto simp: grows_def commit_def)

lemma bank_free_antimono: "grows st st' \<Longrightarrow> bank_free st' b \<Longrightarrow> bank_free st b"
  by (auto simp: grows_def bank_free_def)

lemma group_free_antimono: "grows st st' \<Longrightarrow> group_free st' g \<Longrightarrow> group_free st g"
  by (auto simp: grows_def group_free_def)

lemma match_inv_init: "match_inv banks groups init_state"
  by (simp add: match_inv_def init_state_def)

lemma match_inv_commit [claim_intros]:
  assumes "match_inv banks groups st" and "justified banks groups m"
    and "distinct (m_bankIds m)" and "set (m_bankIds m) \<inter> ms_banks st = {}"
    and "distinct (m_fundIds m)" and "set (m_fundIds m) \<inter> ms_funds st = {}"
  shows "match_inv banks groups (commit m st)"
  using assms by (auto simp: match_inv_def commit_def)

lemma disjoint_if_free: "group_free st g \<Longrightarrow> set (g_ids g) \<inter> ms_funds st = {}"
  by (auto simp: group_free_def)

lemma commit_claims_bank: "i \<in> set (m_bankIds m) \<Longrightarrow> i \<in> ms_banks (commit m st)"
  by (simp add: commit_def)

lemma commit_claims_group: "g_ids g \<noteq> [] \<Longrightarrow> set (g_ids g) \<subseteq> set (m_fundIds m) \<Longrightarrow> \<not> group_free (commit m st) g"
  by (cases "g_ids g") (auto simp: commit_def group_free_def)

lemma wf_groups_distinct_ids: "wf_groups groups \<Longrightarrow> g \<in> set groups \<Longrightarrow> distinct (g_ids g)"
  by (auto simp: wf_groups_def distinct_concat_iff)

text \<open>Sub-collections of groups have disjoint ids.\<close>

lemma wf_groups_submset:
  assumes "wf_groups groups" and "mset gs \<subseteq># mset groups"
  shows "distinct (concat (map g_ids gs))"
proof -
  obtain zs where zs: "subseq zs groups" "mset zs = mset gs"
    using assms(2) by (rule subset_mset_obtain_subseq)
  have "subseq (concat (map g_ids zs)) (concat (map g_ids groups))"
    using zs(1) by (induction rule: list_emb.induct) (auto intro: list_emb_append_mono)
  then have "distinct (concat (map g_ids zs))"
    using assms(1) unfolding wf_groups_def by (meson distinct_submset subseq_mset)
  moreover have "mset (concat (map g_ids zs)) = mset (concat (map g_ids gs))"
    using zs(2) by (metis mset_concat mset_map sum_mset_sum_list)
  ultimately show ?thesis
    by (rule mset_eq_imp_distinct_iff [THEN iffD1, rotated])
qed

section \<open>The interface of a pass\<close>

locale matching_pass =
  fixes step :: "match_state \<Rightarrow> 'x \<Rightarrow> match_state"
    and admissible :: "bank_txn list \<Rightarrow> fund_group list \<Rightarrow> 'x \<Rightarrow> bool"
  assumes step_inv: "wf_input banks groups \<Longrightarrow> match_inv banks groups st \<Longrightarrow>
      admissible banks groups x \<Longrightarrow> match_inv banks groups (step st x)"
    and step_grows: "grows st (step st x)"
begin

lemma run_inv:
  "wf_input banks groups \<Longrightarrow> match_inv banks groups st \<Longrightarrow>
   \<forall>x \<in> set xs. admissible banks groups x \<Longrightarrow> match_inv banks groups (foldl step st xs)"
  by (induction xs arbitrary: st) (auto intro: step_inv)

lemma run_grows: "grows st (foldl step st xs)"
  by (induction xs arbitrary: st) (auto intro: grows_trans step_grows)

text \<open>Every element is processed in a state between the start and the end of the loop.\<close>

lemma element_processed:
  assumes "x \<in> set xs"
  obtains s where "grows st s" "grows (step s x) (foldl step st xs)"
proof -
  obtain us vs where "xs = us @ x # vs"
    using assms by (auto dest: split_list)
  then have "foldl step st xs = foldl step (step (foldl step st us) x) vs"
    by simp
  then show thesis
    using that [of "foldl step st us"] by (metis run_grows)
qed

end

end
