(* ===== verification/SmartMatchPasses.thy ===== *)
theory SmartMatchPasses
  imports SmartMatchInv
begin

text \<open>
  The five passes of \<open>SmartMatcher.getGoalTransactions\<close> as instances of the interface
  \<open>matching_pass\<close>, and what each pass leaves behind.
\<close>

section \<open>Pass 0\<close>

definition manual_hits :: "match_state \<Rightarrow> fund_group list \<Rightarrow> string list \<Rightarrow> fund_group list" where
  "manual_hits st groups codes =
     concat (map (\<lambda>code. filter (\<lambda>g. g_originalCode g = code \<and> group_free st g) groups) codes)"

lemma collect_group_fold:
  "foldl (collect_group st code) acc groups =
     (fst acc @ concat (map g_ids (filter (\<lambda>g. g_originalCode g = code \<and> group_free st g) groups)),
      snd acc + sum_list (map g_total (filter (\<lambda>g. g_originalCode g = code \<and> group_free st g) groups)))"
  by (induction groups arbitrary: acc) (auto simp: collect_group_def)

lemma collect_groups_eq:
  "collect_groups st groups codes =
     (concat (map g_ids (manual_hits st groups codes)), sum_list (map g_total (manual_hits st groups codes)))"
proof -
  have "foldl (\<lambda>acc code. foldl (collect_group st code) acc groups) acc codes =
      (fst acc @ concat (map g_ids (manual_hits st groups codes)),
       snd acc + sum_list (map g_total (manual_hits st groups codes)))" for acc
    by (induction codes arbitrary: acc) (auto simp: manual_hits_def collect_group_fold)
  from this [of "([], 0)"] show ?thesis
    by (simp add: collect_groups_def)
qed

lemma manual_hits_submset:
  assumes "distinct codes"
  shows "mset (manual_hits st groups codes) \<subseteq># mset groups"
proof -
  let ?xs = "filter (\<lambda>g. g_originalCode g \<in> set codes \<and> group_free st g) groups"
  have "map (\<lambda>code. filter (\<lambda>g. g_originalCode g = code \<and> group_free st g) groups) codes
      = map (\<lambda>code. filter (\<lambda>g. g_originalCode g = code) ?xs) codes"
    by (auto intro!: filter_cong)
  then have "mset (manual_hits st groups codes) = mset ?xs"
    unfolding manual_hits_def
    by (simp only:) (rule mset_concat_partition [OF assms], auto)
  then show ?thesis by simp
qed

lemma manual_hits_free: "g \<in> set (manual_hits st groups codes) \<Longrightarrow>
    g \<in> set groups \<and> group_free st g \<and> g_originalCode g \<in> set codes"
  by (auto simp: manual_hits_def)

definition manual_admissible :: "bank_txn list \<Rightarrow> fund_group list \<Rightarrow> string \<times> bank_txn list \<Rightarrow> bool" where
  "manual_admissible banks groups entry =
     (set (snd entry) \<subseteq> set banks \<and> distinct (map b_id (snd entry)) \<and>
      (\<forall>b \<in> set (snd entry). has_manual_code b \<and> match_code b = fst entry))"

lemma manual_codes_distinct:
  assumes "wf_manual banks" "manual_admissible banks groups entry" "snd entry \<noteq> []"
    "manual_goal_codes (fst entry) = Some codes"
  shows "distinct codes"
proof -
  obtain b where "b \<in> set (snd entry)" using assms(3) by (cases "snd entry") auto
  then have "b \<in> set banks" "has_manual_code b" "match_code b = fst entry"
    using assms(2) by (auto simp: manual_admissible_def)
  then show ?thesis
    using assms(1,4) by (fastforce simp: wf_manual_def)
qed

interpretation p0: matching_pass "pass0_step groups"
  "\<lambda>banks groups' entry. groups' = groups \<and> manual_admissible banks groups entry" for groups
proof (unfold_locales, goal_cases)
  case (1 banks groups' st entry)
  let ?un = "filter (bank_free st) (snd entry)"
  from 1 have wf: "wf_groups groups" "wf_manual banks" and adm: "manual_admissible banks groups entry"
    and inv: "match_inv banks groups st"
    by (auto simp: wf_input_def)
  show ?case
  proof (cases "?un = [] \<or> manual_goal_codes (fst entry) = None")
    case True
    then show ?thesis
      using 1 by (auto simp: pass0_step_def Let_def filter_empty_conv)
  next
    case False
    then obtain codes where codes: "manual_goal_codes (fst entry) = Some codes" by auto
    let ?hits = "manual_hits st groups codes"
    from False obtain b where b: "b \<in> set (snd entry)" "bank_free st b"
      by (auto simp: filter_empty_conv)
    then have nonempty: "snd entry \<noteq> []" by auto
    have sub: "mset ?hits \<subseteq># mset groups"
      using manual_codes_distinct [OF wf(2) adm nonempty codes] by (rule manual_hits_submset)
    let ?m = "\<lparr>m_bankIds = map b_id ?un, m_fundIds = concat (map g_ids ?hits),
        m_matchType = MANUAL, m_confidence = 1, m_bankTotal = sum_list (map b_totalAmount ?un),
        m_fundTotal = sum_list (map g_total ?hits)\<rparr>"
    have "match_inv banks groups (commit ?m st)" if "concat (map g_ids ?hits) \<noteq> []"
    proof (rule match_inv_commit [OF inv])
      show "justified banks groups ?m"
        by (rule by_manual_code [OF _ _ _ _ codes])
          (use adm False that in \<open>auto simp: manual_admissible_def dest: manual_hits_free\<close>)
      show "distinct (m_bankIds ?m)"
        using adm by (auto simp: manual_admissible_def distinct_map_filter)
      show "set (m_bankIds ?m) \<inter> ms_banks st = {}"
        by (auto simp: bank_free_def)
      show "distinct (m_fundIds ?m)"
        using wf_groups_submset [OF wf(1) sub] by simp
      show "set (m_fundIds ?m) \<inter> ms_funds st = {}"
        using manual_hits_free disjoint_if_free by fastforce
    qed
    moreover have "pass0_step groups st entry =
        (if concat (map g_ids ?hits) \<noteq> [] then commit ?m st else st)"
      using b codes by (auto simp: pass0_step_def Let_def collect_groups_eq)
    ultimately show ?thesis using 1 by auto
  qed
next
  case (2 st entry)
  show ?case
    by (auto simp: pass0_step_def Let_def split: option.splits)
qed

lemma manual_groups_admissible:
  assumes "distinct (map b_id banks)" "entry \<in> set (manual_groups banks)"
  shows "manual_admissible banks groups entry"
proof -
  obtain code bs where e: "entry = (code, bs)" by force
  have "bs = filter (\<lambda>b. match_code b = code) (filter has_manual_code banks)"
    using assms(2) e entry_group_by unfolding manual_groups_def by fastforce
  then show ?thesis
    using assms(1) e by (auto simp: manual_admissible_def distinct_map_filter)
qed

section \<open>Pass 1\<close>

interpretation p1: matching_pass "pass1_step groups"
  "\<lambda>banks groups' b. groups' = groups \<and> b \<in> set banks" for groups
proof (unfold_locales, goal_cases)
  case (1 banks groups' st b)
  then have wf: "wf_groups groups" and inv: "match_inv banks groups st" and b: "b \<in> set banks"
    by (auto simp: wf_input_def)
  show ?case
  proof (cases "bank_free st b \<and> exact_candidates groups st b \<noteq> []")
    case True
    then obtain g gs where cands: "exact_candidates groups st b = g # gs" by (cases "exact_candidates groups st b") auto
    then have "g \<in> set (exact_candidates groups st b)" by simp
    then have g: "g \<in> set groups" "g_transactionId g = Some (b_transactionId b)"
      "g_type g = b_transactionType b" "group_free st g"
      by (auto simp: exact_candidates_def)
    let ?m = "\<lparr>m_bankIds = [b_id b], m_fundIds = g_ids g, m_matchType = EXACT,
        m_confidence = 1, m_bankTotal = b_totalAmount b, m_fundTotal = g_total g\<rparr>"
    have "match_inv banks groups (commit ?m st)" if "amounts_within (b_totalAmount b) (g_total g)"
      by (rule match_inv_commit [OF inv by_transaction_id [OF b g(1-3) that]])
        (use True g wf wf_groups_distinct_ids disjoint_if_free in \<open>auto simp: bank_free_def\<close>)
    then show ?thesis
      using 1 True cands by (simp add: pass1_step_def)
  next
    case False
    then show ?thesis using 1 by (auto simp: pass1_step_def)
  qed
next
  case (2 st b)
  show ?case by (auto simp: pass1_step_def split: list.splits)
qed

section \<open>Pass 2\<close>

interpretation p2: matching_pass "pass2_step gs"
  "\<lambda>banks groups b. set gs \<subseteq> set groups \<and> b \<in> set banks" for gs
proof (unfold_locales, goal_cases)
  case (1 banks groups st b)
  then have wf: "wf_groups groups" and inv: "match_inv banks groups st" and b: "b \<in> set banks"
    by (auto simp: wf_input_def)
  show ?case
  proof (cases "bank_free st b")
    case free: True
    show ?thesis
    proof (cases "List.find (\<lambda>g. group_free st g \<and> amount_eligible b g) gs")
      case None
      with 1 show ?thesis by (simp add: pass2_step_def)
    next
      case (Some g)
      then have g: "group_free st g" "amount_eligible b g" "g \<in> set groups"
        using 1 by (auto dest: find_SomeD)
      show ?thesis
        using free Some wf g disjoint_if_free [OF g(1)]
        by (auto simp: pass2_step_def bank_free_def wf_groups_distinct_ids
            intro!: match_inv_commit [OF inv by_amount [OF b g(3,2)]])
    qed
  next
    case False
    with 1 show ?thesis by (simp add: pass2_step_def)
  qed
next
  case (2 st b)
  show ?case by (auto simp: pass2_step_def split: option.splits)
qed

text \<open>A bank transaction that is still free after its turn had no eligible free group.\<close>

lemma pass2_step_maximal:
  assumes "bank_free (pass2_step gs st b) b" "g \<in> set gs" "group_free st g"
  shows "\<not> amount_eligible b g"
proof (cases "List.find (\<lambda>g. group_free st g \<and> amount_eligible b g) gs")
  case None
  then show ?thesis using assms(2,3) by (auto simp: find_None_iff)
next
  case (Some g')
  then have "bank_free st b \<Longrightarrow> \<not> bank_free (pass2_step gs st b) b"
    by (simp add: pass2_step_def bank_free_def commit_claims_bank)
  moreover have "bank_free st b"
    using assms(1) p2.step_grows bank_free_antimono by blast
  ultimately show ?thesis using assms(1) by simp
qed

lemma pass2_maximal:
  assumes b: "b \<in> set banks" "bank_free (pass2 banks groups st) b"
    and g: "g \<in> set groups" "group_free (pass2 banks groups st) g"
  shows "\<not> amount_eligible b g"
proof -
  let ?gs = "filter (group_free st) groups" and ?bs = "filter (bank_free st) banks"
  have grow: "grows st (pass2 banks groups st)"
    unfolding pass2_def by (rule p2.run_grows)
  have "b \<in> set ?bs" "g \<in> set ?gs"
    using assms grow bank_free_antimono group_free_antimono by auto
  then obtain s where s: "grows st s" "grows (pass2_step ?gs s b) (pass2 banks groups st)"
    unfolding pass2_def by (metis p2.element_processed)
  show ?thesis
  proof (rule pass2_step_maximal)
    show "bank_free (pass2_step ?gs s b) b"
      using s(2) b(2) by (rule bank_free_antimono)
    show "g \<in> set ?gs" by fact
    show "group_free s g"
      using g(2) s(2) p2.step_grows by (meson group_free_antimono)
  qed
qed

section \<open>Pass 3\<close>

definition split_admissible ::
    "(int \<times> transaction_type, bank_txn list) jsmap \<Rightarrow> bank_txn list \<Rightarrow> bool" where
  "split_admissible byDayType banks =
     (\<forall>k bs. map_get byDayType k = Some bs \<longrightarrow>
        set bs \<subseteq> set banks \<and> distinct (map b_id bs) \<and> (\<forall>b \<in> set bs. day_type b = k))"

lemma group_by_split_admissible:
  "distinct (map b_id banks) \<Longrightarrow> split_admissible (group_by day_type (filter P banks)) banks"
  by (auto simp: split_admissible_def map_get_group_by distinct_map_filter split: if_splits)

lemma split_candidates_props:
  assumes "split_admissible byDayType banks"
  shows "set (split_candidates byDayType st g) \<subseteq> set banks"
    and "distinct (map b_id (split_candidates byDayType st g))"
    and "b \<in> set (split_candidates byDayType st g) \<Longrightarrow>
      bank_free st b \<and> day_type b = (iso_day (g_date g), g_type g)"
  using assms unfolding split_candidates_def split_admissible_def
  by (cases "map_get byDayType (iso_day (g_date g), g_type g)"; simp add: distinct_map_filter; blast)+

lemma item_sum_map: "item_sum (map (\<lambda>x. (f x, h x)) xs) = sum_list (map h xs)"
  by (simp add: item_sum_def comp_def)

text \<open>The combination found in pass 3 is a collection of candidate bank transactions.\<close>

lemma split_combination:
  obtains bs where
    "find_combination_sum (map (\<lambda>b. (b_id b, b_totalAmount b)) cands) t tol
       = map (\<lambda>b. (b_id b, b_totalAmount b)) bs" "mset bs \<subseteq># mset cands"
proof -
  obtain bs where "map (\<lambda>b. (b_id b, b_totalAmount b)) bs
      = find_combination_sum (map (\<lambda>b. (b_id b, b_totalAmount b)) cands) t tol" "mset bs \<subseteq># mset cands"
    by (rule submset_map_obtain [OF find_combination_subset])
  then show thesis by (intro that) simp_all
qed

interpretation p3: matching_pass "pass3_step byDayType"
  "\<lambda>banks groups g. split_admissible byDayType banks \<and> g \<in> set groups" for byDayType
proof (unfold_locales, goal_cases)
  case (1 banks groups st g)
  then have wf: "wf_groups groups" and inv: "match_inv banks groups st" and g: "g \<in> set groups"
    and adm: "split_admissible byDayType banks"
    by (auto simp: wf_input_def)
  let ?cands = "split_candidates byDayType st g"
  let ?comb = "find_combination_sum (map (\<lambda>b. (b_id b, b_totalAmount b)) ?cands)
      (g_total g) (match_tolerance (g_total g))"
  obtain bs where bs: "?comb = map (\<lambda>b. (b_id b, b_totalAmount b)) bs" "mset bs \<subseteq># mset ?cands"
    by (rule split_combination)
  have sub: "set bs \<subseteq> set ?cands"
    using bs(2) by (metis set_mset_mono set_mset_mset)
  show ?case
  proof (cases "group_free st g \<and> 1 < length bs")
    case True
    let ?m = "\<lparr>m_bankIds = map b_id bs, m_fundIds = g_ids g, m_matchType = SPLIT_BANK_TO_FUND,
        m_confidence = 7 / 10, m_bankTotal = sum_list (map b_totalAmount bs), m_fundTotal = g_total g\<rparr>"
    have "?comb \<noteq> []" using bs(1) True by auto
    then have within: "amounts_within (sum_list (map b_totalAmount bs)) (g_total g)"
      using find_combination_within [of "map (\<lambda>b. (b_id b, b_totalAmount b)) ?cands"
          "g_total g" "match_tolerance (g_total g)"] bs(1)
      by (simp add: amounts_within_def item_sum_map)
    have "match_inv banks groups (commit ?m st)"
    proof (rule match_inv_commit [OF inv])
      show "justified banks groups ?m"
        by (rule by_bank_split) (use True g within sub split_candidates_props [OF adm] in auto)
      have "mset (map b_id bs) \<subseteq># mset (map b_id ?cands)"
        using bs(2) by (simp add: image_mset_subseteq_mono)
      then show "distinct (m_bankIds ?m)"
        using distinct_submset split_candidates_props(2) [OF adm] by fastforce
      show "set (m_bankIds ?m) \<inter> ms_banks st = {}"
        using sub split_candidates_props(3) [OF adm] by (fastforce simp: bank_free_def)
      show "distinct (m_fundIds ?m)"
        using wf g by (simp add: wf_groups_distinct_ids)
      show "set (m_fundIds ?m) \<inter> ms_funds st = {}"
        using True disjoint_if_free by simp
    qed
    then show ?thesis
      using True bs(1) by (simp add: pass3_step_def Let_def item_sum_map comp_def)
  next
    case False
    then show ?thesis
      using inv bs(1) by (auto simp: pass3_step_def Let_def)
  qed
next
  case (2 st g)
  show ?case by (auto simp: pass3_step_def Let_def)
qed

section \<open>Pass 3b\<close>

lemma enumerate_combination:
  obtains gs where
    "mset gs \<subseteq># mset cands"
    "length (find_combination_sum (map (\<lambda>(i, g). (i, g_total g)) (enumerate 0 cands)) t tol) = length gs"
    "item_sum (find_combination_sum (map (\<lambda>(i, g). (i, g_total g)) (enumerate 0 cands)) t tol)
       = sum_list (map g_total gs)"
    "concat (map (\<lambda>c. g_ids (cands ! fst c))
       (find_combination_sum (map (\<lambda>(i, g). (i, g_total g)) (enumerate 0 cands)) t tol))
       = concat (map g_ids gs)"
proof -
  let ?comb = "find_combination_sum (map (\<lambda>(i, g). (i, g_total g)) (enumerate 0 cands)) t tol"
  obtain zs where zs: "map (\<lambda>(i, g). (i, g_total g)) zs = ?comb" "mset zs \<subseteq># mset (enumerate 0 cands)"
    by (rule submset_map_obtain [OF find_combination_subset])
  have at: "cands ! fst z = snd z" if "z \<in> set zs" for z
  proof -
    have "z \<in> set (enumerate 0 cands)"
      using that zs(2) by (metis mset_subset_eqD set_mset_mset)
    then show ?thesis by (simp add: in_set_enumerate_eq)
  qed
  have "mset (map snd zs) \<subseteq># mset (map snd (enumerate 0 cands))"
    using zs(2) by (simp add: image_mset_subseteq_mono del: map_snd_enumerate)
  then have "mset (map snd zs) \<subseteq># mset cands" by simp
  moreover have "length ?comb = length (map snd zs)"
    by (simp flip: zs(1))
  moreover have "item_sum ?comb = sum_list (map g_total (map snd zs))"
    by (simp add: item_sum_def comp_def case_prod_beta flip: zs(1))
  moreover have "concat (map (\<lambda>c. g_ids (cands ! fst c)) ?comb) = concat (map g_ids (map snd zs))"
    using at by (auto simp: comp_def case_prod_beta intro!: arg_cong [where f = concat] simp flip: zs(1))
  ultimately show thesis by (rule that)
qed

interpretation p3b: matching_pass "pass3b_step gs0"
  "\<lambda>banks groups b. mset gs0 \<subseteq># mset groups \<and> b \<in> set banks" for gs0
proof (unfold_locales, goal_cases)
  case (1 banks groups st b)
  then have wf: "wf_groups groups" and inv: "match_inv banks groups st" and b: "b \<in> set banks"
    and gs0: "mset gs0 \<subseteq># mset groups"
    by (auto simp: wf_input_def)
  let ?cands = "same_day_groups gs0 st b"
  let ?comb = "find_combination_sum (map (\<lambda>(i, g). (i, g_total g)) (enumerate 0 ?cands))
      (b_totalAmount b) (match_tolerance (b_totalAmount b))"
  obtain gs where gs: "mset gs \<subseteq># mset ?cands" "length ?comb = length gs"
    "item_sum ?comb = sum_list (map g_total gs)"
    "concat (map (\<lambda>c. g_ids (?cands ! fst c)) ?comb) = concat (map g_ids gs)"
    by (rule enumerate_combination)
  have "set gs \<subseteq> set ?cands"
    using gs(1) by (metis set_mset_mono set_mset_mset)
  then have props: "g \<in> set groups \<and> group_free st g \<and> day_type b = (iso_day (g_date g), g_type g)"
    if "g \<in> set gs" for g
    using that gs0 set_mset_mono [OF gs0] by (auto simp: same_day_groups_def day_type_def)
  have sub: "mset gs \<subseteq># mset groups"
    using gs(1) gs0 unfolding same_day_groups_def mset_filter
    by (meson multiset_filter_subset subset_mset.order_trans)
  show ?case
  proof (cases "bank_free st b \<and> 1 < length gs")
    case True
    let ?m = "\<lparr>m_bankIds = [b_id b], m_fundIds = concat (map g_ids gs),
        m_matchType = SPLIT_FUND_TO_BANK, m_confidence = 7 / 10,
        m_bankTotal = b_totalAmount b, m_fundTotal = sum_list (map g_total gs)\<rparr>"
    have "?comb \<noteq> []" using gs(2) True by auto
    then have within: "\<bar>sum_list (map g_total gs) - b_totalAmount b\<bar> \<le> match_tolerance (b_totalAmount b)"
      using find_combination_within [of "map (\<lambda>(i, g). (i, g_total g)) (enumerate 0 ?cands)"
          "b_totalAmount b" "match_tolerance (b_totalAmount b)"] gs(3) by simp
    have "match_inv banks groups (commit ?m st)"
    proof (rule match_inv_commit [OF inv])
      show "justified banks groups ?m"
        by (rule by_fund_split) (use True b within props in auto)
      show "distinct (m_fundIds ?m)"
        using wf_groups_submset [OF wf sub] by simp
      show "set (m_fundIds ?m) \<inter> ms_funds st = {}"
        using props disjoint_if_free by fastforce
    qed (use True in \<open>auto simp: bank_free_def\<close>)
    then show ?thesis
      using True gs by (simp add: pass3b_step_def Let_def)
  next
    case False
    then show ?thesis
      using inv gs(2) by (auto simp: pass3b_step_def Let_def)
  qed
next
  case (2 st b)
  show ?case by (auto simp: pass3b_step_def Let_def)
qed

section \<open>The whole algorithm\<close>

lemma smart_match_inv:
  assumes "wf_input banks groups"
  shows "match_inv banks groups (smart_match banks groups)"
proof -
  have d: "distinct (map b_id banks)" using assms by (simp add: wf_input_def)
  note inv0 = p0.run_inv [OF assms match_inv_init, of "manual_groups banks" groups]
  have "match_inv banks groups (pass0 banks groups init_state)"
    unfolding pass0_def using inv0 manual_groups_admissible [OF d] by blast
  then have "match_inv banks groups (pass1 banks groups (pass0 banks groups init_state))"
    unfolding pass1_def by (rule p1.run_inv [OF assms]) simp
  then have "match_inv banks groups (pass2 banks groups (pass1 banks groups (pass0 banks groups init_state)))"
    unfolding pass2_def by (rule p2.run_inv [OF assms]) auto
  then have "match_inv banks groups (pass3 banks groups
      (pass2 banks groups (pass1 banks groups (pass0 banks groups init_state))))"
    unfolding pass3_def by (rule p3.run_inv [OF assms]) (auto intro: group_by_split_admissible [OF d])
  then show ?thesis
    unfolding smart_match_def pass3b_def by (rule p3b.run_inv [OF assms]) (auto simp: multiset_filter_subset)
qed

lemma pass3_grows: "grows st (pass3 banks groups st)"
  unfolding pass3_def by (rule p3.run_grows)

lemma pass3b_grows: "grows st (pass3b banks groups st)"
  unfolding pass3b_def by (rule p3b.run_grows)

end
