(* ===== verification/SmartMatchResult.thy ===== *)
theory SmartMatchResult
  imports SmartMatchPasses
begin

text \<open>
  The surroundings of the matching passes in \<open>SmartMatcher.getGoalTransactions\<close>: the
  two queries, the grouping of the fund rows, the unmatched lists of the answer and the
  persistence of the automatic matches.
\<close>

section \<open>What a goal transaction contains\<close>

lemma add_to_group_fields [simp]:
  "g_ids (add_to_group g ft) = g_ids g @ [f_id ft]"
  "g_total (add_to_group g ft) = g_total g + f_amount ft"
  "g_originalCode (add_to_group g ft) = g_originalCode g"
  "g_type (add_to_group g ft) = g_type g"
  "g_date (add_to_group g ft) = g_date g"
  "g_transactionId (add_to_group g ft) = g_transactionId g"
  by (auto simp: add_to_group_def merge_review_def add_fund_amount_def)

lemma foldl_add_to_group:
  "g_ids (foldl add_to_group g fts) = g_ids g @ map f_id fts"
  "g_total (foldl add_to_group g fts) = g_total g + sum_list (map f_amount fts)"
  "g_originalCode (foldl add_to_group g fts) = g_originalCode g"
  "g_type (foldl add_to_group g fts) = g_type g"
  "g_date (foldl add_to_group g fts) = g_date g"
  "g_transactionId (foldl add_to_group g fts) = g_transactionId g"
  by (induction fts arbitrary: g) (auto simp del: foldl_append)

text \<open>The fund amounts of a group add up to the part of its total in the four known funds.\<close>

definition known_fund :: "string \<Rightarrow> bool" where
  "known_fund c = (c \<in> set [''XUMMF'', ''XUBF'', ''XUDEF'', ''XUREF''])"

lemma foldl_add_to_group_funds:
  "g_xummf (foldl add_to_group g fts) + g_xubf (foldl add_to_group g fts)
     + g_xudef (foldl add_to_group g fts) + g_xuref (foldl add_to_group g fts)
   = g_xummf g + g_xubf g + g_xudef g + g_xuref g
     + sum_list (map f_amount (filter (\<lambda>ft. known_fund (f_fundCode ft)) fts))"
proof (induction fts arbitrary: g)
  case (Cons ft fts)
  have "g_xummf (add_to_group g ft) + g_xubf (add_to_group g ft)
      + g_xudef (add_to_group g ft) + g_xuref (add_to_group g ft)
      = g_xummf g + g_xubf g + g_xudef g + g_xuref g
        + (if known_fund (f_fundCode ft) then f_amount ft else 0)"
    by (auto simp: add_to_group_def merge_review_def add_fund_amount_def known_fund_def)
  then show ?case using Cons.IH [of "add_to_group g ft"] by simp
qed simp

lemma goal_txn_entry:
  assumes "(k, g) \<in> set (goal_txn_by_code fts)"
  obtains ft rest where
    "filter (\<lambda>ft. fund_key ft = k) fts = ft # rest"
    "g = foldl add_to_group (new_group ft) (ft # rest)" "fund_key ft = k"
proof -
  obtain ft rest where e: "filter (\<lambda>ft. fund_key ft = k) fts = ft # rest"
    "g = foldl add_to_group (new_group ft) (ft # rest)"
    using assms unfolding goal_txn_by_code_def by (rule entry_accumulate)
  then have "fund_key ft = k"
    by (metis (mono_tags, lifting) filter_eq_ConsD)
  with e show thesis by (rule that)
qed

lemma goal_txn_entry_fields:
  assumes "(k, g) \<in> set (goal_txn_by_code fts)"
  shows "g_ids g = map f_id (filter (\<lambda>ft. fund_key ft = k) fts)"
    and "g_total g = sum_list (map f_amount (filter (\<lambda>ft. fund_key ft = k) fts))"
    and "composite_key (g_originalCode g) (g_type g) = k"
    and "g_ids g \<noteq> []"
proof -
  obtain ft rest where e: "filter (\<lambda>ft. fund_key ft = k) fts = ft # rest"
    "g = foldl add_to_group (new_group ft) (ft # rest)" "fund_key ft = k"
    using assms by (rule goal_txn_entry)
  show "g_ids g = map f_id (filter (\<lambda>ft. fund_key ft = k) fts)"
    and "g_total g = sum_list (map f_amount (filter (\<lambda>ft. fund_key ft = k) fts))"
    and "g_ids g \<noteq> []"
    unfolding e(1) by (simp_all add: e(2) foldl_add_to_group new_group_def)
  show "composite_key (g_originalCode g) (g_type g) = k"
    using e(3) by (simp add: e(2) foldl_add_to_group new_group_def fund_key_def)
qed

lemma composite_key_inj:
  assumes "composite_key c t = composite_key c' t'"
  shows "c = c' \<and> t = t'"
proof -
  have cut: "takeWhile (\<lambda>x. x \<noteq> CHR ''|'') (rev (composite_key c t)) = rev (type_name t)" for c t
    by (cases t) (simp_all add: composite_key_def takeWhile_append)
  have "type_name t = type_name t'"
    using cut [of c t] cut [of c' t'] assms by (metis rev_rev_ident)
  then show ?thesis
    using assms by (simp add: composite_key_def)
qed

lemma keys_goal_txn: "map fst (goal_txn_by_code fts) = map (\<lambda>g. composite_key (g_originalCode g) (g_type g)) (fund_groups fts)"
  by (auto simp: goal_txn_entry_fields(3))

lemma distinct_goal_txn_keys: "distinct (map fst (goal_txn_by_code fts))"
  by (simp add: goal_txn_by_code_def)

lemma mset_group_ids: "mset (concat (map g_ids (fund_groups fts))) = mset (map f_id fts)"
proof -
  let ?ks = "map fst (goal_txn_by_code fts)"
  have "map g_ids (fund_groups fts) = map (\<lambda>k. map f_id (filter (\<lambda>ft. fund_key ft = k) fts)) ?ks"
    by (auto simp: goal_txn_entry_fields(1))
  then have "concat (map g_ids (fund_groups fts))
      = map f_id (concat (map (\<lambda>k. filter (\<lambda>ft. fund_key ft = k) fts) ?ks))"
    by (simp only: map_concat map_map comp_def)
  moreover have "mset (concat (map (\<lambda>k. filter (\<lambda>ft. fund_key ft = k) fts) ?ks)) = mset fts"
    by (rule mset_concat_partition) (simp_all add: distinct_goal_txn_keys goal_txn_by_code_def)
  ultimately show ?thesis by simp
qed

lemma wf_groups_fund_groups:
  assumes "distinct (map f_id fts)"
  shows "wf_groups (fund_groups fts)"
proof -
  have "distinct (concat (map g_ids (fund_groups fts)))"
    using assms mset_eq_imp_distinct_iff [OF mset_group_ids] by blast
  then show ?thesis
    by (auto simp: wf_groups_def goal_txn_entry_fields(4))
qed

text \<open>A group's total is the sum of the rows whose ids it lists.\<close>

lemma group_total_of_ids:
  assumes "distinct (map f_id fts)" "g \<in> set (fund_groups fts)"
  shows "g_total g = sum_list (map f_amount (filter (\<lambda>ft. f_id ft \<in> set (g_ids g)) fts))"
proof -
  obtain k where k: "(k, g) \<in> set (goal_txn_by_code fts)"
    using assms(2) by auto
  have "filter (\<lambda>ft. f_id ft \<in> set (g_ids g)) fts = filter (\<lambda>ft. fund_key ft = k) fts"
    using assms(1) goal_txn_entry_fields(1) [OF k]
    by (intro filter_cong) (auto dest: inj_onD simp: distinct_map)
  then show ?thesis
    using goal_txn_entry_fields(2) [OF k] by simp
qed

lemma mem_group_ids_iff:
  assumes "g \<in> set (fund_groups fts)"
  shows "i \<in> set (g_ids g) \<longleftrightarrow>
    (\<exists>f \<in> set fts. f_id f = i \<and> f_goalTransactionCode f = g_originalCode g \<and> f_transactionType f = g_type g)"
proof -
  obtain k where k: "(k, g) \<in> set (goal_txn_by_code fts)" using assms by auto
  have "fund_key f = k \<longleftrightarrow> f_goalTransactionCode f = g_originalCode g \<and> f_transactionType f = g_type g" for f
    using goal_txn_entry_fields(3) [OF k] composite_key_inj by (fastforce simp: fund_key_def)
  then show ?thesis using goal_txn_entry_fields(1) [OF k] by auto
qed

lemma group_of_row:
  assumes "f \<in> set fts"
  obtains g where "g \<in> set (fund_groups fts)" "g_originalCode g = f_goalTransactionCode f" "g_type g = f_transactionType f"
proof -
  have "fund_key f \<in> fst ` set (goal_txn_by_code fts)" using assms by (simp add: goal_txn_by_code_def)
  then obtain g where g: "(fund_key f, g) \<in> set (goal_txn_by_code fts)" by auto
  then have "composite_key (g_originalCode g) (g_type g) = composite_key (f_goalTransactionCode f) (f_transactionType f)"
    using goal_txn_entry_fields(3) by (simp add: fund_key_def)
  then have "g_originalCode g = f_goalTransactionCode f" "g_type g = f_transactionType f"
    using composite_key_inj by blast+
  moreover have "g \<in> set (fund_groups fts)" using g by force
  ultimately show thesis by (rule that [rotated])
qed

section \<open>The answer\<close>

record goal_answer =
  r_bankTransactions :: "bank_txn list"
  r_goalTransactions :: "fund_group list"
  r_matches :: "match_result list"
  r_unmatchedBank :: "row_id list"
  r_unmatchedGoalTxn :: "string list"

definition matched_keys :: "(string, fund_group) jsmap \<Rightarrow> match_result list \<Rightarrow> string set" where
  "matched_keys entries matches =
     set (concat (map (\<lambda>m. map fst (filter (\<lambda>e. \<exists>i \<in> set (g_ids (snd e)). i \<in> set (m_fundIds m)) entries)) matches))"

definition goal_answer_of :: "bank_txn list \<Rightarrow> fund_txn list \<Rightarrow> goal_answer" where
  "goal_answer_of banks fts =
     (let entries = goal_txn_by_code fts; st = smart_match banks (map snd entries);
          keys = matched_keys entries (ms_matches st)
      in \<lparr>r_bankTransactions = banks, r_goalTransactions = map snd entries,
          r_matches = ms_matches st,
          r_unmatchedBank = map b_id (filter (bank_free st) banks),
          r_unmatchedGoalTxn = map g_originalCode
            (filter (\<lambda>g. composite_key (g_originalCode g) (g_type g) \<notin> keys) (map snd entries))\<rparr>)"

lemma matched_key_iff:
  assumes "match_inv banks (fund_groups fts) st" "g \<in> set (fund_groups fts)"
  shows "composite_key (g_originalCode g) (g_type g) \<in> matched_keys (goal_txn_by_code fts) (ms_matches st)
     \<longleftrightarrow> \<not> group_free st g"
proof -
  let ?key = "composite_key (g_originalCode g) (g_type g)"
  obtain k where k: "(k, g) \<in> set (goal_txn_by_code fts)" using assms(2) by auto
  then have key: "?key = k" by (rule goal_txn_entry_fields)
  have "?key \<in> matched_keys (goal_txn_by_code fts) (ms_matches st)
      \<longleftrightarrow> (\<exists>m \<in> set (ms_matches st). \<exists>e \<in> set (goal_txn_by_code fts).
            fst e = k \<and> (\<exists>i \<in> set (g_ids (snd e)). i \<in> set (m_fundIds m)))"
    unfolding key by (auto simp: matched_keys_def)
  also have "\<dots> \<longleftrightarrow> (\<exists>m \<in> set (ms_matches st). \<exists>i \<in> set (g_ids g). i \<in> set (m_fundIds m))"
    using k distinct_goal_txn_keys [of fts]
    by (metis eq_key_imp_eq_value fst_conv prod.collapse snd_conv)
  also have "\<dots> \<longleftrightarrow> \<not> group_free st g"
    using assms(1) by (auto simp: match_inv_def group_free_def)
  finally show ?thesis .
qed

section \<open>Persisting the automatic matches\<close>

definition js_round :: "rat \<Rightarrow> int" where
  "js_round x = \<lfloor>x + 1 / 2\<rfloor>"

fun match_type_name :: "match_type \<Rightarrow> string" where
  "match_type_name EXACT = ''EXACT''"
| "match_type_name AMOUNT = ''AMOUNT''"
| "match_type_name SPLIT_BANK_TO_FUND = ''SPLIT_BANK_TO_FUND''"
| "match_type_name SPLIT_FUND_TO_BANK = ''SPLIT_FUND_TO_BANK''"
| "match_type_name MANUAL = ''MANUAL''"

definition goal_codes_for :: "fund_group list \<Rightarrow> match_result \<Rightarrow> string list" where
  "goal_codes_for groups m =
     map g_originalCode (filter (\<lambda>g. \<exists>i \<in> set (g_ids g). i \<in> set (m_fundIds m)) groups)"

definition persisted_code :: "fund_group list \<Rightarrow> match_result \<Rightarrow> string option" where
  "persisted_code groups m =
     (case goal_codes_for groups m of
        [] \<Rightarrow> None
      | [c] \<Rightarrow> Some c
      | cs \<Rightarrow> Some (match_type_name (m_matchType m) @ '':'' @ join_with CHR '','' cs))"

definition mark_matched :: "instant \<Rightarrow> string \<Rightarrow> rat \<Rightarrow> bank_txn \<Rightarrow> bank_txn" where
  "mark_matched now code conf b =
     b\<lparr>b_matchedGoalTransactionCode := Some code, b_matchedAt := Some now,
       b_matchScore := Some (js_round (conf * 100)), b_updatedAt := now\<rparr>"

definition persist_match :: "instant \<Rightarrow> fund_group list \<Rightarrow> bank_txn list \<Rightarrow> match_result \<Rightarrow> bank_txn list" where
  "persist_match now groups rows m =
     (if m_matchType m = MANUAL then rows
      else case persisted_code groups m of
        None \<Rightarrow> rows
      | Some code \<Rightarrow>
          update_where (\<lambda>b. b_id b \<in> set (m_bankIds m)) (mark_matched now code (m_confidence m)) rows)"

definition persist_matches :: "instant \<Rightarrow> fund_group list \<Rightarrow> match_result list \<Rightarrow> bank_txn list \<Rightarrow> bank_txn list" where
  "persist_matches now groups matches rows = foldl (persist_match now groups) rows matches"

section \<open>The endpoint\<close>

definition bank_in_view :: "string \<Rightarrow> instant \<Rightarrow> instant \<Rightarrow> transaction_type option \<Rightarrow> bank_txn \<Rightarrow> bool" where
  "bank_in_view goalNumber startDate endDate ttype b =
     (b_goalNumber b = goalNumber \<and> startDate \<le> b_transactionDate b \<and> b_transactionDate b \<le> endDate \<and>
      (case ttype of None \<Rightarrow> True | Some t \<Rightarrow> b_transactionType b = t) \<and>
      \<not> includes_str (b_transactionId b) ''Transfer_Reversal'' \<and> b_transactionId b \<noteq> ''RT Change'')"

text \<open>
  Whether Prisma's \<open>source: { not: ... }\<close> keeps rows whose \<open>source\<close> is null is a fact of
  the library; it is the parameter \<open>keeps_null\<close>, about which nothing is assumed.
\<close>

definition fund_in_view ::
    "bool \<Rightarrow> row_id \<Rightarrow> instant \<Rightarrow> instant \<Rightarrow> transaction_type option \<Rightarrow> fund_txn \<Rightarrow> bool" where
  "fund_in_view keeps_null goalId startDate endDate ttype f =
     (f_goalId f = goalId \<and> startDate \<le> f_transactionDate f \<and> f_transactionDate f \<le> endDate \<and>
      (case ttype of None \<Rightarrow> True | Some t \<Rightarrow> f_transactionType f = t) \<and>
      (case f_source f of None \<Rightarrow> keeps_null | Some s \<Rightarrow> s \<noteq> Transfer_Reversal))"

definition get_goal_transactions ::
    "bool \<Rightarrow> instant \<Rightarrow> database \<Rightarrow> string \<Rightarrow> instant \<Rightarrow> instant \<Rightarrow> transaction_type option \<Rightarrow> goal_answer \<times> database" where
  "get_goal_transactions keeps_null now db goalNumber startDate endDate ttype =
     (let banks = sort_key (\<lambda>b. - b_transactionDate b)
                    (filter (bank_in_view goalNumber startDate endDate ttype) (db_bank db))
      in case List.find (\<lambda>g. go_number g = goalNumber) (db_goals db) of
        None \<Rightarrow> (\<lparr>r_bankTransactions = banks, r_goalTransactions = [], r_matches = [],
                  r_unmatchedBank = map b_id banks, r_unmatchedGoalTxn = []\<rparr>, db)
      | Some goal \<Rightarrow>
          (let fts = sort_key (\<lambda>f. - f_transactionDate f)
                       (filter (fund_in_view keeps_null (go_id goal) startDate endDate ttype) (db_fund db));
               ans = goal_answer_of banks fts
           in (ans, db\<lparr>db_bank := persist_matches now (r_goalTransactions ans) (r_matches ans) (db_bank db)\<rparr>)))"

section \<open>Persistence: effect and frame\<close>

lemma mark_matched_id [simp]: "b_id (mark_matched now code conf b) = b_id b"
  by (simp add: mark_matched_def)

lemma persist_match_ids [simp]: "map b_id (persist_match now groups rows m) = map b_id rows"
  by (auto simp: persist_match_def update_where_def split: option.splits)

lemma persist_matches_ids [simp]: "map b_id (persist_matches now groups matches rows) = map b_id rows"
  unfolding persist_matches_def by (induction matches arbitrary: rows) simp_all

text \<open>What a single row becomes: the last automatic match that lists it decides.\<close>

definition persist_row :: "instant \<Rightarrow> fund_group list \<Rightarrow> bank_txn \<Rightarrow> match_result \<Rightarrow> bank_txn" where
  "persist_row now groups b m =
     (if m_matchType m \<noteq> MANUAL \<and> b_id b \<in> set (m_bankIds m)
      then (case persisted_code groups m of None \<Rightarrow> b | Some code \<Rightarrow> mark_matched now code (m_confidence m) b)
      else b)"

lemma persist_match_row: "persist_match now groups rows m = map (\<lambda>b. persist_row now groups b m) rows"
  by (auto simp: persist_match_def persist_row_def update_where_def map_idI split: option.splits)

lemma persist_matches_row:
  "persist_matches now groups matches rows = map (\<lambda>b. foldl (persist_row now groups) b matches) rows"
  unfolding persist_matches_def
  by (induction matches arbitrary: rows) (simp_all add: persist_match_row)

lemma persist_row_id [simp]: "b_id (persist_row now groups b m) = b_id b"
  by (simp add: persist_row_def split: option.splits)

lemma persist_row_other:
  "b_id b \<notin> set (m_bankIds m) \<Longrightarrow> persist_row now groups b m = b"
  by (simp add: persist_row_def)

lemma foldl_persist_other:
  "\<forall>m \<in> set matches. m_matchType m = MANUAL \<or> b_id b \<notin> set (m_bankIds m) \<Longrightarrow>
   foldl (persist_row now groups) b matches = b"
  by (induction matches) (auto simp: persist_row_def)

lemma foldl_persist_in:
  assumes "distinct (concat (map m_bankIds matches))" "m \<in> set matches" "b_id b \<in> set (m_bankIds m)"
  shows "foldl (persist_row now groups) b matches = persist_row now groups b m"
proof -
  obtain us vs where split: "matches = us @ m # vs" using assms(2) by (auto dest: split_list)
  have us: "\<forall>m' \<in> set us. b_id b \<notin> set (m_bankIds m')"
    and vs: "\<forall>m' \<in> set vs. b_id b \<notin> set (m_bankIds m')"
    using assms(1,3) by (auto simp: split)
  have "foldl (persist_row now groups) b us = b"
    using us by (intro foldl_persist_other) auto
  moreover have "foldl (persist_row now groups) (persist_row now groups b m) vs = persist_row now groups b m"
    using vs by (intro foldl_persist_other) auto
  ultimately show ?thesis by (simp add: split)
qed

lemma justified_codes_nonempty:
  assumes "justified banks groups m" "wf_groups groups"
  shows "goal_codes_for groups m \<noteq> []"
proof -
  have in_concat: "\<exists>g \<in> set groups. set (g_ids g) \<subseteq> set (concat (map g_ids gs))"
    if "set gs \<subseteq> set groups" "gs \<noteq> []" for gs
    using that by (cases gs) auto
  have "\<exists>g \<in> set groups. set (g_ids g) \<subseteq> set (m_fundIds m)"
    using assms(1)
  proof cases
    case (by_manual_code bs gs code codes)
    then show ?thesis using in_concat by simp
  next
    case (by_fund_split b gs)
    moreover from this have "gs \<noteq> []" by auto
    ultimately show ?thesis using in_concat [of gs] by simp
  qed auto
  then obtain g where "g \<in> set groups" "set (g_ids g) \<subseteq> set (m_fundIds m)" by blast
  moreover from this have "g_ids g \<noteq> []" using assms(2) by (simp add: wf_groups_def)
  moreover from this obtain i where "i \<in> set (g_ids g)"
    by (meson last_in_set)
  ultimately show ?thesis
    by (auto simp: goal_codes_for_def filter_empty_conv)
qed

section \<open>Reading a justified match back as rows\<close>

lemma justified_parts:
  assumes "justified banks groups m"
  obtains bs gs where
    "m_bankIds m = map b_id bs" "set bs \<subseteq> set banks" "m_bankTotal m = sum_list (map b_totalAmount bs)"
    "m_fundIds m = concat (map g_ids gs)" "set gs \<subseteq> set groups" "m_fundTotal m = sum_list (map g_total gs)"
    "bs \<noteq> []" "gs \<noteq> []"
    "m_matchType m \<noteq> MANUAL \<Longrightarrow> \<forall>b \<in> set bs. \<forall>g \<in> set gs. b_transactionType b = g_type g"
  using assms
proof cases
  case (by_manual_code bs gs code codes)
  then show thesis by (intro that [of bs gs]) auto
next
  case (by_transaction_id b g)
  then show thesis by (intro that [of "[b]" "[g]"]) auto
next
  case (by_amount b g)
  then show thesis by (intro that [of "[b]" "[g]"]) (auto simp: amount_eligible_def)
next
  case (by_bank_split bs g)
  then show thesis by (intro that [of bs "[g]"]) (auto simp: day_type_def)
next
  case (by_fund_split b gs)
  then show thesis by (intro that [of "[b]" gs]) (auto simp: day_type_def)
qed

lemma groups_total_by_id:
  assumes "distinct (map f_id fts)" "set gs \<subseteq> set (fund_groups fts)" "distinct (concat (map g_ids gs))"
  shows "sum_list (map g_total gs)
       = sum_list (map f_amount (filter (\<lambda>ft. f_id ft \<in> set (concat (map g_ids gs))) fts))"
  using assms(2,3)
proof (induction gs)
  case (Cons g gs)
  have "sum_list (map f_amount (filter (\<lambda>ft. f_id ft \<in> set (g_ids g) \<or> f_id ft \<in> set (concat (map g_ids gs))) fts))
      = sum_list (map f_amount (filter (\<lambda>ft. f_id ft \<in> set (g_ids g)) fts))
        + sum_list (map f_amount (filter (\<lambda>ft. f_id ft \<in> set (concat (map g_ids gs))) fts))"
    using Cons.prems(2) by (intro sum_filter_disjoint) auto
  moreover have "g_total g = sum_list (map f_amount (filter (\<lambda>ft. f_id ft \<in> set (g_ids g)) fts))"
    using assms(1) Cons.prems(1) by (intro group_total_of_ids) auto
  ultimately show ?case
    using Cons by simp
qed simp

lemma group_row_type:
  assumes "g \<in> set (fund_groups fts)" "ft \<in> set fts" "f_id ft \<in> set (g_ids g)" "distinct (map f_id fts)"
  shows "f_transactionType ft = g_type g \<and> f_goalTransactionCode ft = g_originalCode g"
proof -
  obtain k where k: "(k, g) \<in> set (goal_txn_by_code fts)" using assms(1) by auto
  obtain ft' where "ft' \<in> set fts" "fund_key ft' = k" "f_id ft' = f_id ft"
    using assms(3) goal_txn_entry_fields(1) [OF k] by auto
  then have "fund_key ft = k"
    using assms(2,4) by (metis distinct_map inj_onD)
  then show ?thesis
    using goal_txn_entry_fields(3) [OF k] composite_key_inj by (fastforce simp: fund_key_def)
qed

lemma answer_inv:
  assumes "distinct (map b_id banks)" "distinct (map f_id fts)" "wf_manual banks"
  shows "match_inv banks (fund_groups fts) (smart_match banks (fund_groups fts))"
  using assms by (intro smart_match_inv) (simp add: wf_input_def wf_groups_fund_groups)

lemma answer_fields:
  "r_matches (goal_answer_of banks fts) = ms_matches (smart_match banks (fund_groups fts))"
  "r_goalTransactions (goal_answer_of banks fts) = fund_groups fts"
  "r_unmatchedBank (goal_answer_of banks fts)
     = map b_id (filter (bank_free (smart_match banks (fund_groups fts))) banks)"
  by (simp_all add: goal_answer_of_def Let_def)

lemma answer_match:
  assumes "distinct (map b_id banks)" "distinct (map f_id fts)" "wf_manual banks"
    "m \<in> set (r_matches (goal_answer_of banks fts))"
  shows "justified banks (fund_groups fts) m" "distinct (m_bankIds m)" "distinct (m_fundIds m)"
  using answer_inv [OF assms(1-3)] assms(4)
  by (auto simp: match_inv_def answer_fields distinct_concat_iff)

text \<open>Free at the end means: not listed by any match.\<close>

lemma answer_free_iff:
  assumes "distinct (map b_id banks)" "distinct (map f_id fts)" "wf_manual banks"
  shows "bank_free (smart_match banks (fund_groups fts)) b
      \<longleftrightarrow> (\<forall>m \<in> set (r_matches (goal_answer_of banks fts)). b_id b \<notin> set (m_bankIds m))"
    and "group_free (smart_match banks (fund_groups fts)) g
      \<longleftrightarrow> (\<forall>m \<in> set (r_matches (goal_answer_of banks fts)). set (g_ids g) \<inter> set (m_fundIds m) = {})"
  using answer_inv [OF assms] by (auto simp: match_inv_def answer_fields bank_free_def group_free_def)

section \<open>Nothing that fits is left\<close>

lemma after_pass2:
  obtains st where "grows (pass2 banks groups st) (smart_match banks groups)"
    "smart_match banks groups = pass3b banks groups (pass3 banks groups (pass2 banks groups st))"
proof (rule that)
  show "smart_match banks groups = pass3b banks groups (pass3 banks groups (pass2 banks groups
      (pass1 banks groups (pass0 banks groups init_state))))"
    by (simp only: smart_match_def)
  show "grows (pass2 banks groups (pass1 banks groups (pass0 banks groups init_state))) (smart_match banks groups)"
    unfolding smart_match_def by (rule grows_trans [OF pass3_grows pass3b_grows])
qed

lemma no_eligible_left:
  assumes "b \<in> set banks" "bank_free (smart_match banks groups) b"
    "g \<in> set groups" "group_free (smart_match banks groups) g"
  shows "\<not> amount_eligible b g"
  by (rule after_pass2 [of banks groups])
    (use assms pass2_maximal bank_free_antimono group_free_antimono in blast)

lemma pass3_step_complete:
  assumes adm: "split_admissible byDayType banks"
    and cands: "map_get byDayType (iso_day (g_date g), g_type g) = Some cs" "length cs \<le> 10"
    and bs: "distinct bs" "set bs \<subseteq> set cs" "\<forall>b \<in> set bs. bank_free st b" "1 < length bs"
    and fits: "amounts_within (sum_list (map b_totalAmount bs)) (g_total g)"
    and single: "\<And>b. b \<in> set cs \<Longrightarrow> bank_free st b \<Longrightarrow> \<not> amounts_within (b_totalAmount b) (g_total g)"
    and ne: "g_ids g \<noteq> []" and free: "group_free st g"
  shows "\<not> group_free (pass3_step byDayType st g) g"
proof -
  let ?f = "\<lambda>b. (b_id b, b_totalAmount b)"
  let ?c = "split_candidates byDayType st g"
  let ?comb = "find_combination_sum (map ?f ?c) (g_total g) (match_tolerance (g_total g))"
  have c: "?c = filter (bank_free st) cs" using cands by (simp add: split_candidates_def)
  have dc: "distinct ?c" using split_candidates_props(2) [OF adm] by (simp add: distinct_map)
  have "mset bs \<subseteq># mset ?c"
    using bs c dc by (intro distinct_subset_mset) auto
  then have "mset (map ?f bs) \<subseteq># mset (map ?f ?c)"
    by (simp add: image_mset_subseteq_mono)
  moreover have "length ?c \<le> 10"
    unfolding c by (rule le_trans [OF length_filter_le cands(2)])
  moreover have "\<bar>item_sum (map ?f bs) - g_total g\<bar> \<le> match_tolerance (g_total g)"
    using fits by (simp add: item_sum_map amounts_within_def)
  ultimately have ne_comb: "?comb \<noteq> []"
    using bs(4) by (intro find_combination_complete [of _ "map ?f bs"]) auto
  obtain xs where xs: "?comb = map ?f xs" "mset xs \<subseteq># mset ?c"
    using find_combination_subset [of "map ?f ?c" "g_total g" "match_tolerance (g_total g)"]
    by (rule submset_map_obtain) (rule that, simp_all)
  have "length ?comb \<noteq> 1"
  proof
    assume "length ?comb = 1"
    then obtain b where b: "xs = [b]" using xs(1) by (cases xs) auto
    have "amounts_within (b_totalAmount b) (g_total g)"
      using find_combination_within [OF ne_comb] xs(1) b by (simp add: amounts_within_def item_sum_def)
    moreover have "b \<in> set ?c" using xs(2) b by (metis list.set_intros(1) mset_subset_eqD set_mset_mset)
    ultimately show False using single [of b] c by auto
  qed
  then have "1 < length ?comb" using ne_comb by (cases ?comb) auto
  then show ?thesis
    unfolding pass3_step_def Let_def using free ne
    by (simp only: if_True if_False not_not not_True_eq_False) (rule commit_claims_group, simp_all)
qed

lemma no_bank_split_left:
  assumes wf: "distinct (map b_id banks)" "wf_groups groups"
    and g: "g \<in> set groups" "group_free (smart_match banks groups) g"
    and bs: "distinct bs" "set bs \<subseteq> set banks" "1 < length bs"
      "\<forall>b \<in> set bs. bank_free (smart_match banks groups) b \<and> day_type b = (iso_day (g_date g), g_type g)"
    and few: "length (filter (\<lambda>b. day_type b = (iso_day (g_date g), g_type g)) banks) \<le> 10"
  shows "\<not> amounts_within (sum_list (map b_totalAmount bs)) (g_total g)"
proof (rule after_pass2 [of banks groups])
  fix st
  let ?st2 = "pass2 banks groups st"
  let ?key = "(iso_day (g_date g), g_type g)"
  let ?by = "group_by day_type (filter (bank_free ?st2) banks)"
  let ?cs = "filter (\<lambda>b. day_type b = ?key) (filter (bank_free ?st2) banks)"
  assume gr: "grows ?st2 (smart_match banks groups)"
    and eq: "smart_match banks groups = pass3b banks groups (pass3 banks groups ?st2)"
  have free2: "group_free ?st2 g" using g(2) gr by (rule group_free_antimono [rotated])
  have sub: "set bs \<subseteq> set ?cs" using bs(2,4) gr by (auto intro: bank_free_antimono)
  then have "?key \<in> day_type ` set (filter (bank_free ?st2) banks)"
    using bs(3) by (cases bs) force+
  then have "\<exists>b \<in> set (filter (bank_free ?st2) banks). day_type b = ?key" by (metis imageE)
  then have cands: "map_get ?by ?key = Some ?cs" by (auto simp: map_get_group_by)
  have adm: "split_admissible ?by banks" using wf(1) by (rule group_by_split_admissible)
  have "length ?cs = length (filter (bank_free ?st2) (filter (\<lambda>b. day_type b = ?key) banks))"
    by (simp add: conj_commute)
  then have len: "length ?cs \<le> 10"
    using few by (metis length_filter_le le_trans)
  have single: "\<not> amounts_within (b_totalAmount b) (g_total g)" if b: "b \<in> set ?cs" for b
  proof -
    have "iso_day (b_transactionDate b) = iso_day (g_date g)" "b_transactionType b = g_type g"
      using b by (auto simp: day_type_def)
    moreover from this have "days_between (b_transactionDate b) (g_date g) \<le> 30"
      using same_iso_day_lt_one_day [of "b_transactionDate b" "g_date g"] by simp
    ultimately show ?thesis
      using pass2_maximal [of b banks groups st g] b g(1) free2 by (auto simp: amount_eligible_def)
  qed
  have gin: "g \<in> set (filter (group_free ?st2) groups)" using g(1) free2 by simp
  obtain s where s: "grows ?st2 s" "grows (pass3_step ?by s g) (pass3 banks groups ?st2)"
    unfolding pass3_def by (rule p3.element_processed [OF gin])
  have fin: "grows (pass3_step ?by s g) (smart_match banks groups)"
    unfolding eq using s(2) pass3b_grows by (rule grows_trans)
  have sg: "grows s (smart_match banks groups)"
    using p3.step_grows fin by (rule grows_trans)
  show ?thesis
  proof
    assume fits: "amounts_within (sum_list (map b_totalAmount bs)) (g_total g)"
    have "\<not> group_free (pass3_step ?by s g) g"
      by (rule pass3_step_complete [OF adm cands len bs(1) sub _ bs(3) fits])
        (use bs(4) sg single g wf(2) in \<open>auto simp: wf_groups_def intro: bank_free_antimono group_free_antimono\<close>)
    with g(2) fin show False by (blast intro: group_free_antimono)
  qed
qed

end
