(* ===== verification/ManualMatch.thy ===== *)
theory ManualMatch
  imports SmartMatchResult
begin

text \<open>
  The manual side of \<open>SmartMatcher.ts\<close>: creating and removing manual matches, reviewing
  transactions, and linking and unlinking reversal pairs. Every operation is a function from
  the database to a result and the new database; a \<open>throw\<close> is an \<open>Inl\<close>. The
  operations issue one \<open>updateMany\<close> after another, so the new database of one step is the old one
  of the next. The \<open>updatedAt\<close> column is rewritten by every update (\<open>@updatedAt\<close> in the schema).
\<close>

datatype match_error =
    BankNotFound nat nat
  | GoalNotFound nat nat
  | TotalsMismatch money money
  | TxnNotFound row_id
  | PairNotFound
  | DifferentGoals string string
  | SameTypes transaction_type
  | NonZeroSum money
  | NotAReversal row_id

section \<open>Creating a manual match\<close>

definition goal_sums :: "fund_txn list \<Rightarrow> (string, money) jsmap" where
  "goal_sums fts = accumulate f_goalTransactionCode (\<lambda>_. 0) (\<lambda>s ft. s + f_amount ft)
     (filter (\<lambda>ft. f_goalTransactionCode ft \<noteq> []) fts)"

definition manual_match_code :: "instant \<Rightarrow> string list \<Rightarrow> string" where
  "manual_match_code now codes = ''MANUAL:'' @ nat_digits (nat now) @ '':'' @ join_with CHR '','' codes"

definition manual_tolerance :: "money \<Rightarrow> money" where
  "manual_tolerance bankTotal = max (bankTotal * (1 / 100)) 1"

definition link_manual :: "instant \<Rightarrow> string \<Rightarrow> bank_txn \<Rightarrow> bank_txn" where
  "link_manual now code b =
     b\<lparr>b_matchedGoalTransactionCode := Some code, b_reconciliationStatus := RS_MATCHED,
       b_matchedAt := Some now, b_matchScore := Some 100, b_updatedAt := now\<rparr>"

record manual_answer =
  ma_bankCount :: nat
  ma_goalCount :: nat
  ma_bankTotal :: money
  ma_goalTotal :: money

definition create_manual_match ::
    "instant \<Rightarrow> database \<Rightarrow> row_id list \<Rightarrow> string list \<Rightarrow> match_error + (manual_answer \<times> database)" where
  "create_manual_match now db ids codes =
     (let bankTxns = filter (\<lambda>b. b_id b \<in> set ids) (db_bank db);
          goalTxnMap = goal_sums (filter (\<lambda>f. f_goalTransactionCode f \<in> set codes) (db_fund db));
          bankTotal = sum_list (map b_totalAmount bankTxns);
          goalTotal = sum_list (map snd goalTxnMap)
      in if length bankTxns \<noteq> length ids then Inl (BankNotFound (length ids) (length bankTxns))
         else if length goalTxnMap \<noteq> length codes then Inl (GoalNotFound (length codes) (length goalTxnMap))
         else if \<bar>bankTotal - goalTotal\<bar> > manual_tolerance bankTotal then Inl (TotalsMismatch bankTotal goalTotal)
         else Inr (\<lparr>ma_bankCount = length bankTxns, ma_goalCount = length codes,
                    ma_bankTotal = bankTotal, ma_goalTotal = goalTotal\<rparr>,
                   db\<lparr>db_bank := update_where (\<lambda>b. b_id b \<in> set ids)
                                  (link_manual now (manual_match_code now codes)) (db_bank db)\<rparr>))"

section \<open>Removing manual matches\<close>

definition clear_match :: "instant \<Rightarrow> bank_txn \<Rightarrow> bank_txn" where
  "clear_match now b =
     b\<lparr>b_matchedGoalTransactionCode := None, b_reconciliationStatus := RS_PENDING,
       b_matchedAt := None, b_matchScore := None, b_updatedAt := now\<rparr>"

text \<open>One \<open>updateMany\<close> with its count added to the running total.\<close>

definition clear_where :: "instant \<Rightarrow> (bank_txn \<Rightarrow> bool) \<Rightarrow> nat \<times> bank_txn list \<Rightarrow> nat \<times> bank_txn list" where
  "clear_where now P s = (fst s + count_where P (snd s), update_where P (clear_match now) (snd s))"

definition code_in :: "string list \<Rightarrow> bank_txn \<Rightarrow> bool" where
  "code_in codes b = (case b_matchedGoalTransactionCode b of None \<Rightarrow> False | Some c \<Rightarrow> c \<in> set codes)"

definition manual_code_contains :: "string \<Rightarrow> bank_txn \<Rightarrow> bool" where
  "manual_code_contains goalCode b =
     (case b_matchedGoalTransactionCode b of None \<Rightarrow> False
      | Some c \<Rightarrow> includes_str c goalCode \<and> prefix ''MANUAL:'' c)"

definition remove_manual_match ::
    "instant \<Rightarrow> database \<Rightarrow> row_id list \<Rightarrow> string list \<Rightarrow> nat \<times> database" where
  "remove_manual_match now db ids codes =
     (let s1 = (if ids \<noteq> [] then clear_where now (\<lambda>b. b_id b \<in> set ids) (0, db_bank db) else (0, db_bank db));
          s2 = (if codes \<noteq> []
                then foldl (\<lambda>s goalCode. clear_where now (manual_code_contains goalCode) s)
                       (clear_where now (code_in codes) s1) codes
                else s1)
      in (fst s2, db\<lparr>db_bank := snd s2\<rparr>))"

section \<open>Reviews\<close>

definition review_bank :: "instant \<Rightarrow> review_tag \<Rightarrow> string option \<Rightarrow> string \<Rightarrow> bank_txn \<Rightarrow> bank_txn" where
  "review_bank now tag notes who b =
     b\<lparr>b_reviewTag := Some tag, b_reviewNotes := notes, b_reviewedAt := Some now,
       b_reviewedBy := Some who, b_updatedAt := now\<rparr>"

definition review_fund :: "instant \<Rightarrow> review_tag \<Rightarrow> string option \<Rightarrow> string \<Rightarrow> fund_txn \<Rightarrow> fund_txn" where
  "review_fund now tag notes who f =
     f\<lparr>f_reviewTag := Some tag, f_reviewNotes := notes, f_reviewedAt := Some now, f_reviewedBy := Some who\<rparr>"

text \<open>Prisma's \<open>update\<close> of a row that does not exist throws.\<close>

definition review_bank_transaction ::
    "instant \<Rightarrow> database \<Rightarrow> row_id \<Rightarrow> review_tag \<Rightarrow> string option \<Rightarrow> string \<Rightarrow> match_error + (bank_txn \<times> database)" where
  "review_bank_transaction now db i tag notes who =
     (case List.find (\<lambda>b. b_id b = i) (db_bank db) of
        None \<Rightarrow> Inl (TxnNotFound i)
      | Some b \<Rightarrow> Inr (review_bank now tag notes who b,
          db\<lparr>db_bank := update_where (\<lambda>b. b_id b = i) (review_bank now tag notes who) (db_bank db)\<rparr>))"

definition review_goal_transaction ::
    "instant \<Rightarrow> database \<Rightarrow> string \<Rightarrow> review_tag \<Rightarrow> string option \<Rightarrow> string \<Rightarrow> nat \<times> database" where
  "review_goal_transaction now db code tag notes who =
     (count_where (\<lambda>f. f_goalTransactionCode f = code) (db_fund db),
      db\<lparr>db_fund := update_where (\<lambda>f. f_goalTransactionCode f = code) (review_fund now tag notes who) (db_fund db)\<rparr>)"

definition bulk_review ::
    "instant \<Rightarrow> database \<Rightarrow> row_id list \<Rightarrow> string list \<Rightarrow> review_tag \<Rightarrow> string option \<Rightarrow> string
       \<Rightarrow> (nat \<times> nat) \<times> database" where
  "bulk_review now db ids codes tag notes who =
     (let (nb, db1) =
        (if ids \<noteq> []
         then (count_where (\<lambda>b. b_id b \<in> set ids) (db_bank db),
               db\<lparr>db_bank := update_where (\<lambda>b. b_id b \<in> set ids) (review_bank now tag notes who) (db_bank db)\<rparr>)
         else (0, db));
          (ng, db2) =
        (if codes \<noteq> []
         then (count_where (\<lambda>f. f_goalTransactionCode f \<in> set codes) (db_fund db1),
               db1\<lparr>db_fund := update_where (\<lambda>f. f_goalTransactionCode f \<in> set codes)
                                (review_fund now tag notes who) (db_fund db1)\<rparr>)
         else (0, db1))
      in ((nb, ng), db2))"

section \<open>Reversal pairs\<close>

definition opposite_type :: "transaction_type \<Rightarrow> transaction_type" where
  "opposite_type t = (if t = DEPOSIT then WITHDRAWAL else DEPOSIT)"

definition reversal_candidate :: "bank_txn \<Rightarrow> (instant \<times> instant) option \<Rightarrow> bank_txn \<Rightarrow> bool" where
  "reversal_candidate source dateRange c =
     (b_id c \<noteq> b_id source \<and> b_goalNumber c = b_goalNumber source \<and>
      b_transactionType c = opposite_type (b_transactionType source) \<and>
      b_totalAmount c = - b_totalAmount source \<and>
      b_matchedGoalTransactionCode c = None \<and>
      b_reviewTag c \<noteq> Some REVERSAL_NETTED \<and>
      \<not> includes_str (b_transactionId c) ''Transfer_Reversal'' \<and> b_transactionId c \<noteq> ''RT Change'' \<and>
      (case dateRange of None \<Rightarrow> True | Some (s, e) \<Rightarrow> s \<le> b_transactionDate c \<and> b_transactionDate c \<le> e))"

definition find_reversal_candidates ::
    "database \<Rightarrow> row_id \<Rightarrow> (instant \<times> instant) option \<Rightarrow> match_error + (bank_txn \<times> bank_txn list)" where
  "find_reversal_candidates db i dateRange =
     (case List.find (\<lambda>b. b_id b = i) (db_bank db) of
        None \<Rightarrow> Inl (TxnNotFound i)
      | Some source \<Rightarrow> Inr (source, sort_key (\<lambda>b. - b_transactionDate b)
                                    (filter (reversal_candidate source dateRange) (db_bank db))))"

definition pair_note :: "row_id \<Rightarrow> string" where
  "pair_note i = ''Reversal pair with: '' @ i"

definition tag_reversal :: "instant \<Rightarrow> string \<Rightarrow> row_id \<Rightarrow> bank_txn \<Rightarrow> bank_txn" where
  "tag_reversal now who other b =
     b\<lparr>b_reviewTag := Some REVERSAL_NETTED, b_reviewNotes := Some (pair_note other),
       b_reviewedBy := Some who, b_reviewedAt := Some now, b_updatedAt := now\<rparr>"

definition link_reversal ::
    "instant \<Rightarrow> database \<Rightarrow> row_id \<Rightarrow> row_id \<Rightarrow> string \<Rightarrow> match_error + database" where
  "link_reversal now db i1 i2 who =
     (case (List.find (\<lambda>b. b_id b = i1) (db_bank db), List.find (\<lambda>b. b_id b = i2) (db_bank db)) of
        (Some t1, Some t2) \<Rightarrow>
          (if b_goalNumber t1 \<noteq> b_goalNumber t2 then Inl (DifferentGoals (b_goalNumber t1) (b_goalNumber t2))
           else if b_transactionType t1 = b_transactionType t2 then Inl (SameTypes (b_transactionType t1))
           else if \<bar>b_totalAmount t1 + b_totalAmount t2\<bar> > 1 / 100
           then Inl (NonZeroSum (b_totalAmount t1 + b_totalAmount t2))
           else Inr (db\<lparr>db_bank :=
                  update_where (\<lambda>b. b_id b = i2) (tag_reversal now who i1)
                    (update_where (\<lambda>b. b_id b = i1) (tag_reversal now who i2) (db_bank db))\<rparr>))
      | _ \<Rightarrow> Inl PairNotFound)"

text \<open>The regular expression \<open>/Reversal pair with: ([a-f0-9-]+)/\<close>: the leftmost occurrence of
  the literal that is followed by at least one id character, and the longest run of them.\<close>

definition id_char :: "char \<Rightarrow> bool" where
  "id_char c = (c \<in> set ''abcdef0123456789-'')"

fun paired_id :: "string \<Rightarrow> row_id option" where
  "paired_id s =
     (if prefix ''Reversal pair with: '' s \<and> takeWhile id_char (drop 20 s) \<noteq> []
      then Some (takeWhile id_char (drop 20 s))
      else case s of [] \<Rightarrow> None | _ # t \<Rightarrow> paired_id t)"

declare paired_id.simps [simp del]

definition noted_pair :: "bank_txn \<Rightarrow> row_id option" where
  "noted_pair b = (case b_reviewNotes b of None \<Rightarrow> None | Some s \<Rightarrow> paired_id s)"

definition untag :: "instant \<Rightarrow> bank_txn \<Rightarrow> bank_txn" where
  "untag now b = b\<lparr>b_reviewTag := None, b_reviewNotes := None, b_reviewedBy := None,
     b_reviewedAt := None, b_updatedAt := now\<rparr>"

definition unlink_reversal :: "instant \<Rightarrow> database \<Rightarrow> row_id \<Rightarrow> match_error + (nat \<times> database)" where
  "unlink_reversal now db i =
     (case List.find (\<lambda>b. b_id b = i) (db_bank db) of
        None \<Rightarrow> Inl (TxnNotFound i)
      | Some t \<Rightarrow>
          if b_reviewTag t \<noteq> Some REVERSAL_NETTED then Inl (NotAReversal i)
          else let rows = update_where (\<lambda>b. b_id b = i) (untag now) (db_bank db) in
            (case noted_pair t of
               None \<Rightarrow> Inr (1, db\<lparr>db_bank := rows\<rparr>)
             | Some j \<Rightarrow>
                 (case List.find (\<lambda>b. b_id b = j) rows of
                    Some p \<Rightarrow>
                      if b_reviewTag p = Some REVERSAL_NETTED
                      then Inr (2, db\<lparr>db_bank := update_where (\<lambda>b. b_id b = j) (untag now) rows\<rparr>)
                      else Inr (1, db\<lparr>db_bank := rows\<rparr>)
                  | None \<Rightarrow> Inr (1, db\<lparr>db_bank := rows\<rparr>))))"

definition get_reversal_pair_info :: "database \<Rightarrow> row_id \<Rightarrow> bool \<times> bank_txn option" where
  "get_reversal_pair_info db i =
     (case List.find (\<lambda>b. b_id b = i) (db_bank db) of
        None \<Rightarrow> (False, None)
      | Some t \<Rightarrow>
          if b_reviewTag t \<noteq> Some REVERSAL_NETTED then (False, None)
          else (case noted_pair t of None \<Rightarrow> (True, None)
                | Some j \<Rightarrow> (True, List.find (\<lambda>b. b_id b = j) (db_bank db))))"

end
