(* ===== verification/ReviewStatus.thy ===== *)
theory ReviewStatus
  imports ManualMatch
begin

text \<open>
  \<open>SmartMatcher.getGoalReviewStatus\<close>: which transactions of a goal have no counterpart with the
  same transaction id, and how many of them are reviewed. The two SQL queries are modelled as
  list comprehensions over the tables; dates are compared by day (\<open>::date\<close>).
\<close>

section \<open>SQL strings\<close>

text \<open>\<open>s LIKE '%Transfer_Reversal%'\<close>: the underscore matches any one character.\<close>

fun like_transfer_reversal :: "string \<Rightarrow> bool" where
  "like_transfer_reversal s =
     ((take 8 s = ''Transfer'' \<and> take 8 (drop 9 s) = ''Reversal'') \<or>
      (case s of [] \<Rightarrow> False | _ # t \<Rightarrow> like_transfer_reversal t))"

declare like_transfer_reversal.simps [simp del]

text \<open>\<open>split_part(s, ':', n)\<close>, counted from 1; empty when there are fewer fields.\<close>

definition split_part :: "char \<Rightarrow> nat \<Rightarrow> string \<Rightarrow> string" where
  "split_part c n s = (let ws = split_on c s in if n \<le> length ws then ws ! (n - 1) else [])"

text \<open>\<open>string_to_array(s, ',')\<close>: the empty string gives the empty array.\<close>

definition string_to_array :: "string \<Rightarrow> string list" where
  "string_to_array s = (if s = [] then [] else split_on CHR '','' s)"

text \<open>The goal codes the query reads out of \<open>matchedGoalTransactionCode\<close>.\<close>

definition sql_goal_codes :: "string \<Rightarrow> string list" where
  "sql_goal_codes s = string_to_array
     (if prefix ''MANUAL:'' s then split_part CHR '':'' 3 s
      else if CHR '':'' \<in> set s then split_part CHR '':'' 2 s
      else s)"

definition sql_code_refers :: "string \<Rightarrow> string \<Rightarrow> bool" where
  "sql_code_refers matched code = (matched = code \<or> code \<in> set (sql_goal_codes matched))"

section \<open>The two queries\<close>

definition in_days :: "int \<Rightarrow> int \<Rightarrow> instant \<Rightarrow> bool" where
  "in_days startDay endDay t = (startDay \<le> iso_day t \<and> iso_day t \<le> endDay)"

definition bank_counts :: "int \<Rightarrow> int \<Rightarrow> bank_txn \<Rightarrow> bool" where
  "bank_counts s e b =
     (in_days s e (b_transactionDate b) \<and>
      \<not> like_transfer_reversal (b_transactionId b) \<and> b_transactionId b \<noteq> ''RT Change'')"

definition fund_counts :: "int \<Rightarrow> int \<Rightarrow> fund_txn \<Rightarrow> bool" where
  "fund_counts s e f =
     (in_days s e (f_transactionDate f) \<and> f_source f \<noteq> Some Transfer_Reversal)"

definition fund_of_goal :: "database \<Rightarrow> string \<Rightarrow> fund_txn \<Rightarrow> bool" where
  "fund_of_goal db goalNumber f = (\<exists>g \<in> set (db_goals db). go_id g = f_goalId f \<and> go_number g = goalNumber)"

definition same_txn :: "bank_txn \<Rightarrow> fund_txn \<Rightarrow> bool" where
  "same_txn b f = (f_transactionId f = Some (b_transactionId b) \<and> f_transactionType f = b_transactionType b)"

definition unmatched_bank_rows :: "database \<Rightarrow> string \<Rightarrow> int \<Rightarrow> int \<Rightarrow> bank_txn list" where
  "unmatched_bank_rows db goalNumber s e =
     filter (\<lambda>b. b_goalNumber b = goalNumber \<and> bank_counts s e b \<and>
        \<not> (\<exists>f \<in> set (db_fund db). fund_of_goal db (b_goalNumber b) f \<and> same_txn b f \<and> fund_counts s e f))
       (db_bank db)"

definition unmatched_fund_rows :: "database \<Rightarrow> string \<Rightarrow> int \<Rightarrow> int \<Rightarrow> fund_txn list" where
  "unmatched_fund_rows db goalNumber s e =
     filter (\<lambda>f. fund_of_goal db goalNumber f \<and> fund_counts s e f \<and>
        \<not> (\<exists>b \<in> set (db_bank db). b_goalNumber b = goalNumber \<and> same_txn b f \<and> bank_counts s e b))
       (db_fund db)"

definition is_smart_matched :: "database \<Rightarrow> string \<Rightarrow> string \<Rightarrow> bool" where
  "is_smart_matched db goalNumber code =
     (\<exists>b \<in> set (db_bank db). b_goalNumber b = goalNumber \<and>
        (case b_matchedGoalTransactionCode b of None \<Rightarrow> False | Some m \<Rightarrow> sql_code_refers m code))"

text \<open>\<open>GROUP BY goalTransactionCode, reviewTag\<close>: one result row per pair.\<close>

definition unmatched_goal_rows :: "database \<Rightarrow> string \<Rightarrow> int \<Rightarrow> int \<Rightarrow> (string \<times> review_tag option \<times> bool) list" where
  "unmatched_goal_rows db goalNumber s e =
     map (\<lambda>(code, tag). (code, tag, is_smart_matched db goalNumber code))
       (remdups (map (\<lambda>f. (f_goalTransactionCode f, f_reviewTag f)) (unmatched_fund_rows db goalNumber s e)))"

section \<open>The status\<close>

datatype goal_review_state = GR_PENDING | GR_PARTIALLY_REVIEWED | GR_FULLY_REVIEWED | GR_NO_VARIANCES

record review_status =
  rs_status :: goal_review_state
  rs_total :: nat
  rs_reviewed :: nat
  rs_pending :: nat
  rs_byTag :: "(review_tag, nat) jsmap"

definition all_unmatched :: "database \<Rightarrow> string \<Rightarrow> int \<Rightarrow> int \<Rightarrow> (review_tag option \<times> bool) list" where
  "all_unmatched db goalNumber s e =
     map (\<lambda>b. (b_reviewTag b, b_reviewTag b \<noteq> None \<or> b_matchedGoalTransactionCode b \<noteq> None))
       (unmatched_bank_rows db goalNumber s e)
     @ map (\<lambda>(code, tag, smart). (tag, tag \<noteq> None \<or> smart)) (unmatched_goal_rows db goalNumber s e)"

definition tag_counts :: "(review_tag option \<times> bool) list \<Rightarrow> (review_tag, nat) jsmap" where
  "tag_counts rows =
     accumulate the (\<lambda>_. 0) (\<lambda>n _. n + 1) (filter (\<lambda>t. t \<noteq> None) (map fst rows))"

definition review_state_of :: "nat \<Rightarrow> nat \<Rightarrow> goal_review_state" where
  "review_state_of totalUnmatched reviewedCount =
     (if totalUnmatched = 0 then GR_NO_VARIANCES
      else if totalUnmatched - reviewedCount = 0 then GR_FULLY_REVIEWED
      else if reviewedCount > 0 then GR_PARTIALLY_REVIEWED
      else GR_PENDING)"

definition get_goal_review_status :: "database \<Rightarrow> string \<Rightarrow> int \<Rightarrow> int \<Rightarrow> review_status" where
  "get_goal_review_status db goalNumber s e =
     (let rows = all_unmatched db goalNumber s e; reviewed = length (filter snd rows)
      in \<lparr>rs_status = review_state_of (length rows) reviewed, rs_total = length rows,
          rs_reviewed = reviewed, rs_pending = length rows - reviewed, rs_byTag = tag_counts rows\<rparr>)"

end
