(* ===== verification/Summary.thy ===== *)
theory Summary
  imports ReviewStatus
begin

text \<open>
  The overviews of \<open>SmartMatcher.ts\<close>: per goal (\<open>getGoalSummary\<close>), per goal and fund
  (\<open>getFundSummary\<close>) and per account (\<open>getAccountFundSummary\<close>). Each is one SQL query, modelled
  CTE by CTE, followed by a classification of its rows in TypeScript. An aggregate without rows is
  \<open>None\<close> (SQL \<open>NULL\<close> after the left join). Two facts of the database are parameters: \<open>ilike\<close>, the
  case-insensitive pattern match, and \<open>collate\<close>, the sort key of its string order.
\<close>

section \<open>The goals and their labels\<close>

record goal_label =
  gl_number :: string
  gl_client :: string
  gl_account :: string

definition all_goal_info :: "database \<Rightarrow> goal_label list" where
  "all_goal_info db =
     concat (map (\<lambda>g. concat (map (\<lambda>a. map (\<lambda>c. \<lparr>gl_number = go_number g, gl_client = cl_name c, gl_account = ac_number a\<rparr>)
          (filter (\<lambda>c. cl_id c = ac_clientId a) (db_clients db)))
        (filter (\<lambda>a. ac_id a = go_accountId g) (db_accounts db)))) (db_goals db))"

text \<open>The optional search: an empty string is no filter.\<close>

definition search_pattern :: "string option \<Rightarrow> string option" where
  "search_pattern search = (if truthy_str search then map_option (\<lambda>q. ''%'' @ q @ ''%'') search else None)"

definition goal_search :: "(string \<Rightarrow> string \<Rightarrow> bool) \<Rightarrow> string option \<Rightarrow> goal_label \<Rightarrow> bool" where
  "goal_search ilike search l =
     (case search_pattern search of None \<Rightarrow> True
      | Some p \<Rightarrow> ilike (gl_number l) p \<or> ilike (gl_account l) p \<or> ilike (gl_client l) p)"

definition account_search :: "(string \<Rightarrow> string \<Rightarrow> bool) \<Rightarrow> string option \<Rightarrow> goal_label \<Rightarrow> bool" where
  "account_search ilike search l =
     (case search_pattern search of None \<Rightarrow> True
      | Some p \<Rightarrow> ilike (gl_account l) p \<or> ilike (gl_client l) p)"

definition goal_info :: "(goal_label \<Rightarrow> bool) \<Rightarrow> database \<Rightarrow> goal_label list" where
  "goal_info ok db = remdups (filter ok (all_goal_info db))"

section \<open>Goal summary: the query\<close>

definition bank_rows_of :: "database \<Rightarrow> string \<Rightarrow> transaction_type \<Rightarrow> int \<Rightarrow> int \<Rightarrow> bank_txn list" where
  "bank_rows_of db n t s e =
     filter (\<lambda>b. b_goalNumber b = n \<and> b_transactionType b = t \<and> bank_counts s e b) (db_bank db)"

definition fund_rows_of :: "database \<Rightarrow> string \<Rightarrow> transaction_type \<Rightarrow> int \<Rightarrow> int \<Rightarrow> fund_txn list" where
  "fund_rows_of db n t s e =
     filter (\<lambda>f. fund_of_goal db n f \<and> f_transactionType f = t \<and> fund_counts s e f) (db_fund db)"

definition bank_summary :: "database \<Rightarrow> string \<Rightarrow> transaction_type \<Rightarrow> int \<Rightarrow> int \<Rightarrow> (money \<times> nat) option" where
  "bank_summary db n t s e =
     (let rows = bank_rows_of db n t s e
      in if rows = [] then None else Some (sum_list (map b_totalAmount rows), length rows))"

definition goal_txn_summary :: "database \<Rightarrow> string \<Rightarrow> transaction_type \<Rightarrow> int \<Rightarrow> int \<Rightarrow> (money \<times> nat) option" where
  "goal_txn_summary db n t s e =
     (let rows = fund_rows_of db n t s e
      in if rows = [] then None
         else Some (sum_list (map f_amount rows), length (remdups (map f_goalTransactionCode rows))))"

definition coalesce :: "(money \<times> nat) option \<Rightarrow> money \<times> nat" where
  "coalesce x = (case x of None \<Rightarrow> (0, 0) | Some v \<Rightarrow> v)"

definition unmatched_bank_stats :: "database \<Rightarrow> string \<Rightarrow> int \<Rightarrow> int \<Rightarrow> nat \<times> nat" where
  "unmatched_bank_stats db n s e =
     (let rows = unmatched_bank_rows db n s e
      in (length (filter (\<lambda>b. b_reviewTag b = None \<and> b_matchedGoalTransactionCode b = None) rows),
          length (filter (\<lambda>b. b_reviewTag b \<noteq> None \<or> b_matchedGoalTransactionCode b \<noteq> None) rows)))"

definition unmatched_goal_stats :: "database \<Rightarrow> string \<Rightarrow> int \<Rightarrow> int \<Rightarrow> nat \<times> nat" where
  "unmatched_goal_stats db n s e =
     (let rows = unmatched_fund_rows db n s e;
          smart = (\<lambda>f. is_smart_matched db n (f_goalTransactionCode f))
      in (length (remdups (map f_goalTransactionCode (filter (\<lambda>f. f_reviewTag f = None \<and> \<not> smart f) rows))),
          length (remdups (map f_goalTransactionCode (filter (\<lambda>f. f_reviewTag f \<noteq> None \<or> smart f) rows)))))"

section \<open>Goal summary: classification\<close>

datatype summary_status = SS_MATCHED | SS_VARIANCE

datatype summary_review = SR_NOT_APPLICABLE | SR_UNREVIEWED | SR_PARTIALLY_REVIEWED | SR_REVIEWED

record goal_summary =
  gs_label :: goal_label
  gs_bankDeposits :: money
  gs_goalDeposits :: money
  gs_depositVariance :: money
  gs_depositBankCount :: nat
  gs_depositGoalCount :: nat
  gs_bankWithdrawals :: money
  gs_goalWithdrawals :: money
  gs_withdrawalVariance :: money
  gs_withdrawalBankCount :: nat
  gs_withdrawalGoalCount :: nat
  gs_status :: summary_status
  gs_hasVariance :: bool
  gs_reviewStatus :: summary_review
  gs_unreviewed :: nat
  gs_reviewed :: nat

definition exceeds_tolerance :: "money \<Rightarrow> money \<Rightarrow> bool" where
  "exceeds_tolerance variance goalAmount = (\<bar>variance\<bar> > match_tolerance goalAmount)"

definition classify_review :: "bool \<Rightarrow> nat \<Rightarrow> nat \<Rightarrow> summary_review" where
  "classify_review hasVariance unreviewed reviewed =
     (if \<not> hasVariance then SR_NOT_APPLICABLE
      else if unreviewed + reviewed = 0 then SR_NOT_APPLICABLE
      else if unreviewed = 0 then SR_REVIEWED
      else if reviewed > 0 then SR_PARTIALLY_REVIEWED
      else SR_UNREVIEWED)"

definition summarise_goal :: "database \<Rightarrow> int \<Rightarrow> int \<Rightarrow> goal_label \<Rightarrow> goal_summary" where
  "summarise_goal db s e l =
     (let n = gl_number l;
          bd = coalesce (bank_summary db n DEPOSIT s e); bw = coalesce (bank_summary db n WITHDRAWAL s e);
          gd = coalesce (goal_txn_summary db n DEPOSIT s e); gw = coalesce (goal_txn_summary db n WITHDRAWAL s e);
          ub = unmatched_bank_stats db n s e; ug = unmatched_goal_stats db n s e;
          unreviewed = fst ub + fst ug; reviewed = snd ub + snd ug;
          dv = fst bd - fst gd; wv = fst bw - fst gw;
          hasVariance = (exceeds_tolerance dv (fst gd) \<or> exceeds_tolerance wv (fst gw))
      in \<lparr>gs_label = l, gs_bankDeposits = fst bd, gs_goalDeposits = fst gd, gs_depositVariance = dv,
          gs_depositBankCount = snd bd, gs_depositGoalCount = snd gd,
          gs_bankWithdrawals = fst bw, gs_goalWithdrawals = fst gw, gs_withdrawalVariance = wv,
          gs_withdrawalBankCount = snd bw, gs_withdrawalGoalCount = snd gw,
          gs_status = (if hasVariance then SS_VARIANCE else SS_MATCHED), gs_hasVariance = hasVariance,
          gs_reviewStatus = classify_review hasVariance unreviewed reviewed,
          gs_unreviewed = unreviewed, gs_reviewed = reviewed\<rparr>)"

text \<open>The \<open>WHERE\<close> of the outer query: some aggregate exists.\<close>

definition goal_active :: "database \<Rightarrow> int \<Rightarrow> int \<Rightarrow> goal_label \<Rightarrow> bool" where
  "goal_active db s e l =
     (bank_summary db (gl_number l) DEPOSIT s e \<noteq> None \<or> bank_summary db (gl_number l) WITHDRAWAL s e \<noteq> None \<or>
      goal_txn_summary db (gl_number l) DEPOSIT s e \<noteq> None \<or> goal_txn_summary db (gl_number l) WITHDRAWAL s e \<noteq> None)"

datatype goal_filter = GF_ALL | GF_MATCHED | GF_VARIANCE | GF_REVIEWED | GF_UNREVIEWED | GF_PARTIAL

fun passes_filter :: "goal_filter \<Rightarrow> goal_summary \<Rightarrow> bool" where
  "passes_filter GF_ALL r = True"
| "passes_filter GF_MATCHED r = (gs_status r = SS_MATCHED)"
| "passes_filter GF_VARIANCE r = (gs_status r = SS_VARIANCE)"
| "passes_filter GF_REVIEWED r = (gs_status r = SS_VARIANCE \<and> gs_reviewStatus r = SR_REVIEWED)"
| "passes_filter GF_UNREVIEWED r = (gs_status r = SS_VARIANCE \<and>
     (gs_reviewStatus r = SR_UNREVIEWED \<or> gs_reviewStatus r = SR_PARTIALLY_REVIEWED))"
| "passes_filter GF_PARTIAL r = (gs_status r = SS_VARIANCE \<and> gs_reviewStatus r = SR_PARTIALLY_REVIEWED)"

definition get_goal_summary ::
    "(string \<Rightarrow> string \<Rightarrow> bool) \<Rightarrow> (string \<Rightarrow> nat) \<Rightarrow> database \<Rightarrow> int \<Rightarrow> int \<Rightarrow> string option \<Rightarrow> goal_filter
       \<Rightarrow> goal_summary list \<times> nat" where
  "get_goal_summary ilike collate db s e search flt =
     (let labels = sort_key (collate \<circ> gl_number)
            (filter (goal_active db s e) (goal_info (goal_search ilike search) db));
          rows = filter (passes_filter flt) (map (summarise_goal db s e) labels)
      in (rows, length rows))"

section \<open>Fund summary\<close>

record fund_sums =
  fs_xummf :: money
  fs_xubf :: money
  fs_xudef :: money
  fs_xuref :: money
  fs_total :: money

definition zero_sums :: fund_sums where
  "zero_sums = \<lparr>fs_xummf = 0, fs_xubf = 0, fs_xudef = 0, fs_xuref = 0, fs_total = 0\<rparr>"

definition bank_fund_summary :: "database \<Rightarrow> string \<Rightarrow> int \<Rightarrow> int \<Rightarrow> fund_sums option" where
  "bank_fund_summary db n s e =
     (let rows = filter (\<lambda>b. b_goalNumber b = n \<and> bank_counts s e b) (db_bank db)
      in if rows = [] then None
         else Some \<lparr>fs_xummf = sum_list (map b_xummfAmount rows), fs_xubf = sum_list (map b_xubfAmount rows),
                    fs_xudef = sum_list (map b_xudefAmount rows), fs_xuref = sum_list (map b_xurefAmount rows),
                    fs_total = sum_list (map b_totalAmount rows)\<rparr>)"

definition sum_for_fund :: "string \<Rightarrow> fund_txn list \<Rightarrow> money" where
  "sum_for_fund code rows = sum_list (map f_amount (filter (\<lambda>f. f_fundCode f = code) rows))"

definition goal_fund_summary :: "database \<Rightarrow> string \<Rightarrow> int \<Rightarrow> int \<Rightarrow> fund_sums option" where
  "goal_fund_summary db n s e =
     (let rows = filter (\<lambda>f. fund_of_goal db n f \<and> fund_counts s e f) (db_fund db)
      in if rows = [] then None
         else Some \<lparr>fs_xummf = sum_for_fund ''XUMMF'' rows, fs_xubf = sum_for_fund ''XUBF'' rows,
                    fs_xudef = sum_for_fund ''XUDEF'' rows, fs_xuref = sum_for_fund ''XUREF'' rows,
                    fs_total = sum_list (map f_amount rows)\<rparr>)"

record fund_summary =
  fu_label :: goal_label
  fu_bank :: fund_sums
  fu_goal :: fund_sums
  fu_variance :: fund_sums
  fu_status :: summary_status

definition sub_sums :: "fund_sums \<Rightarrow> fund_sums \<Rightarrow> fund_sums" where
  "sub_sums a b = \<lparr>fs_xummf = fs_xummf a - fs_xummf b, fs_xubf = fs_xubf a - fs_xubf b,
     fs_xudef = fs_xudef a - fs_xudef b, fs_xuref = fs_xuref a - fs_xuref b, fs_total = fs_total a - fs_total b\<rparr>"

definition check_variance :: "money \<Rightarrow> money \<Rightarrow> bool" where
  "check_variance goalAmount variance = (\<bar>variance\<bar> > max (\<bar>goalAmount\<bar> * (1 / 100)) 1000)"

definition any_fund_variance :: "fund_sums \<Rightarrow> fund_sums \<Rightarrow> bool" where
  "any_fund_variance goal var =
     (check_variance (fs_xummf goal) (fs_xummf var) \<or> check_variance (fs_xubf goal) (fs_xubf var) \<or>
      check_variance (fs_xudef goal) (fs_xudef var) \<or> check_variance (fs_xuref goal) (fs_xuref var))"

definition or_zero :: "fund_sums option \<Rightarrow> fund_sums" where
  "or_zero x = (case x of None \<Rightarrow> zero_sums | Some v \<Rightarrow> v)"

definition goal_fund_level :: "(goal_label \<Rightarrow> bool) \<Rightarrow> database \<Rightarrow> int \<Rightarrow> int \<Rightarrow> (goal_label \<times> fund_sums \<times> fund_sums) list" where
  "goal_fund_level ok db s e =
     map (\<lambda>l. (l, or_zero (bank_fund_summary db (gl_number l) s e), or_zero (goal_fund_summary db (gl_number l) s e)))
       (filter (\<lambda>l. bank_fund_summary db (gl_number l) s e \<noteq> None \<or> goal_fund_summary db (gl_number l) s e \<noteq> None)
         (goal_info ok db))"

definition summarise_funds :: "goal_label \<times> fund_sums \<times> fund_sums \<Rightarrow> fund_summary" where
  "summarise_funds row =
     (case row of (l, bank, goal) \<Rightarrow>
        \<lparr>fu_label = l, fu_bank = bank, fu_goal = goal, fu_variance = sub_sums bank goal,
         fu_status = (if any_fund_variance goal (sub_sums bank goal) then SS_VARIANCE else SS_MATCHED)\<rparr>)"

datatype fund_filter = FF_ALL | FF_MATCHED | FF_VARIANCE | FF_REVIEWED

text \<open>The filter compares the status with the requested string.\<close>

fun status_is :: "summary_status \<Rightarrow> fund_filter \<Rightarrow> bool" where
  "status_is st FF_ALL = True"
| "status_is st FF_MATCHED = (st = SS_MATCHED)"
| "status_is st FF_VARIANCE = (st = SS_VARIANCE)"
| "status_is st FF_REVIEWED = False"

definition get_fund_summary ::
    "(string \<Rightarrow> string \<Rightarrow> bool) \<Rightarrow> (string \<Rightarrow> nat) \<Rightarrow> database \<Rightarrow> int \<Rightarrow> int \<Rightarrow> string option \<Rightarrow> fund_filter
       \<Rightarrow> fund_summary list \<times> nat" where
  "get_fund_summary ilike collate db s e search flt =
     (let rows = filter (\<lambda>r. status_is (fu_status r) flt)
            (map summarise_funds (sort_key (collate \<circ> gl_number \<circ> fst) (goal_fund_level (goal_search ilike search) db s e)))
      in (rows, length rows))"

section \<open>Account summary\<close>

record account_summary =
  as_account :: string
  as_client :: string
  as_goalCount :: nat
  as_bank :: fund_sums
  as_goal :: fund_sums
  as_variance :: fund_sums
  as_status :: summary_status
  as_matchedGoals :: nat
  as_varianceGoals :: nat

text \<open>The \<open>CASE\<close> of \<open>goal_with_status\<close>, in SQL.\<close>

definition sql_exceeds :: "money \<Rightarrow> money \<Rightarrow> bool" where
  "sql_exceeds bank goal = (\<bar>bank - goal\<bar> > max (\<bar>goal\<bar> * (1 / 100)) 1000)"

definition sql_has_variance :: "fund_sums \<Rightarrow> fund_sums \<Rightarrow> bool" where
  "sql_has_variance bank goal =
     (sql_exceeds (fs_xummf bank) (fs_xummf goal) \<or> sql_exceeds (fs_xubf bank) (fs_xubf goal) \<or>
      sql_exceeds (fs_xudef bank) (fs_xudef goal) \<or> sql_exceeds (fs_xuref bank) (fs_xuref goal))"

definition add_sums :: "fund_sums list \<Rightarrow> fund_sums" where
  "add_sums xs = \<lparr>fs_xummf = sum_list (map fs_xummf xs), fs_xubf = sum_list (map fs_xubf xs),
     fs_xudef = sum_list (map fs_xudef xs), fs_xuref = sum_list (map fs_xuref xs), fs_total = sum_list (map fs_total xs)\<rparr>"

definition max_by :: "('a \<Rightarrow> nat) \<Rightarrow> 'a list \<Rightarrow> 'a" where
  "max_by key xs = foldl (\<lambda>m x. if key m < key x then x else m) (hd xs) (tl xs)"

definition summarise_account :: "(string \<Rightarrow> nat) \<Rightarrow> string \<times> (goal_label \<times> fund_sums \<times> fund_sums) list \<Rightarrow> account_summary" where
  "summarise_account collate entry =
     (let rows = snd entry;
          bank = add_sums (map (\<lambda>r. fst (snd r)) rows); goal = add_sums (map (\<lambda>r. snd (snd r)) rows);
          var = sub_sums bank goal
      in \<lparr>as_account = fst entry, as_client = max_by collate (map (\<lambda>r. gl_client (fst r)) rows),
          as_goalCount = length (remdups (map (\<lambda>r. gl_number (fst r)) rows)),
          as_bank = bank, as_goal = goal, as_variance = var,
          as_status = (if any_fund_variance goal var then SS_VARIANCE else SS_MATCHED),
          as_matchedGoals = length (filter (\<lambda>r. \<not> sql_has_variance (fst (snd r)) (snd (snd r))) rows),
          as_varianceGoals = length (filter (\<lambda>r. sql_has_variance (fst (snd r)) (snd (snd r))) rows)\<rparr>)"

definition get_account_fund_summary ::
    "(string \<Rightarrow> string \<Rightarrow> bool) \<Rightarrow> (string \<Rightarrow> nat) \<Rightarrow> database \<Rightarrow> int \<Rightarrow> int \<Rightarrow> string option \<Rightarrow> fund_filter
       \<Rightarrow> account_summary list \<times> nat" where
  "get_account_fund_summary ilike collate db s e search flt =
     (let groups = group_by (\<lambda>r. gl_account (fst r)) (goal_fund_level (account_search ilike search) db s e);
          rows = filter (\<lambda>r. status_is (as_status r) flt)
            (map (summarise_account collate) (sort_key (collate \<circ> fst) groups))
      in (rows, length rows))"

end
