(* ===== verification/VarianceList.thy ===== *)
theory VarianceList
  imports Summary "HOL-Library.Product_Lexorder"
begin

text \<open>
  \<open>SmartMatcher.getVarianceTransactions\<close>: the goals whose totals vary are found in SQL, their
  transactions are fetched and matched in memory, and what stays unmatched is filtered, sorted
  and counted. The matching repeats the passes of \<open>getGoalTransactions\<close> with differences that the
  definitions keep: no pass for several goal transactions against one bank transaction, and a first pass
  that looks at every goal transaction with the same transaction id. Only the two sets of
  claimed ids are used here; the list of matches in the state is not read.
\<close>

section \<open>Step 1: goals with a variance\<close>

definition fund_counts_strict :: "int \<Rightarrow> int \<Rightarrow> fund_txn \<Rightarrow> bool" where
  "fund_counts_strict s e f =
     (in_days s e (f_transactionDate f) \<and>
      (case f_source f of None \<Rightarrow> False | Some src \<Rightarrow> src \<noteq> Transfer_Reversal))"

definition bank_period :: "database \<Rightarrow> int \<Rightarrow> int \<Rightarrow> bank_txn list" where
  "bank_period db s e = filter (bank_counts s e) (db_bank db)"

text \<open>The fund rows of the period joined with their goal.\<close>

definition fund_period :: "database \<Rightarrow> int \<Rightarrow> int \<Rightarrow> (string \<times> fund_txn) list" where
  "fund_period db s e =
     concat (map (\<lambda>f. map (\<lambda>g. (go_number g, f)) (filter (\<lambda>g. go_id g = f_goalId f) (db_goals db)))
       (filter (fund_counts_strict s e) (db_fund db)))"

definition bank_type_total :: "transaction_type \<Rightarrow> bank_txn list \<Rightarrow> money" where
  "bank_type_total t rows = sum_list (map (\<lambda>b. if b_transactionType b = t then b_totalAmount b else 0) rows)"

definition fund_type_total :: "transaction_type \<Rightarrow> fund_txn list \<Rightarrow> money" where
  "fund_type_total t rows = sum_list (map (\<lambda>f. if f_transactionType f = t then f_amount f else 0) rows)"

definition goal_varies :: "database \<Rightarrow> int \<Rightarrow> int \<Rightarrow> string \<Rightarrow> bool" where
  "goal_varies db s e n =
     (let bs = filter (\<lambda>b. b_goalNumber b = n) (bank_period db s e);
          fs = map snd (filter (\<lambda>x. fst x = n) (fund_period db s e))
      in \<bar>bank_type_total DEPOSIT bs - fund_type_total DEPOSIT fs\<bar> > 1000 \<or>
         \<bar>bank_type_total WITHDRAWAL bs - fund_type_total WITHDRAWAL fs\<bar> > 1000 \<or>
         fs = [] \<or> bs = [])"

definition goals_with_variance :: "(string \<Rightarrow> nat) \<Rightarrow> database \<Rightarrow> int \<Rightarrow> int \<Rightarrow> string list" where
  "goals_with_variance collate db s e =
     sort_key collate (filter (goal_varies db s e)
       (remdups (map b_goalNumber (bank_period db s e) @ map fst (fund_period db s e))))"

text \<open>\<open>toLowerCase\<close> on the Latin letters.\<close>

definition lower_includes :: "string \<Rightarrow> string \<Rightarrow> bool" where
  "lower_includes s searchTerm = includes_str (to_lower s) (to_lower searchTerm)"

record variance_filters =
  vf_pendingOnly :: "bool option"
  vf_reviewTag :: "string option"
  vf_search :: "string option"
  vf_resolvedOnly :: "bool option"
  vf_source :: "bool option"

definition searched_goals :: "variance_filters \<Rightarrow> string list \<Rightarrow> string list" where
  "searched_goals flt goals =
     (case vf_search flt of None \<Rightarrow> goals
      | Some q \<Rightarrow> if q = [] then goals else filter (\<lambda>n. lower_includes n q) goals)"

section \<open>Step 2 and 3: the transactions of those goals\<close>

definition label_of_bank :: "database \<Rightarrow> bank_txn \<Rightarrow> (string \<times> string) list" where
  "label_of_bank db b =
     concat (map (\<lambda>c. map (\<lambda>a. (cl_name c, ac_number a)) (filter (\<lambda>a. ac_id a = b_accountId b) (db_accounts db)))
       (filter (\<lambda>c. cl_id c = b_clientId b) (db_clients db)))"

type_synonym labelled_bank = "bank_txn \<times> string \<times> string"

definition goal_bank_txns :: "database \<Rightarrow> int \<Rightarrow> int \<Rightarrow> string \<Rightarrow> labelled_bank list" where
  "goal_bank_txns db s e n =
     sort_key (\<lambda>x. b_transactionDate (fst x))
       (concat (map (\<lambda>b. map (\<lambda>l. (b, l)) (label_of_bank db b))
         (filter (\<lambda>b. b_goalNumber b = n) (bank_period db s e))))"

type_synonym labelled_fund = "fund_txn \<times> string \<times> string"

definition goal_fund_txns :: "database \<Rightarrow> int \<Rightarrow> int \<Rightarrow> string \<Rightarrow> labelled_fund list" where
  "goal_fund_txns db s e n =
     sort_key (\<lambda>x. f_transactionDate (fst x))
       (concat (map (\<lambda>f.
           concat (map (\<lambda>g. concat (map (\<lambda>a. map (\<lambda>c. (f, cl_name c, ac_number a))
                 (filter (\<lambda>c. cl_id c = ac_clientId a) (db_clients db)))
               (filter (\<lambda>a. ac_id a = go_accountId g) (db_accounts db))))
             (filter (\<lambda>g. go_id g = f_goalId f \<and> go_number g = n) (db_goals db))))
         (filter (fund_counts_strict s e) (db_fund db))))"

text \<open>A group carries, beside the fields of a goal transaction, the labels and resolution fields of the
  row that opened it.\<close>

type_synonym variance_group = "fund_group \<times> labelled_fund"

definition variance_groups :: "labelled_fund list \<Rightarrow> variance_group list" where
  "variance_groups fts =
     map snd (accumulate (\<lambda>x. fund_key (fst x)) (\<lambda>x. (new_group (fst x), x))
       (\<lambda>v x. (add_to_group (fst v) (fst x), snd v)) fts)"

section \<open>Step 4: matching\<close>

definition txn_id_candidate :: "match_state \<Rightarrow> bank_txn \<Rightarrow> fund_group \<Rightarrow> bool" where
  "txn_id_candidate st b g =
     (group_free st g \<and> g_transactionId g = Some (b_transactionId b) \<and> g_type g = b_transactionType b \<and>
      amounts_within (b_totalAmount b) (g_total g))"

definition variance_pass1_step :: "fund_group list \<Rightarrow> match_state \<Rightarrow> bank_txn \<Rightarrow> match_state" where
  "variance_pass1_step groups st b =
     (if \<not> bank_free st b then st
      else case List.find (txn_id_candidate st b) groups of
        None \<Rightarrow> st
      | Some g \<Rightarrow> commit \<lparr>m_bankIds = [b_id b], m_fundIds = g_ids g, m_matchType = EXACT, m_confidence = 1,
            m_bankTotal = b_totalAmount b, m_fundTotal = g_total g\<rparr> st)"

definition variance_match :: "bank_txn list \<Rightarrow> fund_group list \<Rightarrow> match_state" where
  "variance_match banks groups =
     pass3 banks groups
       (foldl (pass2_step groups)
         (foldl (variance_pass1_step groups) (pass0 banks groups init_state) banks) banks)"

section \<open>The rows of the answer\<close>

datatype variance_side = BANK_SIDE | GOAL_SIDE

record variance_row =
  v_source :: variance_side
  v_id :: string
  v_goal :: string
  v_client :: string
  v_account :: string
  v_date :: instant
  v_type :: transaction_type
  v_amount :: money
  v_xummf :: money
  v_xubf :: money
  v_xudef :: money
  v_xuref :: money
  v_txnId :: "string option"
  v_reviewTag :: "review_tag option"
  v_reviewNotes :: "string option"
  v_reviewedBy :: "string option"
  v_reviewedAt :: "instant option"
  v_resolved :: bool
  v_resolvedAt :: "instant option"
  v_resolvedReason :: "string option"

definition bank_variance_row :: "labelled_bank \<Rightarrow> variance_row" where
  "bank_variance_row x = (case x of (b, client, account) \<Rightarrow>
     \<lparr>v_source = BANK_SIDE, v_id = b_id b, v_goal = b_goalNumber b, v_client = client, v_account = account,
      v_date = b_transactionDate b, v_type = b_transactionType b, v_amount = b_totalAmount b,
      v_xummf = b_xummfAmount b, v_xubf = b_xubfAmount b, v_xudef = b_xudefAmount b, v_xuref = b_xurefAmount b,
      v_txnId = Some (b_transactionId b), v_reviewTag = b_reviewTag b, v_reviewNotes = b_reviewNotes b,
      v_reviewedBy = b_reviewedBy b, v_reviewedAt = b_reviewedAt b, v_resolved = b_varianceResolved b,
      v_resolvedAt = b_resolvedAt b, v_resolvedReason = b_resolvedReason b\<rparr>)"

definition goal_variance_row :: "string \<Rightarrow> variance_group \<Rightarrow> variance_row" where
  "goal_variance_row n v = (case v of (g, f, client, account) \<Rightarrow>
     \<lparr>v_source = GOAL_SIDE, v_id = g_originalCode g, v_goal = n, v_client = client, v_account = account,
      v_date = g_date g, v_type = g_type g, v_amount = g_total g,
      v_xummf = g_xummf g, v_xubf = g_xubf g, v_xudef = g_xudef g, v_xuref = g_xuref g,
      v_txnId = g_transactionId g, v_reviewTag = g_reviewTag g, v_reviewNotes = g_reviewNotes g,
      v_reviewedBy = g_reviewedBy g, v_reviewedAt = g_reviewedAt g, v_resolved = f_varianceResolved f,
      v_resolvedAt = f_resolvedAt f, v_resolvedReason = f_resolvedReason f\<rparr>)"

definition goal_unmatched :: "database \<Rightarrow> int \<Rightarrow> int \<Rightarrow> string \<Rightarrow> variance_row list \<times> variance_row list" where
  "goal_unmatched db s e n =
     (let banks = goal_bank_txns db s e n; groups = variance_groups (goal_fund_txns db s e n);
          st = variance_match (map fst banks) (map fst groups)
      in (map bank_variance_row (filter (\<lambda>x. bank_free st (fst x)) banks),
          map (goal_variance_row n) (filter (\<lambda>v. group_free st (fst v)) groups)))"

section \<open>Step 5: filters, order, summary\<close>

definition tag_name :: "review_tag \<Rightarrow> string" where
  "tag_name t = (case t of
     DUPLICATE_TRANSACTION \<Rightarrow> ''DUPLICATE_TRANSACTION'' | NO_ACTION_NEEDED \<Rightarrow> ''NO_ACTION_NEEDED''
   | MISSING_IN_BANK \<Rightarrow> ''MISSING_IN_BANK'' | MISSING_IN_GOAL \<Rightarrow> ''MISSING_IN_GOAL''
   | TIMING_DIFFERENCE \<Rightarrow> ''TIMING_DIFFERENCE'' | AMOUNT_DISCREPANCY \<Rightarrow> ''AMOUNT_DISCREPANCY''
   | DATA_ENTRY_ERROR \<Rightarrow> ''DATA_ENTRY_ERROR'' | UNDER_INVESTIGATION \<Rightarrow> ''UNDER_INVESTIGATION''
   | REVERSAL_NETTED \<Rightarrow> ''REVERSAL_NETTED'')"

definition row_passes :: "variance_filters \<Rightarrow> variance_row \<Rightarrow> bool" where
  "row_passes flt r =
     ((case vf_search flt of None \<Rightarrow> True | Some q \<Rightarrow>
         q = [] \<or> lower_includes (v_client r) q \<or> lower_includes (v_goal r) q \<or>
         (v_account r \<noteq> [] \<and> lower_includes (v_account r) q)) \<and>
      (case vf_reviewTag flt of None \<Rightarrow> True | Some t \<Rightarrow>
         t = [] \<or>
         (if t = ''__NO_TAG__'' then v_reviewTag r = None
          else if t = ''__ANY_TAG__'' then v_reviewTag r \<noteq> None
          else map_option tag_name (v_reviewTag r) = Some t)) \<and>
      (case vf_pendingOnly flt of None \<Rightarrow> True | Some True \<Rightarrow> v_reviewTag r = None | Some False \<Rightarrow> v_reviewTag r \<noteq> None) \<and>
      (case vf_resolvedOnly flt of None \<Rightarrow> True | Some True \<Rightarrow> v_resolved r | Some False \<Rightarrow> \<not> v_resolved r))"

record variance_counts =
  vc_total :: nat
  vc_pending :: nat
  vc_reviewed :: nat
  vc_byTag :: "(review_tag, nat) jsmap"
  vc_missingInBank :: nat
  vc_missingInFund :: nat

definition count_variances :: "variance_row list \<Rightarrow> variance_row list \<Rightarrow> variance_counts" where
  "count_variances bank goal =
     (let rows = bank @ goal; pending = length (filter (\<lambda>r. v_reviewTag r = None) rows)
      in \<lparr>vc_total = length rows, vc_pending = pending, vc_reviewed = length rows - pending,
          vc_byTag = accumulate (\<lambda>r. the (v_reviewTag r)) (\<lambda>_. 0) (\<lambda>k _. k + 1) (filter (\<lambda>r. v_reviewTag r \<noteq> None) rows),
          vc_missingInBank = length goal, vc_missingInFund = length bank\<rparr>)"

text \<open>The filter \<open>transactionSource\<close>: \<open>Some True\<close> is \<open>BANK\<close>, \<open>Some False\<close> is \<open>GOAL\<close>; \<open>reviewStatus\<close> and
  \<open>resolutionStatus\<close> are coded the same way (\<open>None\<close> is \<open>ALL\<close>). The last component of the sort key is
  the rank of the goal number in the order of \<open>localeCompare\<close>.\<close>

definition get_variance_transactions ::
    "(string \<Rightarrow> nat) \<Rightarrow> (string \<Rightarrow> nat) \<Rightarrow> database \<Rightarrow> int \<Rightarrow> int \<Rightarrow> variance_filters \<Rightarrow> variance_row list \<times> variance_counts" where
  "get_variance_transactions collate locale_rank db s e flt =
     (let unmatched = map (goal_unmatched db s e) (searched_goals flt (goals_with_variance collate db s e));
          bank = concat (map fst unmatched); goal = concat (map snd unmatched);
          shown = (if vf_source flt = Some False then [] else bank) @ (if vf_source flt = Some True then [] else goal)
      in (sort_key (\<lambda>r. (- v_date r, locale_rank (v_goal r))) (filter (row_passes flt) shown),
          count_variances bank goal))"

end
