(* ===== verification/SmartMatchProperties.thy ===== *)
theory SmartMatchProperties
  imports SmartMatchResult
begin

text \<open>
  The properties of smart matching: what an answer of
  \<open>SmartMatcher.getGoalTransactions\<close> guarantees about the bank rows and fund rows it was
  computed from. The example rows at the start instantiate the hypotheses in the witnesses.
\<close>

section \<open>Example rows\<close>

definition ex_bank :: "string \<Rightarrow> string \<Rightarrow> int \<Rightarrow> money \<Rightarrow> string option \<Rightarrow> bank_txn" where
  "ex_bank i txid day amount code =
     \<lparr>b_id = i, b_clientId = ''c'', b_accountId = ''a'', b_goalId = ''g'', b_uploadBatchId = ''u'',
      b_transactionDate = day * ms_per_day, b_transactionType = DEPOSIT, b_transactionId = txid,
      b_goalNumber = ''G'', b_totalAmount = amount, b_xummfAmount = 0, b_xubfAmount = 0,
      b_xudefAmount = 0, b_xurefAmount = 0, b_reconciliationStatus = RS_PENDING,
      b_matchedGoalTransactionCode = code, b_matchedAt = None, b_matchScore = None,
      b_reviewTag = None, b_reviewNotes = None, b_reviewedAt = None, b_reviewedBy = None,
      b_varianceResolved = False, b_resolvedAt = None, b_resolvedReason = None,
      b_resolvedByBatchId = None, b_createdAt = 0, b_updatedAt = 0, b_rowNumber = 1\<rparr>"

definition ex_fund :: "string \<Rightarrow> string \<Rightarrow> string \<Rightarrow> int \<Rightarrow> money \<Rightarrow> fund_txn" where
  "ex_fund i code txid day amount =
     \<lparr>f_id = i, f_goalTransactionCode = code, f_transactionId = Some txid, f_source = Some BANK,
      f_clientId = ''c'', f_accountId = ''a'', f_goalId = ''g'', f_fundCode = ''XUMMF'',
      f_uploadBatchId = ''v'', f_transactionDate = day * ms_per_day, f_transactionType = DEPOSIT,
      f_amount = amount, f_units = 1, f_reviewTag = None, f_reviewNotes = None,
      f_reviewedAt = None, f_reviewedBy = None, f_varianceResolved = False, f_resolvedAt = None,
      f_resolvedReason = None, f_resolvedByBatchId = None, f_rowNumber = 1\<rparr>"

text \<open>
  \<open>b1\<close> matches \<open>c1\<close> by transaction id, \<open>b2\<close> matches \<open>c2\<close> by amount, \<open>b3\<close> and \<open>b4\<close> together
  make up \<open>c3\<close>, \<open>b5\<close> and \<open>c4\<close> stay unmatched.
\<close>

definition ex_banks :: "bank_txn list" where
  "ex_banks = [ex_bank ''b1'' ''T1'' 0 5000 None, ex_bank ''b2'' ''T2'' 3 9000 None,
     ex_bank ''b3'' ''T3'' 90 30000 None, ex_bank ''b4'' ''T4'' 90 20000 None,
     ex_bank ''b5'' ''T5'' 200 777 None]"

definition ex_funds :: "fund_txn list" where
  "ex_funds = [ex_fund ''f1'' ''c1'' ''T1'' 1 3000, ex_fund ''f2'' ''c1'' ''T1'' 1 2000,
     ex_fund ''f3'' ''c2'' ''Q2'' 5 9100, ex_fund ''f4'' ''c3'' ''Q3'' 90 50000,
     ex_fund ''f5'' ''c4'' ''Q4'' 91 123456]"

lemma ex_hyps:
  "distinct (map b_id ex_banks)" "distinct (map f_id ex_funds)" "wf_manual ex_banks"
  by (simp_all add: ex_banks_def ex_funds_def ex_bank_def ex_fund_def wf_manual_def has_manual_code_def)

text \<open>The answer computed for the example: one match of three kinds, two rows left over.\<close>

lemma ex_matches: "r_matches (goal_answer_of ex_banks ex_funds) =
    [\<lparr>m_bankIds = [''b1''], m_fundIds = [''f1'', ''f2''], m_matchType = EXACT, m_confidence = 1,
      m_bankTotal = 5000, m_fundTotal = 5000\<rparr>,
     \<lparr>m_bankIds = [''b2''], m_fundIds = [''f3''], m_matchType = AMOUNT, m_confidence = 78 / 100,
      m_bankTotal = 9000, m_fundTotal = 9100\<rparr>,
     \<lparr>m_bankIds = [''b3'', ''b4''], m_fundIds = [''f4''], m_matchType = SPLIT_BANK_TO_FUND,
      m_confidence = 7 / 10, m_bankTotal = 50000, m_fundTotal = 50000\<rparr>]"
  by code_simp

lemma ex_unmatched:
  "r_unmatchedBank (goal_answer_of ex_banks ex_funds) = [''b5'']"
  "r_unmatchedGoalTxn (goal_answer_of ex_banks ex_funds) = [''c4'']"
  by code_simp+

lemma ex_memberships:
  "ex_bank ''b5'' ''T5'' 200 777 None \<in> set ex_banks"
  "ex_bank ''b3'' ''T3'' 90 30000 None \<in> set ex_banks"
  "ex_fund ''f5'' ''c4'' ''Q4'' 91 123456 \<in> set ex_funds"
  by (simp_all add: ex_banks_def ex_funds_def)

section \<open>Who may be matched with whom\<close>

text \<open>C2: no bank transaction and no fund transaction is claimed by two matches of an
  answer, nor twice by one match.\<close>

theorem no_double_claim:
  assumes "distinct (map b_id banks)" "distinct (map f_id fts)" "wf_manual banks"
  shows "distinct (concat (map m_bankIds (r_matches (goal_answer_of banks fts)))) \<and>
         distinct (concat (map m_fundIds (r_matches (goal_answer_of banks fts))))"
  using answer_inv [OF assms] by (simp add: match_inv_def answer_fields)

theorem no_double_claim_witness:
  "distinct [''b1'', ''b2'', ''b3'', ''b4'']"
  using no_double_claim [OF ex_hyps] by (simp add: ex_matches)

text \<open>A match lists rows of the two lists it was computed from, and its two totals are
  the sums of the amounts of exactly those rows.\<close>

theorem match_totals:
  assumes "distinct (map b_id banks)" "distinct (map f_id fts)" "wf_manual banks"
    and "m \<in> set (r_matches (goal_answer_of banks fts))"
  shows "set (m_bankIds m) \<subseteq> b_id ` set banks \<and> m_bankIds m \<noteq> [] \<and>
         set (m_fundIds m) \<subseteq> f_id ` set fts \<and> m_fundIds m \<noteq> [] \<and>
         m_bankTotal m = sum_list (map b_totalAmount (filter (\<lambda>b. b_id b \<in> set (m_bankIds m)) banks)) \<and>
         m_fundTotal m = sum_list (map f_amount (filter (\<lambda>f. f_id f \<in> set (m_fundIds m)) fts))"
proof -
  note j = answer_match [OF assms]
  obtain bs gs where p:
    "m_bankIds m = map b_id bs" "set bs \<subseteq> set banks" "m_bankTotal m = sum_list (map b_totalAmount bs)"
    "m_fundIds m = concat (map g_ids gs)" "set gs \<subseteq> set (fund_groups fts)"
    "m_fundTotal m = sum_list (map g_total gs)" "bs \<noteq> []" "gs \<noteq> []"
    using j(1) by (rule justified_parts)
  have "set (m_fundIds m) \<subseteq> f_id ` set fts"
    using justified_funds [OF j(1)] mset_group_ids [of fts] by (metis list.set_map mset_eq_setD)
  moreover have "m_fundIds m \<noteq> []"
    using p(4,5,8) wf_groups_fund_groups [OF assms(2)] by (cases gs) (auto simp: wf_groups_def)
  moreover have "m_bankTotal m = sum_list (map b_totalAmount (filter (\<lambda>b. b_id b \<in> set (m_bankIds m)) banks))"
    unfolding p(1,3) using assms(1) p(1,2) j(2) by (intro sum_rows_by_id) auto
  moreover have "m_fundTotal m = sum_list (map f_amount (filter (\<lambda>f. f_id f \<in> set (m_fundIds m)) fts))"
    unfolding p(4,6) using assms(2) p(4,5) j(3) by (intro groups_total_by_id) auto
  ultimately show ?thesis
    using p(1,2,7) by auto
qed

theorem match_totals_witness: "sum_list (map b_totalAmount (filter (\<lambda>b. b_id b \<in> {''b3'', ''b4''}) ex_banks)) = 50000"
  using match_totals [OF ex_hyps, of "r_matches (goal_answer_of ex_banks ex_funds) ! 2"]
  by (simp add: ex_matches insert_commute)

text \<open>C14: an automatic match pairs rows of one transaction type only, and its two totals
  differ by at most the tolerance: 1\% of the side being made up, and at least 1000.\<close>

theorem automatic_match_fits:
  assumes "distinct (map b_id banks)" "distinct (map f_id fts)" "wf_manual banks"
    and "m \<in> set (r_matches (goal_answer_of banks fts))" "m_matchType m \<noteq> MANUAL"
  shows "\<bar>m_bankTotal m - m_fundTotal m\<bar> \<le> match_tolerance
           (if m_matchType m = SPLIT_FUND_TO_BANK then m_bankTotal m else m_fundTotal m) \<and>
         (\<forall>b \<in> set banks. \<forall>ft \<in> set fts. b_id b \<in> set (m_bankIds m) \<longrightarrow> f_id ft \<in> set (m_fundIds m) \<longrightarrow>
            b_transactionType b = f_transactionType ft)"
proof
  note j = answer_match(1) [OF assms(1-4)]
  show "\<bar>m_bankTotal m - m_fundTotal m\<bar> \<le> match_tolerance
           (if m_matchType m = SPLIT_FUND_TO_BANK then m_bankTotal m else m_fundTotal m)"
    using j assms(5) by cases (auto simp: amounts_within_def amount_eligible_def abs_minus_commute)
  show "\<forall>b \<in> set banks. \<forall>ft \<in> set fts. b_id b \<in> set (m_bankIds m) \<longrightarrow> f_id ft \<in> set (m_fundIds m) \<longrightarrow>
      b_transactionType b = f_transactionType ft"
  proof (intro ballI impI)
    fix b ft
    assume b: "b \<in> set banks" "b_id b \<in> set (m_bankIds m)" and ft: "ft \<in> set fts" "f_id ft \<in> set (m_fundIds m)"
    obtain bs gs where p: "m_bankIds m = map b_id bs" "set bs \<subseteq> set banks"
      "m_fundIds m = concat (map g_ids gs)" "set gs \<subseteq> set (fund_groups fts)"
      "\<forall>b \<in> set bs. \<forall>g \<in> set gs. b_transactionType b = g_type g"
      using j assms(5) by (elim justified_parts) blast
    obtain g where g: "g \<in> set gs" "f_id ft \<in> set (g_ids g)" using ft(2) p(3) by auto
    have "b \<in> set bs" using b p(1,2) assms(1) by (auto simp: distinct_map dest: inj_onD)
    then show "b_transactionType b = f_transactionType ft"
      using p(4,5) g(1) group_row_type [OF subsetD [OF p(4) g(1)] ft(1) g(2) assms(2)] by simp
  qed
qed

theorem automatic_match_fits_witness: "\<bar>(9000::money) - 9100\<bar> \<le> match_tolerance 9100"
  using automatic_match_fits [OF ex_hyps, of "r_matches (goal_answer_of ex_banks ex_funds) ! 1"]
  by (simp add: ex_matches)

section \<open>What is left over\<close>

text \<open>C17: no pair is overlooked: a bank transaction and a goal transaction that both end up
  unmatched differ in type, lie more than 30 days apart, or differ by more than the
  tolerance.\<close>

theorem no_eligible_pair_left:
  assumes "distinct (map b_id banks)" "distinct (map f_id fts)" "wf_manual banks"
    and "b \<in> set banks" "b_id b \<in> set (r_unmatchedBank (goal_answer_of banks fts))"
    and "g \<in> set (r_goalTransactions (goal_answer_of banks fts))"
    and "\<forall>m \<in> set (r_matches (goal_answer_of banks fts)). set (g_ids g) \<inter> set (m_fundIds m) = {}"
  shows "g_type g \<noteq> b_transactionType b \<or> 30 < days_between (b_transactionDate b) (g_date g) \<or>
         match_tolerance (g_total g) < \<bar>b_totalAmount b - g_total g\<bar>"
proof -
  have "bank_free (smart_match banks (fund_groups fts)) b"
    using assms(1,4,5) by (auto simp: answer_fields distinct_map dest: inj_onD)
  moreover have "group_free (smart_match banks (fund_groups fts)) g"
    using answer_free_iff(2) [OF assms(1-3)] assms(7) by blast
  ultimately have "\<not> amount_eligible b g"
    using assms(4,6) no_eligible_left by (simp add: answer_fields)
  then show ?thesis by (auto simp: amount_eligible_def amounts_within_def)
qed

theorem no_eligible_pair_left_witness:
  "30 < days_between (200 * ms_per_day) (91 * ms_per_day) \<or> match_tolerance 123456 < \<bar>777 - 123456\<bar>"
proof -
  let ?ft = "ex_fund ''f5'' ''c4'' ''Q4'' 91 123456"
  let ?g = "add_to_group (new_group ?ft) ?ft"
  have "?g \<in> set (r_goalTransactions (goal_answer_of ex_banks ex_funds))" by code_simp
  moreover have "g_ids ?g = [''f5'']" "g_type ?g = DEPOSIT" "g_total ?g = 123456" "g_date ?g = 91 * ms_per_day"
    by (simp_all add: new_group_def ex_fund_def)
  ultimately show ?thesis
    using no_eligible_pair_left [OF ex_hyps ex_memberships(1), of ?g]
    by (simp add: ex_matches ex_unmatched ex_bank_def)
qed

text \<open>No bank split is overlooked: for a goal transaction that ends up unmatched, no
  two or more unmatched bank transactions of its day and type add up to its amount
  within the tolerance, as long as at most ten bank transactions share that day and type
  (beyond ten, the search looks at the ten largest only).\<close>

theorem no_bank_split_overlooked:
  assumes "distinct (map b_id banks)" "distinct (map f_id fts)" "wf_manual banks"
    and "g \<in> set (r_goalTransactions (goal_answer_of banks fts))"
    and "\<forall>m \<in> set (r_matches (goal_answer_of banks fts)). set (g_ids g) \<inter> set (m_fundIds m) = {}"
    and "distinct bs" "set bs \<subseteq> set banks" "1 < length bs"
    and "\<forall>b \<in> set bs. b_id b \<in> set (r_unmatchedBank (goal_answer_of banks fts)) \<and>
           b_transactionType b = g_type g \<and> iso_day (b_transactionDate b) = iso_day (g_date g)"
    and "length (filter (\<lambda>b. b_transactionType b = g_type g \<and> iso_day (b_transactionDate b) = iso_day (g_date g)) banks) \<le> 10"
  shows "match_tolerance (g_total g) < \<bar>sum_list (map b_totalAmount bs) - g_total g\<bar>"
proof -
  have free: "group_free (smart_match banks (fund_groups fts)) g"
    using answer_free_iff(2) [OF assms(1-3)] assms(5) by blast
  have key: "day_type b = (iso_day (g_date g), g_type g)
      \<longleftrightarrow> b_transactionType b = g_type g \<and> iso_day (b_transactionDate b) = iso_day (g_date g)" for b
    by (auto simp: day_type_def)
  have bank: "bank_free (smart_match banks (fund_groups fts)) b" if "b \<in> set bs" for b
    using that assms(1,7,9) by (auto simp: answer_fields distinct_map dest: inj_onD)
  have "\<not> amounts_within (sum_list (map b_totalAmount bs)) (g_total g)"
    using assms(4,9,10) bank
    by (intro no_bank_split_left [OF assms(1) wf_groups_fund_groups [OF assms(2)] _ free assms(6-8)])
      (simp_all add: answer_fields key)
  then show ?thesis by (simp add: amounts_within_def)
qed

text \<open>Two rows that do not make up the goal transaction of their day.\<close>

definition ex_short_banks :: "bank_txn list" where
  "ex_short_banks = [ex_bank ''b1'' ''T1'' 5 20000 None, ex_bank ''b2'' ''T2'' 5 10000 None]"

definition ex_short_funds :: "fund_txn list" where
  "ex_short_funds = [ex_fund ''f1'' ''c1'' ''Q1'' 5 90000]"

theorem no_bank_split_overlooked_witness: "match_tolerance 90000 < \<bar>(30000::money) - 90000\<bar>"
proof -
  let ?g = "add_to_group (new_group (ex_fund ''f1'' ''c1'' ''Q1'' 5 90000)) (ex_fund ''f1'' ''c1'' ''Q1'' 5 90000)"
  have "?g \<in> set (r_goalTransactions (goal_answer_of ex_short_banks ex_short_funds))"
    "r_matches (goal_answer_of ex_short_banks ex_short_funds) = []"
    "r_unmatchedBank (goal_answer_of ex_short_banks ex_short_funds) = [''b1'', ''b2'']"
    by code_simp+
  moreover have "g_type ?g = DEPOSIT" "g_total ?g = 90000" "g_date ?g = 5 * ms_per_day"
    by (simp_all add: new_group_def ex_fund_def)
  moreover have "distinct (map b_id ex_short_banks)" "distinct (map f_id ex_short_funds)" "wf_manual ex_short_banks"
    by (simp_all add: ex_short_banks_def ex_short_funds_def ex_bank_def ex_fund_def wf_manual_def has_manual_code_def)
  ultimately show ?thesis
    using no_bank_split_overlooked [of ex_short_banks ex_short_funds ?g ex_short_banks]
    by (simp add: ex_short_banks_def ex_bank_def)
qed

text \<open>The lists of unmatched rows are exact: a bank id is listed iff no match lists it, a
  goal transaction's code is listed iff some goal transaction with that code has no row
  in any match; and a match never takes part of a goal transaction.\<close>

theorem unmatched_lists_exact:
  assumes "distinct (map b_id banks)" "distinct (map f_id fts)" "wf_manual banks"
  defines "ans \<equiv> goal_answer_of banks fts"
  shows "set (r_unmatchedBank ans) = {i \<in> b_id ` set banks. \<forall>m \<in> set (r_matches ans). i \<notin> set (m_bankIds m)} \<and>
         set (r_unmatchedGoalTxn ans) = {g_originalCode g | g. g \<in> set (r_goalTransactions ans) \<and>
             (\<forall>m \<in> set (r_matches ans). set (g_ids g) \<inter> set (m_fundIds m) = {})} \<and>
         (\<forall>m \<in> set (r_matches ans). \<forall>g \<in> set (r_goalTransactions ans).
             set (g_ids g) \<subseteq> set (m_fundIds m) \<or> set (g_ids g) \<inter> set (m_fundIds m) = {})"
proof (intro conjI)
  note inv = answer_inv [OF assms(1-3)] and free = answer_free_iff [OF assms(1-3), folded ans_def]
  show "set (r_unmatchedBank ans) = {i \<in> b_id ` set banks. \<forall>m \<in> set (r_matches ans). i \<notin> set (m_bankIds m)}"
    unfolding ans_def answer_fields(3) using free(1) by (auto simp: ans_def)
  show "set (r_unmatchedGoalTxn ans) = {g_originalCode g | g. g \<in> set (r_goalTransactions ans) \<and>
      (\<forall>m \<in> set (r_matches ans). set (g_ids g) \<inter> set (m_fundIds m) = {})}"
  proof -
    have "set (r_unmatchedGoalTxn ans) = g_originalCode ` {g \<in> set (fund_groups fts). group_free (smart_match banks (fund_groups fts)) g}"
      unfolding ans_def goal_answer_of_def Let_def using matched_key_iff [OF inv] by auto
    then show ?thesis
      unfolding free(2) by (auto simp: ans_def answer_fields)
  qed
  show "\<forall>m \<in> set (r_matches ans). \<forall>g \<in> set (r_goalTransactions ans).
      set (g_ids g) \<subseteq> set (m_fundIds m) \<or> set (g_ids g) \<inter> set (m_fundIds m) = {}"
  proof (intro ballI)
    fix m g assume m: "m \<in> set (r_matches ans)" and g: "g \<in> set (r_goalTransactions ans)"
    have "justified banks (fund_groups fts) m"
      using answer_match(1) [OF assms(1-3)] m by (simp add: ans_def)
    then obtain gs where gs: "m_fundIds m = concat (map g_ids gs)" "set gs \<subseteq> set (fund_groups fts)"
      by (rule justified_parts)
    have "distinct (concat (map g_ids (fund_groups fts)))"
      using wf_groups_fund_groups [OF assms(2)] by (simp add: wf_groups_def)
    then have "g' = g" if "g' \<in> set gs" "set (g_ids g') \<inter> set (g_ids g) \<noteq> {}" for g'
      using that gs(2) g concat_map_disjoint by (fastforce simp: ans_def answer_fields)
    then show "set (g_ids g) \<subseteq> set (m_fundIds m) \<or> set (g_ids g) \<inter> set (m_fundIds m) = {}"
      using gs(1) by auto
  qed
qed

theorem unmatched_lists_exact_witness:
  "''b5'' \<in> set (r_unmatchedBank (goal_answer_of ex_banks ex_funds))"
  using unmatched_lists_exact [OF ex_hyps]
  by (simp add: ex_matches) (simp add: ex_banks_def ex_bank_def)

section \<open>Goal transactions\<close>

text \<open>Grouping loses nothing: the goal transactions partition the fund transactions, one per
  pair of goal transaction code and type that occurs; each total is the sum over the rows
  with that pair, and the four fund columns add up to the part of it in the four known funds.\<close>

theorem grouping_partitions:
  "mset (concat (map g_ids (fund_groups fts))) = mset (map f_id fts) \<and>
   distinct (map (\<lambda>g. (g_originalCode g, g_type g)) (fund_groups fts)) \<and>
   (\<forall>g \<in> set (fund_groups fts).
      g_ids g = map f_id (filter (\<lambda>f. f_goalTransactionCode f = g_originalCode g \<and> f_transactionType f = g_type g) fts) \<and>
      g_total g = sum_list (map f_amount (filter (\<lambda>f. f_goalTransactionCode f = g_originalCode g \<and> f_transactionType f = g_type g) fts)) \<and>
      g_xummf g + g_xubf g + g_xudef g + g_xuref g = sum_list (map f_amount
        (filter (\<lambda>f. f_goalTransactionCode f = g_originalCode g \<and> f_transactionType f = g_type g \<and> known_fund (f_fundCode f)) fts)))"
proof (intro conjI ballI)
  show "mset (concat (map g_ids (fund_groups fts))) = mset (map f_id fts)" by (rule mset_group_ids)
  show "distinct (map (\<lambda>g. (g_originalCode g, g_type g)) (fund_groups fts))"
    using distinct_goal_txn_keys [of fts] unfolding keys_goal_txn
    by (auto simp: distinct_map inj_on_def)
next
  fix g assume "g \<in> set (fund_groups fts)"
  then obtain k where k: "(k, g) \<in> set (goal_txn_by_code fts)" by auto
  have key: "fund_key f = k \<longleftrightarrow> f_goalTransactionCode f = g_originalCode g \<and> f_transactionType f = g_type g" for f
    using goal_txn_entry_fields(3) [OF k] composite_key_inj by (fastforce simp: fund_key_def)
  obtain ft rest where e: "filter (\<lambda>ft. fund_key ft = k) fts = ft # rest" "g = foldl add_to_group (new_group ft) (ft # rest)"
    using k by (rule goal_txn_entry)
  show "g_ids g = map f_id (filter (\<lambda>f. f_goalTransactionCode f = g_originalCode g \<and> f_transactionType f = g_type g) fts)"
    "g_total g = sum_list (map f_amount (filter (\<lambda>f. f_goalTransactionCode f = g_originalCode g \<and> f_transactionType f = g_type g) fts))"
    using goal_txn_entry_fields(1,2) [OF k] by (simp_all only: key)
  have "filter (\<lambda>f. f_goalTransactionCode f = g_originalCode g \<and> f_transactionType f = g_type g \<and> known_fund (f_fundCode f)) fts
      = filter (\<lambda>f. known_fund (f_fundCode f)) (filter (\<lambda>ft. fund_key ft = k) fts)"
    by (simp add: key conj_ac)
  then show "g_xummf g + g_xubf g + g_xudef g + g_xuref g = sum_list (map f_amount
      (filter (\<lambda>f. f_goalTransactionCode f = g_originalCode g \<and> f_transactionType f = g_type g \<and> known_fund (f_fundCode f)) fts))"
    unfolding e(1) using foldl_add_to_group_funds [of "new_group ft" "ft # rest"]
    by (simp only: e(2)) (simp add: new_group_def)
qed

theorem grouping_partitions_witness:
  "mset (concat (map g_ids (fund_groups ex_funds))) = mset [''f1'', ''f2'', ''f3'', ''f4'', ''f5'']"
  using grouping_partitions [of ex_funds] by (simp add: ex_funds_def ex_fund_def)

section \<open>Confidence and persistence\<close>

text \<open>A confidence lies between 1/2 and 1 (an amount match scores 0.8 on the same instant
  and never more, 0.5 at thirty days and never less), so the persisted score lies between 50 and 100.\<close>

theorem confidence_bounds:
  assumes "distinct (map b_id banks)" "distinct (map f_id fts)" "wf_manual banks"
    and "m \<in> set (r_matches (goal_answer_of banks fts))"
  shows "1 / 2 \<le> m_confidence m \<and> m_confidence m \<le> 1 \<and>
         (m_matchType m = AMOUNT \<longrightarrow> m_confidence m \<le> 8 / 10) \<and>
         50 \<le> js_round (m_confidence m * 100) \<and> js_round (m_confidence m * 100) \<le> 100"
proof -
  have "1 / 2 \<le> m_confidence m \<and> m_confidence m \<le> 1 \<and> (m_matchType m = AMOUNT \<longrightarrow> m_confidence m \<le> 8 / 10)"
    using answer_match(1) [OF assms]
  proof cases
    case (by_amount b g)
    moreover have "0 \<le> days_between (b_transactionDate b) (g_date g)" by simp
    ultimately show ?thesis
      by (simp add: amount_confidence_def amount_eligible_def field_simps)
  qed auto
  moreover from this have "(50 :: int) \<le> \<lfloor>m_confidence m * 100 + 1 / 2\<rfloor>" "\<lfloor>m_confidence m * 100 + 1 / 2\<rfloor> < (101 :: int)"
    by (simp_all add: le_floor_iff floor_less_iff)
  ultimately show ?thesis by (simp add: js_round_def)
qed

theorem confidence_bounds_witness: "js_round ((78 / 100) * 100) \<le> 100"
  using confidence_bounds [OF ex_hyps, of "r_matches (goal_answer_of ex_banks ex_funds) ! 1"]
  by (simp add: ex_matches)

text \<open>Persistence writes exactly what the answer says: after
  \<open>getGoalTransactions\<close> a bank row that an automatic match of the answer lists carries that
  match's code, time and rounded score and is otherwise as before; every other bank row and
  every other table is unchanged.\<close>

theorem persistence_effect:
  assumes "distinct (map b_id (db_bank db))" "distinct (map f_id (db_fund db))" "wf_manual (db_bank db)"
    and "get_goal_transactions keeps_null now db goalNumber startDate endDate ttype = (ans, db')"
    and "b \<in> set (db_bank db)"
  shows "(\<forall>m \<in> set (r_matches ans). m_matchType m \<noteq> MANUAL \<longrightarrow> b_id b \<in> set (m_bankIds m) \<longrightarrow>
            (\<exists>code. persisted_code (r_goalTransactions ans) m = Some code \<and>
                    mark_matched now code (m_confidence m) b \<in> set (db_bank db'))) \<and>
         ((\<forall>m \<in> set (r_matches ans). m_matchType m = MANUAL \<or> b_id b \<notin> set (m_bankIds m)) \<longrightarrow> b \<in> set (db_bank db')) \<and>
         map b_id (db_bank db') = map b_id (db_bank db) \<and> db_bank_update (\<lambda>_. db_bank db) db' = db"
proof (cases "List.find (\<lambda>g. go_number g = goalNumber) (db_goals db)")
  case None
  then show ?thesis
    using assms(4,5) by (auto simp: get_goal_transactions_def Let_def)
next
  case (Some goal)
  define banks where "banks = sort_key (\<lambda>b. - b_transactionDate b) (filter (bank_in_view goalNumber startDate endDate ttype) (db_bank db))"
  define fts where "fts = sort_key (\<lambda>f. - f_transactionDate f) (filter (fund_in_view keeps_null (go_id goal) startDate endDate ttype) (db_fund db))"
  have ans: "ans = goal_answer_of banks fts"
    and db': "db' = db\<lparr>db_bank := persist_matches now (r_goalTransactions ans) (r_matches ans) (db_bank db)\<rparr>"
    using assms(4) Some by (auto simp: get_goal_transactions_def Let_def banks_def fts_def)
  have wf: "distinct (map b_id banks)" "distinct (map f_id fts)" "wf_manual banks"
    using assms(1-3) by (auto simp: banks_def fts_def distinct_map_sort_key distinct_map_filter wf_manual_def)
  have dist: "distinct (concat (map m_bankIds (r_matches ans)))"
    using answer_inv [OF wf] by (simp add: ans match_inv_def answer_fields)
  have rows: "db_bank db' = map (\<lambda>b. foldl (persist_row now (r_goalTransactions ans)) b (r_matches ans)) (db_bank db)"
    by (simp add: db' persist_matches_row)
  show ?thesis
  proof (intro conjI ballI impI)
    fix m assume m: "m \<in> set (r_matches ans)" "m_matchType m \<noteq> MANUAL" "b_id b \<in> set (m_bankIds m)"
    have "goal_codes_for (r_goalTransactions ans) m \<noteq> []"
      using justified_codes_nonempty [OF answer_match(1) [OF wf] wf_groups_fund_groups [OF wf(2)]] m(1)
      by (simp add: ans answer_fields)
    then obtain code where "persisted_code (r_goalTransactions ans) m = Some code"
      unfolding persisted_code_def by (cases "goal_codes_for (r_goalTransactions ans) m" rule: remdups_adj.cases) auto
    moreover from this have "foldl (persist_row now (r_goalTransactions ans)) b (r_matches ans) = mark_matched now code (m_confidence m) b"
      using foldl_persist_in [OF dist m(1,3)] m(2,3) by (simp add: persist_row_def)
    ultimately show "\<exists>code. persisted_code (r_goalTransactions ans) m = Some code \<and> mark_matched now code (m_confidence m) b \<in> set (db_bank db')"
      using assms(5) unfolding rows by (metis image_eqI image_set)
  next
    assume "\<forall>m \<in> set (r_matches ans). m_matchType m = MANUAL \<or> b_id b \<notin> set (m_bankIds m)"
    then have "foldl (persist_row now (r_goalTransactions ans)) b (r_matches ans) = b"
      by (rule foldl_persist_other)
    then show "b \<in> set (db_bank db')" using assms(5) unfolding rows by (metis image_eqI image_set)
  qed (simp_all add: db')
qed

definition ex_db :: database where
  "ex_db = \<lparr>db_bank = ex_banks, db_fund = ex_funds,
     db_goals = [\<lparr>go_id = ''g'', go_accountId = ''a'', go_number = ''G''\<rparr>],
     db_accounts = [], db_clients = []\<rparr>"

definition ex_view :: "goal_answer \<times> database" where
  "ex_view = get_goal_transactions True 7 ex_db ''G'' 0 (300 * ms_per_day) None"

lemma ex_answer: "r_matches (fst ex_view) = r_matches (goal_answer_of ex_banks ex_funds)"
  by code_simp

theorem persistence_effect_witness:
  "\<exists>code. mark_matched 7 code (78 / 100) (ex_bank ''b2'' ''T2'' 3 9000 None) \<in> set (db_bank (snd ex_view))"
proof -
  let ?b = "ex_bank ''b2'' ''T2'' 3 9000 None"
  let ?m = "\<lparr>m_bankIds = [''b2''], m_fundIds = [''f3''], m_matchType = AMOUNT, m_confidence = 78 / 100,
      m_bankTotal = 9000, m_fundTotal = 9100\<rparr>"
  have h: "distinct (map b_id (db_bank ex_db))" "distinct (map f_id (db_fund ex_db))" "wf_manual (db_bank ex_db)"
    using ex_hyps by (simp_all add: ex_db_def)
  have b: "?b \<in> set (db_bank ex_db)" by (simp add: ex_db_def ex_banks_def)
  have view: "get_goal_transactions True 7 ex_db ''G'' 0 (300 * ms_per_day) None = (fst ex_view, snd ex_view)"
    unfolding ex_view_def by (rule prod.collapse [symmetric])
  have "?m \<in> set (r_matches (fst ex_view))" unfolding ex_answer ex_matches by simp
  then have "\<exists>code. persisted_code (r_goalTransactions (fst ex_view)) ?m = Some code \<and>
      mark_matched 7 code (m_confidence ?m) ?b \<in> set (db_bank (snd ex_view))"
    using persistence_effect [OF h view b, THEN conjunct1, THEN bspec, of ?m] by (simp add: ex_bank_def)
  then show ?thesis by auto
qed

section \<open>Combinations\<close>

text \<open>C15: the combination search is sound and, on at most ten items, complete: a result
  consists of items of the input, each used once, and sums to the target within the
  tolerance; and when some two or more of the items do so, a result is found.\<close>

theorem combination_search_correct:
  "(find_combination_sum items target tol \<noteq> [] \<longrightarrow>
      mset (find_combination_sum items target tol) \<subseteq># mset items \<and>
      \<bar>item_sum (find_combination_sum items target tol) - target\<bar> \<le> tol) \<and>
   (length items \<le> 10 \<longrightarrow> (\<exists>ys. mset ys \<subseteq># mset items \<and> 1 < length ys \<and> \<bar>item_sum ys - target\<bar> \<le> tol) \<longrightarrow>
      find_combination_sum items target tol \<noteq> [])"
  using find_combination_within find_combination_subset find_combination_complete by blast

theorem combination_search_correct_witness:
  "find_combination_sum [(''x'', 7), (''y'', 5), (''z'', 4)] 9 0 \<noteq> []"
proof -
  have "mset [(''y'', 5), (''z'', 4)] \<subseteq># mset [(''x'', 7), (''y'', 5), (''z'', 4 :: money)]" by simp
  moreover have "\<bar>item_sum [(''y'', 5), (''z'', 4)] - 9\<bar> \<le> 0" by (simp add: item_sum_def)
  ultimately show ?thesis
    using combination_search_correct [of "[(''x'', 7), (''y'', 5), (''z'', 4)]" 9 0]
    by (auto dest!: spec [of _ "[(''y'', 5), (''z'', 4 :: money)]"])
qed

section \<open>Manual matches at the edge of the window\<close>

definition ex_manual_db :: database where
  "ex_manual_db = ex_db
     \<lparr>db_bank := [ex_bank ''b1'' ''T1'' 40 5000 (Some ''MANUAL:1700000000000:c9'')],
      db_fund := [ex_fund ''f1'' ''c9'' ''Q9'' 10 5000, ex_fund ''f2'' ''c2'' ''Q2'' 41 5000]\<rparr>"

text \<open>A manual match is not safe from automatic persistence: a view whose dates leave out
  the fund rows of a manual match pairs its bank row with another goal transaction and
  overwrites the manual code in the database.\<close>

theorem manual_match_can_be_overwritten:
  "m_matchType (r_matches (fst (get_goal_transactions True 7 ex_manual_db ''G'' 0 (90 * ms_per_day) None)) ! 0) = MANUAL \<and>
   map b_matchedGoalTransactionCode (db_bank (snd (get_goal_transactions True 7 ex_manual_db ''G'' 0 (90 * ms_per_day) None)))
     = [Some ''MANUAL:1700000000000:c9''] \<and>
   map b_matchedGoalTransactionCode (db_bank (snd (get_goal_transactions True 7 ex_manual_db ''G'' (30 * ms_per_day) (90 * ms_per_day) None)))
     = [Some ''c2'']"
  by code_simp

end
