(* ===== verification/ManualMatchProperties.thy ===== *)
theory ManualMatchProperties
  imports ReviewStatus SmartMatchProperties
begin

text \<open>
  The properties of the manual operations: what creating, removing, linking, unlinking and
  reviewing do to the tables, and how they fit the automatic matching and the review status.
\<close>

section \<open>Rows looked up by id\<close>

lemma find_by_id:
  assumes "distinct (map b_id rows)" "b \<in> set rows" "b_id b = i"
  shows "List.find (\<lambda>b. b_id b = i) rows = Some b"
proof (cases "List.find (\<lambda>b. b_id b = i) rows")
  case None
  then show ?thesis using assms by (auto simp: find_None_iff)
next
  case (Some c)
  then show ?thesis using assms by (auto dest!: find_SomeD simp: distinct_map dest: inj_onD)
qed

lemma find_update_where:
  assumes "\<And>b. b_id (upd b) = b_id b"
  shows "List.find (\<lambda>b. b_id b = i) (update_where P upd rows)
       = map_option (\<lambda>b. if P b then upd b else b) (List.find (\<lambda>b. b_id b = i) rows)"
  using assms by (induction rows) (auto simp: update_where_def)

lemma row_ops_id [simp]:
  "b_id (link_manual now code b) = b_id b" "b_id (clear_match now b) = b_id b"
  "b_id (review_bank now tag notes who b) = b_id b" "b_id (tag_reversal now who j b) = b_id b"
  "b_id (untag now b) = b_id b"
  by (simp_all add: link_manual_def clear_match_def review_bank_def tag_reversal_def untag_def)

section \<open>Totals of a manual match\<close>

lemma foldl_fund_sum: "foldl (\<lambda>s ft. s + f_amount ft) a fts = a + sum_list (map f_amount fts)"
  by (rule foldl_plus)

lemma sum_goal_sums:
  "sum_list (map snd (goal_sums fts)) = sum_list (map f_amount (filter (\<lambda>ft. f_goalTransactionCode ft \<noteq> []) fts))"
proof -
  let ?fts = "filter (\<lambda>ft. f_goalTransactionCode ft \<noteq> []) fts"
  let ?part = "\<lambda>k. filter (\<lambda>ft. f_goalTransactionCode ft = k) ?fts"
  have entry: "snd e = sum_list (map f_amount (?part (fst e)))" if mem: "e \<in> set (goal_sums fts)" for e
  proof -
    obtain k v where e: "e = (k, v)" by (cases e)
    obtain y ys where "?part k = y # ys" "v = foldl (\<lambda>s ft. s + f_amount ft) 0 (y # ys)"
      using mem unfolding e goal_sums_def by (rule entry_accumulate)
    then show ?thesis by (simp only: e fst_conv snd_conv foldl_fund_sum add_0)
  qed
  have "sum_list (map snd (goal_sums fts)) = sum_list (map (\<lambda>k. sum_list (map f_amount (?part k))) (map fst (goal_sums fts)))"
    using entry by (simp add: comp_def cong: map_cong)
  also have "\<dots> = sum_list (map f_amount (concat (map ?part (map fst (goal_sums fts)))))"
    by (simp add: sum_list_map_concat comp_def)
  also have "mset (concat (map ?part (map fst (goal_sums fts)))) = mset ?fts"
    by (rule mset_concat_partition) (simp_all add: goal_sums_def)
  then have "mset (map f_amount (concat (map ?part (map fst (goal_sums fts))))) = mset (map f_amount ?fts)"
    by simp
  then have "sum_list (map f_amount (concat (map ?part (map fst (goal_sums fts))))) = sum_list (map f_amount ?fts)"
    by (metis sum_mset_sum_list)
  finally show ?thesis .
qed

lemma set_keys_goal_sums: "fst ` set (goal_sums fts) = {c \<in> f_goalTransactionCode ` set fts. c \<noteq> []}"
  by (auto simp: goal_sums_def)

lemma length_goal_sums: "length (goal_sums fts) = card {c \<in> f_goalTransactionCode ` set fts. c \<noteq> []}"
proof -
  have "distinct (map fst (goal_sums fts))" by (simp add: goal_sums_def)
  then have "length (goal_sums fts) = card (fst ` set (goal_sums fts))"
    by (metis distinct_card length_map list.set_map)
  then show ?thesis by (simp only: set_keys_goal_sums)
qed

text \<open>Counting the rows found is a sound existence check because ids are unique.\<close>

lemma all_ids_found:
  assumes "distinct (map b_id rows)" "length (filter (\<lambda>b. b_id b \<in> set ids) rows) = length ids"
  shows "distinct ids \<and> set ids \<subseteq> b_id ` set rows"
proof -
  let ?found = "filter (\<lambda>b. b_id b \<in> set ids) rows"
  have "length ids = card (set (map b_id ?found))"
    using assms by (metis distinct_card distinct_map_filter length_map)
  also have "set (map b_id ?found) = set ids \<inter> b_id ` set rows" by auto
  finally have len: "length ids = card (set ids \<inter> b_id ` set rows)" .
  also have "\<dots> \<le> card (set ids)" by (intro card_mono) auto
  finally have "card (set ids) = length ids" using card_length [of ids] by linarith
  moreover from this len have "set ids \<inter> b_id ` set rows = set ids"
    by (intro card_subset_eq) auto
  ultimately show ?thesis by (auto intro: card_distinct)
qed

lemma all_codes_found:
  assumes "length (goal_sums (filter (\<lambda>f. f_goalTransactionCode f \<in> set codes) fts)) = length codes"
  shows "distinct codes \<and> set codes \<subseteq> f_goalTransactionCode ` set fts \<and> [] \<notin> set codes"
proof -
  let ?s = "set codes \<inter> {c \<in> f_goalTransactionCode ` set fts. c \<noteq> []}"
  have eq: "{c \<in> f_goalTransactionCode ` set (filter (\<lambda>f. f_goalTransactionCode f \<in> set codes) fts). c \<noteq> []} = ?s"
    by auto
  have len: "length codes = card ?s"
    using assms unfolding length_goal_sums eq by (rule sym)
  have le: "card ?s \<le> card (set codes)" by (intro card_mono) auto
  then have card: "card (set codes) = length codes"
    using card_length [of codes] len by linarith
  have sub: "?s = set codes"
    using len card by (intro card_subset_eq) auto
  then have "set codes \<subseteq> f_goalTransactionCode ` set fts" "[] \<notin> set codes" by blast+
  then show ?thesis using card by (simp add: card_distinct)
qed

text \<open>C16: a manual match is created exactly when its rows exist and its totals agree:
  creation succeeds iff the bank ids are existing and pairwise distinct, the goal codes are
  existing, non-empty and pairwise distinct, and the sums of the bank rows and of the fund rows
  differ by at most the tolerance; it then stamps the listed rows and changes nothing else.\<close>

theorem create_manual_match_correct:
  fixes ids :: "row_id list" and codes :: "string list"
  assumes "distinct (map b_id (db_bank db))"
  defines "bankTotal \<equiv> sum_list (map b_totalAmount (filter (\<lambda>b. b_id b \<in> set ids) (db_bank db)))"
    and "goalTotal \<equiv> sum_list (map f_amount (filter (\<lambda>f. f_goalTransactionCode f \<in> set codes) (db_fund db)))"
  shows "((\<exists>r. create_manual_match now db ids codes = Inr r) \<longleftrightarrow>
            distinct ids \<and> set ids \<subseteq> b_id ` set (db_bank db) \<and>
            distinct codes \<and> set codes \<subseteq> f_goalTransactionCode ` set (db_fund db) \<and> [] \<notin> set codes \<and>
            \<bar>bankTotal - goalTotal\<bar> \<le> manual_tolerance bankTotal) \<and>
         (\<forall>a db'. create_manual_match now db ids codes = Inr (a, db') \<longrightarrow>
            a = \<lparr>ma_bankCount = length ids, ma_goalCount = length codes,
                 ma_bankTotal = bankTotal, ma_goalTotal = goalTotal\<rparr> \<and>
            db' = db\<lparr>db_bank := map (\<lambda>b. if b_id b \<in> set ids
                        then link_manual now (manual_match_code now codes) b else b) (db_bank db)\<rparr>)"
proof -
  let ?found = "filter (\<lambda>b. b_id b \<in> set ids) (db_bank db)"
  let ?fts = "filter (\<lambda>f. f_goalTransactionCode f \<in> set codes) (db_fund db)"
  have banks: "length ?found = length ids \<longleftrightarrow> distinct ids \<and> set ids \<subseteq> b_id ` set (db_bank db)"
  proof
    assume "distinct ids \<and> set ids \<subseteq> b_id ` set (db_bank db)"
    moreover from this have "set (map b_id ?found) = set ids" by auto
    ultimately show "length ?found = length ids"
      using assms(1) by (metis distinct_card distinct_map_filter length_map)
  qed (rule all_ids_found [OF assms(1)])
  have codes: "length (goal_sums ?fts) = length codes
      \<longleftrightarrow> distinct codes \<and> set codes \<subseteq> f_goalTransactionCode ` set (db_fund db) \<and> [] \<notin> set codes"
  proof
    assume c: "distinct codes \<and> set codes \<subseteq> f_goalTransactionCode ` set (db_fund db) \<and> [] \<notin> set codes"
    then have "{c \<in> f_goalTransactionCode ` set ?fts. c \<noteq> []} = set codes" by force
    then show "length (goal_sums ?fts) = length codes"
      using c by (metis distinct_card length_goal_sums)
  qed (rule all_codes_found)
  have total: "sum_list (map snd (goal_sums ?fts)) = goalTotal" if "[] \<notin> set codes"
    unfolding sum_goal_sums goalTotal_def using that by (intro arg_cong [where f = "\<lambda>l. sum_list (map f_amount l)"]) (auto intro: filter_cong)
  show ?thesis
    unfolding create_manual_match_def Let_def
    using banks codes total by (auto simp: bankTotal_def update_where_def)
qed

section \<open>Manual codes survive the round trip\<close>

lemma notin_join: "c \<noteq> d \<Longrightarrow> \<forall>w \<in> set ws. c \<notin> set w \<Longrightarrow> c \<notin> set (join_with d ws)"
  by (induction d ws rule: join_with.induct) auto

lemma manual_goal_codes_of_code:
  assumes "codes \<noteq> []" "\<forall>c \<in> set codes. CHR '','' \<notin> set c"
  shows "manual_goal_codes (manual_match_code now codes) = Some codes"
proof -
  let ?d = "nat_digits (nat now)" and ?r = "join_with CHR '','' codes"
  have "index_of_from CHR '':'' (manual_match_code now codes) 7 = Some (7 + length ?d)"
    by (simp add: manual_match_code_def index_of_from_def index_of_append_notin)
  moreover have "manual_match_code now codes = (''MANUAL:'' @ ?d @ '':'') @ ?r"
    by (simp add: manual_match_code_def)
  then have "drop (Suc (7 + length ?d)) (manual_match_code now codes) = ?r"
    by (simp only: drop_append) simp
  ultimately show ?thesis
    using assms by (simp add: manual_goal_codes_def split_on_join)
qed

lemma manual_code_is_manual: "prefix ''MANUAL:'' (manual_match_code now codes)" "manual_match_code now codes \<noteq> []"
  by (simp_all add: manual_match_code_def)

lemma keys_group_by_unique: "map fst (group_by kf xs) = js_unique (map kf xs)"
proof (induction xs rule: rev_induct)
  case (snoc x xs)
  have keys: "map_keys (group_by kf xs) = js_unique (map kf xs)" using snoc by (simp add: map_keys_def)
  have "map_get (group_by kf xs) (kf x) = None \<longleftrightarrow> kf x \<notin> kf ` set xs"
    by (simp add: jsm.get_None_iff keys)
  moreover have "group_by kf (xs @ [x]) =
      map_set (group_by kf xs) (kf x) ((case map_get (group_by kf xs) (kf x) of None \<Rightarrow> [] | Some v \<Rightarrow> v) @ [x])"
    by (simp add: group_by_def accumulate_def)
  ultimately have "map_keys (group_by kf (xs @ [x])) = js_unique (map kf (xs @ [x]))"
    using keys by (auto simp: jsm.keys_put js_unique_def)
  then show ?case by (simp add: map_keys_def)
qed (simp add: group_by_def accumulate_def js_unique_def)

lemma manual_groups_alt:
  "manual_groups banks =
     map (\<lambda>c. (c, filter (\<lambda>b. has_manual_code b \<and> match_code b = c) banks)) (js_unique (map match_code (filter has_manual_code banks)))"
  unfolding manual_groups_def keys_group_by_unique [symmetric] by (subst group_by_as_map) (simp add: comp_def conj_commute)

lemma smart_match_extends_pass0:
  "prefix (ms_matches (pass0 banks groups init_state)) (ms_matches (smart_match banks groups))"
proof -
  let ?s0 = "pass0 banks groups init_state"
  have "grows ?s0 (pass1 banks groups ?s0)" unfolding pass1_def by (rule p1.run_grows)
  also have "grows (pass1 banks groups ?s0) (pass2 banks groups (pass1 banks groups ?s0))"
    (is "grows _ ?s2") unfolding pass2_def by (rule p2.run_grows)
  also have "grows ?s2 (pass3 banks groups ?s2)" by (rule pass3_grows)
  also have "grows (pass3 banks groups ?s2) (smart_match banks groups)"
    unfolding smart_match_def by (rule pass3b_grows)
  finally show ?thesis by (simp add: grows_def)
qed

lemma init_free [simp]: "group_free init_state g" "bank_free init_state b"
  by (simp_all add: init_state_def group_free_def bank_free_def)

text \<open>The manual matches of a view, by what was linked: \<open>goals\<close> gives the goal codes behind each stored code. In the order in
  which the stored codes occur, each gets all its bank rows and all fund rows of its goal codes that no earlier one has; without
  such a fund row it is no match.\<close>

fun manual_plan :: "(string \<Rightarrow> string list) \<Rightarrow> bank_txn list \<Rightarrow> fund_txn list \<Rightarrow> string list \<Rightarrow> string list \<Rightarrow> (row_id list \<times> row_id list) list" where
  "manual_plan goals banks fts taken [] = []"
| "manual_plan goals banks fts taken (c # cs) =
     (let rows = filter (\<lambda>f. f_goalTransactionCode f \<in> set (goals c) \<and> f_goalTransactionCode f \<notin> set taken) fts
      in (if rows = [] then [] else [(map b_id (filter (\<lambda>b. has_manual_code b \<and> match_code b = c) banks), map f_id rows)])
         @ manual_plan goals banks fts (goals c @ taken) cs)"

definition honours :: "row_id list \<times> row_id list \<Rightarrow> match_result \<Rightarrow> bool" where
  "honours x m = (m_matchType m = MANUAL \<and> m_bankIds m = fst x \<and> set (m_fundIds m) = set (snd x))"

definition after_codes :: "fund_txn list \<Rightarrow> string list \<Rightarrow> match_state \<Rightarrow> bool" where
  "after_codes fts taken st = (ms_funds st = f_id ` {f \<in> set fts. f_goalTransactionCode f \<in> set taken})"

lemma free_after_codes:
  assumes "distinct (map f_id fts)" "after_codes fts taken st" "g \<in> set (fund_groups fts)"
  shows "group_free st g \<longleftrightarrow> g_originalCode g \<notin> set taken"
proof -
  have ne: "g_ids g \<noteq> []" using wf_groups_fund_groups [OF assms(1)] assms(3) unfolding wf_groups_def by blast
  have inj: "inj_on f_id (set fts)" using assms(1) by (simp add: distinct_map)
  have code: "f_goalTransactionCode f = g_originalCode g" if "f \<in> set fts" "f_id f \<in> set (g_ids g)" for f
    using mem_group_ids_iff [OF assms(3), of "f_id f"] that inj_onD [OF inj] by auto
  have row: "\<exists>f \<in> set fts. f_id f = i" if "i \<in> set (g_ids g)" for i
    using mem_group_ids_iff [OF assms(3), of i] that by auto
  obtain i where i: "i \<in> set (g_ids g)" using ne by (cases "g_ids g") auto
  then obtain f where f: "f \<in> set fts" "f_id f = i" using row by blast
  show ?thesis
  proof
    assume free: "group_free st g"
    show "g_originalCode g \<notin> set taken"
    proof
      assume t: "g_originalCode g \<in> set taken"
      have "f_goalTransactionCode f = g_originalCode g" using code f i by simp
      then have "i \<in> ms_funds st" using assms(2) f t unfolding after_codes_def by auto
      then show False using free i by (auto simp: group_free_def)
    qed
  next
    assume "g_originalCode g \<notin> set taken"
    then show "group_free st g" using code assms(2) unfolding group_free_def after_codes_def by auto
  qed
qed

lemma hits_after_codes:
  assumes "distinct (map f_id fts)" "after_codes fts taken st"
  shows "set (concat (map g_ids (manual_hits st (fund_groups fts) cs))) =
    f_id ` {f \<in> set fts. f_goalTransactionCode f \<in> set cs \<and> f_goalTransactionCode f \<notin> set taken}"
proof -
  let ?gs = "fund_groups fts" and ?hits = "manual_hits st (fund_groups fts) cs"
  have hits: "set ?hits = {g \<in> set ?gs. g_originalCode g \<in> set cs \<and> g_originalCode g \<notin> set taken}"
    using free_after_codes [OF assms] by (auto simp: manual_hits_def)
  show ?thesis
  proof (intro set_eqI iffI)
    fix i assume "i \<in> set (concat (map g_ids ?hits))"
    then obtain g where "g \<in> set ?hits" "i \<in> set (g_ids g)" by auto
    then show "i \<in> f_id ` {f \<in> set fts. f_goalTransactionCode f \<in> set cs \<and> f_goalTransactionCode f \<notin> set taken}"
      using mem_group_ids_iff [of g fts i] unfolding hits by auto
  next
    fix i assume "i \<in> f_id ` {f \<in> set fts. f_goalTransactionCode f \<in> set cs \<and> f_goalTransactionCode f \<notin> set taken}"
    then obtain f where f: "f \<in> set fts" "f_goalTransactionCode f \<in> set cs" "f_goalTransactionCode f \<notin> set taken" "i = f_id f" by auto
    obtain g where g: "g \<in> set ?gs" "g_originalCode g = f_goalTransactionCode f" "g_type g = f_transactionType f"
      using f(1) by (rule group_of_row)
    then have "g \<in> set ?hits" using f(2,3) by (simp add: hits)
    moreover have "i \<in> set (g_ids g)" using mem_group_ids_iff [OF g(1)] f(1,4) g(2,3) by auto
    ultimately show "i \<in> set (concat (map g_ids ?hits))" by auto
  qed
qed

lemma pass0_follows_plan:
  assumes "distinct (map f_id fts)" "distinct (map b_id banks)"
    and "\<And>c. c \<in> set cs \<Longrightarrow> manual_goal_codes c = Some (goals c)" "distinct cs"
    and "set cs \<subseteq> match_code ` set (filter has_manual_code banks)" "after_codes fts taken st"
    and "\<And>b. b \<in> set banks \<Longrightarrow> has_manual_code b \<Longrightarrow> match_code b \<in> set cs \<Longrightarrow> bank_free st b"
  shows "\<exists>ms. ms_matches (foldl (pass0_step (fund_groups fts)) st
      (map (\<lambda>c. (c, filter (\<lambda>b. has_manual_code b \<and> match_code b = c) banks)) cs)) = ms_matches st @ ms \<and>
    list_all2 honours (manual_plan goals banks fts taken cs) ms"
  using assms(3-)
proof (induction cs arbitrary: st taken)
  case (Cons c cs)
  let ?bs = "filter (\<lambda>b. has_manual_code b \<and> match_code b = c) banks" and ?gs = "fund_groups fts"
  let ?hits = "manual_hits st ?gs (goals c)"
  let ?rows = "filter (\<lambda>f. f_goalTransactionCode f \<in> set (goals c) \<and> f_goalTransactionCode f \<notin> set taken) fts"
  have free: "filter (bank_free st) ?bs = ?bs" by (rule filter_True) (use Cons.prems(5) in auto)
  have "?bs \<noteq> []" using Cons.prems(3) by (auto simp: filter_empty_conv)
  then have some: "\<not> (\<forall>b \<in> set ?bs. \<not> bank_free st b)" using Cons.prems(5) by (cases ?bs) (auto simp: filter_eq_Cons_iff)
  have ids: "set (concat (map g_ids ?hits)) = set (map f_id ?rows)"
    unfolding hits_after_codes [OF assms(1) Cons.prems(4)] by auto
  have none: "concat (map g_ids ?hits) = [] \<longleftrightarrow> ?rows = []" using arg_cong [OF ids, of "\<lambda>A. A = {}"] by (simp del: set_concat set_map set_filter)
  let ?m = "\<lparr>m_bankIds = map b_id ?bs, m_fundIds = concat (map g_ids ?hits), m_matchType = MANUAL,
      m_confidence = 1, m_bankTotal = sum_list (map b_totalAmount ?bs), m_fundTotal = sum_list (map g_total ?hits)\<rparr>"
  let ?st = "if ?rows = [] then st else commit ?m st"
  have code: "manual_goal_codes c = Some (goals c)" using Cons.prems(1) by simp
  have step: "pass0_step ?gs st (c, ?bs) = ?st"
    unfolding pass0_step_def Let_def snd_conv fst_conv if_not_P [OF some] free code option.case collect_groups_eq
    using none by (cases "?rows = []") (simp_all only: simp_thms if_True if_False)
  have taken: "after_codes fts (goals c @ taken) ?st"
  proof (cases "?rows = []")
    case True
    then show ?thesis using Cons.prems(4) unfolding after_codes_def filter_empty_conv by auto
  next
    case False
    then have "ms_funds ?st = ms_funds st \<union> set (map f_id ?rows)" by (simp only: if_False commit_def match_state.simps match_result.simps ids)
    then show ?thesis using Cons.prems(4) unfolding after_codes_def by auto
  qed
  have inj: "inj_on b_id (set banks)" using assms(2) by (simp add: distinct_map)
  have still: "bank_free ?st b" if "b \<in> set banks" "has_manual_code b" "match_code b \<in> set cs" for b
  proof -
    have "match_code b \<noteq> c" using Cons.prems(2) that(3) by auto
    then have "b_id b \<notin> b_id ` set ?bs" using that(1) inj by (auto dest: inj_onD)
    then show ?thesis using Cons.prems(5) [of b] that by (simp add: bank_free_def commit_def)
  qed
  obtain ms where ms: "ms_matches (foldl (pass0_step ?gs) ?st
      (map (\<lambda>c. (c, filter (\<lambda>b. has_manual_code b \<and> match_code b = c) banks)) cs)) = ms_matches ?st @ ms"
    "list_all2 honours (manual_plan goals banks fts (goals c @ taken) cs) ms"
    using Cons.IH [OF _ _ _ taken still] Cons.prems(1-3) by auto
  have "honours (map b_id ?bs, map f_id ?rows) ?m" using ids by (simp only: honours_def fst_conv snd_conv match_result.simps)
  then show ?case
    unfolding list.map foldl.simps step
    using ms by (cases "?rows = []") (auto simp: commit_def simp del: filter_False)
qed simp

text \<open>C18: manual matches are honoured: whatever manual codes the bank rows of a view carry, if they are codes that
  \<open>createManualMatch\<close> writes (for goal codes without comma), the answer begins with one manual match for each of them that
  still finds a fund row in the view, in the order in which they occur: it has exactly the bank rows with that code and
  exactly the fund rows of the goal codes it was created for, less those that an earlier code has.\<close>

theorem manual_match_honoured:
  assumes "distinct (map b_id banks)" "distinct (map f_id fts)"
    and "\<And>b. b \<in> set banks \<Longrightarrow> has_manual_code b \<Longrightarrow>
      goals (match_code b) \<noteq> [] \<and> list_all (\<lambda>c. CHR '','' \<notin> set c) (goals (match_code b)) \<and>
      (\<exists>now. match_code b = manual_match_code now (goals (match_code b)))"
  shows "\<exists>ms rest. r_matches (goal_answer_of banks fts) = ms @ rest \<and>
    list_all2 (\<lambda>(bankIds, fundIds) m. m_matchType m = MANUAL \<and> m_bankIds m = bankIds \<and> set (m_fundIds m) = set fundIds)
      (manual_plan goals banks fts [] (js_unique (map match_code (filter has_manual_code banks)))) ms"
proof -
  let ?cs = "js_unique (map match_code (filter has_manual_code banks))"
  have codes: "manual_goal_codes c = Some (goals c)" if c: "c \<in> set ?cs" for c
  proof -
    obtain b where b: "b \<in> set banks" "has_manual_code b" "match_code b = c" using c by auto
    then obtain now where now: "c = manual_match_code now (goals c)" "goals c \<noteq> []" "\<forall>x \<in> set (goals c). CHR '','' \<notin> set x"
      using assms(3) [OF b(1,2)] by (auto simp: list_all_iff)
    have "manual_goal_codes (manual_match_code now (goals c)) = Some (goals c)" using now(2,3) by (rule manual_goal_codes_of_code)
    then show ?thesis unfolding now(1) [symmetric] .
  qed
  have "\<exists>ms. ms_matches (foldl (pass0_step (fund_groups fts)) init_state
      (map (\<lambda>c. (c, filter (\<lambda>b. has_manual_code b \<and> match_code b = c) banks)) ?cs)) = ms_matches init_state @ ms \<and>
    list_all2 honours (manual_plan goals banks fts [] ?cs) ms"
    by (rule pass0_follows_plan [OF assms(2,1)]) (auto simp: codes after_codes_def init_state_def bank_free_def)
  then obtain ms where ms: "ms_matches (pass0 banks (fund_groups fts) init_state) = ms" "list_all2 honours (manual_plan goals banks fts [] ?cs) ms"
    by (auto simp: pass0_def manual_groups_alt init_state_def)
  have "prefix ms (r_matches (goal_answer_of banks fts))"
    using smart_match_extends_pass0 [of banks "fund_groups fts"] by (simp add: answer_fields ms(1))
  then show ?thesis
    using ms(2) unfolding honours_def [abs_def] case_prod_beta' by (auto simp: prefix_def)
qed

section \<open>Removing a manual match\<close>

definition cleared :: "row_id list \<Rightarrow> string list \<Rightarrow> bank_txn \<Rightarrow> bool" where
  "cleared ids codes b = (b_id b \<in> set ids \<or> code_in codes b \<or> (\<exists>c \<in> set codes. manual_code_contains c b))"

lemma cleared_codes [simp]:
  "\<not> code_in codes (clear_match now b)" "\<not> manual_code_contains c (clear_match now b)"
  by (simp_all add: code_in_def manual_code_contains_def clear_match_def)

lemma clear_match_idem [simp]: "clear_match now (clear_match now b) = clear_match now b"
  by (simp add: clear_match_def)

lemma clear_where_twice:
  assumes "\<And>b. \<not> Q (clear_match now b)"
  shows "clear_where now Q (clear_where now P (n, rows)) = clear_where now (\<lambda>b. P b \<or> Q b) (n, rows)"
  using assms by (induction rows) (auto simp: clear_where_def update_where_def count_where_def)

lemma clear_codes_fold:
  "foldl (\<lambda>s c. clear_where now (manual_code_contains c) s) (clear_where now P (n, rows)) codes
     = clear_where now (\<lambda>b. P b \<or> (\<exists>c \<in> set codes. manual_code_contains c b)) (n, rows)"
proof (induction codes arbitrary: P)
  case (Cons c cs)
  show ?case by (simp add: clear_where_twice Cons.IH disj_assoc)
qed simp

text \<open>Removal needs several passes over the table, but does what one pass would: a row is
  cleared iff it is named by id, or its code is one of the given codes, or it is a manual code
  containing one of them; the returned number counts each cleared row once.\<close>

theorem remove_manual_match_single_pass:
  "remove_manual_match now db ids codes =
     (count_where (cleared ids codes) (db_bank db),
      db\<lparr>db_bank := update_where (cleared ids codes) (clear_match now) (db_bank db)\<rparr>)"
proof -
  have "clear_where now (\<lambda>b. b_id b \<in> set ids) (0, db_bank db) =
      (if ids \<noteq> [] then clear_where now (\<lambda>b. b_id b \<in> set ids) (0, db_bank db) else (0, db_bank db))"
    by (simp add: clear_where_def count_where_def update_where_def)
  moreover have "clear_where now (cleared ids codes) (0, db_bank db) =
      (if codes \<noteq> [] then foldl (\<lambda>s c. clear_where now (manual_code_contains c) s)
         (clear_where now (code_in codes) (clear_where now (\<lambda>b. b_id b \<in> set ids) (0, db_bank db))) codes
       else clear_where now (\<lambda>b. b_id b \<in> set ids) (0, db_bank db))"
  proof -
    have none: "cleared ids [] = (\<lambda>b. b_id b \<in> set ids)"
      by (auto simp: cleared_def code_in_def split: option.splits)
    have some: "cleared ids codes = (\<lambda>b. (b_id b \<in> set ids \<or> code_in codes b) \<or> (\<exists>c \<in> set codes. manual_code_contains c b))"
      by (rule ext) (simp add: cleared_def)
    show ?thesis
      by (cases "codes = []") (simp_all only: none some clear_where_twice clear_codes_fold cleared_codes simp_thms if_True if_False)
  qed
  ultimately have "remove_manual_match now db ids codes =
      (let s = clear_where now (cleared ids codes) (0, db_bank db) in (fst s, db\<lparr>db_bank := snd s\<rparr>))"
    unfolding remove_manual_match_def Let_def by (simp only: prod.collapse)
  then show ?thesis by (simp add: clear_where_def)
qed

theorem remove_manual_match_single_pass_witness:
  "fst (remove_manual_match 9 ex_manual_db [''b1''] [''c9'']) = 1"
  unfolding remove_manual_match_single_pass by code_simp

text \<open>Creating and then removing a manual match gives the rows back: rows that were pending
  and unmatched before are so again, only \<open>updatedAt\<close> has moved, and the number of rows
  released is the number of rows linked.\<close>

theorem create_then_remove:
  assumes "distinct (map b_id (db_bank db))"
    and "create_manual_match now db ids codes = Inr (a, db1)"
    and "remove_manual_match later db1 ids [] = (n, db2)"
    and "\<forall>b \<in> set (db_bank db). b_id b \<in> set ids \<longrightarrow>
           b_matchedGoalTransactionCode b = None \<and> b_reconciliationStatus b = RS_PENDING \<and>
           b_matchedAt b = None \<and> b_matchScore b = None"
  shows "n = ma_bankCount a \<and>
         db2 = db\<lparr>db_bank := map (\<lambda>b. if b_id b \<in> set ids then b\<lparr>b_updatedAt := later\<rparr> else b) (db_bank db)\<rparr>"
proof -
  let ?link = "link_manual now (manual_match_code now codes)"
  have db1: "db1 = db\<lparr>db_bank := update_where (\<lambda>b. b_id b \<in> set ids) ?link (db_bank db)\<rparr>"
    and a: "ma_bankCount a = count_where (\<lambda>b. b_id b \<in> set ids) (db_bank db)"
    using assms(2) by (auto simp: create_manual_match_def Let_def count_where_def split: if_splits)
  let ?rm = "clear_where later (\<lambda>b. b_id b \<in> set ids) (0, db_bank db1)"
  have rm: "remove_manual_match later db1 ids [] = (fst ?rm, db1\<lparr>db_bank := snd ?rm\<rparr>)"
    by (simp add: remove_manual_match_def clear_where_def count_where_def update_where_def)
  have "clear_match later (?link b) = b\<lparr>b_updatedAt := later\<rparr>" if "b \<in> set (db_bank db)" "b_id b \<in> set ids" for b
    using assms(4) that by (cases b) (auto simp: clear_match_def link_manual_def)
  then have "snd ?rm = map (\<lambda>b. if b_id b \<in> set ids then b\<lparr>b_updatedAt := later\<rparr> else b) (db_bank db)"
    by (simp add: clear_where_def db1 update_where_def)
  moreover have "fst ?rm = count_where (\<lambda>b. b_id b \<in> set ids) (db_bank db)"
    by (simp add: clear_where_def db1 update_where_def count_where_def filter_map comp_def if_distrib cong: if_cong)
  ultimately show ?thesis
    using assms(3) rm a by (simp add: db1)
qed

definition ex_two_db :: database where
  "ex_two_db = ex_db
     \<lparr>db_bank := [ex_bank ''a1'' ''T1'' 40 5000 None, ex_bank ''a2'' ''T2'' 41 3000 None],
      db_fund := [ex_fund ''f1'' ''c1'' ''Q1'' 10 8000]\<rparr>"

definition ex_created :: "match_error + (manual_answer \<times> database)" where
  "ex_created = create_manual_match 1000 ex_two_db [''a1'', ''a2''] [''c1'']"

lemma ex_created_ok:
  "ex_created = Inr (\<lparr>ma_bankCount = 2, ma_goalCount = 1, ma_bankTotal = 8000, ma_goalTotal = 8000\<rparr>, snd (projr ex_created))"
  by code_simp

lemma ex_two_db_ids: "distinct (map b_id (db_bank ex_two_db))"
  by code_simp

theorem create_manual_match_correct_witness:
  "distinct [''a1'', ''a2''] \<and> \<bar>(8000::money) - 8000\<bar> \<le> manual_tolerance 8000"
  using create_manual_match_correct [OF ex_two_db_ids, of 1000 "[''a1'', ''a2'']" "[''c1'']"] ex_created_ok
  by (simp add: ex_created_def [symmetric]) (simp add: manual_tolerance_def)

theorem create_then_remove_witness:
  "fst (remove_manual_match 2000 (snd (projr ex_created)) [''a1'', ''a2''] []) = 2"
proof -
  let ?r = "remove_manual_match 2000 (snd (projr ex_created)) [''a1'', ''a2''] []"
  have "\<forall>b \<in> set (db_bank ex_two_db). b_id b \<in> set [''a1'', ''a2''] \<longrightarrow>
      b_matchedGoalTransactionCode b = None \<and> b_reconciliationStatus b = RS_PENDING \<and>
      b_matchedAt b = None \<and> b_matchScore b = None"
    by (simp add: ex_two_db_def ex_bank_def)
  then show ?thesis
    using create_then_remove [OF ex_two_db_ids ex_created_ok [unfolded ex_created_def], of 2000 "fst ?r" "snd ?r"]
    by (simp add: ex_created_def)
qed

text \<open>A view with two manual matches.\<close>

definition ex_manual_goals :: "string \<Rightarrow> string list" where
  "ex_manual_goals code = (if code = manual_match_code 1000 [''c1''] then [''c1''] else [''c3'', ''c2''])"

definition ex_manual_banks :: "bank_txn list" where
  "ex_manual_banks = [ex_bank ''b1'' ''T1'' 40 5000 (Some (manual_match_code 2000 [''c3'', ''c2''])),
     ex_bank ''b2'' ''T2'' 41 3000 (Some (manual_match_code 1000 [''c1''])), ex_bank ''b3'' ''T3'' 42 7 None,
     ex_bank ''b4'' ''T4'' 43 1000 (Some (manual_match_code 2000 [''c3'', ''c2'']))]"

definition ex_manual_funds :: "fund_txn list" where
  "ex_manual_funds = [ex_fund ''f1'' ''c1'' ''Q1'' 10 3000, ex_fund ''f2'' ''c2'' ''Q2'' 10 4000, ex_fund ''f3'' ''c3'' ''Q3'' 10 2000]"

theorem manual_match_honoured_witness:
  "\<exists>m1 m2 rest. r_matches (goal_answer_of ex_manual_banks ex_manual_funds) = [m1, m2] @ rest
     \<and> m_bankIds m1 = [''b1'', ''b4''] \<and> set (m_fundIds m1) = {''f2'', ''f3''} \<and> m_bankIds m2 = [''b2''] \<and> set (m_fundIds m2) = {''f1''}"
proof -
  have "distinct (map b_id ex_manual_banks)" "distinct (map f_id ex_manual_funds)" by code_simp+
  moreover have "ex_manual_goals (match_code b) \<noteq> [] \<and> list_all (\<lambda>c. CHR '','' \<notin> set c) (ex_manual_goals (match_code b)) \<and>
      (\<exists>now. match_code b = manual_match_code now (ex_manual_goals (match_code b)))" if "b \<in> set ex_manual_banks" "has_manual_code b" for b
  proof -
    have ne: "manual_match_code 2000 [''c3'', ''c2''] \<noteq> manual_match_code 1000 [''c1'']" by code_simp
    have "match_code b = manual_match_code 1000 [''c1''] \<or> match_code b = manual_match_code 2000 [''c3'', ''c2'']"
      using that by (auto simp: ex_manual_banks_def has_manual_code_def match_code_def ex_bank_def)
    then show ?thesis using ne by (auto simp: ex_manual_goals_def)
  qed
  moreover have "manual_plan ex_manual_goals ex_manual_banks ex_manual_funds [] (js_unique (map match_code (filter has_manual_code ex_manual_banks))) =
      [([''b1'', ''b4''], [''f2'', ''f3'']), ([''b2''], [''f1''])]" by code_simp
  ultimately show ?thesis
    using manual_match_honoured [of ex_manual_banks ex_manual_funds ex_manual_goals]
    by (fastforce simp: list_all2_Cons1)
qed

text \<open>Removal by goal code reaches too far: asking to remove the match of \<open>c1\<close> also clears the
  manual match of \<open>c10\<close>, because a stored code is tested for containing the characters.\<close>

theorem removal_by_code_reaches_other_matches:
  "map b_matchedGoalTransactionCode (db_bank (snd (remove_manual_match 9
     (ex_db\<lparr>db_bank := [ex_bank ''b1'' ''T1'' 1 5 (Some ''MANUAL:17:c10'')]\<rparr>) [] [''c1'']))) = [None]"
  by code_simp

section \<open>Reversal pairs\<close>

lemma paired_id_note:
  assumes "i \<noteq> []" "\<forall>c \<in> set i. id_char c"
  shows "paired_id (pair_note i) = Some i"
proof -
  have "takeWhile id_char (drop 20 (pair_note i)) = i" using assms(2) by (simp add: pair_note_def takeWhile_eq_all_conv)
  moreover have "prefix ''Reversal pair with: '' (pair_note i)" by (simp add: pair_note_def)
  ultimately show ?thesis
    by (subst paired_id.simps) (simp only: assms(1) if_True simp_thms not_False_eq_True)
qed

lemma noted_pair_tag: "i \<noteq> [] \<Longrightarrow> \<forall>c \<in> set i. id_char c \<Longrightarrow> noted_pair (tag_reversal now who i b) = Some i"
  by (simp add: noted_pair_def tag_reversal_def paired_id_note)

lemma tag_fields [simp]: "b_reviewTag (tag_reversal now who i b) = Some REVERSAL_NETTED" "b_reviewTag (untag now b) = None"
  by (simp_all add: tag_reversal_def untag_def)

lemma untag_tag [simp]: "untag later (tag_reversal now who i b) = untag later b"
  by (simp add: untag_def tag_reversal_def)

lemma link_reversal_iff:
  "link_reversal now db i1 i2 who = Inr db1 \<longleftrightarrow>
     (\<exists>t1 t2. List.find (\<lambda>b. b_id b = i1) (db_bank db) = Some t1 \<and> List.find (\<lambda>b. b_id b = i2) (db_bank db) = Some t2 \<and>
        b_goalNumber t1 = b_goalNumber t2 \<and> b_transactionType t1 \<noteq> b_transactionType t2 \<and>
        \<bar>b_totalAmount t1 + b_totalAmount t2\<bar> \<le> 1 / 100 \<and>
        db1 = db\<lparr>db_bank := update_where (\<lambda>b. b_id b = i2) (tag_reversal now who i1)
                    (update_where (\<lambda>b. b_id b = i1) (tag_reversal now who i2) (db_bank db))\<rparr>)"
  unfolding link_reversal_def by (auto split: option.splits)

text \<open>Linking and unlinking a reversal pair are inverse: after a successful link each row of the pair
  is reported as the partner of the other, and unlinking either one releases both rows,
  with their review columns empty, and touches no other row.\<close>

theorem link_unlink_reversal:
  assumes "link_reversal now db i1 i2 who = Inr db1"
    and "i1 \<noteq> []" "\<forall>c \<in> set i1. id_char c" "i2 \<noteq> []" "\<forall>c \<in> set i2. id_char c"
  shows "(\<exists>p. get_reversal_pair_info db1 i1 = (True, Some p) \<and> b_id p = i2) \<and>
         (\<exists>p. get_reversal_pair_info db1 i2 = (True, Some p) \<and> b_id p = i1) \<and>
         unlink_reversal later db1 i1 = Inr (2, db\<lparr>db_bank := update_where (\<lambda>b. b_id b \<in> {i1, i2}) (untag later) (db_bank db)\<rparr>) \<and>
         unlink_reversal later db1 i2 = Inr (2, db\<lparr>db_bank := update_where (\<lambda>b. b_id b \<in> {i1, i2}) (untag later) (db_bank db)\<rparr>)"
proof -
  obtain t1 t2 where t: "List.find (\<lambda>b. b_id b = i1) (db_bank db) = Some t1" "List.find (\<lambda>b. b_id b = i2) (db_bank db) = Some t2"
    and types: "b_transactionType t1 \<noteq> b_transactionType t2"
    and db1: "db1 = db\<lparr>db_bank := update_where (\<lambda>b. b_id b = i2) (tag_reversal now who i1)
        (update_where (\<lambda>b. b_id b = i1) (tag_reversal now who i2) (db_bank db))\<rparr>"
    using assms(1) unfolding link_reversal_iff by blast
  have ne: "i1 \<noteq> i2" using t types by auto
  have id: "b_id t1 = i1" "b_id t2 = i2" using t find_SomeD by fastforce+
  have found: "List.find (\<lambda>b. b_id b = i1) (db_bank db1) = Some (tag_reversal now who i2 t1)"
    "List.find (\<lambda>b. b_id b = i2) (db_bank db1) = Some (tag_reversal now who i1 t2)"
    by (simp_all add: db1 find_update_where t id ne ne [symmetric])
  have pair: "noted_pair (tag_reversal now who i2 t1) = Some i2" "noted_pair (tag_reversal now who i1 t2) = Some i1"
    using assms(2-5) by (simp_all add: noted_pair_tag)
  have rows: "update_where (\<lambda>b. b_id b = i2) (untag later) (update_where (\<lambda>b. b_id b = i1) (untag later) (db_bank db1))
      = update_where (\<lambda>b. b_id b \<in> {i1, i2}) (untag later) (db_bank db)"
    "update_where (\<lambda>b. b_id b = i1) (untag later) (update_where (\<lambda>b. b_id b = i2) (untag later) (db_bank db1))
      = update_where (\<lambda>b. b_id b \<in> {i1, i2}) (untag later) (db_bank db)"
    using ne by (simp_all add: db1 update_where_def)
  show ?thesis
    using ne by (simp add: get_reversal_pair_info_def unlink_reversal_def found pair find_update_where id rows Let_def) (simp add: db1)
qed

text \<open>Every candidate offered for a reversal can be linked: a row that
  \<open>findReversalCandidates\<close> returns passes all the checks of \<open>linkReversal\<close>.\<close>

theorem candidates_can_be_linked:
  assumes "distinct (map b_id (db_bank db))"
    and "find_reversal_candidates db i dateRange = Inr (source, cands)" "c \<in> set cands"
  shows "\<exists>db1. link_reversal now db i (b_id c) who = Inr db1"
proof -
  have s: "List.find (\<lambda>b. b_id b = i) (db_bank db) = Some source"
    and c: "c \<in> set (db_bank db)" "reversal_candidate source dateRange c"
    using assms(2,3) by (auto simp: find_reversal_candidates_def split: option.splits)
  have "List.find (\<lambda>b. b_id b = b_id c) (db_bank db) = Some c"
    using find_by_id [OF assms(1) c(1)] by simp
  moreover have "b_transactionType source \<noteq> opposite_type (b_transactionType source)"
    by (auto simp: opposite_type_def)
  ultimately show ?thesis
    unfolding link_reversal_iff using s c(2) by (auto simp: reversal_candidate_def)
qed

definition ex_reversal_db :: database where
  "ex_reversal_db = ex_db\<lparr>db_bank := [ex_bank ''1a'' ''T1'' 1 700 None,
     (ex_bank ''1b'' ''T2'' 2 (- 700) None)\<lparr>b_transactionType := WITHDRAWAL\<rparr>,
     (ex_bank ''1c'' ''T3'' 3 (- 700) None)\<lparr>b_transactionType := WITHDRAWAL\<rparr>]\<rparr>"

definition ex_link :: "match_error + database" where
  "ex_link = link_reversal 5 ex_reversal_db ''1a'' ''1b'' ''u''"

lemma ex_link_ok: "ex_link = Inr (projr ex_link)"
  by code_simp

theorem link_unlink_reversal_witness:
  "\<exists>p. get_reversal_pair_info (projr ex_link) ''1a'' = (True, Some p) \<and> b_id p = ''1b''"
  using link_unlink_reversal [OF ex_link_ok [unfolded ex_link_def]]
  by (simp add: id_char_def ex_link_def)

theorem candidates_can_be_linked_witness:
  "\<exists>db1. link_reversal 5 ex_reversal_db ''1a'' ''1c'' ''u'' = Inr db1"
proof -
  let ?r = "find_reversal_candidates ex_reversal_db ''1a'' None"
  have "distinct (map b_id (db_bank ex_reversal_db))" by code_simp
  moreover have "map b_id (snd (projr ?r)) = [''1c'', ''1b'']" "?r = Inr (fst (projr ?r), snd (projr ?r))"
    by code_simp+
  moreover from this have "''1c'' \<in> b_id ` set (snd (projr ?r))" by (metis list.set_intros(1) list.set_map)
  then obtain c where "c \<in> set (snd (projr ?r))" "b_id c = ''1c''" by auto
  ultimately show ?thesis
    using candidates_can_be_linked [of ex_reversal_db "''1a''" None "fst (projr ?r)" "snd (projr ?r)" c 5 "''u''"]
    by simp
qed

text \<open>A row can be drawn into a second pair, which breaks the first: after linking \<open>1a\<close> with \<open>1b\<close> and
  then with \<open>1c\<close>, unlinking \<open>1b\<close> releases \<open>1a\<close> too and leaves \<open>1c\<close> netted against a row
  that carries no tag.\<close>

theorem relinking_breaks_pairs:
  "map b_reviewTag (db_bank (snd (projr (unlink_reversal 7
     (projr (link_reversal 6 (projr ex_link) ''1a'' ''1c'' ''u'')) ''1b''))))
   = [None, None, Some REVERSAL_NETTED]"
  by code_simp

end
