(* ===== verification/ReviewProperties.thy ===== *)
theory ReviewProperties
  imports ManualMatchProperties
begin

text \<open>
  The review status of a goal: how its counts hang together, that reviewing every
  unmatched transaction completes it, and that the SQL of the status query reads back the codes
  that matching stores.
\<close>

section \<open>Reviewing leaves the queries alone\<close>

lemma review_bank_frame [simp]:
  "b_goalNumber (review_bank now tag notes who b) = b_goalNumber b"
  "bank_counts s e (review_bank now tag notes who b) = bank_counts s e b"
  "same_txn (review_bank now tag notes who b) f = same_txn b f"
  "b_reviewTag (review_bank now tag notes who b) = Some tag"
  by (simp_all add: review_bank_def bank_counts_def same_txn_def)

lemma review_fund_frame [simp]:
  "f_id (review_fund now tag notes who f) = f_id f"
  "f_goalTransactionCode (review_fund now tag notes who f) = f_goalTransactionCode f"
  "fund_counts s e (review_fund now tag notes who f) = fund_counts s e f"
  "fund_of_goal db n (review_fund now tag notes who f) = fund_of_goal db n f"
  "same_txn b (review_fund now tag notes who f) = same_txn b f"
  "f_reviewTag (review_fund now tag notes who f) = Some tag"
  by (simp_all add: review_fund_def fund_counts_def fund_of_goal_def same_txn_def)

lemma bulk_review_tables:
  "snd (bulk_review now db ids codes tag notes who) =
     db\<lparr>db_bank := update_where (\<lambda>b. b_id b \<in> set ids) (review_bank now tag notes who) (db_bank db),
        db_fund := update_where (\<lambda>f. f_goalTransactionCode f \<in> set codes) (review_fund now tag notes who) (db_fund db)\<rparr>"
  by (simp add: bulk_review_def update_where_def)

lemma fund_of_goal_cong: "db_goals db' = db_goals db \<Longrightarrow> fund_of_goal db' n f = fund_of_goal db n f"
  by (simp add: fund_of_goal_def)

lemma unmatched_after_review:
  assumes "db' = snd (bulk_review now db ids codes tag notes who)"
  shows "unmatched_bank_rows db' n s e = update_where (\<lambda>b. b_id b \<in> set ids) (review_bank now tag notes who) (unmatched_bank_rows db n s e)"
    and "unmatched_fund_rows db' n s e = update_where (\<lambda>f. f_goalTransactionCode f \<in> set codes) (review_fund now tag notes who) (unmatched_fund_rows db n s e)"
proof -
  let ?ub = "\<lambda>b. if b_id b \<in> set ids then review_bank now tag notes who b else b"
  let ?uf = "\<lambda>f. if f_goalTransactionCode f \<in> set codes then review_fund now tag notes who f else f"
  have t: "db_bank db' = map ?ub (db_bank db)" "db_fund db' = map ?uf (db_fund db)" "db_goals db' = db_goals db"
    by (simp_all add: assms bulk_review_tables update_where_def)
  note goal = fund_of_goal_cong [OF t(3)]
  have f: "fund_of_goal db m (?uf f) = fund_of_goal db m f" "fund_counts s e (?uf f) = fund_counts s e f"
    "same_txn b (?uf f) = same_txn b f" for b m f by simp_all
  have b: "b_goalNumber (?ub b) = b_goalNumber b" "bank_counts s e (?ub b) = bank_counts s e b"
    "same_txn (?ub b) f = same_txn b f" for b f by simp_all
  show "unmatched_bank_rows db' n s e = update_where (\<lambda>b. b_id b \<in> set ids) (review_bank now tag notes who) (unmatched_bank_rows db n s e)"
    unfolding unmatched_bank_rows_def t update_where_def filter_map comp_def goal set_map bex_simps b f ..
  show "unmatched_fund_rows db' n s e = update_where (\<lambda>f. f_goalTransactionCode f \<in> set codes) (review_fund now tag notes who) (unmatched_fund_rows db n s e)"
    unfolding unmatched_fund_rows_def t update_where_def filter_map comp_def goal set_map bex_simps b f ..
qed

text \<open>Bulk review of everything unmatched finishes the goal: afterwards nothing is pending, and
  the status is fully reviewed, or without variances when there was nothing to review.\<close>

theorem bulk_review_completes:
  assumes "ids = map b_id (unmatched_bank_rows db n s e)"
    and "codes = map f_goalTransactionCode (unmatched_fund_rows db n s e)"
    and "db' = snd (bulk_review now db ids codes tag notes who)"
  shows "rs_pending (get_goal_review_status db' n s e) = 0 \<and>
         rs_status (get_goal_review_status db' n s e) =
           (if ids = [] \<and> codes = [] then GR_NO_VARIANCES else GR_FULLY_REVIEWED)"
proof -
  note rows = unmatched_after_review [OF assms(3), of n s e]
  let ?all = "all_unmatched db' n s e"
  have bank: "snd r" if "r \<in> set (map (\<lambda>b. (b_reviewTag b, b_reviewTag b \<noteq> None \<or> b_matchedGoalTransactionCode b \<noteq> None)) (unmatched_bank_rows db' n s e))" for r
    using that unfolding rows(1) by (auto simp: in_update_where assms(1))
  have goal: "snd r" if "r \<in> set (map (\<lambda>(code, tag, smart). (tag, tag \<noteq> None \<or> smart)) (unmatched_goal_rows db' n s e))" for r
    using that unfolding unmatched_goal_rows_def rows(2) by (auto simp: in_update_where assms(2))
  have "\<forall>r \<in> set ?all. snd r"
    unfolding all_unmatched_def set_append using bank goal by blast
  then have all: "filter snd ?all = ?all" by simp
  have empty: "?all = [] \<longleftrightarrow> ids = [] \<and> codes = []"
    by (simp add: all_unmatched_def unmatched_goal_rows_def rows update_where_def assms(1,2))
  show ?thesis
    by (simp add: get_goal_review_status_def Let_def all review_state_of_def empty)
qed

theorem bulk_review_completes_witness:
  "rs_status (get_goal_review_status
     (snd (bulk_review 7 ex_db [''b2'', ''b3'', ''b4'', ''b5''] [''c2'', ''c3'', ''c4''] NO_ACTION_NEEDED None ''u''))
     ''G'' 0 300) = GR_FULLY_REVIEWED"
proof -
  have "map b_id (unmatched_bank_rows ex_db ''G'' 0 300) = [''b2'', ''b3'', ''b4'', ''b5'']"
    "map f_goalTransactionCode (unmatched_fund_rows ex_db ''G'' 0 300) = [''c2'', ''c3'', ''c4'']"
    by code_simp+
  then show ?thesis
    using bulk_review_completes [of "[''b2'', ''b3'', ''b4'', ''b5'']" ex_db "''G''" 0 300 "[''c2'', ''c3'', ''c4'']"
        _ 7 NO_ACTION_NEEDED None "''u''", OF _ _ refl] by simp
qed

section \<open>The counts\<close>

lemma foldl_count_up: "foldl (\<lambda>n _. n + 1) a xs = a + length xs" for a :: nat
  by (induction xs arbitrary: a) simp_all

lemma sum_tag_counts:
  "sum_list (map snd (tag_counts rows)) = length (filter (\<lambda>r. fst r \<noteq> None) rows)"
proof -
  let ?ts = "filter (\<lambda>t. t \<noteq> None) (map fst rows)"
  let ?part = "\<lambda>k. filter (\<lambda>t. the t = k) ?ts"
  have entry: "snd e = length (?part (fst e))" if mem: "e \<in> set (tag_counts rows)" for e
  proof -
    obtain k v where e: "e = (k, v)" by (cases e)
    obtain y ys where "?part k = y # ys" "v = foldl (\<lambda>n _. n + 1) (0 :: nat) (y # ys)"
      using mem unfolding e tag_counts_def by (rule entry_accumulate)
    then show ?thesis by (simp only: e fst_conv snd_conv foldl_count_up add_0)
  qed
  have "sum_list (map snd (tag_counts rows)) = sum_list (map (\<lambda>k. length (?part k)) (map fst (tag_counts rows)))"
    using entry by (simp add: comp_def cong: map_cong)
  also have "\<dots> = length (concat (map ?part (map fst (tag_counts rows))))"
    by (simp add: length_concat comp_def)
  also have "\<dots> = length ?ts"
    by (intro mset_eq_length mset_concat_partition) (simp_all add: tag_counts_def)
  also have "\<dots> = length (filter (\<lambda>r. fst r \<noteq> None) rows)"
    by (simp add: filter_map comp_def)
  finally show ?thesis .
qed

text \<open>The counts of a review status agree with each other and with the status: reviewed and
  pending add up to the total, every tag counted belongs to a reviewed transaction, and
  each of the four statuses is reported exactly in its case.\<close>

theorem review_status_consistent:
  fixes db :: database and n :: string and s e :: int
  defines "r \<equiv> get_goal_review_status db n s e"
  shows "rs_reviewed r + rs_pending r = rs_total r \<and>
         sum_list (map snd (rs_byTag r)) \<le> rs_reviewed r \<and>
         (rs_status r = GR_NO_VARIANCES \<longleftrightarrow> rs_total r = 0) \<and>
         (rs_status r = GR_FULLY_REVIEWED \<longleftrightarrow> rs_total r > 0 \<and> rs_pending r = 0) \<and>
         (rs_status r = GR_PARTIALLY_REVIEWED \<longleftrightarrow> rs_reviewed r > 0 \<and> rs_pending r > 0) \<and>
         (rs_status r = GR_PENDING \<longleftrightarrow> rs_reviewed r = 0 \<and> rs_pending r > 0)"
proof -
  let ?rows = "all_unmatched db n s e"
  have le: "length (filter snd ?rows) \<le> length ?rows" by (rule length_filter_le)
  have "\<forall>x \<in> set ?rows. fst x \<noteq> None \<longrightarrow> snd x" by (auto simp: all_unmatched_def)
  then have "filter (\<lambda>x. fst x \<noteq> None) ?rows = filter (\<lambda>x. fst x \<noteq> None) (filter snd ?rows)"
    by (auto intro!: filter_cong)
  then have "length (filter (\<lambda>x. fst x \<noteq> None) ?rows) \<le> length (filter snd ?rows)"
    by (metis length_filter_le)
  then show ?thesis
    using le by (simp add: r_def get_goal_review_status_def Let_def sum_tag_counts review_state_of_def)
qed

theorem review_status_consistent_witness:
  "rs_reviewed (get_goal_review_status ex_db ''G'' 0 300) + rs_pending (get_goal_review_status ex_db ''G'' 0 300)
     = rs_total (get_goal_review_status ex_db ''G'' 0 300)"
  using review_status_consistent [of ex_db "''G''" 0 300] by simp

section \<open>What the SQL reads out of a stored code\<close>

lemma split_on_first: "c \<notin> set u \<Longrightarrow> split_on c (u @ c # v) = u # split_on c v"
  by (induction u) (auto split: list.splits)

lemma no_colon_type [simp]: "CHR '':'' \<notin> set (match_type_name t)"
  by (cases t) simp_all

lemma type_not_manual: "t \<noteq> MANUAL \<Longrightarrow> \<not> prefix ''MANUAL:'' (match_type_name t @ '':'' @ s)"
  by (cases t) (simp_all add: prefix_def)

lemma join_nonempty: "ws \<noteq> [] \<Longrightarrow> \<forall>w \<in> set ws. w \<noteq> [] \<Longrightarrow> join_with c ws \<noteq> []"
  by (induction c ws rule: join_with.induct) auto

definition plain_code :: "string \<Rightarrow> bool" where
  "plain_code c = (c \<noteq> [] \<and> CHR '':'' \<notin> set c \<and> CHR '','' \<notin> set c)"

lemma string_to_array_join:
  "ws \<noteq> [] \<Longrightarrow> \<forall>w \<in> set ws. plain_code w \<Longrightarrow> string_to_array (join_with CHR '','' ws) = ws"
  using join_nonempty [of ws "CHR '',''"] by (simp add: string_to_array_def plain_code_def split_on_join)

text \<open>The SQL of the review status reads a stored match code as matching wrote it: for
  goal codes without a colon or comma, the codes it extracts are the goal codes of the
  automatic match, and of the manual match, respectively.\<close>

theorem stored_codes_read_back:
  assumes "\<forall>c \<in> set (goal_codes_for groups m). plain_code c" "m_matchType m \<noteq> MANUAL"
    and "persisted_code groups m = Some s"
    and "codes \<noteq> []" "\<forall>c \<in> set codes. plain_code c"
  shows "sql_goal_codes s = goal_codes_for groups m \<and> sql_goal_codes (manual_match_code now codes) = codes"
proof
  show "sql_goal_codes (manual_match_code now codes) = codes"
  proof -
    let ?j = "join_with CHR '','' codes"
    have "CHR '':'' \<notin> set ?j" using assms(5) by (intro notin_join) (auto simp: plain_code_def)
    then have "split_on CHR '':'' (manual_match_code now codes) = [''MANUAL'', nat_digits (nat now), ?j]"
      using split_on_first [of "CHR '':''" "''MANUAL''"] split_on_first [of "CHR '':''" "nat_digits (nat now)" ?j]
      by (simp add: manual_match_code_def split_on_notin)
    then show ?thesis
      using assms(4,5) string_to_array_join manual_code_is_manual(1) [of now codes]
      by (simp add: sql_goal_codes_def split_part_def)
  qed
next
  consider (single) c where "goal_codes_for groups m = [c]" "s = c"
    | (many) "s = match_type_name (m_matchType m) @ '':'' @ join_with CHR '','' (goal_codes_for groups m)"
      "goal_codes_for groups m \<noteq> []"
    using assms(3) unfolding persisted_code_def
    by (cases "goal_codes_for groups m" rule: remdups_adj.cases) auto
  then show "sql_goal_codes s = goal_codes_for groups m"
  proof cases
    case single
    then have c: "plain_code c" using assms(1) by simp
    then have "\<not> prefix ''MANUAL:'' c" by (auto simp: plain_code_def prefix_def)
    then show ?thesis
      using single c string_to_array_join [of "[c]"] by (simp add: sql_goal_codes_def plain_code_def)
  next
    case many
    let ?j = "join_with CHR '','' (goal_codes_for groups m)" and ?t = "match_type_name (m_matchType m)"
    have "CHR '':'' \<notin> set ?j" using assms(1) by (intro notin_join) (auto simp: plain_code_def)
    then have "split_on CHR '':'' s = [?t, ?j]"
      using split_on_first [of "CHR '':''" ?t ?j] many(1) by (simp add: split_on_notin)
    moreover have "\<not> prefix ''MANUAL:'' s" using type_not_manual [OF assms(2)] many(1) by simp
    moreover have "CHR '':'' \<in> set s" using many(1) by simp
    ultimately show ?thesis
      using many(2) assms(1) string_to_array_join by (simp add: sql_goal_codes_def split_part_def)
  qed
qed

theorem stored_codes_read_back_witness:
  "sql_goal_codes (manual_match_code 1000 [''c1'', ''c2'']) = [''c1'', ''c2''] \<and> sql_goal_codes ''c2'' = [''c2'']"
proof -
  let ?m = "\<lparr>m_bankIds = [''b2''], m_fundIds = [''f3''], m_matchType = AMOUNT, m_confidence = 78 / 100,
      m_bankTotal = 9000, m_fundTotal = 9100\<rparr>"
  have "goal_codes_for (fund_groups ex_funds) ?m = [''c2'']" by code_simp
  then show ?thesis
    using stored_codes_read_back [of "fund_groups ex_funds" ?m "''c2''" "[''c1'', ''c2'']" 1000]
    by (simp add: persisted_code_def plain_code_def)
qed

end
