(* ===== verification/SummaryProperties.thy ===== *)
theory SummaryProperties
  imports Summary ReviewProperties
begin

text \<open>
  The overviews against the tables and against each other: no amount is lost or counted twice,
  the account overview is the fund overview grouped by account although its classification
  is done in SQL and not in TypeScript, and the review status of the goal overview agrees with the
  one computed for a single goal.
\<close>

section \<open>Sums over a partition\<close>

lemma sum_over_keys:
  fixes amt :: "'r \<Rightarrow> rat"
  assumes "distinct ks" "\<And>x k k'. x \<in> set rows \<Longrightarrow> R k x \<Longrightarrow> R k' x \<Longrightarrow> k = k'"
  shows "sum_list (map (\<lambda>k. sum_list (map amt (filter (R k) rows))) ks)
       = sum_list (map amt (filter (\<lambda>x. \<exists>k \<in> set ks. R k x) rows))"
  using assms(1)
proof (induction ks)
  case (Cons k ks)
  have "sum_list (map amt (filter (\<lambda>x. R k x \<or> (\<exists>k \<in> set ks. R k x)) rows))
      = sum_list (map amt (filter (R k) rows)) + sum_list (map amt (filter (\<lambda>x. \<exists>k \<in> set ks. R k x) rows))"
    using Cons.prems assms(2) by (intro sum_filter_disjoint) auto
  then show ?case using Cons by simp
qed simp

lemma sum_sort_key: "sum_list (map amt (sort_key k xs)) = sum_list (map amt xs)" for amt :: "'a \<Rightarrow> rat"
proof -
  have "mset (map amt (sort_key k xs)) = mset (map amt xs)" by simp
  then show ?thesis by (metis sum_mset_sum_list)
qed

lemma sum_filter_zero:
  "(\<And>x. x \<in> set xs \<Longrightarrow> \<not> P x \<Longrightarrow> amt x = 0) \<Longrightarrow> sum_list (map amt (filter P xs)) = sum_list (map amt xs)"
  for amt :: "'a \<Rightarrow> rat"
  by (induction xs) auto

lemma goal_search_None [simp]: "goal_search ilike None l" "account_search ilike None l"
  by (simp_all add: goal_search_def account_search_def search_pattern_def)

lemma goal_info_None: "goal_info (goal_search ilike None) db = remdups (all_goal_info db)"
  "goal_info (account_search ilike None) db = remdups (all_goal_info db)"
  by (simp_all add: goal_info_def)

section \<open>No amount is lost\<close>

lemma summary_sum_labels:
  fixes col :: "goal_summary \<Rightarrow> rat"
  assumes "\<And>l. \<not> goal_active db s e l \<Longrightarrow> col (summarise_goal db s e l) = 0"
  shows "sum_list (map col (fst (get_goal_summary ilike collate db s e None GF_ALL)))
       = sum_list (map (\<lambda>l. col (summarise_goal db s e l)) (remdups (all_goal_info db)))"
proof -
  have "sum_list (map col (fst (get_goal_summary ilike collate db s e None GF_ALL)))
      = sum_list (map (\<lambda>l. col (summarise_goal db s e l)) (filter (goal_active db s e) (remdups (all_goal_info db))))"
    unfolding get_goal_summary_def Let_def goal_info_None
    by (simp add: sum_sort_key comp_def)
  also have "\<dots> = sum_list (map (\<lambda>l. col (summarise_goal db s e l)) (remdups (all_goal_info db)))"
    using assms by (rule sum_filter_zero)
  finally show ?thesis .
qed

lemma coalesce_bank: "fst (coalesce (bank_summary db n t s e)) = sum_list (map b_totalAmount (bank_rows_of db n t s e))"
  by (simp add: coalesce_def bank_summary_def Let_def)

lemma coalesce_goal: "fst (coalesce (goal_txn_summary db n t s e)) = sum_list (map f_amount (fund_rows_of db n t s e))"
  by (simp add: coalesce_def goal_txn_summary_def Let_def)

definition registered :: "database \<Rightarrow> string set" where
  "registered db = gl_number ` set (all_goal_info db)"

definition bank_money :: "database \<Rightarrow> transaction_type \<Rightarrow> int \<Rightarrow> int \<Rightarrow> money" where
  "bank_money db t s e = sum_list (map b_totalAmount (filter (\<lambda>b. b_goalNumber b \<in> registered db \<and>
     b_transactionType b = t \<and> bank_counts s e b) (db_bank db)))"

definition fund_money :: "database \<Rightarrow> transaction_type \<Rightarrow> int \<Rightarrow> int \<Rightarrow> money" where
  "fund_money db t s e = sum_list (map f_amount (filter (\<lambda>f. (\<exists>n \<in> registered db. fund_of_goal db n f) \<and>
     f_transactionType f = t \<and> fund_counts s e f) (db_fund db)))"

text \<open>The goal overview loses no money and counts none twice: without filters, its deposit columns add
  up to the deposits in the bank table and in the fund table that fall into the period and
  belong to a registered goal; likewise for the withdrawals.\<close>

theorem goal_summary_conserves:
  assumes "distinct (map gl_number (remdups (all_goal_info db)))" "distinct (map go_id (db_goals db))"
    and "get_goal_summary ilike collate db s e None GF_ALL = (rows, cnt)"
  shows "sum_list (map gs_bankDeposits rows) = bank_money db DEPOSIT s e \<and>
         sum_list (map gs_bankWithdrawals rows) = bank_money db WITHDRAWAL s e \<and>
         sum_list (map gs_goalDeposits rows) = fund_money db DEPOSIT s e \<and>
         sum_list (map gs_goalWithdrawals rows) = fund_money db WITHDRAWAL s e"
proof -
  let ?ls = "remdups (all_goal_info db)"
  have reg: "set (map gl_number ?ls) = registered db" by (simp add: registered_def)
  have bank_sum: "sum_list (map (\<lambda>l. sum_list (map b_totalAmount (bank_rows_of db (gl_number l) t s e))) ?ls) = bank_money db t s e" for t
  proof -
    have "sum_list (map (\<lambda>n. sum_list (map b_totalAmount (filter (\<lambda>b. b_goalNumber b = n \<and> b_transactionType b = t \<and> bank_counts s e b) (db_bank db)))) (map gl_number ?ls))
        = sum_list (map b_totalAmount (filter (\<lambda>b. \<exists>n \<in> set (map gl_number ?ls). b_goalNumber b = n \<and> b_transactionType b = t \<and> bank_counts s e b) (db_bank db)))"
      using assms(1) by (rule sum_over_keys) auto
    then show ?thesis unfolding reg by (simp add: bank_rows_of_def bank_money_def comp_def)
  qed
  have goal_unique: "n = n'" if "fund_of_goal db n f" "fund_of_goal db n' f" for n n' f
    using that assms(2) unfolding fund_of_goal_def distinct_map by (metis inj_onD)
  have fund_sum: "sum_list (map (\<lambda>l. sum_list (map f_amount (fund_rows_of db (gl_number l) t s e))) ?ls) = fund_money db t s e" for t
  proof -
    have "sum_list (map (\<lambda>n. sum_list (map f_amount (filter (\<lambda>f. fund_of_goal db n f \<and> f_transactionType f = t \<and> fund_counts s e f) (db_fund db)))) (map gl_number ?ls))
        = sum_list (map f_amount (filter (\<lambda>f. \<exists>n \<in> set (map gl_number ?ls). fund_of_goal db n f \<and> f_transactionType f = t \<and> fund_counts s e f) (db_fund db)))"
      using assms(1) by (rule sum_over_keys) (use goal_unique in blast)
    then show ?thesis unfolding reg by (simp add: fund_rows_of_def fund_money_def comp_def)
  qed
  have cols: "gs_bankDeposits (summarise_goal db s e l) = sum_list (map b_totalAmount (bank_rows_of db (gl_number l) DEPOSIT s e))"
    "gs_bankWithdrawals (summarise_goal db s e l) = sum_list (map b_totalAmount (bank_rows_of db (gl_number l) WITHDRAWAL s e))"
    "gs_goalDeposits (summarise_goal db s e l) = sum_list (map f_amount (fund_rows_of db (gl_number l) DEPOSIT s e))"
    "gs_goalWithdrawals (summarise_goal db s e l) = sum_list (map f_amount (fund_rows_of db (gl_number l) WITHDRAWAL s e))" for l
    by (simp_all add: summarise_goal_def Let_def coalesce_bank coalesce_goal)
  have idle: "bank_rows_of db (gl_number l) DEPOSIT s e = []" "bank_rows_of db (gl_number l) WITHDRAWAL s e = []"
    "fund_rows_of db (gl_number l) DEPOSIT s e = []" "fund_rows_of db (gl_number l) WITHDRAWAL s e = []"
    if "\<not> goal_active db s e l" for l
    using that by (simp_all add: goal_active_def bank_summary_def goal_txn_summary_def Let_def split: if_splits)
  have "rows = fst (get_goal_summary ilike collate db s e None GF_ALL)" using assms(3) by simp
  then show ?thesis
    using idle by (simp add: summary_sum_labels cols bank_sum fund_sum)
qed

section \<open>Accounts are groups of goals\<close>

lemma sql_variance_is_ts: "sql_has_variance bank goal = any_fund_variance goal (sub_sums bank goal)"
  by (simp add: sql_has_variance_def sql_exceeds_def any_fund_variance_def check_variance_def sub_sums_def)

lemma add_sums_mset: "mset xs = mset ys \<Longrightarrow> add_sums xs = add_sums ys"
  by (simp add: add_sums_def flip: sum_mset_sum_list)

lemma goal_fund_level_None:
  "goal_fund_level (goal_search ilike None) db s e = goal_fund_level (\<lambda>_. True) db s e"
  "goal_fund_level (account_search ilike None) db s e = goal_fund_level (\<lambda>_. True) db s e"
  by (simp_all add: goal_fund_level_def goal_info_def)

definition account_rows :: "string \<Rightarrow> fund_summary list \<Rightarrow> fund_summary list" where
  "account_rows a rows = filter (\<lambda>r. gl_account (fu_label r) = a) rows"

lemma summarise_funds_fields [simp]:
  "fu_label (summarise_funds r) = fst r" "fu_bank (summarise_funds r) = fst (snd r)"
  "fu_goal (summarise_funds r) = snd (snd r)"
  "(fu_status (summarise_funds r) = SS_VARIANCE) = sql_has_variance (fst (snd r)) (snd (snd r))"
  by (cases r; simp add: summarise_funds_def sql_variance_is_ts)+

definition account_row_correct :: "(string \<Rightarrow> nat) \<Rightarrow> fund_summary list \<Rightarrow> account_summary \<Rightarrow> bool" where
  "account_row_correct collate funds a =
     (let rows = account_rows (as_account a) funds; bank = add_sums (map fu_bank rows); goal = add_sums (map fu_goal rows)
      in as_bank a = bank \<and> as_goal a = goal \<and> as_variance a = sub_sums bank goal \<and>
         as_status a = (if any_fund_variance goal (sub_sums bank goal) then SS_VARIANCE else SS_MATCHED) \<and>
         as_goalCount a = length (remdups (map (gl_number \<circ> fu_label) rows)) \<and>
         as_varianceGoals a = length (filter (\<lambda>r. fu_status r = SS_VARIANCE) rows) \<and>
         as_matchedGoals a = length (filter (\<lambda>r. fu_status r = SS_MATCHED) rows) \<and>
         as_client a \<in> set (map (gl_client \<circ> fu_label) rows) \<and>
         list_all (\<lambda>r. collate (gl_client (fu_label r)) \<le> collate (as_client a)) rows)"

lemma max_by_correct: "xs \<noteq> [] \<Longrightarrow> max_by key xs \<in> set xs \<and> list_all (\<lambda>x. key x \<le> key (max_by key xs)) xs"
proof -
  have "foldl (\<lambda>m x. if key m < key x then x else m) y ys \<in> set (y # ys) \<and>
      list_all (\<lambda>x. key x \<le> key (foldl (\<lambda>m x. if key m < key x then x else m) y ys)) (y # ys)" for y ys
  proof (induction ys arbitrary: y)
    case (Cons z zs)
    show ?case
    proof (cases "key y < key z")
      case True
      then show ?thesis using Cons.IH [of z] by auto
    next
      case False
      then show ?thesis using Cons.IH [of y] by auto
    qed
  qed simp
  then show "xs \<noteq> [] \<Longrightarrow> ?thesis" by (cases xs) (simp_all add: max_by_def)
qed

lemma status_of_funds: "(fu_status (summarise_funds r) = SS_MATCHED) = (\<not> sql_has_variance (fst (snd r)) (snd (snd r)))"
  by (simp add: summarise_funds_def sql_variance_is_ts split: prod.split)

lemma account_row_of_group:
  assumes "snd entry \<noteq> []" "mset (account_rows (fst entry) funds) = mset (map summarise_funds (snd entry))"
  shows "account_row_correct collate funds (summarise_account collate entry)"
proof -
  let ?rows = "account_rows (fst entry) funds" and ?a = "summarise_account collate entry"
  have name: "as_account ?a = fst entry" by (simp add: summarise_account_def Let_def)
  have "mset (map fu_bank ?rows) = mset (map (\<lambda>r. fst (snd r)) (snd entry))" "mset (map fu_goal ?rows) = mset (map (\<lambda>r. snd (snd r)) (snd entry))"
    by (simp_all add: assms(2) image_mset.compositionality comp_def)
  then have sums: "add_sums (map fu_bank ?rows) = as_bank ?a" "add_sums (map fu_goal ?rows) = as_goal ?a"
    by (auto simp: summarise_account_def Let_def intro!: add_sums_mset)
  have "length (remdups (map (gl_number \<circ> fu_label) ?rows)) = length (remdups (map (gl_number \<circ> fu_label) (map summarise_funds (snd entry))))"
    using mset_eq_setD [OF assms(2)] by (simp add: length_remdups_card_conv image_image)
  then have goals: "length (remdups (map (gl_number \<circ> fu_label) ?rows)) = as_goalCount ?a"
    by (simp add: summarise_account_def Let_def comp_def)
  have counts: "length (filter (\<lambda>r. fu_status r = SS_VARIANCE) ?rows) = as_varianceGoals ?a"
      "length (filter (\<lambda>r. fu_status r = SS_MATCHED) ?rows) = as_matchedGoals ?a"
    unfolding length_filter_mset [OF assms(2)] by (simp_all add: filter_map comp_def status_of_funds summarise_account_def Let_def)
  have clients: "set (map (gl_client \<circ> fu_label) ?rows) = set (map (\<lambda>r. gl_client (fst r)) (snd entry))"
    using mset_eq_setD [OF assms(2)] by (simp add: image_image)
  have "as_client ?a = max_by collate (map (\<lambda>r. gl_client (fst r)) (snd entry))" by (simp add: summarise_account_def Let_def)
  then have client: "as_client ?a \<in> set (map (gl_client \<circ> fu_label) ?rows)"
      "\<forall>c \<in> set (map (gl_client \<circ> fu_label) ?rows). collate c \<le> collate (as_client ?a)"
    unfolding clients using max_by_correct [of "map (\<lambda>r. gl_client (fst r)) (snd entry)" collate] assms(1) by (simp_all add: list_all_iff)
  have "as_variance ?a = sub_sums (as_bank ?a) (as_goal ?a)"
    "as_status ?a = (if any_fund_variance (as_goal ?a) (sub_sums (as_bank ?a) (as_goal ?a)) then SS_VARIANCE else SS_MATCHED)"
    by (simp_all add: summarise_account_def Let_def)
  then show ?thesis
    unfolding account_row_correct_def Let_def name sums goals counts using client by (auto simp: list_all_iff)
qed

text \<open>C19: the account overview is the goal-and-fund overview grouped by account: every account of that overview has
  exactly one row, in the order of the account numbers, and its row is the aggregate of the account's rows: the sums of their bank
  and goal columns, the variance and status of these sums, the number of goals, the last client name, and the numbers
  of goals with and without a variance, which the query computes in SQL, as those of the rows that TypeScript classifies so.\<close>

theorem account_summary_groups_fund_summary:
  fixes db :: database and collate :: "string \<Rightarrow> nat" and ilike :: "string \<Rightarrow> string \<Rightarrow> bool" and s e :: int
  defines "accounts \<equiv> fst (get_account_fund_summary ilike collate db s e None FF_ALL)"
    and "funds \<equiv> fst (get_fund_summary ilike collate db s e None FF_ALL)"
  shows "mset (map as_account accounts) = mset (remdups (map (gl_account \<circ> fu_label) funds)) \<and>
    sorted (map (collate \<circ> as_account) accounts) \<and> list_all (account_row_correct collate funds) accounts"
proof -
  let ?level = "goal_fund_level (\<lambda>_. True) db s e"
  let ?groups = "group_by (\<lambda>r. gl_account (fst r)) ?level"
  have accounts: "accounts = map (summarise_account collate) (sort_key (collate \<circ> fst) ?groups)"
    by (simp add: accounts_def get_account_fund_summary_def Let_def goal_fund_level_None)
  have funds: "funds = map summarise_funds (sort_key (collate \<circ> gl_number \<circ> fst) ?level)"
    by (simp add: funds_def get_fund_summary_def Let_def goal_fund_level_None)
  have name: "as_account (summarise_account collate entry) = fst entry" for entry by (simp add: summarise_account_def Let_def)
  have "mset (map as_account accounts) = mset (map fst ?groups)" by (simp add: accounts comp_def name)
  also have "\<dots> = mset (remdups (map (gl_account \<circ> fu_label) funds))"
    by (rule set_eq_iff_mset_eq_distinct [THEN iffD1]) (auto simp: funds image_image)
  finally have "mset (map as_account accounts) = mset (remdups (map (gl_account \<circ> fu_label) funds))" .
  moreover have "sorted (map (collate \<circ> as_account) accounts)"
    using sorted_sort_key [of "collate \<circ> fst" ?groups] by (simp add: accounts comp_def name)
  moreover have "list_all (account_row_correct collate funds) accounts"
    unfolding accounts list_all_iff set_map set_sort ball_simps
  proof
    fix entry assume entry: "entry \<in> set ?groups"
    let ?part = "filter (\<lambda>r. gl_account (fst r) = fst entry) ?level"
    have part: "snd entry = ?part" "?part \<noteq> []"
      using entry entry_group_by [of "fst entry" "snd entry" "\<lambda>r. gl_account (fst r)" ?level] by auto
    have "account_rows (fst entry) funds = map summarise_funds (filter (\<lambda>r. gl_account (fst r) = fst entry) (sort_key (collate \<circ> gl_number \<circ> fst) ?level))"
      by (simp add: account_rows_def funds filter_map comp_def)
    then have "mset (account_rows (fst entry) funds) = mset (map summarise_funds (snd entry))" by (simp add: part(1))
    then show "account_row_correct collate funds (summarise_account collate entry)"
      by (intro account_row_of_group) (use part in simp_all)
  qed
  ultimately show ?thesis by blast
qed

section \<open>The review status, computed twice\<close>

lemma ball_all_unmatched:
  "(\<forall>r \<in> set (all_unmatched db n s e). P (snd r)) \<longleftrightarrow>
     (\<forall>b \<in> set (unmatched_bank_rows db n s e). P (b_reviewTag b \<noteq> None \<or> b_matchedGoalTransactionCode b \<noteq> None)) \<and>
     (\<forall>f \<in> set (unmatched_fund_rows db n s e). P (f_reviewTag f \<noteq> None \<or> is_smart_matched db n (f_goalTransactionCode f)))"
  unfolding all_unmatched_def unmatched_goal_rows_def
  by (simp only: set_append ball_Un set_map set_remdups ball_simps split_beta fst_conv snd_conv)

lemma unmatched_stats_agree:
  "fst (unmatched_bank_stats db n s e) + fst (unmatched_goal_stats db n s e) = 0
     \<longleftrightarrow> rs_pending (get_goal_review_status db n s e) = 0"
  "snd (unmatched_bank_stats db n s e) + snd (unmatched_goal_stats db n s e) = 0
     \<longleftrightarrow> rs_reviewed (get_goal_review_status db n s e) = 0"
proof -
  let ?rows = "all_unmatched db n s e"
  have "rs_pending (get_goal_review_status db n s e) = 0 \<longleftrightarrow> length (filter snd ?rows) = length ?rows"
    by (auto simp: get_goal_review_status_def Let_def length_filter_le intro!: le_antisym)
  also have "\<dots> \<longleftrightarrow> (\<forall>r \<in> set ?rows. snd r)"
    by (metis filter_id_conv length_filter_less nless_le)
  finally have pending: "rs_pending (get_goal_review_status db n s e) = 0 \<longleftrightarrow> (\<forall>r \<in> set ?rows. snd r)" .
  have reviewed: "rs_reviewed (get_goal_review_status db n s e) = 0 \<longleftrightarrow> (\<forall>r \<in> set ?rows. \<not> snd r)"
    by (auto simp: get_goal_review_status_def Let_def filter_empty_conv)
  show "fst (unmatched_bank_stats db n s e) + fst (unmatched_goal_stats db n s e) = 0
     \<longleftrightarrow> rs_pending (get_goal_review_status db n s e) = 0"
    unfolding pending unmatched_bank_stats_def unmatched_goal_stats_def Let_def ball_all_unmatched [of db n s e "\<lambda>x. x"]
    by (auto simp: filter_empty_conv)
  show "snd (unmatched_bank_stats db n s e) + snd (unmatched_goal_stats db n s e) = 0
     \<longleftrightarrow> rs_reviewed (get_goal_review_status db n s e) = 0"
    unfolding reviewed unmatched_bank_stats_def unmatched_goal_stats_def Let_def ball_all_unmatched [of db n s e "\<lambda>x. \<not> x"]
    by (auto simp: filter_empty_conv)
qed

text \<open>The status of a single goal in the vocabulary of the overview.\<close>

fun as_summary_review :: "goal_review_state \<Rightarrow> summary_review" where
  "as_summary_review GR_NO_VARIANCES = SR_NOT_APPLICABLE"
| "as_summary_review GR_FULLY_REVIEWED = SR_REVIEWED"
| "as_summary_review GR_PARTIALLY_REVIEWED = SR_PARTIALLY_REVIEWED"
| "as_summary_review GR_PENDING = SR_UNREVIEWED"

text \<open>The overview and the single-goal status agree: although the two queries count goal
  transactions differently, for a goal whose amounts vary the overview reports the same review status as
  \<open>getGoalReviewStatus\<close> does for it.\<close>

theorem review_statuses_agree:
  assumes "r \<in> set (fst (get_goal_summary ilike collate db s e search flt))" "gs_hasVariance r"
  shows "gs_reviewStatus r = as_summary_review (rs_status (get_goal_review_status db (gl_number (gs_label r)) s e))"
proof -
  obtain l where r: "r = summarise_goal db s e l"
    using assms(1) by (auto simp: get_goal_summary_def Let_def)
  let ?n = "gl_number l" let ?st = "get_goal_review_status db ?n s e"
  let ?un = "fst (unmatched_bank_stats db ?n s e) + fst (unmatched_goal_stats db ?n s e)"
  let ?rv = "snd (unmatched_bank_stats db ?n s e) + snd (unmatched_goal_stats db ?n s e)"
  have l: "gs_label r = l" "gs_reviewStatus r = classify_review True ?un ?rv"
    using assms(2) by (simp_all add: r summarise_goal_def Let_def)
  have st: "rs_status ?st = review_state_of (rs_total ?st) (rs_reviewed ?st)"
    "rs_pending ?st = rs_total ?st - rs_reviewed ?st" "rs_reviewed ?st \<le> rs_total ?st"
    by (simp_all add: get_goal_review_status_def Let_def)
  show ?thesis
    unfolding l classify_review_def st(1) review_state_of_def
    using unmatched_stats_agree [of db ?n s e] st(2,3) by (auto simp del: add_is_0)
qed

section \<open>An example\<close>

definition ex_full_db :: database where
  "ex_full_db = ex_db\<lparr>db_accounts := [\<lparr>ac_id = ''a'', ac_clientId = ''c'', ac_number = ''A''\<rparr>],
     db_clients := [\<lparr>cl_id = ''c'', cl_name = ''N''\<rparr>]\<rparr>"

lemma ex_full_info: "all_goal_info ex_full_db = [\<lparr>gl_number = ''G'', gl_client = ''N'', gl_account = ''A''\<rparr>]"
  by code_simp

theorem goal_summary_conserves_witness:
  "\<exists>rows :: goal_summary list. sum_list (map gs_bankDeposits rows) = bank_money ex_full_db DEPOSIT 0 300"
proof -
  let ?r = "get_goal_summary (\<lambda>_ _. False) (\<lambda>_. 0) ex_full_db 0 300 None GF_ALL"
  have "distinct (map gl_number (remdups (all_goal_info ex_full_db)))" "distinct (map go_id (db_goals ex_full_db))"
    unfolding ex_full_info by (simp_all add: ex_full_db_def ex_db_def)
  then show ?thesis
    using goal_summary_conserves [of ex_full_db "\<lambda>_ _. False" "\<lambda>_. 0" 0 300 "fst ?r" "snd ?r"] by auto
qed

lemma ex_goal_row:
  "map gs_hasVariance (fst (get_goal_summary (\<lambda>_ _. False) (\<lambda>_. 0) ex_full_db 0 300 None GF_ALL)) = [True]"
  "map (gl_number \<circ> gs_label) (fst (get_goal_summary (\<lambda>_ _. False) (\<lambda>_. 0) ex_full_db 0 300 None GF_ALL)) = [''G'']"
  by code_simp+

theorem review_statuses_agree_witness:
  "\<exists>r :: goal_summary. gs_hasVariance r \<and> gs_reviewStatus r = as_summary_review (rs_status (get_goal_review_status ex_full_db ''G'' 0 300))"
proof -
  let ?rs = "fst (get_goal_summary (\<lambda>_ _. False) (\<lambda>_. 0) ex_full_db 0 300 None GF_ALL)"
  obtain r where r: "?rs = [r]" "gs_hasVariance r" "gl_number (gs_label r) = ''G''"
    using ex_goal_row by (auto simp: map_eq_Cons_conv)
  then show ?thesis
    using review_statuses_agree [of r "\<lambda>_ _. False" "\<lambda>_. 0" ex_full_db 0 300 None GF_ALL] by auto
qed

end
