(* ===== verification/VarianceListProperties.thy ===== *)
theory VarianceListProperties
  imports VarianceList SummaryProperties
begin

text \<open>
  The variance list: what a listed pair of rows has in common with the matching rules, what the
  search and the counts guarantee, and where the list parts from the goal view.
\<close>

interpretation vp1: matching_pass "variance_pass1_step gs"
  "\<lambda>banks groups b. set gs \<subseteq> set groups \<and> b \<in> set banks" for gs
proof (unfold_locales, goal_cases)
  case (1 banks groups st b)
  then have wf: "wf_groups groups" and inv: "match_inv banks groups st" and b: "b \<in> set banks"
    by (auto simp: wf_input_def)
  show ?case
  proof (cases "bank_free st b")
    case free: True
    show ?thesis
    proof (cases "List.find (txn_id_candidate st b) gs")
      case None
      with 1 show ?thesis by (simp add: variance_pass1_step_def)
    next
      case (Some g)
      then have g: "group_free st g" "g_transactionId g = Some (b_transactionId b)" "g_type g = b_transactionType b"
        "amounts_within (b_totalAmount b) (g_total g)" "g \<in> set groups"
        using 1 by (auto simp: txn_id_candidate_def dest: find_SomeD)
      show ?thesis
        using free Some wf g disjoint_if_free [OF g(1)]
        by (auto simp: variance_pass1_step_def bank_free_def wf_groups_distinct_ids
            intro!: match_inv_commit [OF inv by_transaction_id [OF b g(5,2,3,4)]])
    qed
  next
    case False
    with 1 show ?thesis by (simp add: variance_pass1_step_def)
  qed
next
  case (2 st b)
  show ?case by (auto simp: variance_pass1_step_def split: option.splits)
qed

text \<open>The second pass runs over all rows here, and is as thorough.\<close>

lemma variance_match_maximal:
  assumes "b \<in> set banks" "bank_free (variance_match banks groups) b"
    and "g \<in> set groups" "group_free (variance_match banks groups) g"
  shows "\<not> amount_eligible b g"
proof -
  define s1 where "s1 = foldl (variance_pass1_step groups) (pass0 banks groups init_state) banks"
  let ?s2 = "foldl (pass2_step groups) s1 banks"
  have end_: "grows ?s2 (variance_match banks groups)"
    unfolding variance_match_def s1_def by (rule pass3_grows)
  obtain s where s: "grows s1 s" "grows (pass2_step groups s b) ?s2"
    using assms(1) by (rule p2.element_processed)
  have after: "grows (pass2_step groups s b) (variance_match banks groups)"
    using s(2) end_ by (rule grows_trans)
  show ?thesis
  proof (rule pass2_step_maximal)
    show "bank_free (pass2_step groups s b) b" using after assms(2) by (rule bank_free_antimono)
    show "g \<in> set groups" by fact
    show "group_free s g" using grows_trans [OF p2.step_grows after] assms(4) by (rule group_free_antimono)
  qed
qed

lemma goal_unmatched_bank:
  assumes "r \<in> set (fst (goal_unmatched db s e n))"
  obtains b l where "r = bank_variance_row (b, l)" "b \<in> set (map fst (goal_bank_txns db s e n))"
    "bank_free (variance_match (map fst (goal_bank_txns db s e n)) (map fst (variance_groups (goal_fund_txns db s e n)))) b"
    "b_goalNumber b = n"
  using assms by (force simp: goal_unmatched_def Let_def goal_bank_txns_def bank_period_def)

lemma goal_unmatched_goal:
  assumes "r \<in> set (snd (goal_unmatched db s e n))"
  obtains g f where "r = goal_variance_row n (g, f)" "g \<in> set (map fst (variance_groups (goal_fund_txns db s e n)))"
    "group_free (variance_match (map fst (goal_bank_txns db s e n)) (map fst (variance_groups (goal_fund_txns db s e n)))) g"
  using assms by (force simp: goal_unmatched_def Let_def)

lemma bank_row_fields [simp]:
  "v_source (bank_variance_row (b, l)) = BANK_SIDE" "v_goal (bank_variance_row (b, l)) = b_goalNumber b"
  "v_type (bank_variance_row (b, l)) = b_transactionType b" "v_date (bank_variance_row (b, l)) = b_transactionDate b"
  "v_amount (bank_variance_row (b, l)) = b_totalAmount b"
  by (simp_all add: bank_variance_row_def split: prod.splits)

lemma goal_row_fields [simp]:
  "v_source (goal_variance_row n (g, f)) = GOAL_SIDE" "v_goal (goal_variance_row n (g, f)) = n"
  "v_type (goal_variance_row n (g, f)) = g_type g" "v_date (goal_variance_row n (g, f)) = g_date g"
  "v_amount (goal_variance_row n (g, f)) = g_total g"
  by (simp_all add: goal_variance_row_def split: prod.splits)

lemma shown_row:
  assumes "r \<in> set (fst (get_variance_transactions collate locale_rank db s e flt))"
  obtains n where "n \<in> set (searched_goals flt (goals_with_variance collate db s e))" "v_goal r = n" "row_passes flt r"
    "r \<in> set (if v_source r = BANK_SIDE then fst (goal_unmatched db s e n) else snd (goal_unmatched db s e n))"
proof -
  let ?ns = "searched_goals flt (goals_with_variance collate db s e)"
  obtain n where n: "n \<in> set ?ns" "row_passes flt r"
    "r \<in> set (fst (goal_unmatched db s e n)) \<or> r \<in> set (snd (goal_unmatched db s e n))"
    using assms by (auto simp: get_variance_transactions_def Let_def split: if_splits)
  from n(3) show thesis
  proof
    assume m: "r \<in> set (fst (goal_unmatched db s e n))"
    then obtain b l where "r = bank_variance_row (b, l)" "b_goalNumber b = n"
      by (rule goal_unmatched_bank)
    with m n show thesis by (intro that) auto
  next
    assume m: "r \<in> set (snd (goal_unmatched db s e n))"
    then obtain g f where "r = goal_variance_row n (g, f)" by (rule goal_unmatched_goal)
    with m n show thesis by (intro that) auto
  qed
qed

text \<open>The variance list contains no pair that matching would accept: a bank row and a goal
  transaction of the same goal that are both listed differ in type, lie more than 30 days apart, or
  differ in amount by more than the tolerance, whatever filters are set.\<close>

theorem listed_variances_do_not_match:
  assumes "r \<in> set (fst (get_variance_transactions collate locale_rank db s e flt))" "v_source r = BANK_SIDE"
    and "q \<in> set (fst (get_variance_transactions collate locale_rank db s e flt))" "v_source q = GOAL_SIDE"
    and "v_goal r = v_goal q"
  shows "v_type r \<noteq> v_type q \<or> 30 < days_between (v_date r) (v_date q) \<or>
         match_tolerance (v_amount q) < \<bar>v_amount r - v_amount q\<bar>"
proof -
  obtain n where n: "v_goal r = n" "r \<in> set (fst (goal_unmatched db s e n))"
    using assms(1,2) by (elim shown_row) simp
  have "q \<in> set (snd (goal_unmatched db s e n))"
    using assms(3,4) n(1) assms(5) by (elim shown_row) simp
  then obtain g f where g: "q = goal_variance_row n (g, f)" "g \<in> set (map fst (variance_groups (goal_fund_txns db s e n)))"
    "group_free (variance_match (map fst (goal_bank_txns db s e n)) (map fst (variance_groups (goal_fund_txns db s e n)))) g"
    by (rule goal_unmatched_goal)
  obtain b l where b: "r = bank_variance_row (b, l)" "b \<in> set (map fst (goal_bank_txns db s e n))"
    "bank_free (variance_match (map fst (goal_bank_txns db s e n)) (map fst (variance_groups (goal_fund_txns db s e n)))) b"
    using n(2) by (rule goal_unmatched_bank)
  have "\<not> amount_eligible b g"
    using b(2,3) g(2,3) by (rule variance_match_maximal)
  then show ?thesis
    by (auto simp: b(1) g(1) amount_eligible_def amounts_within_def)
qed

text \<open>A search only ever returns transactions of goals whose number contains the searched text: the
  goals are filtered by number before the rows are searched by client name and account number, so a
  search for a client or an account finds nothing unless the goal number contains the text too.\<close>

theorem search_is_by_goal_number_only:
  assumes "vf_search flt = Some q" "q \<noteq> []"
    and "r \<in> set (fst (get_variance_transactions collate locale_rank db s e flt))"
  shows "lower_includes (v_goal r) q"
proof -
  obtain n where "n \<in> set (searched_goals flt (goals_with_variance collate db s e))" "v_goal r = n"
    using assms(3) by (rule shown_row)
  then show ?thesis using assms(1,2) by (simp add: searched_goals_def)
qed

lemma sum_accumulate_count:
  "sum_list (map snd (accumulate kf (\<lambda>_. 0 :: nat) (\<lambda>n _. n + 1) xs)) = length xs"
proof -
  let ?acc = "accumulate kf (\<lambda>_. 0 :: nat) (\<lambda>n _. n + 1) xs"
  let ?part = "\<lambda>k. filter (\<lambda>x. kf x = k) xs"
  have entry: "snd e = length (?part (fst e))" if mem: "e \<in> set ?acc" for e
  proof -
    obtain k v where e: "e = (k, v)" by (cases e)
    obtain y ys where "?part k = y # ys" "v = foldl (\<lambda>n _. n + 1) (0 :: nat) (y # ys)"
      using mem unfolding e by (rule entry_accumulate)
    then show ?thesis by (simp only: e fst_conv snd_conv foldl_count_up add_0)
  qed
  have "sum_list (map snd ?acc) = sum_list (map (\<lambda>k. length (?part k)) (map fst ?acc))"
    using entry by (simp add: comp_def cong: map_cong)
  also have "\<dots> = length (concat (map ?part (map fst ?acc)))"
    by (simp add: length_concat comp_def)
  also have "\<dots> = length xs"
    by (intro mset_eq_length mset_concat_partition) simp_all
  finally show ?thesis .
qed

lemma count_variances_consistent:
  "vc_pending (count_variances bank goal) + vc_reviewed (count_variances bank goal) = vc_total (count_variances bank goal)"
  "vc_missingInBank (count_variances bank goal) + vc_missingInFund (count_variances bank goal) = vc_total (count_variances bank goal)"
  "sum_list (map snd (vc_byTag (count_variances bank goal))) = vc_reviewed (count_variances bank goal)"
  "vc_total (count_variances bank goal) = length (bank @ goal)"
proof -
  have split: "length (filter (\<lambda>r. v_reviewTag r = None) (bank @ goal)) + length (filter (\<lambda>r. v_reviewTag r \<noteq> None) (bank @ goal)) = length (bank @ goal)"
    by (rule sum_length_filter_compl)
  then have "length (filter (\<lambda>r. v_reviewTag r \<noteq> None) (bank @ goal)) = length (bank @ goal) - length (filter (\<lambda>r. v_reviewTag r = None) (bank @ goal))"
    by linarith
  then show "sum_list (map snd (vc_byTag (count_variances bank goal))) = vc_reviewed (count_variances bank goal)"
    by (simp only: count_variances_def Let_def sum_accumulate_count variance_counts.simps)
  show "vc_pending (count_variances bank goal) + vc_reviewed (count_variances bank goal) = vc_total (count_variances bank goal)"
    using split by (simp only: count_variances_def Let_def variance_counts.simps)
qed (simp_all add: count_variances_def Let_def)

text \<open>The counts of the variance list are about all unmatched transactions of the searched goals: pending
  and reviewed add up to the total, so do the two missing counts, the tags add up to the
  reviewed, and the filters on tag, review, resolution and source do not change them.\<close>

theorem variance_counts_consistent:
  fixes db :: database and flt flt' :: variance_filters and s e :: int and collate locale_rank :: "string \<Rightarrow> nat"
  defines "c \<equiv> snd (get_variance_transactions collate locale_rank db s e flt)"
  shows "vc_pending c + vc_reviewed c = vc_total c \<and> vc_missingInBank c + vc_missingInFund c = vc_total c \<and>
         sum_list (map snd (vc_byTag c)) = vc_reviewed c \<and>
         length (fst (get_variance_transactions collate locale_rank db s e flt)) \<le> vc_total c \<and>
         (vf_search flt' = vf_search flt \<longrightarrow> snd (get_variance_transactions collate locale_rank db s e flt') = c)"
proof -
  define u where "u = map (goal_unmatched db s e) (searched_goals flt (goals_with_variance collate db s e))"
  let ?rows = "concat (map fst u) @ concat (map snd u)"
  have c: "c = count_variances (concat (map fst u)) (concat (map snd u))"
    by (simp add: c_def get_variance_transactions_def Let_def u_def)
  have "length (fst (get_variance_transactions collate locale_rank db s e flt)) \<le> length ?rows"
  proof -
    let ?shown = "(if vf_source flt = Some False then [] else concat (map fst u)) @ (if vf_source flt = Some True then [] else concat (map snd u))"
    have "length (fst (get_variance_transactions collate locale_rank db s e flt)) = length (filter (row_passes flt) ?shown)"
      by (simp only: get_variance_transactions_def Let_def u_def [symmetric] fst_conv length_sort)
    also have "\<dots> \<le> length ?shown" by (rule length_filter_le)
    also have "\<dots> \<le> length ?rows" by simp
    finally show ?thesis .
  qed
  moreover have "vf_search flt' = vf_search flt \<Longrightarrow> searched_goals flt' ns = searched_goals flt ns" for ns
    by (simp add: searched_goals_def)
  then have "vf_search flt' = vf_search flt \<Longrightarrow> snd (get_variance_transactions collate locale_rank db s e flt') = c"
    unfolding c by (simp add: get_variance_transactions_def Let_def u_def)
  ultimately show ?thesis
    unfolding c using count_variances_consistent [of "concat (map fst u)" "concat (map snd u)"] by metis
qed

section \<open>Where the list and the goal view disagree\<close>

definition ex_variance_db :: database where
  "ex_variance_db = ex_full_db
     \<lparr>db_bank := [ex_bank ''b1'' ''T1'' 10 50000 None, ex_bank ''b2'' ''T2'' 200 99999 None],
      db_fund := [ex_fund ''f1'' ''c1'' ''Q1'' 10 30000, ex_fund ''f2'' ''c2'' ''Q2'' 10 20000]\<rparr>"

definition no_filters :: variance_filters where
  "no_filters = \<lparr>vf_pendingOnly = None, vf_reviewTag = None, vf_search = None, vf_resolvedOnly = None, vf_source = None\<rparr>"

text \<open>The variance list does not agree with the goal view, although it is meant to: a bank transaction that the
  goal view matches with two goal transactions of its day is listed as a variance here, together with
  both goal transactions, because the pass for such splits is missing.\<close>

theorem variance_list_misses_fund_splits:
  "r_unmatchedBank (fst (get_goal_transactions True 0 ex_variance_db ''G'' 0 (300 * ms_per_day) None)) = [''b2''] \<and>
   r_unmatchedGoalTxn (fst (get_goal_transactions True 0 ex_variance_db ''G'' 0 (300 * ms_per_day) None)) = [] \<and>
   map v_id (fst (get_variance_transactions (\<lambda>_. 0) (\<lambda>_. 0) ex_variance_db 0 300 no_filters)) = [''b2'', ''b1'', ''c1'', ''c2'']"
  by code_simp

lemma ex_variance_rows:
  "map (\<lambda>r. (v_source r, v_goal r, v_type r, v_date r, v_amount r))
     (fst (get_variance_transactions (\<lambda>_. 0) (\<lambda>_. 0) ex_variance_db 0 300 no_filters))
   = [(BANK_SIDE, ''G'', DEPOSIT, 200 * ms_per_day, 99999), (BANK_SIDE, ''G'', DEPOSIT, 10 * ms_per_day, 50000),
      (GOAL_SIDE, ''G'', DEPOSIT, 10 * ms_per_day, 30000), (GOAL_SIDE, ''G'', DEPOSIT, 10 * ms_per_day, 20000)]"
  by code_simp

theorem listed_variances_do_not_match_witness:
  "match_tolerance 30000 < \<bar>(50000 :: money) - 30000\<bar>"
proof -
  let ?rs = "fst (get_variance_transactions (\<lambda>_. 0) (\<lambda>_. 0) ex_variance_db 0 300 no_filters)"
  obtain r q where rq: "r \<in> set ?rs" "q \<in> set ?rs" "v_source r = BANK_SIDE" "v_source q = GOAL_SIDE"
    "v_goal r = ''G''" "v_goal q = ''G''" "v_type r = DEPOSIT" "v_type q = DEPOSIT"
    "v_date r = 10 * ms_per_day" "v_date q = 10 * ms_per_day" "v_amount r = 50000" "v_amount q = 30000"
  proof -
    from ex_variance_rows obtain w x y z where "?rs = [w, x, y, z]"
      "v_source x = BANK_SIDE" "v_goal x = ''G''" "v_type x = DEPOSIT" "v_date x = 10 * ms_per_day" "v_amount x = 50000"
      "v_source y = GOAL_SIDE" "v_goal y = ''G''" "v_type y = DEPOSIT" "v_date y = 10 * ms_per_day" "v_amount y = 30000"
      by (auto simp: map_eq_Cons_conv)
    then show thesis by (intro that [of x y]) simp_all
  qed
  then show ?thesis
    using listed_variances_do_not_match [OF rq(1,3,2,4)] by (simp add: days_between_def)
qed

theorem search_is_by_goal_number_only_witness:
  "lower_includes ''G'' ''g'' \<and> fst (get_variance_transactions (\<lambda>_. 0) (\<lambda>_. 0) ex_variance_db 0 300 (no_filters\<lparr>vf_search := Some ''N''\<rparr>)) = []"
proof
  let ?flt = "no_filters\<lparr>vf_search := Some ''g''\<rparr>"
  have "map v_goal (fst (get_variance_transactions (\<lambda>_. 0) (\<lambda>_. 0) ex_variance_db 0 300 ?flt)) = [''G'', ''G'', ''G'', ''G'']"
    by code_simp
  then have "''G'' \<in> v_goal ` set (fst (get_variance_transactions (\<lambda>_. 0) (\<lambda>_. 0) ex_variance_db 0 300 ?flt))"
    by (metis list.set_intros(1) list.set_map)
  then obtain r where "r \<in> set (fst (get_variance_transactions (\<lambda>_. 0) (\<lambda>_. 0) ex_variance_db 0 300 ?flt))" "v_goal r = ''G''"
    by auto
  then show "lower_includes ''G'' ''g''"
    using search_is_by_goal_number_only [of ?flt "''g''" r "\<lambda>_. 0" "\<lambda>_. 0" ex_variance_db 0 300] by simp
  show "fst (get_variance_transactions (\<lambda>_. 0) (\<lambda>_. 0) ex_variance_db 0 300 (no_filters\<lparr>vf_search := Some ''N''\<rparr>)) = []"
    by code_simp
qed

theorem variance_counts_consistent_witness:
  "vc_pending (snd (get_variance_transactions (\<lambda>_. 0) (\<lambda>_. 0) ex_variance_db 0 300 no_filters))
     \<le> vc_total (snd (get_variance_transactions (\<lambda>_. 0) (\<lambda>_. 0) ex_variance_db 0 300 no_filters))"
  using variance_counts_consistent [of "\<lambda>_. 0" "\<lambda>_. 0" ex_variance_db 0 300 no_filters no_filters] by linarith

end
