(* ===== verification/BankMatcher.thy ===== *)
theory BankMatcher
  imports ReviewStatus SmartMatchProperties
begin

text \<open>
  \<open>BankReconciliationMatcher\<close>: a bank transaction of an upload is compared with the fund transactions
  that have its goal number and transaction id. The result carries a status, a score and the detected
  variances. Descriptions are left out; a percentage whose divisor is zero (\<open>NaN\<close> or \<open>Infinity\<close> in
  JavaScript) is \<open>None\<close>.
\<close>

datatype variance_type = TOTAL_AMOUNT | FUND_DISTRIBUTION | FUND_AMOUNT | DATE_DIFFERENCE | VT_MISSING_IN_BANK | VT_MISSING_IN_FUND

datatype variance_severity = VS_LOW | VS_MEDIUM | VS_HIGH | VS_CRITICAL

record detected_variance =
  dv_type :: variance_type
  dv_severity :: variance_severity
  dv_fundCode :: "string option"
  dv_expected :: "money option"
  dv_actual :: "money option"
  dv_difference :: "money option"
  dv_percentage :: "rat option"
  dv_days :: "int option"
  dv_autoApproved :: bool

record tolerance_config =
  tc_amountPercentage :: rat
  tc_amountFixed :: rat
  tc_dateDays :: int
  tc_fundPercentage :: rat
  tc_low :: rat
  tc_medium :: rat
  tc_high :: rat

definition default_tolerance :: tolerance_config where
  "default_tolerance = \<lparr>tc_amountPercentage = 1 / 100, tc_amountFixed = 1000, tc_dateDays = 4,
     tc_fundPercentage = 1 / 100, tc_low = 1000, tc_medium = 10000, tc_high = 50000\<rparr>"

text \<open>The fields of a parsed bank transaction that the matcher reads.\<close>

record matcher_input =
  mi_goalNumber :: string
  mi_transactionId :: string
  mi_totalAmount :: money
  mi_transactionDate :: instant
  mi_xummfAmount :: money
  mi_xubfAmount :: money
  mi_xudefAmount :: money
  mi_xurefAmount :: money

record matcher_result =
  mr_matched :: bool
  mr_matchScore :: int
  mr_goalTransactionCode :: "string option"
  mr_variances :: "detected_variance list"
  mr_status :: reconciliation_status
  mr_autoApproved :: bool

section \<open>Tolerance, severity, score, status\<close>

definition amount_allowance :: "tolerance_config \<Rightarrow> money \<Rightarrow> money" where
  "amount_allowance tc amount2 = max (\<bar>amount2\<bar> * tc_amountPercentage tc) (tc_amountFixed tc)"

definition amounts_match :: "tolerance_config \<Rightarrow> money \<Rightarrow> money \<Rightarrow> bool" where
  "amounts_match tc amount1 amount2 = (\<bar>amount1 - amount2\<bar> \<le> amount_allowance tc amount2)"

interpretation bank_tol: tolerance_policy "amount_allowance default_tolerance" 1000
  by unfold_locales (simp_all add: amount_allowance_def default_tolerance_def)

definition amount_severity :: "tolerance_config \<Rightarrow> money \<Rightarrow> variance_severity" where
  "amount_severity tc difference =
     (if \<bar>difference\<bar> < tc_low tc then VS_LOW
      else if \<bar>difference\<bar> < tc_medium tc then VS_MEDIUM
      else if \<bar>difference\<bar> < tc_high tc then VS_HIGH
      else VS_CRITICAL)"

definition determine_status :: "detected_variance list \<Rightarrow> reconciliation_status \<times> bool" where
  "determine_status variances =
     (if variances = [] then (RS_MATCHED, True)
      else if \<exists>v \<in> set variances. dv_severity v = VS_CRITICAL \<or> dv_severity v = VS_HIGH
      then (RS_MANUAL_REVIEW, False)
      else let allAutoApprovable = (\<forall>v \<in> set variances. dv_autoApproved v)
           in (if allAutoApprovable then RS_AUTO_APPROVED else RS_MANUAL_REVIEW, allAutoApprovable))"

fun severity_penalty :: "variance_severity \<Rightarrow> int" where
  "severity_penalty VS_LOW = 5"
| "severity_penalty VS_MEDIUM = 15"
| "severity_penalty VS_HIGH = 30"
| "severity_penalty VS_CRITICAL = 50"

definition calculate_match_score :: "detected_variance list \<Rightarrow> int" where
  "calculate_match_score variances =
     (if variances = [] then 100
      else max 0 (foldl (\<lambda>score v. score - severity_penalty (dv_severity v)) 100 variances))"

section \<open>Detecting variances\<close>

definition percentage_of :: "money \<Rightarrow> money \<Rightarrow> rat option" where
  "percentage_of difference base = (if base = 0 then None else Some (difference / base * 100))"

definition date_variances :: "tolerance_config \<Rightarrow> instant \<Rightarrow> instant \<Rightarrow> detected_variance list" where
  "date_variances tc bankDate fundDate =
     (let dateDifference = \<bar>(bankDate - fundDate) div ms_per_day\<bar>;
          v = \<lparr>dv_type = DATE_DIFFERENCE, dv_severity = VS_LOW, dv_fundCode = None, dv_expected = None,
               dv_actual = None, dv_difference = None, dv_percentage = None,
               dv_days = Some dateDifference, dv_autoApproved = True\<rparr>
      in if dateDifference > 0 \<and> dateDifference \<le> tc_dateDays tc then [v]
         else if dateDifference > tc_dateDays tc then [v\<lparr>dv_severity := VS_MEDIUM, dv_autoApproved := False\<rparr>]
         else [])"

text \<open>\<open>fundAmounts[fundCode] = Number(ft.amount)\<close>: a later row replaces an earlier one.\<close>

definition fund_amounts :: "fund_txn list \<Rightarrow> (string, money) jsmap" where
  "fund_amounts fts = foldl (\<lambda>m ft. map_set m (f_fundCode ft) (f_amount ft)) [] fts"

definition bank_fund_amount :: "matcher_input \<Rightarrow> string \<Rightarrow> money" where
  "bank_fund_amount bank fundCode =
     (if fundCode = ''XUMMF'' then mi_xummfAmount bank
      else if fundCode = ''XUBF'' then mi_xubfAmount bank
      else if fundCode = ''XUDEF'' then mi_xudefAmount bank
      else mi_xurefAmount bank)"

definition fund_codes :: "string list" where
  "fund_codes = [''XUMMF'', ''XUBF'', ''XUDEF'', ''XUREF'']"

definition fund_variance :: "tolerance_config \<Rightarrow> string \<Rightarrow> money \<Rightarrow> money \<Rightarrow> detected_variance list" where
  "fund_variance tc fundCode bankAmount fundAmount =
     (let difference = \<bar>bankAmount - fundAmount\<bar>;
          percentageDiff = (if fundAmount \<noteq> 0 then difference / \<bar>fundAmount\<bar> else 0);
          sev = amount_severity tc difference
      in if percentageDiff > tc_fundPercentage tc
         then [\<lparr>dv_type = FUND_AMOUNT, dv_severity = sev, dv_fundCode = Some fundCode,
                dv_expected = Some fundAmount, dv_actual = Some bankAmount,
                dv_difference = Some (bankAmount - fundAmount), dv_percentage = Some (percentageDiff * 100),
                dv_days = None,
                dv_autoApproved = (sev = VS_LOW \<and> percentageDiff \<le> tc_fundPercentage tc * 2)\<rparr>]
         else [])"

definition detect_variances :: "tolerance_config \<Rightarrow> matcher_input \<Rightarrow> fund_txn list \<Rightarrow> detected_variance list" where
  "detect_variances tc bank fts =
     date_variances tc (mi_transactionDate bank) (f_transactionDate (hd fts))
     @ concat (map (\<lambda>code. fund_variance tc code (bank_fund_amount bank code)
          (case map_get (fund_amounts fts) code of None \<Rightarrow> 0 | Some x \<Rightarrow> x)) fund_codes)"

section \<open>Matching\<close>

definition matching_fund_rows :: "database \<Rightarrow> matcher_input \<Rightarrow> fund_txn list" where
  "matching_fund_rows db bank =
     filter (\<lambda>f. fund_of_goal db (mi_goalNumber bank) f \<and> f_transactionId f = Some (mi_transactionId bank)) (db_fund db)"

definition simple_variance :: "variance_type \<Rightarrow> variance_severity \<Rightarrow> detected_variance" where
  "simple_variance t sev = \<lparr>dv_type = t, dv_severity = sev, dv_fundCode = None, dv_expected = None, dv_actual = None,
     dv_difference = None, dv_percentage = None, dv_days = None, dv_autoApproved = False\<rparr>"

definition match_transaction :: "tolerance_config \<Rightarrow> database \<Rightarrow> matcher_input \<Rightarrow> matcher_result" where
  "match_transaction tc db bank =
     (let fts = matching_fund_rows db bank in
      case fts of
        [] \<Rightarrow> \<lparr>mr_matched = False, mr_matchScore = 0, mr_goalTransactionCode = None,
              mr_variances = [simple_variance VT_MISSING_IN_FUND VS_CRITICAL],
              mr_status = RS_MISSING_IN_FUND, mr_autoApproved = False\<rparr>
      | ft # _ \<Rightarrow>
          (let fundTotal = sum_list (map f_amount fts); diff = mi_totalAmount bank - fundTotal
           in if \<not> amounts_match tc (mi_totalAmount bank) fundTotal
              then \<lparr>mr_matched = False, mr_matchScore = 50, mr_goalTransactionCode = Some (f_goalTransactionCode ft),
                    mr_variances = [(simple_variance TOTAL_AMOUNT (amount_severity tc \<bar>diff\<bar>))
                      \<lparr>dv_expected := Some fundTotal, dv_actual := Some (mi_totalAmount bank),
                       dv_difference := Some diff, dv_percentage := percentage_of diff fundTotal\<rparr>],
                    mr_status = RS_VARIANCE_DETECTED, mr_autoApproved = False\<rparr>
              else let variances = detect_variances tc bank fts; st = determine_status variances
                   in \<lparr>mr_matched = True, mr_matchScore = calculate_match_score variances,
                       mr_goalTransactionCode = Some (f_goalTransactionCode ft), mr_variances = variances,
                       mr_status = fst st, mr_autoApproved = snd st\<rparr>))"

section \<open>Properties\<close>

lemma foldl_penalty: "foldl (\<lambda>score v. score - severity_penalty (dv_severity v)) a vs
    = a - sum_list (map (\<lambda>v. severity_penalty (dv_severity v)) vs)"
  by (induction vs arbitrary: a) simp_all

lemma penalty_pos: "5 \<le> severity_penalty s"
  by (cases s) simp_all

lemma sum_penalty_pos: "vs \<noteq> [] \<Longrightarrow> 5 \<le> sum_list (map (\<lambda>v. severity_penalty (dv_severity v)) vs)"
proof (cases vs)
  case (Cons v vs')
  have "0 \<le> sum_list (map (\<lambda>v. severity_penalty (dv_severity v)) vs')"
    by (rule sum_list_nonneg) (auto intro: order_trans [OF _ penalty_pos])
  with Cons show ?thesis using penalty_pos [of "dv_severity v"] by simp
qed simp

lemma score_bounds: "0 \<le> calculate_match_score vs \<and> calculate_match_score vs \<le> 100 \<and> (calculate_match_score vs = 100 \<longleftrightarrow> vs = [])"
  using sum_penalty_pos [of vs] by (auto simp: calculate_match_score_def foldl_penalty)

lemma status_cases:
  "determine_status vs =
     (if vs = [] then (RS_MATCHED, True)
      else if \<forall>v \<in> set vs. dv_autoApproved v \<and> dv_severity v \<noteq> VS_CRITICAL \<and> dv_severity v \<noteq> VS_HIGH then (RS_AUTO_APPROVED, True)
      else (RS_MANUAL_REVIEW, False))"
  by (auto simp: determine_status_def Let_def)

text \<open>The status, the score and the approval of a match say the same thing: the amounts of a matched transaction agree
  within the tolerance and otherwise it is unmatched; it is approved exactly when its status is matched or
  auto-approved; matched means without any variance, which is also the only way to
  score 100; and every score lies between 0 and 100.\<close>

theorem match_result_consistent:
  fixes db :: database and bank :: matcher_input
  defines "r \<equiv> match_transaction default_tolerance db bank"
    and "fts \<equiv> matching_fund_rows db bank"
  shows "(mr_matched r \<longleftrightarrow> fts \<noteq> [] \<and> \<bar>mi_totalAmount bank - sum_list (map f_amount fts)\<bar>
              \<le> max (\<bar>sum_list (map f_amount fts)\<bar> / 100) 1000) \<and>
         (mr_autoApproved r \<longleftrightarrow> mr_status r = RS_MATCHED \<or> mr_status r = RS_AUTO_APPROVED) \<and>
         (mr_status r = RS_MATCHED \<longleftrightarrow> mr_variances r = []) \<and>
         (mr_matchScore r = 100 \<longleftrightarrow> mr_variances r = []) \<and>
         (mr_status r = RS_MISSING_IN_FUND \<longleftrightarrow> fts = []) \<and>
         (mr_autoApproved r \<longrightarrow> mr_matched r) \<and>
         0 \<le> mr_matchScore r \<and> mr_matchScore r \<le> 100"
proof (cases fts)
  case Nil
  then show ?thesis
    by (simp add: r_def fts_def [symmetric] match_transaction_def Let_def)
next
  case (Cons ft rest)
  let ?sum = "sum_list (map f_amount fts)" and ?vs = "detect_variances default_tolerance bank fts"
  have r: "r = (if amounts_match default_tolerance (mi_totalAmount bank) ?sum
      then \<lparr>mr_matched = True, mr_matchScore = calculate_match_score ?vs,
            mr_goalTransactionCode = Some (f_goalTransactionCode ft), mr_variances = ?vs,
            mr_status = fst (determine_status ?vs), mr_autoApproved = snd (determine_status ?vs)\<rparr>
      else \<lparr>mr_matched = False, mr_matchScore = 50, mr_goalTransactionCode = Some (f_goalTransactionCode ft),
            mr_variances = [(simple_variance TOTAL_AMOUNT (amount_severity default_tolerance \<bar>mi_totalAmount bank - ?sum\<bar>))
              \<lparr>dv_expected := Some ?sum, dv_actual := Some (mi_totalAmount bank),
               dv_difference := Some (mi_totalAmount bank - ?sum), dv_percentage := percentage_of (mi_totalAmount bank - ?sum) ?sum\<rparr>],
            mr_status = RS_VARIANCE_DETECTED, mr_autoApproved = False\<rparr>)"
    unfolding r_def match_transaction_def Let_def fts_def [symmetric] by (simp add: Cons)
  have tol: "amounts_match default_tolerance (mi_totalAmount bank) ?sum \<longleftrightarrow> \<bar>mi_totalAmount bank - ?sum\<bar> \<le> max (\<bar>?sum\<bar> / 100) 1000"
    by (simp add: amounts_match_def amount_allowance_def default_tolerance_def)
  show ?thesis
    unfolding r using tol score_bounds [of ?vs] Cons by (simp add: status_cases)
qed

text \<open>What is approved without review is minor: the dates are at most four days apart, and each fund's
  amount that the fund side reports as non-zero is met within 1\%, or within 2\% and less than 1000.\<close>

theorem auto_approval_is_minor:
  assumes "mr_autoApproved (match_transaction default_tolerance db bank)"
    and "code \<in> set fund_codes" "map_get (fund_amounts (matching_fund_rows db bank)) code = Some x" "x \<noteq> 0"
  shows "\<bar>(mi_transactionDate bank - f_transactionDate (hd (matching_fund_rows db bank))) div ms_per_day\<bar> \<le> 4 \<and>
         (\<bar>bank_fund_amount bank code - x\<bar> \<le> \<bar>x\<bar> / 100 \<or>
          \<bar>bank_fund_amount bank code - x\<bar> < 1000 \<and> \<bar>bank_fund_amount bank code - x\<bar> \<le> \<bar>x\<bar> * 2 / 100)"
proof -
  let ?fts = "matching_fund_rows db bank" and ?tc = default_tolerance
  let ?vs = "detect_variances ?tc bank ?fts"
  have "snd (determine_status ?vs)"
    using assms(1) by (auto simp: match_transaction_def Let_def split: list.splits if_splits)
  then have ok: "\<forall>v \<in> set ?vs. dv_autoApproved v" by (auto simp: status_cases split: if_splits)
  have "\<forall>v \<in> set (date_variances ?tc (mi_transactionDate bank) (f_transactionDate (hd ?fts))). dv_autoApproved v"
    using ok by (simp add: detect_variances_def)
  then have "\<bar>(mi_transactionDate bank - f_transactionDate (hd ?fts)) div ms_per_day\<bar> \<le> 4"
    by (auto simp: date_variances_def Let_def default_tolerance_def split: if_splits)
  moreover have "\<forall>v \<in> set (fund_variance ?tc code (bank_fund_amount bank code) x). dv_autoApproved v"
    using ok assms(2,3) by (force simp: detect_variances_def)
  then have "\<bar>bank_fund_amount bank code - x\<bar> \<le> \<bar>x\<bar> / 100 \<or>
      \<bar>bank_fund_amount bank code - x\<bar> < 1000 \<and> \<bar>bank_fund_amount bank code - x\<bar> \<le> \<bar>x\<bar> * 2 / 100"
    using assms(4) by (auto simp: fund_variance_def Let_def default_tolerance_def amount_severity_def field_simps split: if_splits)
  ultimately show ?thesis by blast
qed

section \<open>Examples\<close>

definition ex_input :: "instant \<Rightarrow> money \<Rightarrow> string \<Rightarrow> matcher_input" where
  "ex_input day amount txid = \<lparr>mi_goalNumber = ''G'', mi_transactionId = txid, mi_totalAmount = amount,
     mi_transactionDate = day * ms_per_day, mi_xummfAmount = amount, mi_xubfAmount = 0, mi_xudefAmount = 0, mi_xurefAmount = 0\<rparr>"

theorem match_result_consistent_witness:
  "mr_matchScore (match_transaction default_tolerance ex_db (ex_input 90 50000 ''Q3'')) \<le> 100"
  using match_result_consistent [of ex_db "ex_input 90 50000 ''Q3''"] by blast

theorem auto_approval_is_minor_witness:
  "\<bar>(92 * ms_per_day - 90 * ms_per_day) div ms_per_day\<bar> \<le> (4 :: int)"
proof -
  let ?in = "ex_input 92 50400 ''Q3''"
  have rows: "matching_fund_rows ex_db ?in = [ex_fund ''f4'' ''c3'' ''Q3'' 90 50000]"
    by code_simp
  have "mr_autoApproved (match_transaction default_tolerance ex_db ?in)"
    "map_get (fund_amounts (matching_fund_rows ex_db ?in)) ''XUMMF'' = Some 50000"
    by code_simp+
  then show ?thesis
    using auto_approval_is_minor [of ex_db ?in "''XUMMF''" 50000]
    unfolding rows by (simp add: fund_codes_def ex_input_def ex_fund_def)
qed

text \<open>Two fund rows of one fund are not added up: a bank transaction that agrees with them in total and in its
  fund is sent to manual review, because only the last row's amount is compared.\<close>

theorem split_fund_rows_cause_spurious_variance:
  "map f_amount (matching_fund_rows ex_db (ex_input 1 5000 ''T1'')) = [3000, 2000] \<and>
   map f_fundCode (matching_fund_rows ex_db (ex_input 1 5000 ''T1'')) = [''XUMMF'', ''XUMMF''] \<and>
   mr_status (match_transaction default_tolerance ex_db (ex_input 1 5000 ''T1'')) = RS_MANUAL_REVIEW"
  by code_simp

end
