(* ===== verification/GoalCode.thy ===== *)
theory GoalCode
  imports SmartMatchResult
begin

text \<open>
  \<open>GoalTransactionCodeGenerator\<close>: the code that links the fund transactions of one goal
  transaction, how it is generated, checked and taken apart again. A date is given by its calendar fields (what
  \<open>getFullYear\<close>, \<open>getMonth() + 1\<close> and \<open>getDate\<close> return); reading a date out of a string is
  the parameter \<open>parse_date\<close>, because the engine's \<open>new Date(text)\<close> is implementation defined.
\<close>

section \<open>Dates and strings\<close>

record civil =
  c_year :: nat
  c_month :: nat
  c_day :: nat

definition pad2 :: "nat \<Rightarrow> string" where
  "pad2 n = (let s = nat_digits n in if length s < 2 then CHR ''0'' # s else s)"

text \<open>\<open>padStart(n, '0')\<close>.\<close>

definition pad_start :: "nat \<Rightarrow> string \<Rightarrow> string" where
  "pad_start n s = replicate (n - length s) CHR ''0'' @ s"

definition format_date :: "civil \<Rightarrow> string" where
  "format_date d = nat_digits (c_year d) @ ''-'' @ pad2 (c_month d) @ ''-'' @ pad2 (c_day d)"

text \<open>The whitespace that \<open>trim\<close> removes (tab, line feed, vertical tab, form feed, carriage return,
  space, no-break space).\<close>

definition js_space :: "char \<Rightarrow> bool" where
  "js_space c = (c \<in> {CHR 0x09, CHR 0x0A, CHR 0x0B, CHR 0x0C, CHR 0x0D, CHR 0x20, CHR 0xA0})"

definition trim :: "string \<Rightarrow> string" where
  "trim s = rev (dropWhile js_space (rev (dropWhile js_space s)))"

section \<open>Generating\<close>

datatype date_input = DateValue civil | DateText string

definition date_part :: "(string \<Rightarrow> civil option) \<Rightarrow> date_input \<Rightarrow> string option" where
  "date_part parse_date d =
     (case d of DateValue c \<Rightarrow> Some (format_date c) | DateText s \<Rightarrow> map_option format_date (parse_date s))"

text \<open>\<open>None\<close> is the thrown \<open>Invalid date format\<close>.\<close>

definition generate_code ::
    "(string \<Rightarrow> civil option) \<Rightarrow> date_input \<Rightarrow> string \<Rightarrow> string \<Rightarrow> string \<Rightarrow> string \<Rightarrow> string option" where
  "generate_code parse_date d accountNumber goalNumber transactionId source =
     (case date_part parse_date d of
        None \<Rightarrow> None
      | Some dateStr \<Rightarrow>
          (let cleanAccount = trim accountNumber; cleanGoal = trim goalNumber;
               cleanTransactionId = trim transactionId; cleanSource = trim source
           in if cleanTransactionId = [] \<and> cleanSource = []
              then Some (dateStr @ ''-'' @ cleanAccount @ ''-'' @ cleanGoal)
              else Some (dateStr @ ''-'' @ cleanAccount @ ''-'' @ cleanGoal @ ''-'' @ cleanTransactionId @ ''-'' @ cleanSource)))"

section \<open>Validating and parsing\<close>

text \<open>\<open>/^\d{4}-\d{2}-\d{2}/\<close>, anchored at the start only.\<close>

definition date_pattern :: "string \<Rightarrow> bool" where
  "date_pattern s =
     (length s \<ge> 10 \<and> list_all is_digit (take 4 s) \<and> s ! 4 = CHR ''-'' \<and>
      is_digit (s ! 5) \<and> is_digit (s ! 6) \<and> s ! 7 = CHR ''-'' \<and> is_digit (s ! 8) \<and> is_digit (s ! 9))"

definition date_of_parts :: "string list \<Rightarrow> string" where
  "date_of_parts parts = join_with CHR ''-'' (take 3 parts)"

definition validate_code :: "string \<Rightarrow> bool" where
  "validate_code code =
     (let parts = split_on CHR ''-'' code
      in if length parts < 5 then False else date_pattern (date_of_parts parts))"

record code_parts =
  cp_date :: string
  cp_account :: string
  cp_goal :: string
  cp_transactionId :: string
  cp_source :: string

definition slice_from :: "nat \<Rightarrow> nat \<Rightarrow> 'a list \<Rightarrow> 'a list" where
  "slice_from n k xs = drop n (take (length xs - k) xs)"

definition parse_code :: "string \<Rightarrow> code_parts option" where
  "parse_code code =
     (if \<not> validate_code code then None
      else let parts = split_on CHR ''-'' code; n = length parts
           in if n < 5 then None
              else if n \<ge> 7
              then Some \<lparr>cp_date = date_of_parts parts, cp_account = join_with CHR ''-'' (slice_from 3 3 parts),
                     cp_goal = parts ! (n - 3), cp_transactionId = parts ! (n - 2), cp_source = parts ! (n - 1)\<rparr>
              else Some \<lparr>cp_date = date_of_parts parts, cp_account = join_with CHR ''-'' (slice_from 3 1 parts),
                     cp_goal = parts ! (n - 1), cp_transactionId = [], cp_source = []\<rparr>)"

definition extract_date :: "(string \<Rightarrow> civil option) \<Rightarrow> string \<Rightarrow> civil option" where
  "extract_date parse_date code =
     (case parse_code code of None \<Rightarrow> None | Some p \<Rightarrow> parse_date (cp_date p))"

definition group_by_code :: "('t \<Rightarrow> string) \<Rightarrow> 't list \<Rightarrow> (string, 't list) jsmap" where
  "group_by_code code_of transactions = group_by code_of transactions"

section \<open>Round trip\<close>

lemma split_on_append_sep:
  "split_on c (s @ c # t) = split_on c s @ split_on c t"
  by (induction s) (auto split: list.splits)

definition year4 :: "civil \<Rightarrow> bool" where
  "year4 d = (length (nat_digits (c_year d)) = 4 \<and> c_month d < 100 \<and> c_day d < 100)"

lemma pad2_two_digits:
  assumes "n < 100"
  shows "length (pad2 n) = 2 \<and> list_all is_digit (pad2 n)"
proof (cases "n < 10")
  case True
  then have "nat_digits n = [''0123456789'' ! n]" by (simp add: nat_digits.simps)
  then show ?thesis using digit_char [OF True] by (simp add: pad2_def is_digit_def)
next
  case False
  then have "n div 10 < 10" using assms by simp
  then have "nat_digits n = [''0123456789'' ! (n div 10), ''0123456789'' ! (n mod 10)]"
    using False by (simp add: nat_digits.simps [of n] nat_digits.simps [of "n div 10"])
  then show ?thesis using digit_char [OF \<open>n div 10 < 10\<close>] digit_char [of "n mod 10"] by (simp add: pad2_def)
qed

lemma no_dash_digits: "list_all is_digit s \<Longrightarrow> CHR ''-'' \<notin> set s"
proof
  assume "list_all is_digit s" "CHR ''-'' \<in> set s"
  then have "is_digit CHR ''-''" by (simp add: list_all_iff)
  then show False by (simp add: is_digit_def)
qed

lemma format_date_parts:
  assumes "year4 d"
  shows "split_on CHR ''-'' (format_date d) = [nat_digits (c_year d), pad2 (c_month d), pad2 (c_day d)]"
proof -
  have "CHR ''-'' \<notin> set (pad2 (c_month d))" "CHR ''-'' \<notin> set (pad2 (c_day d))"
    using assms pad2_two_digits [of "c_month d"] pad2_two_digits [of "c_day d"]
      no_dash_digits [of "pad2 (c_month d)"] no_dash_digits [of "pad2 (c_day d)"] by (auto simp: year4_def)
  then have "split_on CHR ''-'' (pad2 (c_month d)) = [pad2 (c_month d)]" "split_on CHR ''-'' (pad2 (c_day d)) = [pad2 (c_day d)]"
    "split_on CHR ''-'' (nat_digits (c_year d)) = [nat_digits (c_year d)]"
    by (simp_all add: split_on_notin)
  moreover have "format_date d = nat_digits (c_year d) @ CHR ''-'' # (pad2 (c_month d) @ CHR ''-'' # pad2 (c_day d))"
    by (simp add: format_date_def)
  ultimately show ?thesis by (simp only: split_on_append_sep) simp
qed

lemma format_date_pattern:
  assumes "year4 d"
  shows "date_pattern (format_date d)"
proof -
  obtain a b c e where y: "nat_digits (c_year d) = [a, b, c, e]"
    using assms by (auto simp: year4_def length_Suc_conv eval_nat_numeral)
  obtain f g where m: "pad2 (c_month d) = [f, g]"
    using pad2_two_digits [of "c_month d"] assms by (auto simp: year4_def length_Suc_conv eval_nat_numeral)
  obtain h i where t: "pad2 (c_day d) = [h, i]"
    using pad2_two_digits [of "c_day d"] assms by (auto simp: year4_def length_Suc_conv eval_nat_numeral)
  have "is_digit a \<and> is_digit b \<and> is_digit c \<and> is_digit e"
    using nat_digits_digits [of _ "c_year d"] unfolding y by auto
  moreover have "is_digit f \<and> is_digit g" using pad2_two_digits [of "c_month d"] assms by (simp add: year4_def m)
  moreover have "is_digit h \<and> is_digit i" using pad2_two_digits [of "c_day d"] assms by (simp add: year4_def t)
  ultimately show ?thesis
    by (simp add: date_pattern_def format_date_def y m t)
qed

lemma trim_id: "s = [] \<or> \<not> js_space (hd s) \<and> \<not> js_space (last s) \<Longrightarrow> trim s = s"
proof -
  assume a: "s = [] \<or> \<not> js_space (hd s) \<and> \<not> js_space (last s)"
  then have "dropWhile js_space s = s" by (cases s) auto
  moreover have "dropWhile js_space (rev s) = rev s"
    using a by (cases s rule: rev_cases) auto
  ultimately show ?thesis by (simp add: trim_def)
qed

definition clean_part :: "string \<Rightarrow> bool" where
  "clean_part s = (CHR ''-'' \<notin> set s)"

lemma parts_of_code:
  assumes "year4 d" "ws \<noteq> []"
  shows "split_on CHR ''-'' (format_date d @ ''-'' @ account @ concat (map (\<lambda>w. CHR ''-'' # w) ws))
       = nat_digits (c_year d) # pad2 (c_month d) # pad2 (c_day d) # split_on CHR ''-'' account
         @ concat (map (split_on CHR ''-'') ws)"
proof -
  have tail: "split_on CHR ''-'' (s @ concat (map (\<lambda>w. CHR ''-'' # w) ws)) = split_on CHR ''-'' s @ concat (map (split_on CHR ''-'') ws)" for s
  proof (induction ws arbitrary: s)
    case (Cons w ws)
    then show ?case by (simp add: split_on_append_sep)
  qed simp
  show ?thesis
    using split_on_append_sep [of "CHR ''-''" "format_date d" "account @ concat (map (\<lambda>w. CHR ''-'' # w) ws)"]
    by (simp add: format_date_parts [OF assms(1)] tail)
qed

lemma date_of_code: "date_of_parts (nat_digits (c_year d) # pad2 (c_month d) # pad2 (c_day d) # rest) = format_date d"
  by (simp add: date_of_parts_def format_date_def)

lemma length_split_on: "length (split_on c s) = Suc (length (filter (\<lambda>x. x = c) s))"
  by (induction s) (auto split: list.splits)

definition dashes :: "string \<Rightarrow> nat" where
  "dashes s = length (filter (\<lambda>x. x = CHR ''-'') s)"

lemma length_split_dash: "length (split_on CHR ''-'' s) = Suc (dashes s)"
  by (simp add: length_split_on dashes_def)

lemma parse_tracked:
  assumes "year4 d" "clean_part goal" "clean_part txid" "clean_part source"
  shows "parse_code (format_date d @ ''-'' @ account @ ''-'' @ goal @ ''-'' @ txid @ ''-'' @ source)
       = Some \<lparr>cp_date = format_date d, cp_account = account, cp_goal = goal, cp_transactionId = txid, cp_source = source\<rparr>"
proof -
  let ?code = "format_date d @ ''-'' @ account @ ''-'' @ goal @ ''-'' @ txid @ ''-'' @ source"
  let ?a = "split_on CHR ''-'' account"
  have parts: "split_on CHR ''-'' ?code = nat_digits (c_year d) # pad2 (c_month d) # pad2 (c_day d) # ?a @ [goal, txid, source]"
    using parts_of_code [OF assms(1), of "[goal, txid, source]" account] assms(2-4)
    by (simp add: split_on_notin clean_part_def)
  have len: "length (?a @ [goal, txid, source]) = dashes account + 4" by (simp add: length_split_dash)
  have valid: "validate_code ?code"
    unfolding validate_code_def parts Let_def date_of_code using format_date_pattern [OF assms(1)] len by simp
  have slice: "slice_from 3 3 (x # y # z # ?a @ [goal, txid, source]) = ?a" for x y z
    by (simp add: slice_from_def)
  have "(?a @ [goal, txid, source]) ! Suc (dashes account) = goal"
    "(?a @ [goal, txid, source]) ! Suc (Suc (dashes account)) = txid"
    "(?a @ [goal, txid, source]) ! Suc (Suc (Suc (dashes account))) = source"
    by (simp_all add: nth_append length_split_dash)
  then show ?thesis
    using valid len unfolding parse_code_def parts Let_def date_of_code
    by (simp add: slice join_split_on)
qed

lemma parse_historical:
  assumes "year4 d" "clean_part goal" "dashes account \<le> 1"
  shows "parse_code (format_date d @ ''-'' @ account @ ''-'' @ goal)
       = Some \<lparr>cp_date = format_date d, cp_account = account, cp_goal = goal, cp_transactionId = [], cp_source = []\<rparr>"
proof -
  let ?code = "format_date d @ ''-'' @ account @ ''-'' @ goal"
  let ?a = "split_on CHR ''-'' account"
  have parts: "split_on CHR ''-'' ?code = nat_digits (c_year d) # pad2 (c_month d) # pad2 (c_day d) # ?a @ [goal]"
    using parts_of_code [OF assms(1), of "[goal]" account] assms(2) by (simp add: split_on_notin clean_part_def)
  have len: "length (?a @ [goal]) = dashes account + 2" by (simp add: length_split_dash)
  have valid: "validate_code ?code"
    unfolding validate_code_def parts Let_def date_of_code using format_date_pattern [OF assms(1)] len by simp
  have slice: "slice_from 3 1 (x # y # z # ?a @ [goal]) = ?a" for x y z
    by (simp add: slice_from_def)
  have "(?a @ [goal]) ! Suc (dashes account) = goal"
    by (simp add: nth_append length_split_dash)
  then show ?thesis
    using valid len assms(3) unfolding parse_code_def parts Let_def date_of_code
    by (simp add: slice slice [unfolded One_nat_def] join_split_on)
qed

text \<open>Whatever the pieces, parsing a generated code gives some parts, and the goal number, transaction id and source it gives are
  pieces between dashes.\<close>

lemma dashes_zero: "dashes s = 0 \<longleftrightarrow> CHR ''-'' \<notin> set s"
  by (auto simp: dashes_def filter_empty_conv)

lemma dashes_join: "\<forall>x \<in> set xs. CHR ''-'' \<notin> set x \<Longrightarrow> dashes (join_with CHR ''-'' xs) = length xs - 1"
proof (induction "CHR ''-''" xs rule: join_with.induct)
  case (2 x)
  then show ?case by (simp add: dashes_zero)
next
  case (3 x y ys)
  then have "filter (\<lambda>c. c = CHR ''-'') x = []" by (auto simp: filter_empty_conv)
  with 3 show ?case by (simp add: dashes_def)
qed (simp add: dashes_def)

lemma parse_pieces:
  assumes "year4 d" "split_on CHR ''-'' code = nat_digits (c_year d) # pad2 (c_month d) # pad2 (c_day d) # ps" "2 \<le> length ps"
  shows "parse_code code = Some (if length ps < 4
    then \<lparr>cp_date = format_date d, cp_account = join_with CHR ''-'' (take (length ps - 1) ps), cp_goal = ps ! (length ps - 1),
           cp_transactionId = [], cp_source = []\<rparr>
    else \<lparr>cp_date = format_date d, cp_account = join_with CHR ''-'' (take (length ps - 3) ps), cp_goal = ps ! (length ps - 3),
           cp_transactionId = ps ! (length ps - 2), cp_source = ps ! (length ps - 1)\<rparr>)"
proof -
  have valid: "validate_code code"
    unfolding validate_code_def assms(2) Let_def date_of_code using format_date_pattern [OF assms(1)] assms(3) by simp
  have slice: "slice_from 3 k (x # y # z # ps) = take (length ps - k) ps" if "k \<le> length ps" for x y z k
    using that by (simp add: slice_from_def Suc_diff_le numeral_3_eq_3)
  have nth: "(x # y # z # ps) ! (Suc (Suc (Suc (length ps))) - k) = ps ! (length ps - k)" if "0 < k" "k \<le> length ps" for x y z k
    using that by (simp add: Suc_diff_le)
  show ?thesis
    using valid assms(3) slice [of 1] slice [of 3] nth [of 1] nth [of 2] nth [of 3]
    unfolding parse_code_def assms(2) Let_def date_of_code by auto
qed

text \<open>A code is read back when only the account number contains dashes, and not too many of them.\<close>

lemma parse_dash_free:
  assumes "year4 day"
    and "code = format_date day @ ''-'' @ a @ concat (map (\<lambda>w. CHR ''-'' # w) (if t = [] \<and> s = [] then [g] else [g, t, s]))"
    and "CHR ''-'' \<notin> set g \<union> set t \<union> set s" "t = [] \<and> s = [] \<longrightarrow> dashes a \<le> 1"
  shows "parse_code code = Some \<lparr>cp_date = format_date day, cp_account = a, cp_goal = g, cp_transactionId = t, cp_source = s\<rparr>"
proof -
  have "clean_part g" "clean_part t" "clean_part s" using assms(3) by (simp_all add: clean_part_def)
  note parsed = parse_historical [OF assms(1) this(1), of a] parse_tracked [OF assms(1) this, of a]
  show ?thesis
  proof (cases "t = [] \<and> s = []")
    case True
    then have "code = format_date day @ ''-'' @ a @ ''-'' @ g" by (simp add: assms(2))
    moreover have "dashes a \<le> 1" using assms(4) True by (rule mp)
    ultimately show ?thesis using parsed(1) True by (simp only: simp_thms)
  next
    case False
    then have "code = format_date day @ ''-'' @ a @ ''-'' @ g @ ''-'' @ t @ ''-'' @ s" by (simp add: assms(2) if_not_P)
    then show ?thesis using parsed(2) by (simp only:)
  qed
qed

text \<open>C20: when a code can be taken apart again. A code generated for a day of a four-digit year is always parsed, and parsing it
  returns the (trimmed) parts that it was made of exactly if goal number, transaction id and source contain no dash and, for a code
  without transaction id and source, the account number has at most one: with more pieces it is read as one with source tracking.
  So codes with goal numbers of the documented form, which contain a dash, are never read back.\<close>

theorem code_roundtrip:
  assumes "year4 day" "date_part parse_date d = Some (format_date day)"
    and "generate_code parse_date d account goal txid source = Some code"
  shows "parse_code code \<noteq> None \<and>
    (parse_code code = Some \<lparr>cp_date = format_date day, cp_account = trim account, cp_goal = trim goal,
        cp_transactionId = trim txid, cp_source = trim source\<rparr> \<longleftrightarrow>
      CHR ''-'' \<notin> set (trim goal) \<union> set (trim txid) \<union> set (trim source) \<and>
      (if trim txid = [] \<and> trim source = [] then dashes (trim account) \<le> 1 else True))"
proof -
  let ?a = "trim account" and ?g = "trim goal" and ?t = "trim txid" and ?s = "trim source"
  let ?parts = "\<lparr>cp_date = format_date day, cp_account = ?a, cp_goal = ?g, cp_transactionId = ?t, cp_source = ?s\<rparr>"
  let ?plain = "?t = [] \<and> ?s = []"
  define ps where "ps = split_on CHR ''-'' ?a @ concat (map (split_on CHR ''-'') (if ?plain then [?g] else [?g, ?t, ?s]))"
  have code: "code = format_date day @ ''-'' @ ?a @ concat (map (\<lambda>w. CHR ''-'' # w) (if ?plain then [?g] else [?g, ?t, ?s]))"
    using assms(2,3) by (auto simp: generate_code_def Let_def)
  have split: "split_on CHR ''-'' code = nat_digits (c_year day) # pad2 (c_month day) # pad2 (c_day day) # ps"
    unfolding code ps_def by (rule parts_of_code [OF assms(1)]) simp
  have len: "length ps = (if ?plain then 2 + dashes ?a + dashes ?g else 4 + dashes ?a + dashes ?g + dashes ?t + dashes ?s)"
    by (simp add: ps_def length_split_dash)
  have "2 \<le> length ps" unfolding len by simp
  note parse = parse_pieces [OF assms(1) split this]
  have piece: "CHR ''-'' \<notin> set x" if "x \<in> set ps" for x
    using that split_on_pieces [of x "CHR ''-''"] by (auto simp: ps_def split: if_splits)
  have nth: "CHR ''-'' \<notin> set (ps ! (length ps - k))" if "0 < k" "k \<le> length ps" for k
    using that by (intro piece nth_mem) simp
  have only_if: "CHR ''-'' \<notin> set ?g \<union> set ?t \<union> set ?s \<and> (?plain \<longrightarrow> dashes ?a \<le> 1)" if eq: "parse_code code = Some ?parts"
  proof (cases "length ps < 4")
    case True
    then have plain: "?plain" "dashes ?a \<le> 1" unfolding len by (auto split: if_splits)
    have "?g = ps ! (length ps - 1)" using eq True unfolding parse by simp
    then show ?thesis using plain nth [of 1] \<open>2 \<le> length ps\<close> by simp
  next
    case False
    then have q: "?a = join_with CHR ''-'' (take (length ps - 3) ps)" "?g = ps ! (length ps - 3)" "?t = ps ! (length ps - 2)" "?s = ps ! (length ps - 1)"
      using eq unfolding parse by simp_all
    have clean: "CHR ''-'' \<notin> set ?g" "CHR ''-'' \<notin> set ?t" "CHR ''-'' \<notin> set ?s"
      using q(2-4) nth [of 1] nth [of 2] nth [of 3] False by auto
    have "dashes ?a = length (take (length ps - 3) ps) - 1"
      by (subst q(1), rule dashes_join) (use piece in \<open>auto dest: in_set_takeD\<close>)
    then have "dashes ?a = length ps - 4" by simp
    moreover have "dashes ?g = 0" using clean(1) by (simp add: dashes_zero)
    ultimately have "\<not> ?plain" using False unfolding len by (auto split: if_splits)
    then show ?thesis using clean by blast
  qed
  have when_free: "parse_code code = Some ?parts" if "CHR ''-'' \<notin> set ?g \<union> set ?t \<union> set ?s" "?plain \<longrightarrow> dashes ?a \<le> 1"
    by (rule parse_dash_free [OF assms(1) code that])
  have "(if ?plain then dashes ?a \<le> 1 else True) \<longleftrightarrow> (?plain \<longrightarrow> dashes ?a \<le> 1)" by (cases ?plain) (simp_all only: simp_thms if_True if_False)
  moreover have "parse_code code \<noteq> None" unfolding parse by (rule option.distinct)
  ultimately show ?thesis using only_if when_free by blast
qed

text \<open>The documented codes: the one with source tracking and the historical one.\<close>

theorem code_roundtrip_witness:
  "parse_code ''2024-07-24-701-5558635193-701-5558635193a-123456789-BANK'' \<noteq>
     Some \<lparr>cp_date = ''2024-07-24'', cp_account = ''701-5558635193'', cp_goal = ''701-5558635193a'',
       cp_transactionId = ''123456789'', cp_source = ''BANK''\<rparr>"
proof -
  let ?d = "\<lparr>c_year = 2024, c_month = 7, c_day = 24\<rparr>"
  have "year4 ?d" by (simp add: year4_def nat_digits.simps)
  moreover have "date_part (\<lambda>_. None) (DateValue ?d) = Some (format_date ?d)" "format_date ?d = ''2024-07-24''"
    by (simp add: date_part_def) code_simp
  moreover have "trim ''701-5558635193'' = ''701-5558635193''" "trim ''701-5558635193a'' = ''701-5558635193a''"
    "trim ''123456789'' = ''123456789''" "trim ''BANK'' = ''BANK''"
    by (simp_all add: trim_def js_space_def)
  moreover have "generate_code (\<lambda>_. None) (DateValue ?d) ''701-5558635193'' ''701-5558635193a'' ''123456789'' ''BANK''
      = Some ''2024-07-24-701-5558635193-701-5558635193a-123456789-BANK''"
    by code_simp
  ultimately show ?thesis
    using code_roundtrip [of ?d "\<lambda>_. None" "DateValue ?d" "''701-5558635193''" "''701-5558635193a''" "''123456789''" "''BANK''"] by simp
qed

text \<open>The documented historical code is misread: its goal number contains a dash, so the code has seven
  pieces and is taken for one with source tracking; account number, goal number, transaction id and source all
  come out wrong.\<close>

theorem documented_code_is_misread:
  "parse_code ''2018-07-24-701-5558635193-701-5558635193a'' =
     Some \<lparr>cp_date = ''2018-07-24'', cp_account = ''701'', cp_goal = ''5558635193'',
           cp_transactionId = ''701'', cp_source = ''5558635193a''\<rparr>"
  by code_simp

end
