(* ===== verification/FundValidator.thy ===== *)
theory FundValidator
  imports GoalCode
begin

text \<open>
  \<open>FundTransactionValidator\<close>: the checks of a parsed fund transaction and of a batch. A field that the
  checks test for \<open>null\<close> is an option; a missing string is the empty string, which the checks treat alike. Of an error the
  row, the field, the code and the severity are kept. The clock and the calendar enter as the record
  \<open>clock\<close>: the start of today and the bounds that \<open>setFullYear\<close> gives.
\<close>

section \<open>Data\<close>

record parsed_fund =
  pf_fundTransactionId :: string
  pf_goalTransactionCode :: string
  pf_transactionId :: string
  pf_source :: "transaction_source option"
  pf_transactionDate :: "instant option"
  pf_clientName :: string
  pf_fundCode :: string
  pf_amount :: "money option"
  pf_units :: "rat option"
  pf_transactionType :: string
  pf_bidPrice :: "rat option"
  pf_offerPrice :: "rat option"
  pf_midPrice :: "rat option"
  pf_dateCreated :: "instant option"
  pf_goalTitle :: string
  pf_goalNumber :: string
  pf_accountNumber :: string
  pf_accountType :: string
  pf_accountCategory :: string
  pf_sponsorCode :: "string option"
  pf_rowNumber :: nat

record validation_error =
  ve_row :: nat
  ve_field :: string
  ve_code :: string
  ve_severity :: severity

record clock =
  ck_today :: instant
  ck_minDate :: instant
  ck_maxDate :: instant

record validation_config =
  vc_amountMax :: money
  vc_unitTrustTolerance :: rat

definition err :: "nat \<Rightarrow> string \<Rightarrow> string \<Rightarrow> severity \<Rightarrow> validation_error" where
  "err row field code sev = \<lparr>ve_row = row, ve_field = field, ve_code = code, ve_severity = sev\<rparr>"

definition err_if :: "bool \<Rightarrow> nat \<Rightarrow> string \<Rightarrow> string \<Rightarrow> severity \<Rightarrow> validation_error list" where
  "err_if c row field code sev = (if c then [err row field code sev] else [])"

section \<open>Strings and numbers\<close>

function collapse_spaces :: "string \<Rightarrow> string" where
  "collapse_spaces [] = []"
| "collapse_spaces (c # s) =
     (if js_space c then CHR 0x20 # collapse_spaces (dropWhile js_space s) else c # collapse_spaces s)"
  by pat_completeness auto

termination collapse_spaces
  by (relation "measure length") (auto simp: le_imp_less_Suc length_dropWhile_le)

definition clean :: "string \<Rightarrow> string" where
  "clean s = collapse_spaces (trim s)"

definition is_empty_str :: "string \<Rightarrow> bool" where
  "is_empty_str s = (clean s = [])"

text \<open>\<open>/^\d{3}-\d{9,}$/\<close> and \<open>/^\d{3}-\d{9,}[a-z]$/\<close>.\<close>

definition account_pattern :: "string \<Rightarrow> bool" where
  "account_pattern s =
     (length s \<ge> 13 \<and> list_all is_digit (take 3 s) \<and> s ! 3 = CHR ''-'' \<and> list_all is_digit (drop 4 s))"

definition is_valid_account_number :: "string \<Rightarrow> bool" where
  "is_valid_account_number value = account_pattern (clean value)"

definition is_valid_goal_number :: "string \<Rightarrow> bool" where
  "is_valid_goal_number value =
     (let s = clean value
      in s \<noteq> [] \<and> account_pattern (butlast s) \<and> last s \<in> set ''abcdefghijklmnopqrstuvwxyz'')"

definition are_equal :: "rat \<Rightarrow> rat \<Rightarrow> rat \<Rightarrow> bool" where
  "are_equal a b tolerance = (\<bar>a - b\<bar> \<le> tolerance)"

text \<open>Truthiness of a nullable number.\<close>

definition truthy_num :: "rat option \<Rightarrow> bool" where
  "truthy_num x = (case x of None \<Rightarrow> False | Some v \<Rightarrow> v \<noteq> 0)"

section \<open>The checks\<close>

definition validate_required :: "parsed_fund \<Rightarrow> validation_error list" where
  "validate_required t =
     (let e = (\<lambda>c field code. err_if c (pf_rowNumber t) field code CRITICAL)
      in e (is_empty_str (pf_fundTransactionId t)) ''fundTransactionId'' ''REQUIRED_FUND_TRANSACTION_ID''
       @ e (pf_transactionDate t = None) ''transactionDate'' ''REQUIRED_TRANSACTION_DATE''
       @ e (is_empty_str (pf_clientName t)) ''clientName'' ''REQUIRED_CLIENT_NAME''
       @ e (is_empty_str (pf_fundCode t)) ''fundCode'' ''REQUIRED_FUND_CODE''
       @ e (pf_amount t = None) ''amount'' ''REQUIRED_AMOUNT''
       @ e (pf_units t = None) ''units'' ''REQUIRED_UNITS''
       @ e (is_empty_str (pf_accountNumber t)) ''accountNumber'' ''REQUIRED_ACCOUNT_NUMBER''
       @ e (is_empty_str (pf_goalNumber t)) ''goalNumber'' ''REQUIRED_GOAL_NUMBER'')"

text \<open>\<open>new Date('2025-01-01')\<close>, in milliseconds.\<close>

definition source_tracking_from :: instant where
  "source_tracking_from = 1735689600000"

definition source_tracking_required :: "parsed_fund \<Rightarrow> bool" where
  "source_tracking_required t =
     (case pf_transactionDate t of None \<Rightarrow> False | Some d \<Rightarrow> d \<ge> source_tracking_from)"

definition validate_source_tracking :: "parsed_fund \<Rightarrow> validation_error list" where
  "validate_source_tracking t =
     err_if (is_empty_str (pf_transactionId t) \<and> source_tracking_required t)
       (pf_rowNumber t) ''transactionId'' ''REQUIRED_TRANSACTION_ID'' CRITICAL
     @ err_if (pf_source t = None \<and> source_tracking_required t)
       (pf_rowNumber t) ''source'' ''REQUIRED_SOURCE'' CRITICAL"

definition is_future_date :: "clock \<Rightarrow> instant \<Rightarrow> bool" where
  "is_future_date ck d = (d > ck_today ck)"

definition is_date_in_range :: "clock \<Rightarrow> instant \<Rightarrow> bool" where
  "is_date_in_range ck d = (ck_minDate ck \<le> d \<and> d \<le> ck_maxDate ck)"

definition validate_dates :: "clock \<Rightarrow> parsed_fund \<Rightarrow> validation_error list" where
  "validate_dates ck t =
     (case pf_transactionDate t of None \<Rightarrow> []
      | Some d \<Rightarrow>
          err_if (is_future_date ck d) (pf_rowNumber t) ''transactionDate'' ''DATE_NOT_FUTURE'' WARNING
          @ err_if (\<not> is_date_in_range ck d) (pf_rowNumber t) ''transactionDate'' ''DATE_WITHIN_RANGE'' WARNING)"

definition validate_amounts :: "validation_config \<Rightarrow> parsed_fund \<Rightarrow> validation_error list" where
  "validate_amounts cfg t =
     (case pf_amount t of None \<Rightarrow> []
      | Some a \<Rightarrow>
          err_if (\<not> a > 0 \<and> pf_transactionType t \<noteq> ''WITHDRAWAL'') (pf_rowNumber t) ''amount'' ''AMOUNT_POSITIVE'' WARNING
          @ err_if (\<bar>a\<bar> > vc_amountMax cfg) (pf_rowNumber t) ''amount'' ''AMOUNT_EXCEEDS_MAXIMUM'' WARNING)"

definition validate_units :: "validation_config \<Rightarrow> parsed_fund \<Rightarrow> validation_error list" where
  "validate_units cfg t =
     (case pf_units t of None \<Rightarrow> []
      | Some u \<Rightarrow>
          err_if (\<not> u > 0 \<and> pf_transactionType t \<noteq> ''WITHDRAWAL'') (pf_rowNumber t) ''units'' ''UNITS_POSITIVE'' WARNING
          @ err_if (pf_transactionType t = ''DEPOSIT'' \<and> truthy_num (pf_amount t) \<and> truthy_num (pf_offerPrice t) \<and>
                    \<not> are_equal u (the (pf_amount t) / the (pf_offerPrice t)) (vc_unitTrustTolerance cfg))
              (pf_rowNumber t) ''units'' ''UNITS_CALCULATION_VALID'' WARNING
          @ err_if (pf_transactionType t = ''WITHDRAWAL'' \<and> truthy_num (pf_amount t) \<and> truthy_num (pf_bidPrice t) \<and>
                    \<not> are_equal (the (pf_amount t)) (u * the (pf_bidPrice t)) (vc_unitTrustTolerance cfg))
              (pf_rowNumber t) ''amount'' ''WITHDRAWAL_CALCULATION_VALID'' WARNING)"

definition not_positive :: "rat option \<Rightarrow> bool" where
  "not_positive x = (case x of None \<Rightarrow> False | Some v \<Rightarrow> \<not> v > 0)"

definition validate_prices :: "parsed_fund \<Rightarrow> validation_error list" where
  "validate_prices t =
     err_if (pf_transactionType t = ''DEPOSIT'' \<and> pf_offerPrice t = None)
       (pf_rowNumber t) ''offerPrice'' ''REQUIRED_OFFER_PRICE'' CRITICAL
     @ err_if (pf_transactionType t = ''WITHDRAWAL'' \<and> pf_bidPrice t = None)
       (pf_rowNumber t) ''bidPrice'' ''REQUIRED_BID_PRICE'' CRITICAL
     @ err_if (pf_midPrice t = None) (pf_rowNumber t) ''midPrice'' ''MISSING_MID_PRICE'' WARNING
     @ err_if (not_positive (pf_bidPrice t)) (pf_rowNumber t) ''bidPrice'' ''PRICES_POSITIVE'' WARNING
     @ err_if (not_positive (pf_offerPrice t)) (pf_rowNumber t) ''offerPrice'' ''PRICES_POSITIVE'' WARNING
     @ err_if (not_positive (pf_midPrice t)) (pf_rowNumber t) ''midPrice'' ''PRICES_POSITIVE'' WARNING
     @ err_if (truthy_num (pf_bidPrice t) \<and> truthy_num (pf_midPrice t) \<and> truthy_num (pf_offerPrice t) \<and>
               (the (pf_bidPrice t) > the (pf_midPrice t) \<or> the (pf_midPrice t) > the (pf_offerPrice t)))
         (pf_rowNumber t) ''prices'' ''PRICE_RELATIONSHIP_VALID'' WARNING"

definition allowed_fund_codes :: "string list" where
  "allowed_fund_codes = [''XUMMF'', ''XUBF'', ''XUDEF'', ''XUREF'']"

definition allowed_types :: "string list" where
  "allowed_types = [''DEPOSIT'', ''WITHDRAWAL'', ''REDEMPTION'', ''SWITCH'', ''DIVIDEND'', ''TRANSFER'']"

definition validate_business_rules :: "parsed_fund \<Rightarrow> validation_error list" where
  "validate_business_rules t =
     err_if (pf_fundCode t \<notin> set allowed_fund_codes) (pf_rowNumber t) ''fundCode'' ''FUND_CODE_VALID'' WARNING
     @ err_if (\<not> is_valid_account_number (pf_accountNumber t)) (pf_rowNumber t) ''accountNumber'' ''ACCOUNT_NUMBER_FORMAT'' WARNING
     @ err_if (\<not> is_valid_goal_number (pf_goalNumber t)) (pf_rowNumber t) ''goalNumber'' ''GOAL_NUMBER_FORMAT'' WARNING
     @ err_if (pf_transactionType t \<notin> set allowed_types) (pf_rowNumber t) ''transactionType'' ''INVALID_TRANSACTION_TYPE'' WARNING"

definition validate_fund :: "clock \<Rightarrow> validation_config \<Rightarrow> parsed_fund \<Rightarrow> validation_error list" where
  "validate_fund ck cfg t =
     validate_required t @ validate_source_tracking t @ validate_dates ck t @ validate_amounts cfg t
     @ validate_units cfg t @ validate_prices t @ validate_business_rules t"

section \<open>The batch\<close>

record fund_batch =
  fb_valid :: "parsed_fund list"
  fb_invalid :: "(parsed_fund \<times> validation_error list) list"
  fb_errors :: "validation_error list"
  fb_seen :: "(string, nat) jsmap"

definition is_critical :: "validation_error \<Rightarrow> bool" where
  "is_critical e = (ve_severity e = CRITICAL)"

text \<open>The duplicate check: a row number of 0 would be falsy, as in the source.\<close>

definition duplicate_check :: "(string, nat) jsmap \<Rightarrow> parsed_fund \<Rightarrow> validation_error list \<times> (string, nat) jsmap" where
  "duplicate_check seen t =
     (if pf_fundTransactionId t = [] then ([], seen)
      else case map_get seen (pf_fundTransactionId t) of
        Some r \<Rightarrow>
          if r \<noteq> 0 then ([err (pf_rowNumber t) ''fundTransactionId'' ''DUPLICATE_FUND_TRANSACTION_ID'' WARNING], seen)
          else ([], map_set seen (pf_fundTransactionId t) (pf_rowNumber t))
      | None \<Rightarrow> ([], map_set seen (pf_fundTransactionId t) (pf_rowNumber t)))"

definition fund_batch_step :: "clock \<Rightarrow> validation_config \<Rightarrow> fund_batch \<Rightarrow> parsed_fund \<Rightarrow> fund_batch" where
  "fund_batch_step ck cfg st t =
     (let (dup, seen) = duplicate_check (fb_seen st) t;
          errors = validate_fund ck cfg t @ dup
      in if filter is_critical errors \<noteq> []
         then \<lparr>fb_valid = fb_valid st, fb_invalid = fb_invalid st @ [(t, errors)],
               fb_errors = fb_errors st @ errors, fb_seen = seen\<rparr>
         else \<lparr>fb_valid = fb_valid st @ [t], fb_invalid = fb_invalid st,
               fb_errors = fb_errors st @ errors, fb_seen = seen\<rparr>)"

definition validate_fund_batch :: "clock \<Rightarrow> validation_config \<Rightarrow> parsed_fund list \<Rightarrow> fund_batch" where
  "validate_fund_batch ck cfg ts =
     foldl (fund_batch_step ck cfg) \<lparr>fb_valid = [], fb_invalid = [], fb_errors = [], fb_seen = []\<rparr> ts"

section \<open>Which transactions are blocked\<close>

lemma err_if_critical [simp]:
  "filter is_critical (err_if c row field code CRITICAL) = err_if c row field code CRITICAL"
  "filter is_critical (err_if c row field code WARNING) = []"
  by (simp_all add: err_if_def err_def is_critical_def)

lemma err_if_empty [simp]: "err_if c row field code sev = [] \<longleftrightarrow> \<not> c"
  by (simp add: err_if_def)

lemma warning_groups:
  "filter is_critical (validate_dates ck t) = []" "filter is_critical (validate_amounts cfg t) = []"
  "filter is_critical (validate_units cfg t) = []" "filter is_critical (validate_business_rules t) = []"
  by (simp_all add: validate_dates_def validate_amounts_def validate_units_def validate_business_rules_def split: option.splits)

lemma is_empty_str_iff: "is_empty_str s \<longleftrightarrow> (\<forall>c \<in> set s. js_space c)"
proof -
  have "collapse_spaces s = [] \<longleftrightarrow> s = []" for s by (cases s) auto
  then have "is_empty_str s \<longleftrightarrow> trim s = []" by (simp add: is_empty_str_def clean_def)
  also have "\<dots> \<longleftrightarrow> (\<forall>c \<in> set (dropWhile js_space s). js_space c)"
    by (simp add: trim_def dropWhile_eq_Nil_conv)
  also have "\<dots> \<longleftrightarrow> dropWhile js_space s = []"
    by (metis empty_iff empty_set hd_dropWhile hd_in_set)
  also have "\<dots> \<longleftrightarrow> (\<forall>c \<in> set s. js_space c)"
    by (simp add: dropWhile_eq_Nil_conv)
  finally show ?thesis .
qed

definition blank :: "string \<Rightarrow> bool" where
  "blank s = (\<forall>c \<in> set s. js_space c)"

text \<open>C21: exactly the incomplete transactions are blocked: a fund transaction has a critical error iff a required field
  is missing or blank, its type's price is missing, or it is dated 2025 or later without transaction id or
  source; no date, amount, unit, price or format check ever blocks it.\<close>

theorem fund_blocked_iff:
  "filter is_critical (validate_fund ck cfg t) \<noteq> [] \<longleftrightarrow>
     (\<exists>s \<in> set [pf_fundTransactionId t, pf_clientName t, pf_fundCode t, pf_accountNumber t, pf_goalNumber t]. blank s) \<or>
     pf_transactionDate t = None \<or> pf_amount t = None \<or> pf_units t = None \<or>
     pf_transactionType t = ''DEPOSIT'' \<and> pf_offerPrice t = None \<or>
     pf_transactionType t = ''WITHDRAWAL'' \<and> pf_bidPrice t = None \<or>
     (\<exists>d. pf_transactionDate t = Some d \<and> d \<ge> source_tracking_from \<and> (blank (pf_transactionId t) \<or> pf_source t = None))"
  unfolding validate_fund_def filter_append warning_groups blank_def is_empty_str_iff [symmetric]
  by (auto simp: validate_required_def validate_source_tracking_def validate_prices_def Let_def
      source_tracking_required_def split: option.splits)

section \<open>The batch as a whole\<close>

definition blocked :: "clock \<Rightarrow> validation_config \<Rightarrow> parsed_fund \<Rightarrow> bool" where
  "blocked ck cfg t = (filter is_critical (validate_fund ck cfg t) \<noteq> [])"

text \<open>The row of the first transaction with an id, as recorded.\<close>

definition first_row :: "parsed_fund list \<Rightarrow> string \<Rightarrow> nat option" where
  "first_row ts i = map_option pf_rowNumber (List.find (\<lambda>t. pf_fundTransactionId t = i) ts)"

definition duplicate_error :: "parsed_fund \<Rightarrow> validation_error" where
  "duplicate_error t = err (pf_rowNumber t) ''fundTransactionId'' ''DUPLICATE_FUND_TRANSACTION_ID'' WARNING"

lemma dup_not_critical [simp]: "filter is_critical (fst (duplicate_check seen t)) = []"
  by (simp add: duplicate_check_def err_def is_critical_def split: option.splits)

fun batch_errors :: "clock \<Rightarrow> validation_config \<Rightarrow> parsed_fund list \<Rightarrow> parsed_fund list \<Rightarrow> (parsed_fund \<times> validation_error list) list" where
  "batch_errors ck cfg earlier [] = []"
| "batch_errors ck cfg earlier (t # ts) =
     (t, validate_fund ck cfg t @
         (if pf_fundTransactionId t \<noteq> [] \<and> (\<exists>u \<in> set earlier. pf_fundTransactionId u = pf_fundTransactionId t)
          then [duplicate_error t] else []))
     # batch_errors ck cfg (earlier @ [t]) ts"

definition seen_inv :: "parsed_fund list \<Rightarrow> (string, nat) jsmap \<Rightarrow> bool" where
  "seen_inv earlier seen =
     (\<forall>i. map_get seen i = (if i \<noteq> [] then first_row earlier i else None))"

lemma first_row_snoc:
  "first_row (ts @ [t]) i = (case first_row ts i of Some r \<Rightarrow> Some r
     | None \<Rightarrow> if pf_fundTransactionId t = i then Some (pf_rowNumber t) else None)"
  by (induction ts) (auto simp: first_row_def)

lemma first_row_iff: "(\<exists>r. first_row ts i = Some r) \<longleftrightarrow> (\<exists>u \<in> set ts. pf_fundTransactionId u = i)"
  by (cases "List.find (\<lambda>t. pf_fundTransactionId t = i) ts")
    (auto simp: first_row_def find_None_iff dest: find_SomeD)

lemma first_row_pos:
  "\<forall>u \<in> set ts. pf_rowNumber u \<noteq> 0 \<Longrightarrow> first_row ts i = Some r \<Longrightarrow> r \<noteq> 0"
  by (auto simp: first_row_def dest!: find_SomeD)

lemma duplicate_check_spec:
  assumes "seen_inv earlier seen" "\<forall>u \<in> set earlier. pf_rowNumber u \<noteq> 0"
  shows "fst (duplicate_check seen t) =
      (if pf_fundTransactionId t \<noteq> [] \<and> (\<exists>u \<in> set earlier. pf_fundTransactionId u = pf_fundTransactionId t)
       then [duplicate_error t] else [])"
    and "seen_inv (earlier @ [t]) (snd (duplicate_check seen t))"
proof -
  let ?i = "pf_fundTransactionId t"
  have get: "map_get seen i = (if i \<noteq> [] then first_row earlier i else None)" for i
    using assms(1) by (simp add: seen_inv_def)
  show "fst (duplicate_check seen t) = (if ?i \<noteq> [] \<and> (\<exists>u \<in> set earlier. pf_fundTransactionId u = ?i) then [duplicate_error t] else [])"
    using first_row_iff [of earlier ?i] first_row_pos [OF assms(2), of ?i]
    by (auto simp: duplicate_check_def get duplicate_error_def split: option.splits)
  show "seen_inv (earlier @ [t]) (snd (duplicate_check seen t))"
    using first_row_pos [OF assms(2), of ?i]
    by (auto simp: seen_inv_def duplicate_check_def get first_row_snoc jsm.get_put split: option.splits)
qed

lemma batch_fold:
  assumes "seen_inv earlier (fb_seen st)" "\<forall>u \<in> set earlier \<union> set ts. pf_rowNumber u \<noteq> 0"
  shows "fb_valid (foldl (fund_batch_step ck cfg) st ts) = fb_valid st @ filter (\<lambda>t. \<not> blocked ck cfg t) ts \<and>
    fb_invalid (foldl (fund_batch_step ck cfg) st ts) = fb_invalid st @ filter (\<lambda>e. blocked ck cfg (fst e)) (batch_errors ck cfg earlier ts) \<and>
    fb_errors (foldl (fund_batch_step ck cfg) st ts) = fb_errors st @ concat (map snd (batch_errors ck cfg earlier ts))"
  using assms
proof (induction ts arbitrary: earlier st)
  case (Cons t ts)
  let ?st = "fund_batch_step ck cfg st t"
  have inv: "seen_inv earlier (fb_seen st)" "\<forall>u \<in> set earlier. pf_rowNumber u \<noteq> 0"
    "\<forall>u \<in> set (earlier @ [t]) \<union> set ts. pf_rowNumber u \<noteq> 0"
    using Cons.prems by auto
  note dup = duplicate_check_spec [OF inv(1,2), of t]
  have seen: "fb_seen ?st = snd (duplicate_check (fb_seen st) t)"
    by (simp add: fund_batch_step_def Let_def split_beta)
  have step: "fb_valid ?st = fb_valid st @ (if blocked ck cfg t then [] else [t])"
    "fb_invalid ?st = fb_invalid st @ (if blocked ck cfg t then [(t, validate_fund ck cfg t @ fst (duplicate_check (fb_seen st) t))] else [])"
    "fb_errors ?st = fb_errors st @ validate_fund ck cfg t @ fst (duplicate_check (fb_seen st) t)"
    by (simp_all add: fund_batch_step_def Let_def split_beta blocked_def)
  have next_inv: "seen_inv (earlier @ [t]) (fb_seen ?st)" using dup(2) seen by simp
  show ?case
    using Cons.IH [OF next_inv inv(3)] step dup(1) by simp
qed simp

text \<open>A batch is split without loss: with rows numbered from 1, the valid transactions are those without a critical error,
  in their order, the invalid ones are the others with their errors, every error of every transaction is
  reported, and a transaction is reported as a duplicate iff an earlier one of the batch has its non-empty id.\<close>

theorem fund_batch_correct:
  assumes "\<forall>t \<in> set ts. pf_rowNumber t \<noteq> 0"
  shows "fb_valid (validate_fund_batch ck cfg ts) = filter (\<lambda>t. \<not> blocked ck cfg t) ts \<and>
         fb_invalid (validate_fund_batch ck cfg ts) = filter (\<lambda>e. blocked ck cfg (fst e)) (batch_errors ck cfg [] ts) \<and>
         fb_errors (validate_fund_batch ck cfg ts) = concat (map snd (batch_errors ck cfg [] ts)) \<and>
         map fst (batch_errors ck cfg [] ts) = ts"
proof -
  have "map fst (batch_errors ck cfg earlier ts) = ts" for earlier
    by (induction ts arbitrary: earlier) simp_all
  moreover have "seen_inv [] []" by (simp add: seen_inv_def first_row_def jsm.get_empty)
  ultimately show ?thesis
    using batch_fold [of "[]" "\<lparr>fb_valid = [], fb_invalid = [], fb_errors = [], fb_seen = []\<rparr>" ts ck cfg] assms
    by (simp add: validate_fund_batch_def)
qed

definition ex_parsed :: "nat \<Rightarrow> string \<Rightarrow> money option \<Rightarrow> parsed_fund" where
  "ex_parsed row i amount = \<lparr>pf_fundTransactionId = i, pf_goalTransactionCode = ''C'', pf_transactionId = ''T'', pf_source = Some BANK,
     pf_transactionDate = Some 0, pf_clientName = ''N'', pf_fundCode = ''XUMMF'', pf_amount = amount, pf_units = Some 10,
     pf_transactionType = ''DEPOSIT'', pf_bidPrice = Some 1, pf_offerPrice = Some 1, pf_midPrice = Some 1,
     pf_dateCreated = Some 0, pf_goalTitle = ''G'', pf_goalNumber = ''701-123456789a'', pf_accountNumber = ''701-123456789'',
     pf_accountType = ''PERSONAL'', pf_accountCategory = ''GENERAL'', pf_sponsorCode = None, pf_rowNumber = row\<rparr>"

definition ex_clock :: clock where "ex_clock = \<lparr>ck_today = 10, ck_minDate = -10, ck_maxDate = 10\<rparr>"

definition ex_cfg :: validation_config where "ex_cfg = \<lparr>vc_amountMax = 1000000000, vc_unitTrustTolerance = 1 / 100\<rparr>"

theorem fund_blocked_iff_witness:
  "filter is_critical (validate_fund ex_clock ex_cfg (ex_parsed 1 ''x'' None)) \<noteq> []"
  using fund_blocked_iff [of ex_clock ex_cfg "ex_parsed 1 ''x'' None"] by (simp add: ex_parsed_def)

theorem fund_batch_correct_witness:
  "map ve_code (fb_errors (validate_fund_batch ex_clock ex_cfg [ex_parsed 1 ''x'' (Some 10), ex_parsed 2 ''x'' (Some 10)]))
     = [''DUPLICATE_FUND_TRANSACTION_ID'']"
proof -
  have ok: "validate_fund ex_clock ex_cfg (ex_parsed n ''x'' (Some 10)) = []" if "n = 1 \<or> n = 2" for n
    using that by (elim disjE) (hypsubst, code_simp)+
  have "\<forall>t \<in> set [ex_parsed 1 ''x'' (Some 10), ex_parsed 2 ''x'' (Some 10)]. pf_rowNumber t \<noteq> 0"
    by (simp add: ex_parsed_def)
  then show ?thesis
    using fund_batch_correct [of "[ex_parsed 1 ''x'' (Some 10), ex_parsed 2 ''x'' (Some 10)]" ex_clock ex_cfg]
    by (simp add: ok) (simp add: ex_parsed_def duplicate_error_def err_def)
qed

end
