(* ===== verification/BankValidator.thy ===== *)
theory BankValidator
  imports FundValidator
begin

text \<open>
  \<open>BankTransactionValidator\<close>: the checks of a parsed bank row, the batch loop with its lookup of accounts and
  goals, and the statistics. Case folding is that of ASCII strings. The end of today and the
  instant ten years ago are the record \<open>bank_clock\<close>; a missing number is \<open>None\<close>.
\<close>

section \<open>Data\<close>

record parsed_bank =
  pb_rowNumber :: nat
  pb_firstName :: string
  pb_lastName :: string
  pb_accountNumber :: string
  pb_goalTitle :: string
  pb_goalNumber :: string
  pb_transactionDate :: "instant option"
  pb_transactionType :: string
  pb_transactionId :: string
  pb_totalAmount :: "money option"
  pb_xummfPercentage :: "rat option"
  pb_xubfPercentage :: "rat option"
  pb_xudefPercentage :: "rat option"
  pb_xurefPercentage :: "rat option"
  pb_xummfAmount :: "money option"
  pb_xubfAmount :: "money option"
  pb_xudefAmount :: "money option"
  pb_xurefAmount :: "money option"

record bank_clock =
  bk_endOfToday :: instant
  bk_tenYearsAgo :: instant

text \<open>\<open>x || 0\<close> on a nullable number.\<close>

definition num_or_zero :: "rat option \<Rightarrow> rat" where
  "num_or_zero x = (case x of None \<Rightarrow> 0 | Some v \<Rightarrow> v)"

section \<open>One row\<close>

definition bank_required :: "parsed_bank \<Rightarrow> validation_error list" where
  "bank_required t =
     (let e = (\<lambda>c field. err_if c (pb_rowNumber t) field ''REQUIRED_FIELD'' CRITICAL)
      in e (pb_transactionDate t = None) ''transactionDate''
       @ e (pb_firstName t = [] \<and> pb_lastName t = []) ''firstName/lastName''
       @ e (pb_accountNumber t = []) ''accountNumber''
       @ e (pb_goalNumber t = []) ''goalNumber''
       @ e (pb_transactionId t = []) ''transactionId'')"

definition bank_type_check :: "parsed_bank \<Rightarrow> validation_error list" where
  "bank_type_check t =
     (if pb_transactionType t = []
      then [err (pb_rowNumber t) ''transactionType'' ''REQUIRED_FIELD'' CRITICAL]
      else err_if (to_upper (pb_transactionType t) \<notin> set allowed_types) (pb_rowNumber t) ''transactionType'' ''INVALID_VALUE'' CRITICAL)"

definition bank_amount_check :: "parsed_bank \<Rightarrow> validation_error list" where
  "bank_amount_check t =
     (case pb_totalAmount t of
        None \<Rightarrow> [err (pb_rowNumber t) ''totalAmount'' ''REQUIRED_FIELD'' CRITICAL]
      | Some a \<Rightarrow> err_if (a = 0) (pb_rowNumber t) ''totalAmount'' ''INVALID_VALUE'' CRITICAL)"

definition bank_date_check :: "bank_clock \<Rightarrow> parsed_bank \<Rightarrow> validation_error list" where
  "bank_date_check ck t =
     (case pb_transactionDate t of None \<Rightarrow> []
      | Some d \<Rightarrow>
          err_if (d > bk_endOfToday ck) (pb_rowNumber t) ''transactionDate'' ''FUTURE_DATE'' CRITICAL
          @ err_if (d < bk_tenYearsAgo ck) (pb_rowNumber t) ''transactionDate'' ''DATE_TOO_OLD'' WARNING)"

definition total_percentage :: "parsed_bank \<Rightarrow> rat" where
  "total_percentage t = num_or_zero (pb_xummfPercentage t) + num_or_zero (pb_xubfPercentage t)
     + num_or_zero (pb_xudefPercentage t) + num_or_zero (pb_xurefPercentage t)"

definition bank_percentage_check :: "parsed_bank \<Rightarrow> validation_error list" where
  "bank_percentage_check t =
     (let p = total_percentage t
      in err_if (p > 0 \<and> p \<le> 400 \<and> \<bar>p - 100\<bar> > 5) (pb_rowNumber t) ''fundPercentages'' ''PERCENTAGE_SUM_MISMATCH'' WARNING)"

definition total_fund_amount :: "parsed_bank \<Rightarrow> money" where
  "total_fund_amount t = \<bar>num_or_zero (pb_xummfAmount t)\<bar> + \<bar>num_or_zero (pb_xubfAmount t)\<bar>
     + \<bar>num_or_zero (pb_xudefAmount t)\<bar> + \<bar>num_or_zero (pb_xurefAmount t)\<bar>"

definition bank_fund_sum_check :: "parsed_bank \<Rightarrow> validation_error list" where
  "bank_fund_sum_check t =
     (let s = total_fund_amount t
      in case pb_totalAmount t of None \<Rightarrow> []
         | Some a \<Rightarrow> err_if (s > 0 \<and> a \<noteq> 0 \<and> \<bar>s - \<bar>a\<bar>\<bar> > \<bar>a\<bar> * (2 / 100))
             (pb_rowNumber t) ''fundAmounts'' ''AMOUNT_SUM_MISMATCH'' WARNING)"

definition validate_bank :: "bank_clock \<Rightarrow> parsed_bank \<Rightarrow> validation_error list" where
  "validate_bank ck t =
     bank_required t @ bank_type_check t @ bank_amount_check t @ bank_date_check ck t
     @ bank_percentage_check t @ bank_fund_sum_check t"

section \<open>The batch\<close>

record bank_batch_result =
  bb_valid :: "parsed_bank list"
  bb_invalid :: "(parsed_bank \<times> validation_error list) list"
  bb_errors :: "validation_error list"
  bb_warnings :: "(parsed_bank \<times> validation_error list) list"

text \<open>\<open>[...new Set(xs.filter(Boolean))]\<close>.\<close>

definition unique_numbers :: "string list \<Rightarrow> string list" where
  "unique_numbers xs = js_unique (filter (\<lambda>s. s \<noteq> []) xs)"

text \<open>The rows \<open>findMany\<close> with \<open>in\<close> returns, and the map from the lower-case number to the stored one.\<close>

definition lookup_of :: "string list \<Rightarrow> string list \<Rightarrow> (string, string) jsmap" where
  "lookup_of wanted stored =
     foldl (\<lambda>m a. map_set m (to_lower a) a) [] (filter (\<lambda>a. a \<in> set wanted) stored)"

definition check_entity :: "(string, string) jsmap \<Rightarrow> nat \<Rightarrow> string \<Rightarrow> string \<Rightarrow> string \<Rightarrow> validation_error list \<times> string" where
  "check_entity lookup row field code number =
     (if number = [] then ([], number)
      else case map_get lookup (to_lower number) of
        None \<Rightarrow> ([err row field code CRITICAL], number)
      | Some stored \<Rightarrow> if stored = [] then ([err row field code CRITICAL], number) else ([], stored))"

definition bank_row_result :: "bank_clock \<Rightarrow> (string, string) jsmap \<Rightarrow> (string, string) jsmap \<Rightarrow> parsed_bank \<Rightarrow>
    parsed_bank \<times> validation_error list" where
  "bank_row_result ck accounts goals t =
     (let (ea, a) = check_entity accounts (pb_rowNumber t) ''accountNumber'' ''ACCOUNT_NOT_FOUND'' (pb_accountNumber t);
          (eg, g) = check_entity goals (pb_rowNumber t) ''goalNumber'' ''GOAL_NOT_FOUND'' (pb_goalNumber t)
      in (t\<lparr>pb_accountNumber := a, pb_goalNumber := g\<rparr>, validate_bank ck t @ ea @ eg))"

definition is_warning :: "validation_error \<Rightarrow> bool" where
  "is_warning e = (ve_severity e = WARNING \<or> ve_severity e = INFO)"

definition bank_batch_step :: "bank_clock \<Rightarrow> (string, string) jsmap \<Rightarrow> (string, string) jsmap \<Rightarrow>
    bank_batch_result \<Rightarrow> parsed_bank \<Rightarrow> bank_batch_result" where
  "bank_batch_step ck accounts goals r t =
     (let (t', errors) = bank_row_result ck accounts goals t;
          crit = filter is_critical errors;
          warnings = filter is_warning errors;
          r1 = r\<lparr>bb_errors := bb_errors r @ errors\<rparr>
      in if crit \<noteq> [] then r1\<lparr>bb_invalid := bb_invalid r @ [(t', crit)]\<rparr>
         else let r2 = r1\<lparr>bb_valid := bb_valid r @ [t']\<rparr>
              in if warnings \<noteq> [] then r2\<lparr>bb_warnings := bb_warnings r @ [(t', warnings)]\<rparr> else r2)"

definition validate_bank_batch :: "bank_clock \<Rightarrow> string list \<Rightarrow> string list \<Rightarrow> parsed_bank list \<Rightarrow> bank_batch_result" where
  "validate_bank_batch ck accounts goals ts =
     (let la = lookup_of (unique_numbers (map pb_accountNumber ts)) accounts;
          lg = lookup_of (unique_numbers (map pb_goalNumber ts)) goals
      in foldl (bank_batch_step ck la lg) \<lparr>bb_valid = [], bb_invalid = [], bb_errors = [], bb_warnings = []\<rparr> ts)"

section \<open>Statistics\<close>

record validation_stats =
  vs_totalErrors :: nat
  vs_criticalCount :: nat
  vs_warningCount :: nat
  vs_byErrorCode :: "(string, nat) jsmap"

definition stats_step :: "validation_stats \<Rightarrow> validation_error \<Rightarrow> validation_stats" where
  "stats_step st e =
     (let st1 = (if ve_severity e = CRITICAL then st\<lparr>vs_criticalCount := vs_criticalCount st + 1\<rparr>
                 else if ve_severity e = WARNING then st\<lparr>vs_warningCount := vs_warningCount st + 1\<rparr> else st)
      in st1\<lparr>vs_byErrorCode := map_set (vs_byErrorCode st) (ve_code e)
               ((case map_get (vs_byErrorCode st) (ve_code e) of None \<Rightarrow> 0 | Some n \<Rightarrow> n) + 1)\<rparr>)"

definition validation_statistics :: "validation_error list \<Rightarrow> validation_stats" where
  "validation_statistics errors =
     foldl stats_step \<lparr>vs_totalErrors = length errors, vs_criticalCount = 0, vs_warningCount = 0, vs_byErrorCode = []\<rparr> errors"

section \<open>The lookup\<close>

lemma set_unique_numbers [simp]: "set (unique_numbers xs) = {x \<in> set xs. x \<noteq> []}"
  by (auto simp: unique_numbers_def)

lemma lookup_fold:
  "map_get (foldl (\<lambda>m a. map_set m (to_lower a) a) m xs) k = Some v \<Longrightarrow>
     map_get m k = Some v \<or> v \<in> set xs \<and> to_lower v = k"
proof (induction xs arbitrary: m)
  case (Cons a xs)
  from Cons.IH [of "map_set m (to_lower a) a"] Cons.prems show ?case
    by (auto simp: jsm.get_put split: if_splits)
qed simp

lemma lookup_fold_dom:
  "map_get (foldl (\<lambda>m a. map_set m (to_lower a) a) m xs) k = None \<longleftrightarrow>
     map_get m k = None \<and> k \<notin> to_lower ` set xs"
  by (induction xs arbitrary: m) (auto simp: jsm.get_put split: if_splits)

lemma lookup_of_Some:
  "map_get (lookup_of wanted stored) k = Some v \<Longrightarrow> v \<in> set wanted \<and> v \<in> set stored \<and> to_lower v = k"
  using lookup_fold [of "[]" "filter (\<lambda>a. a \<in> set wanted) stored" k v] by (auto simp: lookup_of_def jsm.get_empty)

lemma lookup_of_None:
  "map_get (lookup_of wanted stored) k = None \<longleftrightarrow> k \<notin> to_lower ` (set wanted \<inter> set stored)"
  unfolding lookup_of_def lookup_fold_dom by (auto simp: jsm.get_empty)

section \<open>Which rows are accepted\<close>

text \<open>The fields of an acceptable row, and when a number of the batch is found: some stored number that the batch
  itself spells exactly agrees with it up to case.\<close>

definition fields_ok :: "bank_clock \<Rightarrow> parsed_bank \<Rightarrow> bool" where
  "fields_ok ck t =
     ((\<exists>d. pb_transactionDate t = Some d \<and> d \<le> bk_endOfToday ck) \<and> (pb_firstName t \<noteq> [] \<or> pb_lastName t \<noteq> []) \<and>
      pb_accountNumber t \<noteq> [] \<and> pb_goalNumber t \<noteq> [] \<and> pb_transactionId t \<noteq> [] \<and>
      to_upper (pb_transactionType t) \<in> set allowed_types \<and> (\<exists>a. pb_totalAmount t = Some a \<and> a \<noteq> 0))"

definition known :: "string list \<Rightarrow> string list \<Rightarrow> string \<Rightarrow> bool" where
  "known stored batch n = (\<exists>s \<in> set stored \<inter> set batch. s \<noteq> [] \<and> to_lower s = to_lower n)"

definition acceptable :: "bank_clock \<Rightarrow> string list \<Rightarrow> string list \<Rightarrow> parsed_bank list \<Rightarrow> parsed_bank \<Rightarrow> bool" where
  "acceptable ck accounts goals ts t =
     (fields_ok ck t \<and> known accounts (map pb_accountNumber ts) (pb_accountNumber t) \<and>
      known goals (map pb_goalNumber ts) (pb_goalNumber t))"

lemma not_blocking_iff: "filter is_critical (validate_bank ck t) = [] \<longleftrightarrow> fields_ok ck t"
proof -
  have "to_upper [] \<notin> set allowed_types" by (simp add: to_upper_def allowed_types_def)
  then show ?thesis
    by (auto simp: validate_bank_def bank_required_def bank_type_check_def bank_amount_check_def bank_date_check_def
        bank_percentage_check_def bank_fund_sum_check_def Let_def fields_ok_def is_critical_def err_def
        split: option.splits)
qed

lemma lookup_known:
  "map_get (lookup_of (unique_numbers batch) stored) (to_lower n) = None \<longleftrightarrow> \<not> known stored batch n"
  unfolding lookup_of_None known_def by (auto intro: sym)

lemma check_entity_cases:
  assumes "check_entity (lookup_of (unique_numbers batch) stored) row field code n = (es, n')" "n \<noteq> []"
  shows "filter is_critical es = [] \<longleftrightarrow> known stored batch n"
    and "known stored batch n \<Longrightarrow> n' \<in> set stored \<and> to_lower n' = to_lower n"
    and "\<not> known stored batch n \<Longrightarrow> n' = n"
  using assms lookup_known [of batch stored n] lookup_of_Some [of "unique_numbers batch" stored "to_lower n"]
  by (auto simp: check_entity_def err_def is_critical_def split: option.splits if_splits)

text \<open>The loop, as a map over the rows.\<close>

lemma bank_fold:
  fixes ck :: bank_clock and accounts goals :: "(string, string) jsmap"
  defines "f \<equiv> bank_row_result ck accounts goals"
  shows "bb_valid (foldl (bank_batch_step ck accounts goals) r ts) =
      bb_valid r @ map fst (filter (\<lambda>x. filter is_critical (snd x) = []) (map f ts)) \<and>
    bb_invalid (foldl (bank_batch_step ck accounts goals) r ts) =
      bb_invalid r @ map (\<lambda>x. (fst x, filter is_critical (snd x))) (filter (\<lambda>x. filter is_critical (snd x) \<noteq> []) (map f ts)) \<and>
    bb_errors (foldl (bank_batch_step ck accounts goals) r ts) = bb_errors r @ concat (map (snd \<circ> f) ts)"
  unfolding f_def
  by (induction ts arbitrary: r) (simp_all add: bank_batch_step_def Let_def split_beta)

text \<open>What the loop does with one row of the batch \<open>ts\<close>.\<close>

definition bank_row_of :: "bank_clock \<Rightarrow> string list \<Rightarrow> string list \<Rightarrow> parsed_bank list \<Rightarrow> parsed_bank \<Rightarrow>
    parsed_bank \<times> validation_error list" where
  "bank_row_of ck accounts goals ts =
     bank_row_result ck (lookup_of (unique_numbers (map pb_accountNumber ts)) accounts)
       (lookup_of (unique_numbers (map pb_goalNumber ts)) goals)"

definition normalized :: "string list \<Rightarrow> string list \<Rightarrow> parsed_bank \<Rightarrow> parsed_bank \<Rightarrow> bool" where
  "normalized accounts goals t t' =
     (\<exists>a g. t' = t\<lparr>pb_accountNumber := a, pb_goalNumber := g\<rparr> \<and> a \<in> set accounts \<and> g \<in> set goals \<and>
            to_lower a = to_lower (pb_accountNumber t) \<and> to_lower g = to_lower (pb_goalNumber t))"

lemma bank_row_of_cases:
  shows "filter is_critical (snd (bank_row_of ck accounts goals ts t)) = [] \<longleftrightarrow> acceptable ck accounts goals ts t"
    and "acceptable ck accounts goals ts t \<Longrightarrow> normalized accounts goals t (fst (bank_row_of ck accounts goals ts t))"
    and "pb_rowNumber (fst (bank_row_of ck accounts goals ts t)) = pb_rowNumber t"
proof -
  obtain ea a where a: "check_entity (lookup_of (unique_numbers (map pb_accountNumber ts)) accounts)
      (pb_rowNumber t) ''accountNumber'' ''ACCOUNT_NOT_FOUND'' (pb_accountNumber t) = (ea, a)" by fastforce
  obtain eg g where g: "check_entity (lookup_of (unique_numbers (map pb_goalNumber ts)) goals)
      (pb_rowNumber t) ''goalNumber'' ''GOAL_NOT_FOUND'' (pb_goalNumber t) = (eg, g)" by fastforce
  have row: "bank_row_of ck accounts goals ts t = (t\<lparr>pb_accountNumber := a, pb_goalNumber := g\<rparr>, validate_bank ck t @ ea @ eg)"
    by (simp add: bank_row_of_def bank_row_result_def a g)
  note numbers = check_entity_cases [OF a] check_entity_cases [OF g]
  show "filter is_critical (snd (bank_row_of ck accounts goals ts t)) = [] \<longleftrightarrow> acceptable ck accounts goals ts t"
  proof (cases "fields_ok ck t")
    case True
    then have "pb_accountNumber t \<noteq> []" "pb_goalNumber t \<noteq> []" by (simp_all add: fields_ok_def)
    with True numbers(1,4) show ?thesis by (simp add: row acceptable_def not_blocking_iff [symmetric])
  qed (simp add: row acceptable_def not_blocking_iff [symmetric])
  show "normalized accounts goals t (fst (bank_row_of ck accounts goals ts t))" if "acceptable ck accounts goals ts t"
  proof -
    have "pb_accountNumber t \<noteq> []" "pb_goalNumber t \<noteq> []" using that by (simp_all add: acceptable_def fields_ok_def)
    with that numbers(2,5) show ?thesis by (auto simp: row acceptable_def normalized_def)
  qed
  show "pb_rowNumber (fst (bank_row_of ck accounts goals ts t)) = pb_rowNumber t" by (simp add: row)
qed

lemma validate_bank_batch_parts:
  "bb_valid (validate_bank_batch ck accounts goals ts) =
     map (\<lambda>t. fst (bank_row_of ck accounts goals ts t)) (filter (acceptable ck accounts goals ts) ts)"
  "bb_invalid (validate_bank_batch ck accounts goals ts) =
     map (\<lambda>t. (fst (bank_row_of ck accounts goals ts t), filter is_critical (snd (bank_row_of ck accounts goals ts t))))
       (filter (\<lambda>t. \<not> acceptable ck accounts goals ts t) ts)"
  "bb_errors (validate_bank_batch ck accounts goals ts) = concat (map (\<lambda>t. snd (bank_row_of ck accounts goals ts t)) ts)"
proof -
  have loop: "validate_bank_batch ck accounts goals ts =
      foldl (bank_batch_step ck (lookup_of (unique_numbers (map pb_accountNumber ts)) accounts)
        (lookup_of (unique_numbers (map pb_goalNumber ts)) goals))
      \<lparr>bb_valid = [], bb_invalid = [], bb_errors = [], bb_warnings = []\<rparr> ts"
    by (simp add: validate_bank_batch_def Let_def)
  note parts = bank_fold [of ck "lookup_of (unique_numbers (map pb_accountNumber ts)) accounts"
      "lookup_of (unique_numbers (map pb_goalNumber ts)) goals" "\<lparr>bb_valid = [], bb_invalid = [], bb_errors = [], bb_warnings = []\<rparr>" ts,
      folded bank_row_of_def]
  show "bb_valid (validate_bank_batch ck accounts goals ts) =
     map (\<lambda>t. fst (bank_row_of ck accounts goals ts t)) (filter (acceptable ck accounts goals ts) ts)"
    "bb_invalid (validate_bank_batch ck accounts goals ts) =
     map (\<lambda>t. (fst (bank_row_of ck accounts goals ts t), filter is_critical (snd (bank_row_of ck accounts goals ts t))))
       (filter (\<lambda>t. \<not> acceptable ck accounts goals ts t) ts)"
    "bb_errors (validate_bank_batch ck accounts goals ts) = concat (map (\<lambda>t. snd (bank_row_of ck accounts goals ts t)) ts)"
    using parts by (simp_all add: loop filter_map comp_def bank_row_of_cases(1))
qed

text \<open>C22: a bank upload accepts exactly the rows whose fields are complete and whose account and goal are found; an
  accepted row carries account and goal numbers of the database that agree with the file's up to case,
  and every other row is reported, in order, with at least one critical error and nothing else.\<close>

theorem bank_batch_correct:
  "list_all2 (normalized accounts goals) (filter (acceptable ck accounts goals ts) ts)
     (bb_valid (validate_bank_batch ck accounts goals ts)) \<and>
   list_all2 (\<lambda>t e. pb_rowNumber (fst e) = pb_rowNumber t \<and> snd e \<noteq> [] \<and> list_all is_critical (snd e))
     (filter (\<lambda>t. \<not> acceptable ck accounts goals ts t) ts) (bb_invalid (validate_bank_batch ck accounts goals ts)) \<and>
   (bb_invalid (validate_bank_batch ck accounts goals ts) = [] \<longleftrightarrow>
      filter is_critical (bb_errors (validate_bank_batch ck accounts goals ts)) = [])"
proof (intro conjI)
  show "list_all2 (normalized accounts goals) (filter (acceptable ck accounts goals ts) ts)
     (bb_valid (validate_bank_batch ck accounts goals ts))"
    by (auto simp: validate_bank_batch_parts list_all2_conv_all_nth bank_row_of_cases(2) dest!: nth_mem)
  show "list_all2 (\<lambda>t e. pb_rowNumber (fst e) = pb_rowNumber t \<and> snd e \<noteq> [] \<and> list_all is_critical (snd e))
     (filter (\<lambda>t. \<not> acceptable ck accounts goals ts t) ts) (bb_invalid (validate_bank_batch ck accounts goals ts))"
    by (auto simp: validate_bank_batch_parts list_all2_conv_all_nth bank_row_of_cases(1,3) list_all_iff dest!: nth_mem)
  show "bb_invalid (validate_bank_batch ck accounts goals ts) = [] \<longleftrightarrow>
      filter is_critical (bb_errors (validate_bank_batch ck accounts goals ts)) = []"
    by (simp add: validate_bank_batch_parts filter_concat filter_empty_conv bank_row_of_cases(1) [symmetric])
qed

text \<open>The lookup that is meant to ignore case does not: the query fetches accounts and goals by the exact numbers
  of the file, so a file of one row is accepted only if it spells both numbers as the database does.\<close>

theorem single_row_needs_exact_numbers:
  assumes "bb_valid (validate_bank_batch ck accounts goals [t]) \<noteq> []"
  shows "pb_accountNumber t \<in> set accounts \<and> pb_goalNumber t \<in> set goals"
  using assms by (auto simp: validate_bank_batch_parts acceptable_def known_def split: if_splits)

section \<open>The statistics\<close>

lemma stats_fold:
  "vs_criticalCount (foldl stats_step st es) = vs_criticalCount st + length (filter is_critical es) \<and>
   vs_warningCount (foldl stats_step st es) = vs_warningCount st + length (filter (\<lambda>e. ve_severity e = WARNING) es) \<and>
   vs_totalErrors (foldl stats_step st es) = vs_totalErrors st \<and>
   (case map_get (vs_byErrorCode (foldl stats_step st es)) code of None \<Rightarrow> 0 | Some n \<Rightarrow> n) =
     (case map_get (vs_byErrorCode st) code of None \<Rightarrow> 0 | Some n \<Rightarrow> n) + length (filter (\<lambda>e. ve_code e = code) es)"
  by (induction es arbitrary: st) (auto simp: stats_step_def Let_def is_critical_def jsm.get_put)

definition ex_bank_row :: "string \<Rightarrow> parsed_bank" where
  "ex_bank_row acct = \<lparr>pb_rowNumber = 2, pb_firstName = ''Ann'', pb_lastName = [], pb_accountNumber = acct,
     pb_goalTitle = [], pb_goalNumber = ''701-1a'', pb_transactionDate = Some 5, pb_transactionType = ''deposit'',
     pb_transactionId = ''T1'', pb_totalAmount = Some 100, pb_xummfPercentage = None, pb_xubfPercentage = None,
     pb_xudefPercentage = None, pb_xurefPercentage = None, pb_xummfAmount = Some 99, pb_xubfAmount = None,
     pb_xudefAmount = None, pb_xurefAmount = None\<rparr>"

definition ex_bank_clock :: bank_clock where
  "ex_bank_clock = \<lparr>bk_endOfToday = 10, bk_tenYearsAgo = 0\<rparr>"

theorem single_row_needs_exact_numbers_witness:
  "''701-1a'' \<in> set [''701-1a'', ''702''] \<and>
   bb_valid (validate_bank_batch ex_bank_clock [''701-A''] [''701-1a''] [ex_bank_row ''701-a'']) = []"
proof -
  have "bb_valid (validate_bank_batch ex_bank_clock [''701-a''] [''701-1a'', ''702''] [ex_bank_row ''701-a'']) \<noteq> []"
    by code_simp
  from single_row_needs_exact_numbers [OF this] show ?thesis by (simp add: ex_bank_row_def) code_simp
qed

end
