(* ===== verification/FundGroups.thy ===== *)
theory FundGroups
  imports FundValidator
begin

text \<open>
  \<open>GoalTransactionValidator\<close>: the fund transactions of one goal transaction code are checked against each other,
  the distribution over the funds against the goal's percentages, and the groups are counted. The rows come
  from \<open>validateBatch\<close>, which only passes rows with a date, an amount and units.
\<close>

section \<open>One group\<close>

text \<open>\<open>new Set(transactions.map(f)).size\<close>.\<close>

definition distinct_count :: "('a \<Rightarrow> 'b) \<Rightarrow> 'a list \<Rightarrow> nat" where
  "distinct_count f ts = length (remdups (map f ts))"

definition expected_funds :: "string list" where
  "expected_funds = [''XUMMF'', ''XUBF'', ''XUDEF'', ''XUREF'']"

definition amount_of :: "parsed_fund \<Rightarrow> money" where
  "amount_of t = (case pf_amount t of None \<Rightarrow> 0 | Some a \<Rightarrow> a)"

definition units_of :: "parsed_fund \<Rightarrow> rat" where
  "units_of t = (case pf_units t of None \<Rightarrow> 0 | Some u \<Rightarrow> u)"

definition transaction_day :: "parsed_fund \<Rightarrow> int option" where
  "transaction_day t = map_option iso_day (pf_transactionDate t)"

definition validate_group :: "parsed_fund list \<Rightarrow> validation_error list" where
  "validate_group ts =
     (let e = (\<lambda>c code sev. err_if c (pf_rowNumber (hd ts)) [] code sev)
      in e (distinct_count pf_clientName ts > 1) ''GOAL_TRANSACTION_SAME_CLIENT'' CRITICAL
       @ e (distinct_count transaction_day ts > 1) ''GOAL_TRANSACTION_SAME_DATE'' CRITICAL
       @ e (distinct_count pf_accountNumber ts > 1) ''GOAL_TRANSACTION_SAME_ACCOUNT'' CRITICAL
       @ e (distinct_count pf_goalNumber ts > 1) ''GOAL_TRANSACTION_SAME_GOAL'' CRITICAL
       @ e (distinct_count pf_transactionId ts > 1) ''GOAL_TRANSACTION_SAME_TRANSACTION_ID'' CRITICAL
       @ e (distinct_count pf_source ts > 1) ''GOAL_TRANSACTION_SAME_SOURCE'' CRITICAL
       @ e (length ts \<noteq> 4) ''GOAL_TRANSACTION_COMPLETE_FUND_SET'' WARNING
       @ e (filter (\<lambda>f. f \<notin> set (map pf_fundCode ts)) expected_funds \<noteq> []) ''MISSING_EXPECTED_FUNDS'' WARNING
       @ e (filter (\<lambda>t. pf_amount t = Some 0) ts \<noteq> []) ''GOAL_TRANSACTION_ZERO_AMOUNTS'' WARNING)"

definition validate_groups :: "parsed_fund list \<Rightarrow> validation_error list" where
  "validate_groups ts =
     concat (map (\<lambda>(code, group). validate_group group) (group_by_code pf_goalTransactionCode ts))"

section \<open>Distribution over the funds\<close>

definition distribution_check :: "rat \<Rightarrow> money \<Rightarrow> (string, rat) jsmap \<Rightarrow> parsed_fund \<Rightarrow> validation_error list" where
  "distribution_check tolerance totalAmount shares t =
     (let expectedPercentage = (case map_get shares (pf_fundCode t) of None \<Rightarrow> 0 | Some p \<Rightarrow> p)
      in if expectedPercentage = 0
         then [err (pf_rowNumber t) ''fundCode'' ''FUND_NOT_IN_DISTRIBUTION'' WARNING]
         else err_if (\<bar>totalAmount * expectedPercentage / 100 - amount_of t\<bar> > totalAmount * tolerance)
                (pf_rowNumber t) ''amount'' ''FUND_DISTRIBUTION_MATCHES_GOAL'' WARNING)"

definition total_amount :: "parsed_fund list \<Rightarrow> money" where
  "total_amount ts = foldl (\<lambda>s t. s + amount_of t) 0 ts"

definition validate_distribution :: "rat \<Rightarrow> parsed_fund list \<Rightarrow> (string, rat) jsmap \<Rightarrow> validation_error list" where
  "validate_distribution tolerance ts shares =
     (if total_amount ts = 0 then []
      else concat (map (distribution_check tolerance (total_amount ts) shares) ts))"

section \<open>Groups and their statistics\<close>

record goal_group =
  gg_code :: string
  gg_transactions :: "parsed_fund list"
  gg_date :: "instant option"
  gg_clientName :: string
  gg_accountNumber :: string
  gg_goalNumber :: string
  gg_goalTitle :: string
  gg_totalAmount :: money
  gg_fundCount :: nat

definition goal_groups :: "parsed_fund list \<Rightarrow> goal_group list" where
  "goal_groups ts =
     map (\<lambda>(code, g). \<lparr>gg_code = code, gg_transactions = g, gg_date = pf_transactionDate (hd g),
        gg_clientName = pf_clientName (hd g), gg_accountNumber = pf_accountNumber (hd g),
        gg_goalNumber = pf_goalNumber (hd g), gg_goalTitle = pf_goalTitle (hd g),
        gg_totalAmount = total_amount g, gg_fundCount = length g\<rparr>)
       (group_by_code pf_goalTransactionCode ts)"

record group_stats =
  gs_totalGroups :: nat
  gs_completeGroups :: nat
  gs_incompleteGroups :: nat
  gs_averageFunds :: rat

definition group_statistics :: "parsed_fund list \<Rightarrow> group_stats" where
  "group_statistics ts =
     (let groups = group_by_code pf_goalTransactionCode ts;
          (c, i, f) = foldl (\<lambda>(c, i, f) (code, g).
             if length g = 4 then (c + 1, i, f + length g) else (c, i + 1, f + length g)) (0, 0, 0) groups
      in \<lparr>gs_totalGroups = length groups, gs_completeGroups = c, gs_incompleteGroups = i,
          gs_averageFunds = (if length groups > 0 then of_nat f / of_nat (length groups) else 0)\<rparr>)"

section \<open>When the groups are consistent\<close>

lemma distinct_count_le1: "\<not> distinct_count f ts > 1 \<longleftrightarrow> (\<forall>t \<in> set ts. \<forall>u \<in> set ts. f t = f u)"
proof -
  have "distinct_count f ts = card (f ` set ts)"
    by (simp add: distinct_count_def length_remdups_card_conv)
  then have "\<not> distinct_count f ts > 1 \<longleftrightarrow> card (f ` set ts) \<le> 1" by (simp add: not_less)
  also have "\<dots> \<longleftrightarrow> (\<forall>x \<in> f ` set ts. \<forall>y \<in> f ` set ts. x = y)"
    using card_le_Suc0_iff_eq [of "f ` set ts"] by simp
  finally show ?thesis by auto
qed

definition same_transaction :: "parsed_fund \<Rightarrow> parsed_fund \<Rightarrow> bool" where
  "same_transaction t u =
     (pf_clientName t = pf_clientName u \<and> transaction_day t = transaction_day u \<and>
      pf_accountNumber t = pf_accountNumber u \<and> pf_goalNumber t = pf_goalNumber u \<and>
      pf_transactionId t = pf_transactionId u \<and> pf_source t = pf_source u)"

lemma group_critical_iff:
  "filter is_critical (validate_group ts) = [] \<longleftrightarrow> (\<forall>t \<in> set ts. \<forall>u \<in> set ts. same_transaction t u)"
  unfolding validate_group_def Let_def filter_append err_if_critical append_is_Nil_conv err_if_empty distinct_count_le1
    same_transaction_def ball_conj_distrib conj_assoc by simp

lemma fold_groups:
  "foldl (\<lambda>(c, i, f) (code, g). if length g = 4 then (c + 1, i, f + length g) else (c, i + 1, f + length g)) (c, i, f) gs =
   (c + length (filter (\<lambda>e. length (snd e) = 4) gs), i + length (filter (\<lambda>e. length (snd e) \<noteq> 4) gs),
    f + length (concat (map snd gs)))"
  by (induction gs arbitrary: c i f) auto

lemma length_groups: "length (concat (map snd (group_by_code f ts))) = length ts"
  unfolding group_by_code_def using mset_concat_group_by [of f ts] by (metis size_mset)

text \<open>A withdrawal has a negative total, hence a negative allowance: no distribution is ever accepted for it.\<close>

lemma negative_total_never_matches:
  assumes "total_amount ts < 0" "tolerance > 0" "t \<in> set ts"
  shows "distribution_check tolerance (total_amount ts) shares t \<noteq> []"
proof -
  have "total_amount ts * tolerance < 0" using assms(1,2) by (rule mult_neg_pos)
  then show ?thesis by (auto simp: distribution_check_def Let_def intro: less_le_trans)
qed

definition codes_consistent :: "parsed_fund list \<Rightarrow> bool" where
  "codes_consistent ts =
     (\<forall>t \<in> set ts. \<forall>u \<in> set ts. pf_goalTransactionCode t = pf_goalTransactionCode u \<longrightarrow> same_transaction t u)"

lemma groups_critical_iff: "filter is_critical (validate_groups ts) = [] \<longleftrightarrow> codes_consistent ts"
proof -
  let ?g = "group_by pf_goalTransactionCode ts"
  have "filter is_critical (validate_groups ts) = [] \<longleftrightarrow> (\<forall>e \<in> set ?g. filter is_critical (validate_group (snd e)) = [])"
    by (simp add: validate_groups_def group_by_code_def filter_concat split_beta)
  also have "\<dots> \<longleftrightarrow> (\<forall>k \<in> fst ` set ?g. filter is_critical (validate_group (filter (\<lambda>t. pf_goalTransactionCode t = k) ts)) = [])"
    using entry_group_by [of _ _ pf_goalTransactionCode ts] by (smt (verit, best) image_iff prod.collapse)
  also have "\<dots> \<longleftrightarrow> codes_consistent ts"
    by (auto simp: group_critical_iff codes_consistent_def)
  finally show ?thesis .
qed

text \<open>C23: the groups of an upload pass without a critical error exactly if any two rows with the same code agree on
  client, day, account, goal, transaction id and source; the reported groups partition the rows, their
  totals add up to the total of the upload, and the statistics count each group once as complete or incomplete.\<close>

theorem fund_groups_correct:
  "(filter is_critical (validate_groups ts) = [] \<longleftrightarrow> codes_consistent ts) \<and>
   mset (concat (map gg_transactions (goal_groups ts))) = mset ts \<and>
   sum_list (map gg_totalAmount (goal_groups ts)) = total_amount ts \<and>
   distinct (map gg_code (goal_groups ts)) \<and>
   gs_completeGroups (group_statistics ts) + gs_incompleteGroups (group_statistics ts) = gs_totalGroups (group_statistics ts) \<and>
   gs_totalGroups (group_statistics ts) = length (goal_groups ts) \<and>
   gs_averageFunds (group_statistics ts) * of_nat (gs_totalGroups (group_statistics ts)) = of_nat (length ts)"
proof -
  let ?g = "group_by_code pf_goalTransactionCode ts"
  have parts: "map gg_transactions (goal_groups ts) = map snd ?g" "map gg_code (goal_groups ts) = map fst ?g"
    "map gg_totalAmount (goal_groups ts) = map (total_amount \<circ> snd) ?g" "length (goal_groups ts) = length ?g"
    by (simp_all add: goal_groups_def split_beta comp_def)
  have rows: "mset (concat (map snd ?g)) = mset ts"
    by (simp add: group_by_code_def mset_concat_group_by)
  have total: "total_amount xs = sum_list (map amount_of xs)" for xs
    by (simp add: total_amount_def foldl_plus)
  have "sum_list (map (total_amount \<circ> snd) ?g) = sum_list (map amount_of (concat (map snd ?g)))"
    by (simp add: total sum_list_map_concat comp_def)
  also have "\<dots> = total_amount ts"
    unfolding total using rows by (metis mset_map sum_mset_sum_list)
  finally have sums: "sum_list (map (total_amount \<circ> snd) ?g) = total_amount ts" .
  have stats: "gs_totalGroups (group_statistics ts) = length ?g"
    "gs_completeGroups (group_statistics ts) + gs_incompleteGroups (group_statistics ts) = length ?g"
    "gs_averageFunds (group_statistics ts) * of_nat (length ?g) = of_nat (length ts)"
    using length_groups [of pf_goalTransactionCode ts]
    by (auto simp: group_statistics_def Let_def fold_groups sum_length_filter_compl)
  show ?thesis
    using groups_critical_iff parts rows sums stats by (simp add: group_by_code_def)
qed

end
