(* ===== verification/FundEntities.thy ===== *)
theory FundEntities
  imports FundGroups
begin

text \<open>
  The part of the database an upload of fund transactions works on, \<open>EntityDetector\<close> and \<open>EntityCreator\<close>. Identifiers
  (uuids in the database) are fresh natural numbers. A table is the list of its rows; \<open>findFirst\<close> takes the first
  one. Account numbers and goal numbers are unique in the schema, client names are not.
\<close>

section \<open>Tables\<close>

record client_rec =
  cr_id :: nat
  cr_name :: string

record account_rec =
  ar_id :: nat
  ar_clientId :: nat
  ar_number :: string
  ar_type :: string
  ar_category :: string
  ar_sponsor :: "string option"

record goal_rec =
  gr_id :: nat
  gr_accountId :: nat
  gr_number :: string
  gr_title :: string
  gr_distribution :: "(string, rat) jsmap"

record fund_rec =
  fr_id :: nat
  fr_code :: string

record entity_tables =
  et_clients :: "client_rec list"
  et_accounts :: "account_rec list"
  et_goals :: "goal_rec list"
  et_next :: nat

section \<open>Detecting new entities\<close>

record new_client =
  nc_name :: string
  nc_count :: nat
  nc_total :: money

record new_account =
  na_number :: string
  na_type :: string
  na_category :: string
  na_sponsor :: "string option"
  na_client :: string
  na_count :: nat
  na_total :: money

record new_goal =
  ng_number :: string
  ng_title :: string
  ng_account :: string
  ng_client :: string
  ng_count :: nat
  ng_total :: money
  ng_distribution :: "(string, rat) jsmap"

record new_entities =
  ne_clients :: "new_client list"
  ne_accounts :: "new_account list"
  ne_goals :: "new_goal list"

definition detect_new_clients :: "entity_tables \<Rightarrow> parsed_fund list \<Rightarrow> new_client list" where
  "detect_new_clients db ts =
     (let names = js_unique (map pf_clientName ts);
          existing = map cr_name (filter (\<lambda>c. cr_name c \<in> set names) (et_clients db))
      in map (\<lambda>name. let mine = filter (\<lambda>t. pf_clientName t = name) ts
                      in \<lparr>nc_name = name, nc_count = length mine, nc_total = total_amount mine\<rparr>)
           (filter (\<lambda>name. name \<notin> set existing) names))"

definition detect_new_accounts :: "entity_tables \<Rightarrow> parsed_fund list \<Rightarrow> new_account list" where
  "detect_new_accounts db ts =
     (let accountMap = first_by pf_accountNumber (\<lambda>t. t) ts;
          numbers = map_keys accountMap;
          existing = map ar_number (filter (\<lambda>a. ar_number a \<in> set numbers) (et_accounts db))
      in map (\<lambda>n. let d = the (map_get accountMap n); mine = filter (\<lambda>t. pf_accountNumber t = n) ts
                   in \<lparr>na_number = n, na_type = pf_accountType d, na_category = pf_accountCategory d,
                       na_sponsor = pf_sponsorCode d, na_client = pf_clientName d,
                       na_count = length mine, na_total = total_amount mine\<rparr>)
           (filter (\<lambda>n. n \<notin> set existing) numbers))"

text \<open>\<open>Math.round\<close> rounds halves up; percentages are rounded to two decimals.\<close>

definition round_percentage :: "rat \<Rightarrow> rat" where
  "round_percentage p = of_int \<lfloor>p * 100 + 1 / 2\<rfloor> / 100"

text \<open>The distribution of one group; a fund that occurs twice keeps its last share.\<close>

definition group_distribution :: "parsed_fund list \<Rightarrow> (string, rat) jsmap" where
  "group_distribution g =
     foldl (\<lambda>m t. map_set m (pf_fundCode t) (round_percentage (amount_of t / total_amount g * 100))) [] g"

text \<open>Counting the distributions. The signature of a distribution, its \<open>JSON.stringify\<close>, determines its entries
  and their order, so the association list stands for it.\<close>

definition distribution_counts :: "parsed_fund list \<Rightarrow> ((string, rat) jsmap, nat) jsmap" where
  "distribution_counts ts =
     foldl (\<lambda>m (code, g).
        if total_amount g = 0 then m
        else let d = group_distribution g
             in map_set m d ((case map_get m d of None \<Rightarrow> 0 | Some n \<Rightarrow> n) + 1))
       [] (group_by_code pf_goalTransactionCode ts)"

definition most_common :: "('d \<times> nat) list \<Rightarrow> 'd option" where
  "most_common counts =
     fst (foldl (\<lambda>(best, maxCount) (d, n). if n > maxCount then (Some d, n) else (best, maxCount)) (None, 0) counts)"

definition equal_distribution :: "parsed_fund list \<Rightarrow> (string, rat) jsmap" where
  "equal_distribution ts =
     (let codes = js_unique (map pf_fundCode ts)
      in foldl (\<lambda>m c. map_set m c (round_percentage (100 / of_nat (length codes)))) [] codes)"

definition fund_distribution :: "parsed_fund list \<Rightarrow> (string, rat) jsmap" where
  "fund_distribution ts =
     (case most_common (distribution_counts ts) of Some d \<Rightarrow> d | None \<Rightarrow> equal_distribution ts)"

definition detect_new_goals :: "entity_tables \<Rightarrow> parsed_fund list \<Rightarrow> new_goal list" where
  "detect_new_goals db ts =
     (let goalMap = first_by pf_goalNumber (\<lambda>t. t) ts;
          numbers = map_keys goalMap;
          existing = map gr_number (filter (\<lambda>g. gr_number g \<in> set numbers) (et_goals db))
      in map (\<lambda>n. let d = the (map_get goalMap n); mine = filter (\<lambda>t. pf_goalNumber t = n) ts
                   in \<lparr>ng_number = n, ng_title = pf_goalTitle d, ng_account = pf_accountNumber d,
                       ng_client = pf_clientName d, ng_count = length mine, ng_total = total_amount mine,
                       ng_distribution = fund_distribution mine\<rparr>)
           (filter (\<lambda>n. n \<notin> set existing) numbers))"

definition detect_new_entities :: "entity_tables \<Rightarrow> parsed_fund list \<Rightarrow> new_entities" where
  "detect_new_entities db ts =
     \<lparr>ne_clients = detect_new_clients db ts, ne_accounts = detect_new_accounts db ts, ne_goals = detect_new_goals db ts\<rparr>"

definition has_new_entities :: "new_entities \<Rightarrow> bool" where
  "has_new_entities r = (length (ne_clients r) > 0 \<or> length (ne_accounts r) > 0 \<or> length (ne_goals r) > 0)"

section \<open>Creating approved entities\<close>

definition account_types :: "string list" where
  "account_types = [''PERSONAL'', ''CORPORATE'', ''JOINT'', ''POOLED'', ''LINKED'', ''SPONSOR'']"

definition account_categories :: "string list" where
  "account_categories = [''GENERAL'', ''RETIREMENT'', ''EDUCATION'', ''TRUST'', ''INVESTMENT_CLUBS'',
     ''RETIREMENTS_BENEFIT_SCHEME'', ''FAMILY'', ''SACCO'']"

text \<open>Each step returns the tables and whether the row was created; \<open>None\<close> is an exception. The database refuses a
  value that is not in its enumeration, and a number that exists (the code \<open>P2002\<close>, which is caught).\<close>

definition create_client :: "entity_tables \<Rightarrow> new_client \<Rightarrow> (entity_tables \<times> bool) option" where
  "create_client db c =
     Some (db\<lparr>et_clients := et_clients db @ [\<lparr>cr_id = et_next db, cr_name = nc_name c\<rparr>], et_next := et_next db + 1\<rparr>, True)"

definition create_account :: "entity_tables \<Rightarrow> new_account \<Rightarrow> (entity_tables \<times> bool) option" where
  "create_account db a =
     (case List.find (\<lambda>c. cr_name c = na_client a) (et_clients db) of
        None \<Rightarrow> Some (db, False)
      | Some c \<Rightarrow>
          if na_type a \<notin> set account_types \<or> na_category a \<notin> set account_categories then None
          else if na_number a \<in> set (map ar_number (et_accounts db)) then Some (db, False)
          else Some (db\<lparr>et_accounts := et_accounts db @
                 [\<lparr>ar_id = et_next db, ar_clientId = cr_id c, ar_number = na_number a, ar_type = na_type a,
                   ar_category = na_category a,
                   ar_sponsor = (case na_sponsor a of None \<Rightarrow> None | Some s \<Rightarrow> if s = [] then None else Some s)\<rparr>],
               et_next := et_next db + 1\<rparr>, True))"

definition create_goal :: "entity_tables \<Rightarrow> new_goal \<Rightarrow> (entity_tables \<times> bool) option" where
  "create_goal db g =
     (case List.find (\<lambda>a. ar_number a = ng_account g) (et_accounts db) of
        None \<Rightarrow> Some (db, False)
      | Some a \<Rightarrow>
          if ng_number g \<in> set (map gr_number (et_goals db)) then Some (db, False)
          else Some (db\<lparr>et_goals := et_goals db @
                 [\<lparr>gr_id = et_next db, gr_accountId = ar_id a, gr_number = ng_number g, gr_title = ng_title g,
                   gr_distribution = ng_distribution g\<rparr>],
               et_next := et_next db + 1\<rparr>, True))"

text \<open>The three loops: rows created before an exception stay.\<close>

fun create_all :: "(entity_tables \<Rightarrow> 'a \<Rightarrow> (entity_tables \<times> bool) option) \<Rightarrow> entity_tables \<Rightarrow> 'a list \<Rightarrow>
    entity_tables \<times> nat \<times> bool" where
  "create_all create db [] = (db, 0, True)"
| "create_all create db (x # xs) =
     (case create db x of
        None \<Rightarrow> (db, 0, False)
      | Some (db1, created) \<Rightarrow>
          (case create_all create db1 xs of (db2, n, ok) \<Rightarrow> (db2, (if created then 1 else 0) + n, ok)))"

record created_counts =
  cc_clients :: nat
  cc_accounts :: nat
  cc_goals :: nat

definition create_approved_entities :: "entity_tables \<Rightarrow> new_entities \<Rightarrow> entity_tables \<times> created_counts option" where
  "create_approved_entities db r =
     (case create_all create_client db (ne_clients r) of (db1, c, ok1) \<Rightarrow>
        if \<not> ok1 then (db1, None)
        else (case create_all create_account db1 (ne_accounts r) of (db2, a, ok2) \<Rightarrow>
          if \<not> ok2 then (db2, None)
          else (case create_all create_goal db2 (ne_goals r) of (db3, g, ok3) \<Rightarrow>
            if \<not> ok3 then (db3, None)
            else (db3, Some \<lparr>cc_clients = c, cc_accounts = a, cc_goals = g\<rparr>))))"

section \<open>What detection reports\<close>

lemma detected_names:
  "map nc_name (detect_new_clients db ts) =
     filter (\<lambda>n. n \<notin> cr_name ` set (et_clients db)) (js_unique (map pf_clientName ts))"
  "map na_number (detect_new_accounts db ts) =
     filter (\<lambda>n. n \<notin> ar_number ` set (et_accounts db)) (js_unique (map pf_accountNumber ts))"
  "map ng_number (detect_new_goals db ts) =
     filter (\<lambda>n. n \<notin> gr_number ` set (et_goals db)) (js_unique (map pf_goalNumber ts))"
  by (simp_all add: detect_new_clients_def detect_new_accounts_def detect_new_goals_def Let_def comp_def keys_first_by)
    (auto intro!: filter_cong)

lemma first_row_of:
  assumes "n \<in> kf ` set ts"
  shows "the (map_get (first_by kf (\<lambda>t. t) ts) n) \<in> set ts" "kf (the (map_get (first_by kf (\<lambda>t. t) ts) n)) = n"
proof -
  obtain t where "List.find (\<lambda>t. kf t = n) ts = Some t"
    using assms by (cases "List.find (\<lambda>t. kf t = n) ts") (auto simp: find_None_iff)
  then show "the (map_get (first_by kf (\<lambda>t. t) ts) n) \<in> set ts" "kf (the (map_get (first_by kf (\<lambda>t. t) ts) n)) = n"
    by (simp_all add: map_get_first_by find_SomeD [of "\<lambda>t. kf t = n"])
qed

lemma detected_account_from_row:
  assumes "a \<in> set (detect_new_accounts db ts)"
  shows "\<exists>t \<in> set ts. na_number a = pf_accountNumber t \<and> na_client a = pf_clientName t \<and>
           na_type a = pf_accountType t \<and> na_category a = pf_accountCategory t"
proof -
  define d where "d n = the (map_get (first_by pf_accountNumber (\<lambda>t. t) ts) n)" for n
  obtain x where "x \<in> set ts" "na_number a = pf_accountNumber x" "na_client a = pf_clientName (d (pf_accountNumber x))"
      "na_type a = pf_accountType (d (pf_accountNumber x))" "na_category a = pf_accountCategory (d (pf_accountNumber x))"
    using assms by (auto simp: detect_new_accounts_def Let_def keys_first_by d_def)
  with first_row_of [of "pf_accountNumber x" pf_accountNumber ts] show ?thesis
    by (intro bexI [of _ "d (pf_accountNumber x)"]) (simp_all add: d_def)
qed

lemma detected_goal_from_row:
  assumes "g \<in> set (detect_new_goals db ts)"
  shows "\<exists>t \<in> set ts. ng_number g = pf_goalNumber t \<and> ng_account g = pf_accountNumber t"
proof -
  define d where "d n = the (map_get (first_by pf_goalNumber (\<lambda>t. t) ts) n)" for n
  obtain x where "x \<in> set ts" "ng_number g = pf_goalNumber x" "ng_account g = pf_accountNumber (d (pf_goalNumber x))"
    using assms by (auto simp: detect_new_goals_def Let_def keys_first_by d_def)
  with first_row_of [of "pf_goalNumber x" pf_goalNumber ts] show ?thesis
    by (intro bexI [of _ "d (pf_goalNumber x)"]) (simp_all add: d_def)
qed

section \<open>What creation does\<close>

text \<open>A table only grows.\<close>

definition extends :: "entity_tables \<Rightarrow> entity_tables \<Rightarrow> bool" where
  "extends db db' = ((\<exists>xs. et_clients db' = et_clients db @ xs) \<and> (\<exists>xs. et_accounts db' = et_accounts db @ xs) \<and>
     (\<exists>xs. et_goals db' = et_goals db @ xs))"

lemma extends_refl [simp]: "extends db db" by (simp add: extends_def)

lemma extends_trans: "extends a b \<Longrightarrow> extends b c \<Longrightarrow> extends a c"
  by (auto simp: extends_def)

lemma create_clients:
  "create_all create_client db cs = (db', n, ok) \<Longrightarrow>
     ok \<and> n = length cs \<and> map cr_name (et_clients db') = map cr_name (et_clients db) @ map nc_name cs \<and>
     et_accounts db' = et_accounts db \<and> et_goals db' = et_goals db \<and> extends db db'"
proof (induction cs arbitrary: db n)
  case (Cons c cs)
  let ?db = "db\<lparr>et_clients := et_clients db @ [\<lparr>cr_id = et_next db, cr_name = nc_name c\<rparr>], et_next := et_next db + 1\<rparr>"
  have "create_client db c = Some (?db, True)" by (rule create_client_def)
  then obtain m where "create_all create_client ?db cs = (db', m, ok)" "n = Suc m"
    using Cons.prems by (auto split: prod.splits)
  moreover have "extends db ?db" by (simp add: extends_def)
  ultimately show ?case using Cons.IH [of ?db m] by (auto intro: extends_trans)
qed simp

definition account_ok :: "new_account \<Rightarrow> bool" where
  "account_ok a = (na_type a \<in> set account_types \<and> na_category a \<in> set account_categories)"

lemma create_accounts:
  "create_all create_account db as = (db', n, ok) \<Longrightarrow> na_client ` set as \<subseteq> cr_name ` set (et_clients db) \<Longrightarrow>
     et_clients db' = et_clients db \<and> et_goals db' = et_goals db \<and> extends db db' \<and> (ok \<longleftrightarrow> list_all account_ok as) \<and>
     (ok \<longrightarrow> ar_number ` set (et_accounts db') = ar_number ` set (et_accounts db) \<union> na_number ` set as)"
proof (induction as arbitrary: db n)
  case (Cons a as)
  then obtain c where c: "List.find (\<lambda>c. cr_name c = na_client a) (et_clients db) = Some c"
    by (cases "List.find (\<lambda>c. cr_name c = na_client a) (et_clients db)") (auto simp: find_None_iff)
  show ?case
  proof (cases "create_account db a")
    case None
    then have "\<not> account_ok a" by (auto simp: create_account_def c account_ok_def split: if_splits)
    with None Cons.prems show ?thesis by simp
  next
    case (Some r)
    obtain db1 cr where r: "r = (db1, cr)" by fastforce
    with Some have step: "account_ok a" "et_clients db1 = et_clients db" "et_goals db1 = et_goals db" "extends db db1"
      "ar_number ` set (et_accounts db1) = insert (na_number a) (ar_number ` set (et_accounts db))"
      by (auto simp: create_account_def c account_ok_def extends_def split: if_splits)
    obtain m where "create_all create_account db1 as = (db', m, ok)"
      using Cons.prems(1) Some r by (auto split: prod.splits)
    with Cons.IH [of db1 m] Cons.prems(2) step show ?thesis by (auto intro: extends_trans)
  qed
qed simp

lemma create_goals:
  "create_all create_goal db gs = (db', n, ok) \<Longrightarrow> ng_account ` set gs \<subseteq> ar_number ` set (et_accounts db) \<Longrightarrow>
     ok \<and> et_clients db' = et_clients db \<and> et_accounts db' = et_accounts db \<and> extends db db' \<and>
     gr_number ` set (et_goals db') = gr_number ` set (et_goals db) \<union> ng_number ` set gs"
proof (induction gs arbitrary: db n)
  case (Cons g gs)
  have "ng_account g \<in> ar_number ` set (et_accounts db)" using Cons.prems(2) by simp
  then obtain a where a: "List.find (\<lambda>a. ar_number a = ng_account g) (et_accounts db) = Some a"
    by (cases "List.find (\<lambda>a. ar_number a = ng_account g) (et_accounts db)") (auto simp: find_None_iff)
  obtain db1 cr where goal: "create_goal db g = Some (db1, cr)"
    unfolding create_goal_def a option.case by (metis (no_types))
  then have step: "et_clients db1 = et_clients db" "et_accounts db1 = et_accounts db" "extends db db1"
      "gr_number ` set (et_goals db1) = insert (ng_number g) (gr_number ` set (et_goals db))"
    by (auto simp: create_goal_def a extends_def split: if_splits)
  obtain m where "create_all create_goal db1 gs = (db', m, ok)"
    using Cons.prems(1) goal by (auto split: prod.splits)
  moreover have "ng_account ` set gs \<subseteq> ar_number ` set (et_accounts db1)" using Cons.prems(2) step(2) by simp
  ultimately have "ok \<and> et_clients db' = et_clients db1 \<and> et_accounts db' = et_accounts db1 \<and> extends db1 db' \<and>
      gr_number ` set (et_goals db') = gr_number ` set (et_goals db1) \<union> ng_number ` set gs"
    by (rule Cons.IH)
  with step extends_trans [OF step(3), of db'] show ?case by (metis Un_insert_left Un_insert_right image_insert list.set(2))
qed simp

lemma approved_entities:
  "case create_approved_entities db (detect_new_entities db ts) of (db', counts) \<Rightarrow>
     extends db db' \<and> (counts = None \<longleftrightarrow> \<not> list_all account_ok (detect_new_accounts db ts)) \<and>
     (counts = None \<or>
      cr_name ` set (et_clients db') = cr_name ` set (et_clients db) \<union> pf_clientName ` set ts \<and>
      ar_number ` set (et_accounts db') = ar_number ` set (et_accounts db) \<union> pf_accountNumber ` set ts \<and>
      gr_number ` set (et_goals db') = gr_number ` set (et_goals db) \<union> pf_goalNumber ` set ts)"
proof -
  let ?r = "detect_new_entities db ts"
  have parts: "ne_clients ?r = detect_new_clients db ts" "ne_accounts ?r = detect_new_accounts db ts"
    "ne_goals ?r = detect_new_goals db ts" by (simp_all add: detect_new_entities_def)
  have names: "nc_name ` set (detect_new_clients db ts) = pf_clientName ` set ts - cr_name ` set (et_clients db)"
    "na_number ` set (detect_new_accounts db ts) = pf_accountNumber ` set ts - ar_number ` set (et_accounts db)"
    "ng_number ` set (detect_new_goals db ts) = pf_goalNumber ` set ts - gr_number ` set (et_goals db)"
    unfolding set_map [symmetric] detected_names by auto
  obtain db1 c ok1 where c: "create_all create_client db (ne_clients ?r) = (db1, c, ok1)" by (cases "create_all create_client db (ne_clients ?r)")
  note one = create_clients [OF c, unfolded parts]
  have clients: "cr_name ` set (et_clients db1) = cr_name ` set (et_clients db) \<union> pf_clientName ` set ts"
  proof -
    have "set (map cr_name (et_clients db1)) = set (map cr_name (et_clients db)) \<union> set (map nc_name (detect_new_clients db ts))"
      using one by (metis set_append)
    then show ?thesis unfolding set_map names(1) by blast
  qed
  obtain db2 a ok2 where a: "create_all create_account db1 (ne_accounts ?r) = (db2, a, ok2)" by (cases "create_all create_account db1 (ne_accounts ?r)")
  have one': ok1 "et_accounts db1 = et_accounts db" "et_goals db1 = et_goals db" "extends db db1"
    using one by simp_all
  have "na_client ` set (ne_accounts ?r) \<subseteq> cr_name ` set (et_clients db1)"
    unfolding clients parts by (fastforce dest: detected_account_from_row)
  note two = create_accounts [OF a this, unfolded parts]
  have two': "et_clients db2 = et_clients db1" "et_goals db2 = et_goals db" "extends db db2"
      "ok2 \<longleftrightarrow> list_all account_ok (detect_new_accounts db ts)"
    using two one'(3) extends_trans [OF one'(4), of db2] by simp_all
  have accounts: "ar_number ` set (et_accounts db2) = ar_number ` set (et_accounts db) \<union> pf_accountNumber ` set ts" if ok2
  proof -
    have "ar_number ` set (et_accounts db2) = ar_number ` set (et_accounts db) \<union> na_number ` set (detect_new_accounts db ts)"
      using two that one'(2) by simp
    then show ?thesis unfolding names(2) by blast
  qed
  show ?thesis
  proof (cases ok2)
    case True
    obtain db3 g ok3 where g: "create_all create_goal db2 (ne_goals ?r) = (db3, g, ok3)" by (cases "create_all create_goal db2 (ne_goals ?r)")
    have "ng_account ` set (ne_goals ?r) \<subseteq> ar_number ` set (et_accounts db2)"
      unfolding accounts [OF True] parts by (fastforce dest: detected_goal_from_row)
    note three = create_goals [OF g this, unfolded parts]
    have three': ok3 "et_clients db3 = et_clients db2" "et_accounts db3 = et_accounts db2" "extends db db3"
      using three extends_trans [OF two'(3), of db3] by simp_all
    have goals: "gr_number ` set (et_goals db3) = gr_number ` set (et_goals db) \<union> pf_goalNumber ` set ts"
    proof -
      have "gr_number ` set (et_goals db3) = gr_number ` set (et_goals db) \<union> ng_number ` set (detect_new_goals db ts)"
        using three two'(2) by simp
      then show ?thesis unfolding names(3) by blast
    qed
    have result: "create_approved_entities db ?r = (db3, Some \<lparr>cc_clients = c, cc_accounts = a, cc_goals = g\<rparr>)"
      using True one'(1) three'(1) by (simp add: create_approved_entities_def c a g)
    show ?thesis
      unfolding result prod.case using three' two' clients accounts [OF True] goals True by simp
  next
    case False
    have result: "create_approved_entities db ?r = (db2, None)"
      using False one'(1) by (simp add: create_approved_entities_def c a)
    show ?thesis unfolding result prod.case using two' False by simp
  qed
qed

text \<open>The rows that creation appends, in the order of the report, with identifiers in the order of creation.\<close>

definition account_row_of :: "client_rec list \<Rightarrow> new_account \<Rightarrow> account_rec \<Rightarrow> bool" where
  "account_row_of cs a x =
     (\<exists>c. List.find (\<lambda>c. cr_name c = na_client a) cs = Some c \<and> ar_clientId x = cr_id c \<and> ar_number x = na_number a \<and>
        ar_type x = na_type a \<and> ar_category x = na_category a \<and>
        ar_sponsor x = (case na_sponsor a of None \<Rightarrow> None | Some s \<Rightarrow> if s = [] then None else Some s))"

definition goal_row_of :: "account_rec list \<Rightarrow> new_goal \<Rightarrow> goal_rec \<Rightarrow> bool" where
  "goal_row_of as g x =
     (\<exists>a. List.find (\<lambda>a. ar_number a = ng_account g) as = Some a \<and> gr_accountId x = ar_id a \<and> gr_number x = ng_number g \<and>
        gr_title x = ng_title g \<and> gr_distribution x = ng_distribution g)"

lemma upt_next: "n # [Suc n ..< Suc n + k] = [n ..< n + Suc k]"
  by (simp add: upt_rec [of n])

lemma upt_pieces: "[n ..< n + a] @ [n + a ..< n + a + b] @ [n + a + b ..< n + a + b + c] = [n ..< n + a + b + (c::nat)]"
proof -
  have "[n ..< n + a + b] = [n ..< n + a] @ [n + a ..< n + a + b]" by (rule upt_add_eq_append) simp
  moreover have "[n ..< n + a + b + c] = [n ..< n + a + b] @ [n + a + b ..< n + a + b + c]" by (rule upt_add_eq_append) simp
  ultimately show ?thesis by (simp only: append_assoc)
qed

lemma clients_appended:
  "create_all create_client db cs = (db', n, ok) \<Longrightarrow>
     \<exists>xs. et_clients db' = et_clients db @ xs \<and> map cr_name xs = map nc_name cs \<and> n = length cs \<and>
       map cr_id xs = [et_next db ..< et_next db + length cs] \<and> et_next db' = et_next db + length cs"
proof (induction cs arbitrary: db n)
  case (Cons c cs)
  let ?x = "\<lparr>cr_id = et_next db, cr_name = nc_name c\<rparr>"
  let ?db = "db\<lparr>et_clients := et_clients db @ [?x], et_next := et_next db + 1\<rparr>"
  have "create_client db c = Some (?db, True)" by (rule create_client_def)
  then obtain m where m: "create_all create_client ?db cs = (db', m, ok)" "n = Suc m"
    using Cons.prems by (auto split: prod.splits)
  obtain xs where "et_clients db' = et_clients ?db @ xs" "map cr_name xs = map nc_name cs" "m = length cs"
      "map cr_id xs = [et_next ?db ..< et_next ?db + length cs]" "et_next db' = et_next ?db + length cs"
    using Cons.IH [OF m(1)] by blast
  then show ?case using m(2) upt_next [of "et_next db" "length cs"] by (intro exI [of _ "?x # xs"]) simp
qed simp

lemma accounts_appended:
  assumes "create_all create_account db as = (db', n, ok)" "na_client ` set as \<subseteq> cr_name ` set (et_clients db)"
    and "distinct (map na_number as)" "set (map na_number as) \<inter> set (map ar_number (et_accounts db)) = {}" "list_all account_ok as"
  shows "\<exists>xs. et_accounts db' = et_accounts db @ xs \<and> list_all2 (account_row_of (et_clients db)) as xs \<and> n = length as \<and>
       map ar_id xs = [et_next db ..< et_next db + length as] \<and> et_next db' = et_next db + length as"
  using assms
proof (induction as arbitrary: db n)
  case (Cons a as)
  then obtain c where c: "List.find (\<lambda>c. cr_name c = na_client a) (et_clients db) = Some c"
    by (cases "List.find (\<lambda>c. cr_name c = na_client a) (et_clients db)") (auto simp: find_None_iff)
  let ?x = "\<lparr>ar_id = et_next db, ar_clientId = cr_id c, ar_number = na_number a, ar_type = na_type a,
    ar_category = na_category a, ar_sponsor = (case na_sponsor a of None \<Rightarrow> None | Some s \<Rightarrow> if s = [] then None else Some s)\<rparr>"
  let ?db = "db\<lparr>et_accounts := et_accounts db @ [?x], et_next := et_next db + 1\<rparr>"
  have "create_account db a = Some (?db, True)"
    using Cons.prems(4,5) by (simp add: create_account_def c account_ok_def)
  then obtain m where m: "create_all create_account ?db as = (db', m, ok)" "n = Suc m"
    using Cons.prems(1) by (auto split: prod.splits)
  have "\<exists>xs. et_accounts db' = et_accounts ?db @ xs \<and> list_all2 (account_row_of (et_clients ?db)) as xs \<and> m = length as \<and>
      map ar_id xs = [et_next ?db ..< et_next ?db + length as] \<and> et_next db' = et_next ?db + length as"
    by (rule Cons.IH [OF m(1)]) (use Cons.prems(2-5) in auto)
  then obtain xs where "et_accounts db' = et_accounts ?db @ xs" "list_all2 (account_row_of (et_clients ?db)) as xs" "m = length as"
      "map ar_id xs = [et_next ?db ..< et_next ?db + length as]" "et_next db' = et_next ?db + length as"
    by blast
  moreover have "account_row_of (et_clients db) a ?x" by (simp add: account_row_of_def c)
  ultimately show ?case
    using m(2) upt_next [of "et_next db" "length as"] by (intro exI [of _ "?x # xs"]) (simp del: upt_Suc)
qed simp

lemma goals_appended:
  assumes "create_all create_goal db gs = (db', n, ok)" "ng_account ` set gs \<subseteq> ar_number ` set (et_accounts db)"
    and "distinct (map ng_number gs)" "set (map ng_number gs) \<inter> set (map gr_number (et_goals db)) = {}"
  shows "\<exists>xs. et_goals db' = et_goals db @ xs \<and> list_all2 (goal_row_of (et_accounts db)) gs xs \<and> n = length gs \<and>
       map gr_id xs = [et_next db ..< et_next db + length gs] \<and> et_next db' = et_next db + length gs"
  using assms
proof (induction gs arbitrary: db n)
  case (Cons g gs)
  then obtain a where a: "List.find (\<lambda>a. ar_number a = ng_account g) (et_accounts db) = Some a"
    by (cases "List.find (\<lambda>a. ar_number a = ng_account g) (et_accounts db)") (auto simp: find_None_iff)
  let ?x = "\<lparr>gr_id = et_next db, gr_accountId = ar_id a, gr_number = ng_number g, gr_title = ng_title g, gr_distribution = ng_distribution g\<rparr>"
  let ?db = "db\<lparr>et_goals := et_goals db @ [?x], et_next := et_next db + 1\<rparr>"
  have "create_goal db g = Some (?db, True)"
    using Cons.prems(4) by (simp add: create_goal_def a)
  then obtain m where m: "create_all create_goal ?db gs = (db', m, ok)" "n = Suc m"
    using Cons.prems(1) by (auto split: prod.splits)
  have "\<exists>xs. et_goals db' = et_goals ?db @ xs \<and> list_all2 (goal_row_of (et_accounts ?db)) gs xs \<and> m = length gs \<and>
      map gr_id xs = [et_next ?db ..< et_next ?db + length gs] \<and> et_next db' = et_next ?db + length gs"
    by (rule Cons.IH [OF m(1)]) (use Cons.prems(2-4) in auto)
  then obtain xs where "et_goals db' = et_goals ?db @ xs" "list_all2 (goal_row_of (et_accounts ?db)) gs xs" "m = length gs"
      "map gr_id xs = [et_next ?db ..< et_next ?db + length gs]" "et_next db' = et_next ?db + length gs"
    by blast
  moreover have "goal_row_of (et_accounts db) g ?x" by (simp add: goal_row_of_def a)
  ultimately show ?case
    using m(2) upt_next [of "et_next db" "length gs"] by (intro exI [of _ "?x # xs"]) (simp del: upt_Suc)
qed simp

text \<open>The same in terms of the uploaded rows: what an upload is missing, and the rows created for it.\<close>

definition missing :: "(parsed_fund \<Rightarrow> string) \<Rightarrow> string list \<Rightarrow> parsed_fund list \<Rightarrow> string list" where
  "missing kf existing ts = filter (\<lambda>n. n \<notin> set existing) (js_unique (map kf ts))"

definition account_created :: "parsed_fund list \<Rightarrow> client_rec list \<Rightarrow> string \<Rightarrow> account_rec \<Rightarrow> bool" where
  "account_created ts cs n x =
     (\<exists>t c. List.find (\<lambda>t. pf_accountNumber t = n) ts = Some t \<and> List.find (\<lambda>c. cr_name c = pf_clientName t) cs = Some c \<and>
        ar_clientId x = cr_id c \<and> ar_number x = n \<and> ar_type x = pf_accountType t \<and> ar_category x = pf_accountCategory t \<and>
        ar_sponsor x = (if pf_sponsorCode t = Some [] then None else pf_sponsorCode t))"

definition goal_created :: "parsed_fund list \<Rightarrow> account_rec list \<Rightarrow> string \<Rightarrow> goal_rec \<Rightarrow> bool" where
  "goal_created ts as n x =
     (\<exists>t a. List.find (\<lambda>t. pf_goalNumber t = n) ts = Some t \<and> List.find (\<lambda>a. ar_number a = pf_accountNumber t) as = Some a \<and>
        gr_accountId x = ar_id a \<and> gr_number x = n \<and> gr_title x = pf_goalTitle t \<and>
        gr_distribution x = fund_distribution (filter (\<lambda>t. pf_goalNumber t = n) ts))"

lemma first_row:
  assumes "n \<in> kf ` set ts"
  obtains t where "List.find (\<lambda>t. kf t = n) ts = Some t" "map_get (first_by kf (\<lambda>t. t) ts) n = Some t"
proof -
  obtain t where "List.find (\<lambda>t. kf t = n) ts = Some t"
    using assms by (cases "List.find (\<lambda>t. kf t = n) ts") (auto simp: find_None_iff)
  then show thesis using that by (simp add: map_get_first_by)
qed

lemma map_of_list_all2: "list_all2 (\<lambda>n x. f x = n) ns xs \<Longrightarrow> map f xs = ns"
  by (induction rule: list_all2_induct) simp_all

lemma in_missing: "n \<in> set (missing kf existing ts) \<Longrightarrow> n \<in> kf ` set ts"
  by (auto simp: missing_def)

lemma missing_names:
  "map nc_name (detect_new_clients db ts) = missing pf_clientName (map cr_name (et_clients db)) ts"
  "map na_number (detect_new_accounts db ts) = missing pf_accountNumber (map ar_number (et_accounts db)) ts"
  "map ng_number (detect_new_goals db ts) = missing pf_goalNumber (map gr_number (et_goals db)) ts"
  unfolding detected_names by (simp_all add: missing_def)

lemma distinct_missing: "distinct (missing kf existing ts)" "set (missing kf existing ts) \<inter> set existing = {}"
  by (auto simp: missing_def)

lemma accounts_by_row:
  assumes "list_all2 (account_row_of cs) (detect_new_accounts db ts) xs"
  shows "list_all2 (account_created ts cs) (missing pf_accountNumber (map ar_number (et_accounts db)) ts) xs"
proof -
  have "account_created ts cs (na_number a) x" if "a \<in> set (detect_new_accounts db ts)" "account_row_of cs a x" for a x
  proof -
    have "na_number a \<in> pf_accountNumber ` set ts"
      using that(1) in_missing [of "na_number a" pf_accountNumber "map ar_number (et_accounts db)" ts] by (metis imageI list.set_map missing_names(2))
    then obtain t where t: "List.find (\<lambda>t. pf_accountNumber t = na_number a) ts = Some t"
        "map_get (first_by pf_accountNumber (\<lambda>t. t) ts) (na_number a) = Some t" by (rule first_row)
    have "na_client a = pf_clientName t" "na_type a = pf_accountType t" "na_category a = pf_accountCategory t" "na_sponsor a = pf_sponsorCode t"
      using that(1) t(2) by (auto simp: detect_new_accounts_def Let_def)
    then show ?thesis
      using that(2) t(1) by (auto simp: account_created_def account_row_of_def split: option.splits)
  qed
  with assms show ?thesis
    unfolding missing_names(2) [symmetric] by (auto simp: list_all2_conv_all_nth)
qed

lemma goals_by_row:
  assumes "list_all2 (goal_row_of as) (detect_new_goals db ts) xs"
  shows "list_all2 (goal_created ts as) (missing pf_goalNumber (map gr_number (et_goals db)) ts) xs"
proof -
  have "goal_created ts as (ng_number g) x" if "g \<in> set (detect_new_goals db ts)" "goal_row_of as g x" for g x
  proof -
    have "ng_number g \<in> pf_goalNumber ` set ts"
      using that(1) in_missing [of "ng_number g" pf_goalNumber "map gr_number (et_goals db)" ts] by (metis imageI list.set_map missing_names(3))
    then obtain t where t: "List.find (\<lambda>t. pf_goalNumber t = ng_number g) ts = Some t"
        "map_get (first_by pf_goalNumber (\<lambda>t. t) ts) (ng_number g) = Some t" by (rule first_row)
    have "ng_account g = pf_accountNumber t" "ng_title g = pf_goalTitle t"
      "ng_distribution g = fund_distribution (filter (\<lambda>t. pf_goalNumber t = ng_number g) ts)"
      using that(1) t(2) by (auto simp: detect_new_goals_def Let_def)
    then show ?thesis using that(2) t(1) by (auto simp: goal_created_def goal_row_of_def)
  qed
  with assms show ?thesis
    unfolding missing_names(3) [symmetric] by (auto simp: list_all2_conv_all_nth)
qed

lemma accounts_fail:
  "create_all create_account db as = (db', n, ok) \<Longrightarrow> na_client ` set as \<subseteq> cr_name ` set (et_clients db) \<Longrightarrow> \<not> list_all account_ok as \<Longrightarrow> \<not> ok"
  using create_accounts by blast

text \<open>C24: approving the entities an upload is missing creates exactly them. If the types and categories of the new accounts are
  values of the enumerations, each missing client, account and goal is appended once, in the order in which the file first names them,
  with fresh identifiers: an account with the type, category, sponsor and client of the first row that names it, a goal with the
  title and account of its first row and the distribution proposed from its rows; existing rows stay as they are, and the counts are
  those of the new rows. Otherwise creation fails before any goal is created.\<close>

theorem approved_entities_complete:
  "case create_approved_entities db (detect_new_entities db ts) of (db', counts) \<Rightarrow>
     if list_all account_ok (detect_new_accounts db ts)
     then \<exists>cs as gs. et_clients db' = et_clients db @ cs \<and> et_accounts db' = et_accounts db @ as \<and> et_goals db' = et_goals db @ gs \<and>
       map cr_name cs = missing pf_clientName (map cr_name (et_clients db)) ts \<and>
       list_all2 (account_created ts (et_clients db')) (missing pf_accountNumber (map ar_number (et_accounts db)) ts) as \<and>
       list_all2 (goal_created ts (et_accounts db')) (missing pf_goalNumber (map gr_number (et_goals db)) ts) gs \<and>
       map cr_id cs @ map ar_id as @ map gr_id gs = [et_next db ..< et_next db'] \<and>
       counts = Some \<lparr>cc_clients = length cs, cc_accounts = length as, cc_goals = length gs\<rparr>
     else counts = None \<and> extends db db' \<and> et_goals db' = et_goals db"
proof -
  let ?r = "detect_new_entities db ts"
  have parts: "ne_clients ?r = detect_new_clients db ts" "ne_accounts ?r = detect_new_accounts db ts"
    "ne_goals ?r = detect_new_goals db ts" by (simp_all add: detect_new_entities_def)
  obtain db1 c ok1 where c: "create_all create_client db (ne_clients ?r) = (db1, c, ok1)" by (cases "create_all create_client db (ne_clients ?r)")
  have one: ok1 "et_accounts db1 = et_accounts db" "et_goals db1 = et_goals db" "extends db db1" using create_clients [OF c] by simp_all
  obtain cs where cs: "et_clients db1 = et_clients db @ cs" "map cr_name cs = missing pf_clientName (map cr_name (et_clients db)) ts"
      "c = length cs" "map cr_id cs = [et_next db ..< et_next db + length cs]" "et_next db1 = et_next db + length cs"
  proof -
    obtain xs where xs: "et_clients db1 = et_clients db @ xs \<and> map cr_name xs = map nc_name (ne_clients ?r) \<and> c = length (ne_clients ?r) \<and>
        map cr_id xs = [et_next db ..< et_next db + length (ne_clients ?r)] \<and> et_next db1 = et_next db + length (ne_clients ?r)"
      using clients_appended [OF c] by (rule exE)
    then have names: "map cr_name xs = missing pf_clientName (map cr_name (et_clients db)) ts" by (simp only: parts missing_names)
    have len: "length (ne_clients ?r) = length xs" using xs by (metis length_map)
    show thesis by (rule that [of xs]) (use xs names in \<open>simp_all only: len\<close>)
  qed
  have all_clients: "pf_clientName ` set ts \<subseteq> cr_name ` set (et_clients db1)"
  proof -
    have "set (map cr_name (et_clients db1)) = set (map cr_name (et_clients db)) \<union> set (missing pf_clientName (map cr_name (et_clients db)) ts)"
      by (simp only: cs(1,2) map_append set_append)
    then show ?thesis by (auto simp: missing_def)
  qed
  obtain db2 a ok2 where a: "create_all create_account db1 (ne_accounts ?r) = (db2, a, ok2)" by (cases "create_all create_account db1 (ne_accounts ?r)")
  have owners: "na_client ` set (ne_accounts ?r) \<subseteq> cr_name ` set (et_clients db1)"
    using all_clients unfolding parts by (fastforce dest: detected_account_from_row)
  have two: "et_clients db2 = et_clients db1" "et_goals db2 = et_goals db" "extends db db2" "ok2 \<longleftrightarrow> list_all account_ok (detect_new_accounts db ts)"
    using create_accounts [OF a owners] one(3) extends_trans [OF one(4), of db2] by (simp_all add: parts)
  show ?thesis
  proof (cases ok2)
    case False
    then have "create_approved_entities db ?r = (db2, None)" using one(1) by (simp add: create_approved_entities_def c a)
    then show ?thesis using False two by simp
  next
    case True
    then have ok: "list_all account_ok (detect_new_accounts db ts)" using two(4) by simp
    have named: "distinct (map na_number (ne_accounts ?r))"
        "set (map na_number (ne_accounts ?r)) \<inter> set (map ar_number (et_accounts db1)) = {}" "list_all account_ok (ne_accounts ?r)"
      unfolding parts missing_names one(2) by (rule distinct_missing, rule distinct_missing, rule ok)
    obtain as where "et_accounts db2 = et_accounts db1 @ as \<and> list_all2 (account_row_of (et_clients db1)) (ne_accounts ?r) as \<and>
        a = length (ne_accounts ?r) \<and> map ar_id as = [et_next db1 ..< et_next db1 + length (ne_accounts ?r)] \<and>
        et_next db2 = et_next db1 + length (ne_accounts ?r)"
      using accounts_appended [OF a owners named] by (rule exE)
    then have as: "et_accounts db2 = et_accounts db1 @ as" "list_all2 (account_row_of (et_clients db1)) (detect_new_accounts db ts) as"
        "a = length (detect_new_accounts db ts)" "map ar_id as = [et_next db1 ..< et_next db1 + length (detect_new_accounts db ts)]"
        "et_next db2 = et_next db1 + length (detect_new_accounts db ts)"
      unfolding parts by simp_all
    have las: "length as = length (detect_new_accounts db ts)" using as(2) by (rule list_all2_lengthD [symmetric])
    have all_accounts: "pf_accountNumber ` set ts \<subseteq> ar_number ` set (et_accounts db2)"
    proof -
      have "map ar_number as = missing pf_accountNumber (map ar_number (et_accounts db)) ts"
        using accounts_by_row [OF as(2)] by (intro map_of_list_all2) (auto simp: account_created_def elim!: list_all2_mono)
      then have "set (map ar_number (et_accounts db2)) = set (map ar_number (et_accounts db)) \<union> set (missing pf_accountNumber (map ar_number (et_accounts db)) ts)"
        by (simp only: as(1) one(2) map_append set_append)
      then show ?thesis by (auto simp: missing_def)
    qed
    obtain db3 g ok3 where g: "create_all create_goal db2 (ne_goals ?r) = (db3, g, ok3)" by (cases "create_all create_goal db2 (ne_goals ?r)")
    have homes: "ng_account ` set (ne_goals ?r) \<subseteq> ar_number ` set (et_accounts db2)"
      using all_accounts unfolding parts by (fastforce dest: detected_goal_from_row)
    have three: ok3 "et_clients db3 = et_clients db2" "et_accounts db3 = et_accounts db2" using create_goals [OF g homes] by simp_all
    have new_goals: "distinct (map ng_number (ne_goals ?r))" "set (map ng_number (ne_goals ?r)) \<inter> set (map gr_number (et_goals db2)) = {}"
      unfolding parts missing_names two(2) by (rule distinct_missing)+
    obtain gs where "et_goals db3 = et_goals db2 @ gs \<and> list_all2 (goal_row_of (et_accounts db2)) (ne_goals ?r) gs \<and>
        g = length (ne_goals ?r) \<and> map gr_id gs = [et_next db2 ..< et_next db2 + length (ne_goals ?r)] \<and>
        et_next db3 = et_next db2 + length (ne_goals ?r)"
      using goals_appended [OF g homes new_goals] by (rule exE)
    then have gs: "et_goals db3 = et_goals db2 @ gs" "list_all2 (goal_row_of (et_accounts db2)) (detect_new_goals db ts) gs"
        "g = length (detect_new_goals db ts)" "map gr_id gs = [et_next db2 ..< et_next db2 + length (detect_new_goals db ts)]"
        "et_next db3 = et_next db2 + length (detect_new_goals db ts)"
      unfolding parts by simp_all
    have lgs: "length gs = length (detect_new_goals db ts)" using gs(2) by (rule list_all2_lengthD [symmetric])
    have result: "create_approved_entities db ?r = (db3, Some \<lparr>cc_clients = c, cc_accounts = a, cc_goals = g\<rparr>)"
      using True one(1) three(1) by (simp add: create_approved_entities_def c a g)
    have ids: "map cr_id cs @ map ar_id as @ map gr_id gs = [et_next db ..< et_next db3]"
      unfolding cs(4,5) as(4,5) gs(4,5) by (rule upt_pieces)
    have "list_all2 (account_created ts (et_clients db3)) (missing pf_accountNumber (map ar_number (et_accounts db)) ts) as"
      unfolding three(2) two(1) by (rule accounts_by_row [OF as(2)])
    moreover have "list_all2 (goal_created ts (et_accounts db3)) (missing pf_goalNumber (map gr_number (et_goals db)) ts) gs"
      unfolding three(3) by (rule goals_by_row [OF gs(2)])
    moreover have "et_clients db3 = et_clients db @ cs" "et_accounts db3 = et_accounts db @ as" "et_goals db3 = et_goals db @ gs"
      by (simp_all only: three(2,3) two(1,2) cs(1) as(1) gs(1) one(2))
    moreover have "c = length cs" "a = length as" "g = length gs" by (simp_all only: cs(3) as(3) gs(3) las lgs)
    ultimately show ?thesis
      unfolding result prod.case if_P [OF ok] using cs(2) ids by blast
  qed
qed

text \<open>Creating the approved entities again, as a retried job does, creates every new client again: client
  names are not unique, so no error stops it.\<close>

theorem retry_duplicates_clients:
  "length (filter (\<lambda>c. cr_name c = n)
      (et_clients (fst (create_approved_entities (fst (create_approved_entities db r)) r)))) =
   length (filter (\<lambda>c. cr_name c = n) (et_clients db)) + 2 * length (filter (\<lambda>c. nc_name c = n) (ne_clients r))"
proof -
  have keep: "et_clients (fst (create_all f db xs)) = et_clients db"
    if "\<And>db x db' b. f db x = Some (db', b) \<Longrightarrow> et_clients db' = et_clients db"
    for f :: "entity_tables \<Rightarrow> 'x \<Rightarrow> (entity_tables \<times> bool) option" and db xs
  proof (induction xs arbitrary: db)
    case (Cons x xs)
    show ?case
    proof (cases "f db x")
      case (Some y)
      obtain db1 b where "y = (db1, b)" by fastforce
      with Some that [of db x db1 b] Cons.IH [of db1] show ?thesis
        by (cases "create_all f db1 xs") simp
    qed simp
  qed simp
  have account: "et_clients db' = et_clients db" if "create_account db a = Some (db', b)" for db a db' b
    using that by (auto simp: create_account_def split: option.splits if_splits)
  have goal: "et_clients db' = et_clients db" if "create_goal db a = Some (db', b)" for db a db' b
    using that by (auto simp: create_goal_def split: option.splits if_splits)
  have once: "map cr_name (et_clients (fst (create_approved_entities db r))) = map cr_name (et_clients db) @ map nc_name (ne_clients r)" for db
  proof -
    obtain db1 c ok1 where c: "create_all create_client db (ne_clients r) = (db1, c, ok1)" by (cases "create_all create_client db (ne_clients r)")
    have "et_clients (fst (create_approved_entities db r)) = et_clients db1"
    proof -
      obtain db2 a ok2 where a: "create_all create_account db1 (ne_accounts r) = (db2, a, ok2)" by (cases "create_all create_account db1 (ne_accounts r)")
      obtain db3 g ok3 where g: "create_all create_goal db2 (ne_goals r) = (db3, g, ok3)" by (cases "create_all create_goal db2 (ne_goals r)")
      have "et_clients db2 = et_clients db1" "et_clients db3 = et_clients db2"
        using keep [of create_account db1 "ne_accounts r", OF account] keep [of create_goal db2 "ne_goals r", OF goal]
        by (simp_all add: a g)
      then show ?thesis by (simp add: create_approved_entities_def c a g)
    qed
    then show ?thesis using create_clients [OF c] by simp
  qed
  have clients: "length (filter (\<lambda>c. cr_name c = n) xs) = length (filter (\<lambda>m. m = n) (map cr_name xs))" for xs
    by (simp add: filter_map comp_def)
  have names: "length (filter (\<lambda>c. nc_name c = n) xs) = length (filter (\<lambda>m. m = n) (map nc_name xs))" for xs
    by (simp add: filter_map comp_def)
  show ?thesis unfolding clients names once by simp
qed

section \<open>The distribution of a new goal\<close>

lemma round_percentage_bound: "\<bar>round_percentage p - p\<bar> \<le> 1 / 200"
proof -
  have "of_int \<lfloor>p * 100 + 1 / 2\<rfloor> \<le> p * 100 + 1 / 2" "p * 100 + 1 / 2 < of_int \<lfloor>p * 100 + 1 / 2\<rfloor> + 1" by linarith+
  then show ?thesis unfolding round_percentage_def abs_le_iff by linarith
qed

lemma map_set_new: "k \<notin> fst ` set m \<Longrightarrow> map_set m k v = m @ [(k, v)]"
  unfolding map_set_def by (induction m) auto

lemma fold_map_set_distinct:
  "distinct (map kf xs) \<Longrightarrow> kf ` set xs \<inter> fst ` set m = {} \<Longrightarrow>
     foldl (\<lambda>m x. map_set m (kf x) (vf x)) m xs = m @ map (\<lambda>x. (kf x, vf x)) xs"
  by (induction xs arbitrary: m) (auto simp: map_set_new)

lemma rounded_shares_bound:
  "\<bar>sum_list (map (\<lambda>x. round_percentage (h x)) xs) - sum_list (map h xs)\<bar> \<le> of_nat (length xs) / 200"
proof (induction xs)
  case (Cons x xs)
  have "\<bar>sum_list (map (\<lambda>x. round_percentage (h x)) (x # xs)) - sum_list (map h (x # xs))\<bar>
      \<le> \<bar>round_percentage (h x) - h x\<bar> + \<bar>sum_list (map (\<lambda>x. round_percentage (h x)) xs) - sum_list (map h xs)\<bar>"
    by simp
  also have "\<dots> \<le> 1 / 200 + of_nat (length xs) / 200"
    using Cons round_percentage_bound [of "h x"] by (rule add_mono [rotated])
  finally show ?case by (simp add: add_divide_distrib)
qed simp

definition near_100 :: "(string, rat) jsmap \<Rightarrow> bool" where
  "near_100 d = (\<bar>sum_list (map snd d) - 100\<bar> \<le> of_nat (length d) / 200)"

lemma group_distribution_near_100:
  assumes "distinct (map pf_fundCode g)" "total_amount g \<noteq> 0"
  shows "near_100 (group_distribution g)"
proof -
  have "group_distribution g = map (\<lambda>t. (pf_fundCode t, round_percentage (amount_of t / total_amount g * 100))) g"
    using fold_map_set_distinct [OF assms(1), of "[]"] by (simp add: group_distribution_def)
  moreover have "sum_list (map (\<lambda>t. amount_of t / s * 100) g) = sum_list (map amount_of g) / s * 100" for s :: rat
    by (induction g) (simp_all add: add_divide_distrib distrib_right)
  moreover have "sum_list (map amount_of g) = total_amount g" by (simp add: total_amount_def foldl_plus)
  ultimately show ?thesis
    using rounded_shares_bound [of "\<lambda>t. amount_of t / total_amount g * 100" g] assms(2)
    by (simp add: near_100_def comp_def)
qed

lemma equal_distribution_near_100:
  assumes "ts \<noteq> []"
  shows "near_100 (equal_distribution ts)"
proof -
  let ?c = "js_unique (map pf_fundCode ts)"
  have "?c \<noteq> []" using assms by (metis map_is_Nil_conv set_empty set_js_unique)
  then have "sum_list (map (\<lambda>_. 100 / of_nat (length ?c)) ?c) = (100 :: rat)" by (simp add: sum_list_triv)
  moreover have "equal_distribution ts = map (\<lambda>c. (c, round_percentage (100 / of_nat (length ?c)))) ?c"
    using fold_map_set_distinct [of "\<lambda>c. c" ?c "[]"] by (simp add: equal_distribution_def Let_def)
  ultimately show ?thesis
    using rounded_shares_bound [of "\<lambda>_. 100 / of_nat (length ?c)" ?c] by (simp add: near_100_def comp_def)
qed

lemma most_common_mem: "most_common counts = Some d \<Longrightarrow> d \<in> fst ` set counts"
proof -
  have "fst (foldl (\<lambda>(best, maxCount) (d, n). if n > maxCount then (Some d, n) else (best, maxCount)) (b, k) counts) = Some d \<Longrightarrow>
      b = Some d \<or> d \<in> fst ` set counts" for b k
  proof (induction counts arbitrary: b k)
    case (Cons e counts)
    obtain c n where "e = (c, n)" by fastforce
    with Cons.IH [of "if n > k then Some c else b" "if n > k then n else k"] Cons.prems show ?case
      by (auto split: if_splits)
  qed simp
  from this [of None 0] show "most_common counts = Some d \<Longrightarrow> d \<in> fst ` set counts"
    by (simp add: most_common_def)
qed

lemma distribution_counts_keys:
  assumes "d \<in> fst ` set (distribution_counts ts)"
  shows "\<exists>e \<in> set (group_by_code pf_goalTransactionCode ts). total_amount (snd e) \<noteq> 0 \<and> d = group_distribution (snd e)"
proof -
  define step where "step = (\<lambda>m :: ((string, rat) jsmap, nat) jsmap. \<lambda>(code :: string, g). if total_amount g = 0 then m
        else let d = group_distribution g in map_set m d ((case map_get m d of None \<Rightarrow> 0 | Some n \<Rightarrow> n) + 1))"
  have step: "d \<in> fst ` set m \<or> total_amount (snd e) \<noteq> 0 \<and> d = group_distribution (snd e)"
    if "d \<in> fst ` set (step m e)" for m e
    using that unfolding step_def Let_def map_set_def by (cases e) (auto simp add: dom_update simp del: set_map split: if_splits)
  have "d \<in> fst ` set (foldl step m gs) \<Longrightarrow>
      d \<in> fst ` set m \<or> (\<exists>e \<in> set gs. total_amount (snd e) \<noteq> 0 \<and> d = group_distribution (snd e))" for m gs
  proof (induction gs arbitrary: m)
    case (Cons e gs)
    from Cons.IH [of "step m e"] Cons.prems step [of m e] show ?case by auto
  qed simp
  from this [of "[]" "group_by_code pf_goalTransactionCode ts"] assms show ?thesis
    by (simp add: distribution_counts_def step_def)
qed

text \<open>The percentages proposed for a new goal sum to 100 up to half a cent per fund, provided no code of the
  goal lists a fund twice.\<close>

theorem new_goal_distribution_near_100:
  assumes "ts \<noteq> []" "\<And>code. distinct (map pf_fundCode (filter (\<lambda>t. pf_goalTransactionCode t = code) ts))"
  shows "near_100 (fund_distribution ts)"
proof (cases "most_common (distribution_counts ts)")
  case (Some d)
  then obtain e where e: "e \<in> set (group_by pf_goalTransactionCode ts)" "total_amount (snd e) \<noteq> 0" "d = group_distribution (snd e)"
    using distribution_counts_keys [OF most_common_mem, of ts d] by (auto simp: group_by_code_def)
  have "snd e = filter (\<lambda>t. pf_goalTransactionCode t = fst e) ts"
    using entry_group_by [of "fst e" "snd e"] e(1) by simp
  then show ?thesis
    using group_distribution_near_100 [of "snd e"] assms(2) e(2,3) Some by (simp add: fund_distribution_def)
qed (simp add: fund_distribution_def equal_distribution_near_100 assms(1))

theorem new_goal_distribution_near_100_witness:
  "near_100 (fund_distribution [ex_parsed 1 ''x'' (Some 10), (ex_parsed 2 ''y'' (Some 20))\<lparr>pf_fundCode := ''XUBF''\<rparr>])"
  by (rule new_goal_distribution_near_100) (auto simp: ex_parsed_def)

end
