(* ===== verification/FundStore.thy ===== *)
theory FundStore
  imports FundEntities
begin

text \<open>
  \<open>FundTransactionRepository\<close> and \<open>UploadBatchManager\<close>: the tables of an upload, saving the rows of a file in
  chunks inside one database transaction, the financial summary, and the updates of the batch record. An
  update of a record that does not exist is an exception (\<open>None\<close>). The file's chunk size is a natural number.
\<close>

section \<open>Tables\<close>

record fund_breakdown =
  fbk_transactions :: nat
  fbk_totalAmount :: money
  fbk_totalUnits :: rat
  fbk_deposits :: nat
  fbk_withdrawals :: nat

record financial_summary =
  fs_deposits :: money
  fs_withdrawals :: money
  fs_unitsIssued :: rat
  fs_unitsRedeemed :: rat
  fs_breakdown :: "(string, fund_breakdown) jsmap"

text \<open>The exceptions of a job; only whether the message contains \<open>Goal transaction validation failed\<close> matters to
  the handlers.\<close>

datatype job_error =
    Parse_Failed | No_Transactions | Upload_Rejected | Group_Validation_Failed | Record_Missing
  | Batch_Not_Found | Not_Approved | Creation_Failed | Missing_Foreign_Key nat | Invalid_Data

datatype saved_errors = No_Errors | Detailed "validation_error list" | Failure job_error

record upload_batch =
  ub_id :: nat
  ub_batchNumber :: string
  ub_fileName :: string
  ub_filePath :: string
  ub_processingStatus :: processing_status
  ub_validationStatus :: validation_status
  ub_totalRecords :: nat
  ub_processedRecords :: nat
  ub_failedRecords :: nat
  ub_newClients :: nat
  ub_newAccounts :: nat
  ub_newGoals :: nat
  ub_report :: "new_entities option"
  ub_newEntitiesStatus :: "approval_status option"
  ub_summary :: "financial_summary option"
  ub_groups :: "group_stats option"
  ub_validationErrors :: saved_errors
  ub_validationWarnings :: "validation_error list"
  ub_uploadedBy :: string
  ub_uploadedAt :: instant
  ub_startedAt :: "instant option"
  ub_completedAt :: "instant option"
  ub_approvedBy :: "string option"
  ub_approvedAt :: "instant option"

record fund_row =
  fw_txn :: parsed_fund
  fw_transactionId :: "string option"
  fw_clientId :: nat
  fw_accountId :: nat
  fw_goalId :: nat
  fw_fundId :: nat
  fw_batch :: nat

record invalid_row =
  iv_batch :: nat
  iv_transaction :: parsed_fund
  iv_errors :: "validation_error list"

text \<open>What a bank transaction refers to.\<close>

record bank_ref =
  bf_clientId :: nat
  bf_accountId :: nat
  bf_goalId :: nat

record upload_db =
  ud_batches :: "upload_batch list"
  ud_entities :: entity_tables
  ud_funds :: "fund_rec list"
  ud_rows :: "fund_row list"
  ud_invalid :: "invalid_row list"
  ud_bank :: "bank_ref list"
  ud_nextBatch :: nat

section \<open>The batch record\<close>

text \<open>The number of a batch.\<close>

definition generate_batch_number :: "civil \<Rightarrow> nat \<Rightarrow> string" where
  "generate_batch_number today random =
     ''BATCH-'' @ nat_digits (c_year today) @ pad2 (c_month today) @ pad2 (c_day today) @ ''-''
     @ pad_start 5 (nat_digits random)"

definition get_batch :: "upload_db \<Rightarrow> nat \<Rightarrow> upload_batch option" where
  "get_batch db bid = List.find (\<lambda>b. ub_id b = bid) (ud_batches db)"

definition new_batch :: "nat \<Rightarrow> string \<Rightarrow> string \<Rightarrow> string \<Rightarrow> string \<Rightarrow> instant \<Rightarrow> upload_batch" where
  "new_batch bid number fileName filePath uploadedBy now =
     \<lparr>ub_id = bid, ub_batchNumber = number, ub_fileName = fileName, ub_filePath = filePath,
      ub_processingStatus = QUEUED, ub_validationStatus = VS_PENDING, ub_totalRecords = 0, ub_processedRecords = 0,
      ub_failedRecords = 0, ub_newClients = 0, ub_newAccounts = 0, ub_newGoals = 0, ub_report = None,
      ub_newEntitiesStatus = None, ub_summary = None, ub_groups = None, ub_validationErrors = No_Errors,
      ub_validationWarnings = [], ub_uploadedBy = uploadedBy, ub_uploadedAt = now, ub_startedAt = None,
      ub_completedAt = None, ub_approvedBy = None, ub_approvedAt = None\<rparr>"

definition create_upload_batch :: "string \<Rightarrow> string \<Rightarrow> string \<Rightarrow> string \<Rightarrow> instant \<Rightarrow> upload_db \<Rightarrow> (upload_db \<times> nat) option" where
  "create_upload_batch number fileName filePath uploadedBy now db =
     (if number \<in> set (map ub_batchNumber (ud_batches db)) then None
      else Some (db\<lparr>ud_batches := ud_batches db @ [new_batch (ud_nextBatch db) number fileName filePath uploadedBy now],
                    ud_nextBatch := ud_nextBatch db + 1\<rparr>, ud_nextBatch db))"

definition update_batch :: "nat \<Rightarrow> (upload_batch \<Rightarrow> upload_batch) \<Rightarrow> upload_db \<Rightarrow> upload_db option" where
  "update_batch bid f db =
     (if get_batch db bid = None then None
      else Some (db\<lparr>ud_batches := update_where (\<lambda>b. ub_id b = bid) f (ud_batches db)\<rparr>))"

definition set_status :: "instant \<Rightarrow> processing_status \<Rightarrow> validation_status option \<Rightarrow> upload_batch \<Rightarrow> upload_batch" where
  "set_status now p v b =
     (let b1 = b\<lparr>ub_processingStatus := p\<rparr>;
          b2 = (case v of None \<Rightarrow> b1 | Some v \<Rightarrow> b1\<lparr>ub_validationStatus := v\<rparr>)
      in if p = PARSING then b2\<lparr>ub_startedAt := Some now\<rparr>
         else if p = COMPLETED \<or> p = FAILED then b2\<lparr>ub_completedAt := Some now\<rparr> else b2)"

definition update_batch_status :: "instant \<Rightarrow> nat \<Rightarrow> processing_status \<Rightarrow> validation_status option \<Rightarrow> upload_db \<Rightarrow> upload_db option" where
  "update_batch_status now bid p v = update_batch bid (set_status now p v)"

definition update_with_parsing_results :: "nat \<Rightarrow> nat \<Rightarrow> upload_db \<Rightarrow> upload_db option" where
  "update_with_parsing_results bid totalRecords =
     update_batch bid (\<lambda>b. b\<lparr>ub_totalRecords := totalRecords, ub_processingStatus := VALIDATING\<rparr>)"

definition update_with_validation_results :: "nat \<Rightarrow> nat \<Rightarrow> nat \<Rightarrow> validation_error list \<Rightarrow> validation_error list \<Rightarrow>
    validation_status \<Rightarrow> upload_db \<Rightarrow> upload_db option" where
  "update_with_validation_results bid processed failed errors warnings v =
     update_batch bid (\<lambda>b. b\<lparr>ub_processedRecords := processed, ub_failedRecords := failed,
       ub_validationErrors := Detailed errors, ub_validationWarnings := warnings, ub_validationStatus := v,
       ub_processingStatus := PROCESSING\<rparr>)"

definition update_with_new_entities :: "nat \<Rightarrow> new_entities \<Rightarrow> upload_db \<Rightarrow> upload_db option" where
  "update_with_new_entities bid r =
     update_batch bid (\<lambda>b. b\<lparr>ub_newClients := length (ne_clients r), ub_newAccounts := length (ne_accounts r),
       ub_newGoals := length (ne_goals r), ub_report := Some r, ub_newEntitiesStatus := Some EA_PENDING,
       ub_processingStatus := WAITING_FOR_APPROVAL\<rparr>)"

definition update_after_approval :: "instant \<Rightarrow> nat \<Rightarrow> bool \<Rightarrow> string \<Rightarrow> upload_db \<Rightarrow> upload_db option" where
  "update_after_approval now bid approved by =
     update_batch bid (\<lambda>b.
       let b1 = b\<lparr>ub_newEntitiesStatus := Some (if approved then EA_APPROVED else EA_REJECTED),
                  ub_approvedBy := Some by, ub_approvedAt := Some now\<rparr>
       in if approved then b1\<lparr>ub_processingStatus := PROCESSING\<rparr>
          else b1\<lparr>ub_processingStatus := FAILED, ub_completedAt := Some now\<rparr>)"

definition update_with_final_results :: "instant \<Rightarrow> nat \<Rightarrow> financial_summary \<Rightarrow> group_stats \<Rightarrow> upload_db \<Rightarrow> upload_db option" where
  "update_with_final_results now bid summary groups =
     update_batch bid (\<lambda>b. b\<lparr>ub_summary := Some summary, ub_groups := Some groups, ub_processingStatus := COMPLETED,
       ub_validationStatus := VS_PASSED, ub_completedAt := Some now\<rparr>)"

definition update_with_error :: "instant \<Rightarrow> nat \<Rightarrow> job_error \<Rightarrow> upload_db \<Rightarrow> upload_db option" where
  "update_with_error now bid e =
     update_batch bid (\<lambda>b. b\<lparr>ub_processingStatus := FAILED, ub_validationStatus := VS_FAILED,
       ub_validationErrors := Failure e, ub_completedAt := Some now\<rparr>)"

definition cancel_batch :: "instant \<Rightarrow> nat \<Rightarrow> upload_db \<Rightarrow> upload_db option" where
  "cancel_batch now bid = update_batch bid (\<lambda>b. b\<lparr>ub_processingStatus := CANCELED, ub_completedAt := Some now\<rparr>)"

text \<open>The list of batches, newest first, one page of it and the number of pages.\<close>

definition get_all_batches :: "nat option \<Rightarrow> nat option \<Rightarrow> upload_db \<Rightarrow> upload_batch list \<times> nat" where
  "get_all_batches page limit db =
     (let p = (case page of None \<Rightarrow> 1 | Some n \<Rightarrow> if n = 0 then 1 else n);
          l = (case limit of None \<Rightarrow> 20 | Some n \<Rightarrow> if n = 0 then 20 else n);
          newest = sort_key (\<lambda>b. - ub_uploadedAt b) (ud_batches db);
          n = length (ud_batches db)
      in (take l (drop ((p - 1) * l) newest), (n + l - 1) div l))"

section \<open>Saving transactions\<close>

text \<open>\<open>new Map(rows.map(r => [key, id]))\<close> over the rows fetched with \<open>in\<close>: of equal keys the last one wins.\<close>

definition last_id :: "('r \<Rightarrow> string) \<Rightarrow> ('r \<Rightarrow> nat) \<Rightarrow> string list \<Rightarrow> 'r list \<Rightarrow> string \<Rightarrow> nat option" where
  "last_id key ident wanted rows k =
     map_of (rev (map (\<lambda>r. (key r, ident r)) (filter (\<lambda>r. key r \<in> set wanted) rows))) k"

definition resolve_one :: "upload_db \<Rightarrow> parsed_fund list \<Rightarrow> nat \<Rightarrow> parsed_fund \<Rightarrow> job_error + fund_row" where
  "resolve_one db ts bid t =
     (case (last_id cr_name cr_id (map pf_clientName ts) (et_clients (ud_entities db)) (pf_clientName t),
            last_id ar_number ar_id (map pf_accountNumber ts) (et_accounts (ud_entities db)) (pf_accountNumber t),
            last_id gr_number gr_id (map pf_goalNumber ts) (et_goals (ud_entities db)) (pf_goalNumber t),
            last_id fr_code fr_id (map pf_fundCode ts) (ud_funds db) (pf_fundCode t)) of
        (Some c, Some a, Some g, Some f) \<Rightarrow>
          Inr \<lparr>fw_txn = t, fw_transactionId = (if pf_transactionId t = [] then None else Some (pf_transactionId t)),
               fw_clientId = c, fw_accountId = a, fw_goalId = g, fw_fundId = f, fw_batch = bid\<rparr>
      | _ \<Rightarrow> Inl (Missing_Foreign_Key (pf_rowNumber t)))"

fun map_result :: "('a \<Rightarrow> 'e + 'b) \<Rightarrow> 'a list \<Rightarrow> 'e + 'b list" where
  "map_result f [] = Inr []"
| "map_result f (x # xs) =
     (case f x of Inl e \<Rightarrow> Inl e
      | Inr y \<Rightarrow> (case map_result f xs of Inl e \<Rightarrow> Inl e | Inr ys \<Rightarrow> Inr (y # ys)))"

definition resolve_foreign_keys :: "upload_db \<Rightarrow> nat \<Rightarrow> parsed_fund list \<Rightarrow> job_error + fund_row list" where
  "resolve_foreign_keys db bid ts = map_result (resolve_one db ts bid) ts"

text \<open>What \<open>createMany\<close> accepts: a date in each date column, a value of the enumeration as the type, and numbers that fit
  their columns. The validator only warns of another type, so such a row gets here.\<close>

definition row_accepted :: "parsed_fund \<Rightarrow> bool" where
  "row_accepted t =
     (pf_transactionDate t \<noteq> None \<and> pf_dateCreated t \<noteq> None \<and> pf_transactionType t \<in> set allowed_types \<and>
      number_fits 18 2 (pf_amount t) \<and> number_fits 18 6 (pf_units t) \<and> number_fits 18 6 (pf_bidPrice t) \<and>
      number_fits 18 6 (pf_offerPrice t) \<and> number_fits 18 6 (pf_midPrice t))"

text \<open>\<open>createMany\<close> with \<open>skipDuplicates\<close>: a row that violates a uniqueness constraint is skipped.\<close>

definition conflicts :: "fund_row \<Rightarrow> fund_row \<Rightarrow> bool" where
  "conflicts r x =
     (pf_fundTransactionId (fw_txn x) = pf_fundTransactionId (fw_txn r) \<or>
      fw_batch x = fw_batch r \<and> pf_rowNumber (fw_txn x) = pf_rowNumber (fw_txn r))"

definition insert_row :: "fund_row list \<Rightarrow> fund_row \<Rightarrow> fund_row list" where
  "insert_row rows r = (if list_ex (conflicts r) rows then rows else rows @ [r])"

definition save_batch :: "nat \<Rightarrow> parsed_fund list \<Rightarrow> upload_db \<Rightarrow> job_error + upload_db" where
  "save_batch bid ts db =
     (case resolve_foreign_keys db bid ts of Inl e \<Rightarrow> Inl e
      | Inr rows \<Rightarrow>
          if \<not> list_all row_accepted ts then Inl Invalid_Data
          else if rows \<noteq> [] \<and> get_batch db bid = None then Inl Record_Missing
          else Inr (db\<lparr>ud_rows := foldl insert_row (ud_rows db) rows\<rparr>))"

text \<open>\<open>for (let i = 0; i < transactions.length; i += batchSize)\<close>, which need not end.\<close>

partial_function (option) save_loop ::
    "nat \<Rightarrow> nat \<Rightarrow> parsed_fund list \<Rightarrow> nat \<Rightarrow> upload_db \<Rightarrow> nat \<Rightarrow> (job_error + upload_db \<times> nat) option" where
  "save_loop batchSize bid ts i db saved =
     (if i < length ts
      then let batch = take batchSize (drop i ts)
           in case save_batch bid batch db of
                Inl e \<Rightarrow> Some (Inl e)
              | Inr db' \<Rightarrow> save_loop batchSize bid ts (i + batchSize) db' (saved + length batch)
      else Some (Inr (db, saved)))"

definition save_transactions :: "nat \<Rightarrow> nat \<Rightarrow> parsed_fund list \<Rightarrow> upload_db \<Rightarrow> (job_error + upload_db \<times> nat) option" where
  "save_transactions batchSize bid ts db = save_loop batchSize bid ts 0 db 0"

definition save_invalid_transactions :: "nat \<Rightarrow> (parsed_fund \<times> validation_error list) list \<Rightarrow> upload_db \<Rightarrow> upload_db option" where
  "save_invalid_transactions bid items db =
     (if items = [] then Some db
      else if get_batch db bid = None then None
      else Some (db\<lparr>ud_invalid := ud_invalid db @
             map (\<lambda>(t, es). \<lparr>iv_batch = bid, iv_transaction = t, iv_errors = es\<rparr>) items\<rparr>))"

definition delete_transactions :: "nat \<Rightarrow> upload_db \<Rightarrow> upload_db" where
  "delete_transactions bid db =
     db\<lparr>ud_rows := filter (\<lambda>r. fw_batch r \<noteq> bid) (ud_rows db), ud_invalid := filter (\<lambda>r. iv_batch r \<noteq> bid) (ud_invalid db)\<rparr>"

definition transactions_of_batch :: "upload_db \<Rightarrow> nat \<Rightarrow> fund_row list" where
  "transactions_of_batch db bid =
     sort_key (\<lambda>r. - the (pf_transactionDate (fw_txn r))) (sort_key (\<lambda>r. pf_rowNumber (fw_txn r))
       (filter (\<lambda>r. fw_batch r = bid) (ud_rows db)))"

definition invalid_of_batch :: "upload_db \<Rightarrow> nat \<Rightarrow> invalid_row list" where
  "invalid_of_batch db bid =
     sort_key (\<lambda>r. pf_rowNumber (iv_transaction r)) (filter (\<lambda>r. iv_batch r = bid) (ud_invalid db))"

section \<open>The financial summary\<close>

definition is_deposit :: "parsed_fund \<Rightarrow> bool" where
  "is_deposit t = (pf_transactionType t = ''DEPOSIT'')"

definition is_outflow :: "parsed_fund \<Rightarrow> bool" where
  "is_outflow t = (pf_transactionType t = ''WITHDRAWAL'' \<or> pf_transactionType t = ''REDEMPTION'')"

definition breakdown_add :: "fund_breakdown \<Rightarrow> parsed_fund \<Rightarrow> fund_breakdown" where
  "breakdown_add b t =
     (let b1 = b\<lparr>fbk_transactions := fbk_transactions b + 1, fbk_totalAmount := fbk_totalAmount b + amount_of t,
                 fbk_totalUnits := fbk_totalUnits b + units_of t\<rparr>
      in if is_deposit t then b1\<lparr>fbk_deposits := fbk_deposits b + 1\<rparr>
         else if is_outflow t then b1\<lparr>fbk_withdrawals := fbk_withdrawals b + 1\<rparr> else b1)"

definition empty_breakdown :: fund_breakdown where
  "empty_breakdown = \<lparr>fbk_transactions = 0, fbk_totalAmount = 0, fbk_totalUnits = 0, fbk_deposits = 0, fbk_withdrawals = 0\<rparr>"

definition summary_step :: "financial_summary \<Rightarrow> parsed_fund \<Rightarrow> financial_summary" where
  "summary_step s t =
     (let s1 = s\<lparr>fs_breakdown := map_set (fs_breakdown s) (pf_fundCode t)
                   (breakdown_add (case map_get (fs_breakdown s) (pf_fundCode t) of None \<Rightarrow> empty_breakdown | Some b \<Rightarrow> b) t)\<rparr>
      in if is_deposit t
         then s1\<lparr>fs_deposits := fs_deposits s + amount_of t, fs_unitsIssued := fs_unitsIssued s + units_of t\<rparr>
         else if is_outflow t
         then s1\<lparr>fs_withdrawals := fs_withdrawals s + amount_of t, fs_unitsRedeemed := fs_unitsRedeemed s + units_of t\<rparr>
         else s1)"

definition calculate_summary :: "parsed_fund list \<Rightarrow> financial_summary" where
  "calculate_summary ts =
     foldl summary_step \<lparr>fs_deposits = 0, fs_withdrawals = 0, fs_unitsIssued = 0, fs_unitsRedeemed = 0, fs_breakdown = []\<rparr> ts"

text \<open>Whether the totals fit the columns of the batch record.\<close>

definition summary_fits :: "financial_summary \<Rightarrow> bool" where
  "summary_fits s =
     (fits_decimal 18 2 (fs_deposits s) \<and> fits_decimal 18 2 (fs_withdrawals s) \<and>
      fits_decimal 18 6 (fs_unitsIssued s) \<and> fits_decimal 18 6 (fs_unitsRedeemed s))"

end
