(* ===== verification/FundStoreProperties.thy ===== *)
theory FundStoreProperties
  imports FundStore
begin

text \<open>
  What saving, summarising and listing do: the chunked save ends exactly for a positive chunk size and then does not
  depend on it, the summary adds up, and the pages of the batch list partition it.
\<close>

section \<open>The loop\<close>

lemma save_batch_nil [simp]: "save_batch bid [] db = Inr db"
  by (simp add: save_batch_def resolve_foreign_keys_def)

lemma save_loop_zero: "save_loop chunk bid ts i db n = Some r \<Longrightarrow> chunk = 0 \<longrightarrow> \<not> i < length ts"
proof (erule save_loop.raw_induct [rotated])
  fix loop chunk bid ts i db n r
  assume "\<And>chunk bid ts i db n r. loop chunk bid ts i db n = Some r \<Longrightarrow> chunk = 0 \<longrightarrow> \<not> i < length (ts :: parsed_fund list)"
    and "(if i < length ts then let batch = take chunk (drop i ts) in
           case save_batch bid batch db of Inl e \<Rightarrow> Some (Inl e)
           | Inr db' \<Rightarrow> loop chunk bid ts (i + chunk) db' (n + length batch)
         else Some (Inr (db, n))) = Some r"
  then show "chunk = 0 \<longrightarrow> \<not> i < length ts"
    by (cases "i < length ts"; cases "chunk = 0") (fastforce simp: Let_def)+
qed

lemma save_loop_total: "chunk > 0 \<Longrightarrow> \<exists>r. save_loop chunk bid ts i db n = Some r"
proof (induction "length ts - i" arbitrary: i db n rule: less_induct)
  case less
  show ?case
  proof (cases "i < length ts")
    case True
    then have "length ts - (i + chunk) < length ts - i" using less.prems by simp
    with less True show ?thesis
      by (subst save_loop.simps) (auto simp: Let_def split: sum.splits)
  qed (subst save_loop.simps, simp)
qed

text \<open>Saving returns exactly if the configured chunk size is positive or there is nothing to save; with a size of
  0 the loop over the chunks never ends.\<close>

theorem save_returns_iff:
  "save_transactions chunk bid ts db \<noteq> None \<longleftrightarrow> chunk > 0 \<or> ts = []"
proof (cases "chunk = 0")
  case True
  then show ?thesis
    using save_loop_zero [of chunk bid ts 0 db 0]
    by (cases "save_transactions chunk bid ts db") (auto simp: save_transactions_def save_loop.simps [of _ _ "[]"])
next
  case False
  then show ?thesis using save_loop_total [of chunk bid ts 0 db 0] by (auto simp: save_transactions_def)
qed

section \<open>Chunks do not matter\<close>

text \<open>The reference: resolve every row against the whole tables, then insert the rows one after the other.\<close>

definition stored_id :: "('r \<Rightarrow> string) \<Rightarrow> ('r \<Rightarrow> nat) \<Rightarrow> 'r list \<Rightarrow> string \<Rightarrow> nat option" where
  "stored_id key ident rows k = map_of (rev (map (\<lambda>r. (key r, ident r)) rows)) k"

lemma last_id_wanted: "k \<in> set wanted \<Longrightarrow> last_id key ident wanted rows k = stored_id key ident rows k"
  unfolding last_id_def stored_id_def
  by (induction rows) (auto simp: map_add_def split: option.splits)

definition resolve_row :: "upload_db \<Rightarrow> nat \<Rightarrow> parsed_fund \<Rightarrow> job_error + fund_row" where
  "resolve_row db bid t =
     (case (stored_id cr_name cr_id (et_clients (ud_entities db)) (pf_clientName t),
            stored_id ar_number ar_id (et_accounts (ud_entities db)) (pf_accountNumber t),
            stored_id gr_number gr_id (et_goals (ud_entities db)) (pf_goalNumber t),
            stored_id fr_code fr_id (ud_funds db) (pf_fundCode t)) of
        (Some c, Some a, Some g, Some f) \<Rightarrow>
          Inr \<lparr>fw_txn = t, fw_transactionId = (if pf_transactionId t = [] then None else Some (pf_transactionId t)),
               fw_clientId = c, fw_accountId = a, fw_goalId = g, fw_fundId = f, fw_batch = bid\<rparr>
      | _ \<Rightarrow> Inl (Missing_Foreign_Key (pf_rowNumber t)))"

lemma resolve_one_row: "t \<in> set ts \<Longrightarrow> resolve_one db ts bid t = resolve_row db bid t"
  by (simp add: resolve_one_def resolve_row_def last_id_wanted)

lemma map_result_cong [fundef_cong]: "xs = ys \<Longrightarrow> (\<And>x. x \<in> set ys \<Longrightarrow> f x = g x) \<Longrightarrow> map_result f xs = map_result g ys"
  by (induction ys arbitrary: xs) (auto split: sum.splits)

lemma resolve_keys_rows: "resolve_foreign_keys db bid ts = map_result (resolve_row db bid) ts"
  unfolding resolve_foreign_keys_def by (rule map_result_cong) (simp_all add: resolve_one_row)

lemma map_result_append:
  "map_result f (xs @ ys) = (case map_result f xs of Inl e \<Rightarrow> Inl e
     | Inr us \<Rightarrow> (case map_result f ys of Inl e \<Rightarrow> Inl e | Inr vs \<Rightarrow> Inr (us @ vs)))"
  by (induction xs) (auto split: sum.splits)

lemma map_result_Inr_iff: "(\<exists>ys. map_result f xs = Inr ys) \<longleftrightarrow> (\<forall>x \<in> set xs. \<exists>y. f x = Inr y)"
  by (induction xs) (auto split: sum.splits)

lemma map_result_Inr: "map_result f xs = Inr ys \<Longrightarrow> list_all2 (\<lambda>x y. f x = Inr y) xs ys"
  by (induction xs arbitrary: ys) (auto split: sum.splits)

text \<open>A file can be saved if every row resolves and is accepted. Which error a file has that cannot depends on the chunks.\<close>

definition savable :: "upload_db \<Rightarrow> nat \<Rightarrow> parsed_fund list \<Rightarrow> bool" where
  "savable db bid ts = (\<forall>t \<in> set ts. (\<exists>r. resolve_row db bid t = Inr r) \<and> row_accepted t)"

definition save_error :: "upload_db \<Rightarrow> nat \<Rightarrow> parsed_fund list \<Rightarrow> job_error \<Rightarrow> bool" where
  "save_error db bid ts e =
     ((\<exists>t \<in> set ts. resolve_row db bid t = Inl e) \<or> e = Invalid_Data \<and> (\<exists>t \<in> set ts. \<not> row_accepted t))"

text \<open>What the remaining iterations do.\<close>

fun rest_saved :: "nat \<Rightarrow> parsed_fund list \<Rightarrow> upload_db \<Rightarrow> nat \<Rightarrow> job_error + upload_db \<times> nat \<Rightarrow> bool" where
  "rest_saved bid ts db n (Inl e) = (\<not> savable db bid ts \<and> save_error db bid ts e)"
| "rest_saved bid ts db n (Inr (db', m)) = (savable db bid ts \<and> m = n + length ts \<and>
     (\<exists>rows. map_result (resolve_row db bid) ts = Inr rows \<and> db' = db\<lparr>ud_rows := foldl insert_row (ud_rows db) rows\<rparr>))"

lemma resolve_row_rows [simp]: "resolve_row (db\<lparr>ud_rows := rows\<rparr>) bid = resolve_row db bid"
  by (simp add: resolve_row_def fun_eq_iff)

lemma get_batch_rows [simp]: "get_batch (db\<lparr>ud_rows := rows\<rparr>) bid = get_batch db bid"
  by (simp add: get_batch_def)

lemma savable_append: "savable db bid (xs @ ys) \<longleftrightarrow> savable db bid xs \<and> savable db bid ys"
  by (auto simp: savable_def)

lemma save_error_append: "save_error db bid (xs @ ys) e \<longleftrightarrow> save_error db bid xs e \<or> save_error db bid ys e"
  by (auto simp: save_error_def)

lemma map_result_Inl: "map_result f xs = Inl e \<Longrightarrow> \<exists>x \<in> set xs. f x = Inl e"
  by (induction xs) (auto split: sum.splits)

lemma unsaved_row:
  assumes "t \<in> set ts" "resolve_row db bid t = Inl e"
  shows "\<not> savable db bid ts" "save_error db bid ts e"
  using assms unfolding savable_def save_error_def by fastforce+

lemma unaccepted_row:
  assumes "\<not> list_all row_accepted ts"
  shows "\<not> savable db bid ts" "save_error db bid ts Invalid_Data"
  using assms unfolding savable_def save_error_def list_all_iff by blast+

lemma save_batch_outcome:
  assumes "get_batch db bid \<noteq> None"
  shows "case save_batch bid ts db of Inl e \<Rightarrow> \<not> savable db bid ts \<and> save_error db bid ts e
    | Inr db' \<Rightarrow> rest_saved bid ts db 0 (Inr (db', length ts))"
proof (cases "map_result (resolve_row db bid) ts")
  case (Inl e)
  have "save_batch bid ts db = Inl e" unfolding save_batch_def resolve_keys_rows Inl by (simp only: sum.case)
  moreover obtain t where "t \<in> set ts" "resolve_row db bid t = Inl e" using map_result_Inl [OF Inl] by blast
  ultimately show ?thesis by (simp only: sum.case unsaved_row not_False_eq_True simp_thms)
next
  case (Inr rows)
  show ?thesis
  proof (cases "list_all row_accepted ts")
    case True
    have "save_batch bid ts db = Inr (db\<lparr>ud_rows := foldl insert_row (ud_rows db) rows\<rparr>)"
      unfolding save_batch_def resolve_keys_rows Inr sum.case using True assms by (simp only: not_True_eq_False if_False) simp
    moreover have "\<forall>t \<in> set ts. \<exists>r. resolve_row db bid t = Inr r" unfolding map_result_Inr_iff [symmetric] Inr by blast
    then have "savable db bid ts" using True unfolding savable_def list_all_iff by blast
    ultimately show ?thesis by (simp only: sum.case rest_saved.simps Inr add_0 simp_thms) blast
  next
    case False
    then have "save_batch bid ts db = Inl Invalid_Data"
      unfolding save_batch_def resolve_keys_rows Inr sum.case by (simp only: not_False_eq_True if_True)
    then show ?thesis by (simp only: sum.case unaccepted_row [OF False] not_False_eq_True simp_thms)
  qed
qed

lemma rest_saved_append:
  assumes "rest_saved bid xs db 0 (Inr (db1, k))" "rest_saved bid ys db1 (n + k) r"
  shows "rest_saved bid (xs @ ys) db n r"
proof -
  obtain rows where rows: "map_result (resolve_row db bid) xs = Inr rows" "db1 = db\<lparr>ud_rows := foldl insert_row (ud_rows db) rows\<rparr>"
    "savable db bid xs" "k = length xs" using assms(1) by auto
  have same: "savable db1 bid ys = savable db bid ys" "save_error db1 bid ys = save_error db bid ys"
    by (simp_all add: savable_def save_error_def rows(2) fun_eq_iff)
  show ?thesis
    using assms(2) rows same by (cases r) (auto simp: savable_append save_error_append map_result_append)
qed

lemma save_loop_rest:
  "chunk > 0 \<Longrightarrow> get_batch db bid \<noteq> None \<Longrightarrow> \<exists>r. save_loop chunk bid ts i db n = Some r \<and> rest_saved bid (drop i ts) db n r"
proof (induction "length ts - i" arbitrary: i db n rule: less_induct)
  case less
  show ?case
  proof (cases "i < length ts")
    case True
    let ?c = "take chunk (drop i ts)" and ?d = "drop (i + chunk) ts"
    have smaller: "length ts - (i + chunk) < length ts - i" using True less.prems(1) by simp
    have split: "drop i ts = ?c @ ?d" by (metis append_take_drop_id drop_drop add.commute)
    have chunk: "case save_batch bid ?c db of Inl e \<Rightarrow> \<not> savable db bid ?c \<and> save_error db bid ?c e
      | Inr db' \<Rightarrow> rest_saved bid ?c db 0 (Inr (db', length ?c))"
      by (rule save_batch_outcome [OF less.prems(2)])
    show ?thesis
    proof (cases "save_batch bid ?c db")
      case (Inl e)
      then have "save_loop chunk bid ts i db n = Some (Inl e)" using True by (subst save_loop.simps) (simp add: Let_def)
      moreover have "rest_saved bid (?c @ ?d) db n (Inl e)" using chunk Inl by (simp add: savable_append save_error_append)
      ultimately show ?thesis by (metis split)
    next
      case (Inr db1)
      with chunk have saved: "rest_saved bid ?c db 0 (Inr (db1, length ?c))" by simp
      then have "get_batch db1 bid \<noteq> None" using less.prems(2) by auto
      from less.hyps [OF smaller less.prems(1) this, of "n + length ?c"] obtain r where
        r: "save_loop chunk bid ts (i + chunk) db1 (n + length ?c) = Some r" "rest_saved bid ?d db1 (n + length ?c) r" by blast
      have "save_loop chunk bid ts i db n = Some r" using True Inr r(1) by (subst save_loop.simps) (simp add: Let_def)
      moreover have "rest_saved bid (?c @ ?d) db n r" by (rule rest_saved_append [OF saved r(2)])
      ultimately show ?thesis by (metis split)
    qed
  qed (subst save_loop.simps, simp add: savable_def)
qed

lemma save_transactions_outcome:
  assumes "chunk > 0" "get_batch db bid \<noteq> None"
  obtains r where "save_transactions chunk bid ts db = Some r" "rest_saved bid ts db 0 r"
  using save_loop_rest [OF assms, of ts 0 0] by (auto simp: save_transactions_def)

text \<open>What a row finds in the table: it is skipped exactly if some row there conflicts with it.\<close>

lemma insert_rows_mono: "set rows \<subseteq> set (foldl insert_row rows new)"
proof (induction new arbitrary: rows)
  case (Cons r new)
  have "set rows \<subseteq> set (insert_row rows r)" by (auto simp: insert_row_def)
  with Cons.IH [of "insert_row rows r"] show ?case by auto
qed simp

lemma insert_rows_cover:
  "r \<in> set new \<Longrightarrow> list_ex (conflicts r) (foldl insert_row rows new)"
proof (induction new arbitrary: rows)
  case (Cons x new)
  show ?case
  proof (cases "r = x")
    case True
    have "list_ex (conflicts r) (insert_row rows r)" by (auto simp: insert_row_def conflicts_def)
    with True insert_rows_mono [of "insert_row rows r" new] show ?thesis
      by (auto simp: list_ex_iff)
  next
    case False
    with Cons show ?thesis by simp
  qed
qed simp

lemma insert_rows_upper: "set (foldl insert_row rows new) \<subseteq> set rows \<union> set new"
proof (induction new arbitrary: rows)
  case (Cons r new)
  have "set (insert_row rows r) \<subseteq> set rows \<union> {r}" by (auto simp: insert_row_def)
  with Cons.IH [of "insert_row rows r"] show ?case by auto
qed simp

text \<open>No two stored rows share a fund transaction id or the place in a batch.\<close>

definition rows_unique :: "fund_row list \<Rightarrow> bool" where
  "rows_unique rows = (\<forall>i < length rows. \<forall>j < length rows. i \<noteq> j \<longrightarrow> \<not> conflicts (rows ! i) (rows ! j))"

lemma conflicts_sym: "conflicts a b \<longleftrightarrow> conflicts b a"
  by (auto simp: conflicts_def)

lemma rows_unique_insert: "rows_unique rows \<Longrightarrow> rows_unique (insert_row rows r)"
  unfolding rows_unique_def insert_row_def list_ex_iff
  by (auto simp: nth_append less_Suc_eq conflicts_sym dest: nth_mem)

lemma rows_unique_fold: "rows_unique rows \<Longrightarrow> rows_unique (foldl insert_row rows new)"
  by (induction new arbitrary: rows) (simp_all add: rows_unique_insert)

text \<open>C11: saving a file does not depend on the chunks: for an existing batch, and whatever the positive chunk size, the save
  succeeds exactly if every row names a client, account, goal and fund that exist and every row is accepted by its
  columns (a type of the enumeration, dates present, numbers within range). Then every size leaves the same table: the rows
  are inserted in order, uniqueness is kept, and each row of the file is stored or finds a conflicting row; the reported count
  is that of the file even if rows were skipped. Otherwise no size stores anything, and the error is that of some row.\<close>

theorem save_independent_of_chunks:
  assumes "get_batch db bid \<noteq> None" "rows_unique (ud_rows db)"
  shows "if savable db bid ts
    then \<exists>db' rows. (\<forall>chunk > 0. save_transactions chunk bid ts db = Some (Inr (db', length ts))) \<and>
      list_all2 (\<lambda>t r. resolve_row db bid t = Inr r) ts rows \<and> db' = db\<lparr>ud_rows := foldl insert_row (ud_rows db) rows\<rparr> \<and>
      rows_unique (ud_rows db') \<and> list_all (\<lambda>r. list_ex (conflicts r) (ud_rows db')) rows
    else \<forall>chunk > 0. \<exists>e. save_transactions chunk bid ts db = Some (Inl e) \<and> save_error db bid ts e"
proof (cases "savable db bid ts")
  case True
  then have "\<forall>t \<in> set ts. \<exists>r. resolve_row db bid t = Inr r" by (simp add: savable_def)
  then obtain rows where rows: "map_result (resolve_row db bid) ts = Inr rows"
    unfolding map_result_Inr_iff [symmetric] by blast
  have "save_transactions chunk bid ts db = Some (Inr (db\<lparr>ud_rows := foldl insert_row (ud_rows db) rows\<rparr>, length ts))"
    if pos: "chunk > 0" for chunk
  proof -
    obtain r where "save_transactions chunk bid ts db = Some r" "rest_saved bid ts db 0 r"
      using pos assms(1) by (rule save_transactions_outcome)
    then show ?thesis using True rows by (cases r) auto
  qed
  moreover have "list_all (\<lambda>r. list_ex (conflicts r) (foldl insert_row (ud_rows db) rows)) rows"
    by (simp add: list_all_iff insert_rows_cover)
  ultimately show ?thesis
    unfolding if_P [OF True] using map_result_Inr [OF rows] rows_unique_fold [OF assms(2), of rows]
    by (intro exI [of _ "db\<lparr>ud_rows := foldl insert_row (ud_rows db) rows\<rparr>"] exI [of _ rows]) simp
next
  case False
  have "\<exists>e. save_transactions chunk bid ts db = Some (Inl e) \<and> save_error db bid ts e" if pos: "chunk > 0" for chunk
  proof -
    obtain r where "save_transactions chunk bid ts db = Some r" "rest_saved bid ts db 0 r"
      using pos assms(1) by (rule save_transactions_outcome)
    then show ?thesis using False by (cases r) auto
  qed
  then show ?thesis using False by simp
qed

section \<open>The financial summary\<close>

lemma summary_fold:
  "fs_deposits (foldl summary_step s ts) = fs_deposits s + sum_list (map amount_of (filter is_deposit ts)) \<and>
   fs_withdrawals (foldl summary_step s ts) = fs_withdrawals s + sum_list (map amount_of (filter is_outflow ts)) \<and>
   fs_unitsIssued (foldl summary_step s ts) = fs_unitsIssued s + sum_list (map units_of (filter is_deposit ts)) \<and>
   fs_unitsRedeemed (foldl summary_step s ts) = fs_unitsRedeemed s + sum_list (map units_of (filter is_outflow ts)) \<and>
   fs_breakdown (foldl summary_step s ts) =
     foldl (\<lambda>m t. map_set m (pf_fundCode t)
       (breakdown_add (case map_get m (pf_fundCode t) of None \<Rightarrow> empty_breakdown | Some b \<Rightarrow> b) t)) (fs_breakdown s) ts"
proof (induction ts arbitrary: s)
  case (Cons t ts)
  have "\<not> (is_deposit t \<and> is_outflow t)" by (auto simp: is_deposit_def is_outflow_def)
  with Cons.IH [of "summary_step s t"] show ?case by (auto simp: summary_step_def Let_def)
qed simp

lemma breakdown_fold:
  "fbk_transactions (foldl breakdown_add b ts) = fbk_transactions b + length ts \<and>
   fbk_totalAmount (foldl breakdown_add b ts) = fbk_totalAmount b + sum_list (map amount_of ts) \<and>
   fbk_totalUnits (foldl breakdown_add b ts) = fbk_totalUnits b + sum_list (map units_of ts) \<and>
   fbk_deposits (foldl breakdown_add b ts) = fbk_deposits b + length (filter is_deposit ts) \<and>
   fbk_withdrawals (foldl breakdown_add b ts) = fbk_withdrawals b + length (filter is_outflow ts)"
proof (induction ts arbitrary: b)
  case (Cons t ts)
  have "\<not> (is_deposit t \<and> is_outflow t)" by (auto simp: is_deposit_def is_outflow_def)
  with Cons.IH [of "breakdown_add b t"] show ?case by (auto simp: breakdown_add_def Let_def)
qed simp

lemma summary_breakdown:
  "fs_breakdown (calculate_summary ts) = accumulate pf_fundCode (\<lambda>_. empty_breakdown) breakdown_add ts"
  using summary_fold [of "\<lparr>fs_deposits = 0, fs_withdrawals = 0, fs_unitsIssued = 0, fs_unitsRedeemed = 0, fs_breakdown = []\<rparr>" ts]
  by (simp add: calculate_summary_def accumulate_def)

lemma breakdown_entry:
  assumes "(k, b) \<in> set (accumulate pf_fundCode (\<lambda>_. empty_breakdown) breakdown_add ts)"
  shows "fbk_totalAmount b = sum_list (map amount_of (filter (\<lambda>t. pf_fundCode t = k) ts))"
proof -
  obtain y ys where "filter (\<lambda>t. pf_fundCode t = k) ts = y # ys" "b = foldl breakdown_add empty_breakdown (y # ys)"
    using assms by (rule entry_accumulate)
  then show ?thesis using breakdown_fold [of empty_breakdown "y # ys"] by (simp only: empty_breakdown_def fund_breakdown.simps add_0)
qed

lemma breakdown_total:
  "sum_list (map (fbk_totalAmount \<circ> snd) (accumulate pf_fundCode (\<lambda>_. empty_breakdown) breakdown_add ts)) =
   sum_list (map amount_of ts)" (is "sum_list (map _ ?b) = _")
proof -
  have "map (fbk_totalAmount \<circ> snd) ?b = map (\<lambda>k. sum_list (map amount_of (filter (\<lambda>t. pf_fundCode t = k) ts))) (map fst ?b)"
    using breakdown_entry [of _ _ ts] by (auto simp: comp_def)
  then have "sum_list (map (fbk_totalAmount \<circ> snd) ?b) =
      sum_list (map amount_of (concat (map (\<lambda>k. filter (\<lambda>t. pf_fundCode t = k) ts) (map fst ?b))))"
    unfolding sum_list_map_concat by (simp only: map_map comp_def)
  also have "\<dots> = sum_list (map amount_of ts)"
    by (rule sum_list_map_mset, rule mset_concat_partition) simp_all
  finally show ?thesis .
qed

lemma breakdown_of_fund:
  "case map_get (accumulate pf_fundCode (\<lambda>_. empty_breakdown) breakdown_add ts) code of
      None \<Rightarrow> code \<notin> pf_fundCode ` set ts
    | Some b \<Rightarrow> let mine = filter (\<lambda>t. pf_fundCode t = code) ts
               in mine \<noteq> [] \<and> fbk_transactions b = length mine \<and> fbk_totalAmount b = sum_list (map amount_of mine) \<and>
                  fbk_totalUnits b = sum_list (map units_of mine) \<and> fbk_deposits b = length (filter is_deposit mine) \<and>
                  fbk_withdrawals b = length (filter is_outflow mine)"
proof (cases "filter (\<lambda>t. pf_fundCode t = code) ts")
  case Nil
  then show ?thesis by (auto simp: map_get_accumulate filter_empty_conv)
next
  case (Cons y ys)
  then show ?thesis
    using breakdown_fold [of empty_breakdown "y # ys"]
    by (simp add: map_get_accumulate Let_def del: foldl_Cons filter.simps list.map sum_list.Cons) (simp add: empty_breakdown_def)
qed

text \<open>The financial summary of a batch adds up: deposits and outflows are the sums over their rows, each fund of the
  breakdown has exactly its rows, and the breakdown's amounts sum to the total of the batch.\<close>

theorem financial_summary_correct:
  "fs_deposits (calculate_summary ts) = sum_list (map amount_of (filter is_deposit ts)) \<and>
   fs_withdrawals (calculate_summary ts) = sum_list (map amount_of (filter is_outflow ts)) \<and>
   (case map_get (fs_breakdown (calculate_summary ts)) code of
      None \<Rightarrow> code \<notin> pf_fundCode ` set ts
    | Some b \<Rightarrow> let mine = filter (\<lambda>t. pf_fundCode t = code) ts
               in mine \<noteq> [] \<and> fbk_transactions b = length mine \<and> fbk_totalAmount b = sum_list (map amount_of mine) \<and>
                  fbk_totalUnits b = sum_list (map units_of mine) \<and> fbk_deposits b = length (filter is_deposit mine) \<and>
                  fbk_withdrawals b = length (filter is_outflow mine)) \<and>
   sum_list (map (fbk_totalAmount \<circ> snd) (fs_breakdown (calculate_summary ts))) = total_amount ts"
proof -
  let ?b = "accumulate pf_fundCode (\<lambda>_. empty_breakdown) breakdown_add ts"
  have "sum_list (map (fbk_totalAmount \<circ> snd) ?b) = total_amount ts"
    using breakdown_total by (simp add: total_amount_def foldl_plus)
  then show ?thesis
    using summary_fold [of "\<lparr>fs_deposits = 0, fs_withdrawals = 0, fs_unitsIssued = 0, fs_unitsRedeemed = 0, fs_breakdown = []\<rparr>" ts]
      breakdown_of_fund [of code ts]
    by (simp only: summary_breakdown) (simp add: calculate_summary_def)
qed

section \<open>Pages\<close>

lemma concat_pages: "concat (map (\<lambda>k. take l (drop (k * l) xs)) [0..<n]) = take (n * l) xs"
proof (induction n)
  case (Suc n)
  then show ?case using take_add [of "n * l" l xs] by (simp add: add.commute)
qed simp

lemma length_le_pages: "l > 0 \<Longrightarrow> n \<le> (n + l - 1) div l * l" for n l :: nat
proof -
  assume "l > 0"
  then have "(n + l - 1) mod l < l" by simp
  moreover have "(n + l - 1) div l * l + (n + l - 1) mod l = n + l - 1" by simp
  ultimately show "n \<le> (n + l - 1) div l * l" using \<open>l > 0\<close> by linarith
qed

text \<open>Going through the pages of the batch list shows every batch exactly once, newest first.\<close>

theorem pages_partition_batches:
  "concat (map (\<lambda>k. fst (get_all_batches (Some (Suc k)) limit db)) [0..<snd (get_all_batches page limit db)]) =
     sort_key (\<lambda>b. - ub_uploadedAt b) (ud_batches db)"
proof -
  define l where "l = (case limit of None \<Rightarrow> 20 | Some n \<Rightarrow> if n = 0 then 20 else n)"
  have pos: "l > 0" by (simp add: l_def split: option.splits)
  let ?xs = "sort_key (\<lambda>b. - ub_uploadedAt b) (ud_batches db)"
  have "length ?xs \<le> (length ?xs + l - 1) div l * l"
    using pos by (rule length_le_pages)
  then show ?thesis
    using concat_pages [of l ?xs "(length ?xs + l - 1) div l"] by (simp add: get_all_batches_def Let_def flip: l_def)
qed

end
