(* ===== verification/FundRollback.thy ===== *)
theory FundRollback
  imports FundStoreProperties
begin

text \<open>
  \<open>BatchRollbackService\<close>: deleting a batch with its transactions and the goals, accounts and clients it leaves
  orphaned, in one database transaction. A delete that a foreign key restricts, or of a record that does not
  exist, aborts the transaction (\<open>None\<close>).
\<close>

section \<open>The deletions\<close>

definition delete_goal :: "upload_db \<Rightarrow> nat \<Rightarrow> upload_db option" where
  "delete_goal db g =
     (if \<not> list_ex (\<lambda>r. gr_id r = g) (et_goals (ud_entities db)) then None
      else if list_ex (\<lambda>r. fw_goalId r = g) (ud_rows db) \<or> list_ex (\<lambda>b. bf_goalId b = g) (ud_bank db) then None
      else Some (db\<lparr>ud_entities := (ud_entities db)\<lparr>et_goals := filter (\<lambda>r. gr_id r \<noteq> g) (et_goals (ud_entities db))\<rparr>\<rparr>))"

definition delete_account :: "upload_db \<Rightarrow> nat \<Rightarrow> upload_db option" where
  "delete_account db a =
     (if \<not> list_ex (\<lambda>r. ar_id r = a) (et_accounts (ud_entities db)) then None
      else if list_ex (\<lambda>r. fw_accountId r = a) (ud_rows db) \<or> list_ex (\<lambda>b. bf_accountId b = a) (ud_bank db) then None
      else Some (db\<lparr>ud_entities := (ud_entities db)\<lparr>et_accounts := filter (\<lambda>r. ar_id r \<noteq> a) (et_accounts (ud_entities db))\<rparr>\<rparr>))"

definition delete_client :: "upload_db \<Rightarrow> nat \<Rightarrow> upload_db option" where
  "delete_client db c =
     (if \<not> list_ex (\<lambda>r. cr_id r = c) (et_clients (ud_entities db)) then None
      else if list_ex (\<lambda>r. fw_clientId r = c) (ud_rows db) \<or> list_ex (\<lambda>b. bf_clientId b = c) (ud_bank db) then None
      else Some (db\<lparr>ud_entities := (ud_entities db)\<lparr>et_clients := filter (\<lambda>r. cr_id r \<noteq> c) (et_clients (ud_entities db))\<rparr>\<rparr>))"

text \<open>The conditions of the three loops.\<close>

definition goal_orphaned :: "upload_db \<Rightarrow> nat \<Rightarrow> bool" where
  "goal_orphaned db g =
     (count_where (\<lambda>r. fw_goalId r = g) (ud_rows db) = 0 \<and> count_where (\<lambda>b. bf_goalId b = g) (ud_bank db) = 0)"

definition account_orphaned :: "upload_db \<Rightarrow> nat \<Rightarrow> bool" where
  "account_orphaned db a = (count_where (\<lambda>r. gr_accountId r = a) (et_goals (ud_entities db)) = 0)"

definition client_orphaned :: "upload_db \<Rightarrow> nat \<Rightarrow> bool" where
  "client_orphaned db c = (count_where (\<lambda>r. ar_clientId r = c) (et_accounts (ud_entities db)) = 0)"

fun delete_orphans :: "('db \<Rightarrow> nat \<Rightarrow> bool) \<Rightarrow> ('db \<Rightarrow> nat \<Rightarrow> 'db option) \<Rightarrow> 'db \<Rightarrow> nat list \<Rightarrow>
    ('db \<times> nat) option" where
  "delete_orphans orphaned delete db [] = Some (db, 0)"
| "delete_orphans orphaned delete db (x # xs) =
     (if orphaned db x
      then (case delete db x of None \<Rightarrow> None
            | Some db' \<Rightarrow> map_option (\<lambda>(db2, n). (db2, n + 1)) (delete_orphans orphaned delete db' xs))
      else delete_orphans orphaned delete db xs)"

record deleted_counts =
  dc_transactions :: nat
  dc_goals :: nat
  dc_accounts :: nat
  dc_clients :: nat

definition processing_now :: "processing_status \<Rightarrow> bool" where
  "processing_now st = (st \<in> set [PARSING, VALIDATING, PROCESSING])"

definition delete_batch_data :: "nat \<Rightarrow> upload_db \<Rightarrow> (upload_db \<times> deleted_counts) option" where
  "delete_batch_data bid db =
     (let txns = filter (\<lambda>r. fw_batch r = bid) (ud_rows db)
      in if txns = [] then Some (db, \<lparr>dc_transactions = 0, dc_goals = 0, dc_accounts = 0, dc_clients = 0\<rparr>)
         else let db0 = db\<lparr>ud_rows := filter (\<lambda>r. fw_batch r \<noteq> bid) (ud_rows db)\<rparr>
              in case delete_orphans goal_orphaned delete_goal db0 (js_unique (map fw_goalId txns)) of
                   None \<Rightarrow> None
                 | Some (db1, g) \<Rightarrow>
                     (case delete_orphans account_orphaned delete_account db1 (js_unique (map fw_accountId txns)) of
                        None \<Rightarrow> None
                      | Some (db2, a) \<Rightarrow>
                          map_option (\<lambda>(db3, c). (db3, \<lparr>dc_transactions = length txns, dc_goals = g, dc_accounts = a, dc_clients = c\<rparr>))
                            (delete_orphans client_orphaned delete_client db2 (js_unique (map fw_clientId txns)))))"

definition rollback_batch :: "nat \<Rightarrow> upload_db \<Rightarrow> (upload_db \<times> deleted_counts) option" where
  "rollback_batch bid db =
     (case get_batch db bid of None \<Rightarrow> None
      | Some b \<Rightarrow>
          if processing_now (ub_processingStatus b) then None
          else map_option (\<lambda>(db', counts).
                 (db'\<lparr>ud_invalid := filter (\<lambda>r. iv_batch r \<noteq> bid) (ud_invalid db'),
                      ud_batches := filter (\<lambda>b. ub_id b \<noteq> bid) (ud_batches db')\<rparr>, counts))
               (delete_batch_data bid db))"

definition can_rollback :: "nat \<Rightarrow> upload_db \<Rightarrow> bool" where
  "can_rollback bid db =
     (case get_batch db bid of None \<Rightarrow> False | Some b \<Rightarrow> \<not> processing_now (ub_processingStatus b))"

section \<open>What is left\<close>

text \<open>
  The contract of one of the three loops: deleting a record removes exactly it, and removing records of the table does
  not change which of its records are orphaned. Then the loop removes exactly the orphaned ones of the list.
\<close>

locale orphan_loop =
  fixes orphaned :: "'db \<Rightarrow> nat \<Rightarrow> bool" and delete :: "'db \<Rightarrow> nat \<Rightarrow> 'db option" and remove :: "(nat \<Rightarrow> bool) \<Rightarrow> 'db \<Rightarrow> 'db"
  assumes delete_removes: "delete db x = Some db' \<Longrightarrow> db' = remove (\<lambda>y. y = x) db"
    and orphaned_remove: "orphaned (remove P db) x = orphaned db x"
    and remove_none: "remove (\<lambda>_. False) db = db"
    and remove_remove: "remove P (remove Q db) = remove (\<lambda>x. Q x \<or> P x) db"
begin

lemma loop_removes:
  "delete_orphans orphaned delete db xs = Some (db', n) \<Longrightarrow>
     db' = remove (\<lambda>x. x \<in> set xs \<and> orphaned db x) db \<and> n = length (filter (orphaned db) xs)"
proof (induction xs arbitrary: db n)
  case (Cons x xs)
  show ?case
  proof (cases "orphaned db x")
    case True
    with Cons.prems obtain db1 m where del: "delete db x = Some db1"
        and rest: "delete_orphans orphaned delete db1 xs = Some (db', m)" "n = m + 1"
      by (auto split: option.splits)
    have same: "orphaned db1 = orphaned db" by (simp add: delete_removes [OF del] orphaned_remove fun_eq_iff)
    have "remove (\<lambda>y. y \<in> set xs \<and> orphaned db y) db1 = remove (\<lambda>y. y = x \<or> y \<in> set xs \<and> orphaned db y) db"
      by (simp add: delete_removes [OF del] remove_remove)
    moreover have "(\<lambda>y. y = x \<or> y \<in> set xs \<and> orphaned db y) = (\<lambda>y. y \<in> set (x # xs) \<and> orphaned db y)"
      using True by auto
    ultimately show ?thesis using Cons.IH [OF rest(1)] rest(2) True by (simp add: same)
  next
    case False
    then have "(\<lambda>y. y \<in> set (x # xs) \<and> orphaned db y) = (\<lambda>y. y \<in> set xs \<and> orphaned db y)" by auto
    with False Cons show ?thesis by (simp del: list.set)
  qed
qed (simp add: remove_none)

end

definition without_goals :: "(nat \<Rightarrow> bool) \<Rightarrow> upload_db \<Rightarrow> upload_db" where
  "without_goals P db = db\<lparr>ud_entities := (ud_entities db)\<lparr>et_goals := filter (\<lambda>r. \<not> P (gr_id r)) (et_goals (ud_entities db))\<rparr>\<rparr>"

definition without_accounts :: "(nat \<Rightarrow> bool) \<Rightarrow> upload_db \<Rightarrow> upload_db" where
  "without_accounts P db = db\<lparr>ud_entities := (ud_entities db)\<lparr>et_accounts := filter (\<lambda>r. \<not> P (ar_id r)) (et_accounts (ud_entities db))\<rparr>\<rparr>"

definition without_clients :: "(nat \<Rightarrow> bool) \<Rightarrow> upload_db \<Rightarrow> upload_db" where
  "without_clients P db = db\<lparr>ud_entities := (ud_entities db)\<lparr>et_clients := filter (\<lambda>r. \<not> P (cr_id r)) (et_clients (ud_entities db))\<rparr>\<rparr>"

interpretation goal_loop: orphan_loop goal_orphaned delete_goal without_goals
  by unfold_locales
    (auto simp: delete_goal_def without_goals_def goal_orphaned_def conj_commute split: if_splits intro!: filter_cong)

interpretation account_loop: orphan_loop account_orphaned delete_account without_accounts
  by unfold_locales
    (auto simp: delete_account_def without_accounts_def account_orphaned_def conj_commute split: if_splits intro!: filter_cong)

interpretation client_loop: orphan_loop client_orphaned delete_client without_clients
  by unfold_locales
    (auto simp: delete_client_def without_clients_def client_orphaned_def conj_commute split: if_splits intro!: filter_cong)

section \<open>References stay valid\<close>

definition row_refs :: "upload_db \<Rightarrow> fund_row \<Rightarrow> bool" where
  "row_refs db r =
     (fw_clientId r \<in> cr_id ` set (et_clients (ud_entities db)) \<and> fw_accountId r \<in> ar_id ` set (et_accounts (ud_entities db)) \<and>
      fw_goalId r \<in> gr_id ` set (et_goals (ud_entities db)) \<and> fw_batch r \<in> ub_id ` set (ud_batches db))"

definition tables_ok :: "upload_db \<Rightarrow> bool" where
  "tables_ok db =
     (let e = ud_entities db; cs = cr_id ` set (et_clients e); as = ar_id ` set (et_accounts e); gs = gr_id ` set (et_goals e)
      in (\<forall>b \<in> set (ud_bank db). bf_clientId b \<in> cs \<and> bf_accountId b \<in> as \<and> bf_goalId b \<in> gs) \<and>
         (\<forall>g \<in> set (et_goals e). gr_accountId g \<in> as) \<and> (\<forall>a \<in> set (et_accounts e). ar_clientId a \<in> cs))"

definition refs_ok :: "upload_db \<Rightarrow> bool" where
  "refs_ok db = ((\<forall>r \<in> set (ud_rows db). row_refs db r) \<and> tables_ok db)"

lemmas refs_defs = refs_ok_def row_refs_def tables_ok_def Let_def

lemma refs_rows [simp]: "row_refs (db\<lparr>ud_rows := xs\<rparr>) = row_refs db" "tables_ok (db\<lparr>ud_rows := xs\<rparr>) = tables_ok db"
  by (simp_all add: row_refs_def tables_ok_def fun_eq_iff)

lemma delete_orphans_invariant:
  assumes "\<And>db x db'. Inv db \<Longrightarrow> orphaned db x \<Longrightarrow> delete db x = Some db' \<Longrightarrow> Inv db'"
  shows "delete_orphans orphaned delete db xs = Some (db', n) \<Longrightarrow> Inv db \<Longrightarrow> Inv db'"
proof (induction xs arbitrary: db n)
  case (Cons x xs)
  show ?case
  proof (cases "orphaned db x")
    case True
    with Cons.prems obtain db1 m where "delete db x = Some db1" "delete_orphans orphaned delete db1 xs = Some (db', m)"
      by (auto split: option.splits)
    with Cons.IH [of db1 m] Cons.prems(2) True assms show ?thesis by blast
  qed (use Cons in simp)
qed simp

lemma image_remove: "f ` {x \<in> S. f x \<noteq> c} = f ` S - {c}"
  by auto

lemma delete_goal_refs: "refs_ok db \<Longrightarrow> delete_goal db g = Some db' \<Longrightarrow> refs_ok db'"
  by (auto simp: refs_defs delete_goal_def Let_def list_ex_iff image_remove split: if_splits)

lemma delete_account_refs: "refs_ok db \<Longrightarrow> account_orphaned db a \<Longrightarrow> delete_account db a = Some db' \<Longrightarrow> refs_ok db'"
  by (auto simp: refs_defs delete_account_def account_orphaned_def count_where_def filter_empty_conv Let_def list_ex_iff image_remove split: if_splits)

lemma delete_client_refs: "refs_ok db \<Longrightarrow> client_orphaned db c \<Longrightarrow> delete_client db c = Some db' \<Longrightarrow> refs_ok db'"
  by (auto simp: refs_defs delete_client_def client_orphaned_def count_where_def filter_empty_conv Let_def list_ex_iff image_remove split: if_splits)

lemma delete_batch_data_cases:
  assumes "delete_batch_data bid db = Some (db', counts)"
  obtains db0 db1 db2 g a c where "db0 = db\<lparr>ud_rows := filter (\<lambda>r. fw_batch r \<noteq> bid) (ud_rows db)\<rparr>"
    "delete_orphans goal_orphaned delete_goal db0 (js_unique (map fw_goalId (filter (\<lambda>r. fw_batch r = bid) (ud_rows db)))) = Some (db1, g)"
    "delete_orphans account_orphaned delete_account db1 (js_unique (map fw_accountId (filter (\<lambda>r. fw_batch r = bid) (ud_rows db)))) = Some (db2, a)"
    "delete_orphans client_orphaned delete_client db2 (js_unique (map fw_clientId (filter (\<lambda>r. fw_batch r = bid) (ud_rows db)))) = Some (db', c)"
proof (cases "filter (\<lambda>r. fw_batch r = bid) (ud_rows db) = []")
  case True
  then have "filter (\<lambda>r. fw_batch r \<noteq> bid) (ud_rows db) = ud_rows db" by (simp add: filter_empty_conv filter_id_conv)
  with True assms that [of db db] show ?thesis by (simp add: delete_batch_data_def Let_def js_unique_def)
next
  case False
  with assms that show ?thesis by (auto simp: delete_batch_data_def Let_def split: option.splits)
qed

lemma rollback_cases:
  assumes "rollback_batch bid db = Some (db', counts)"
  obtains db1 where "delete_batch_data bid db = Some (db1, counts)"
    "db' = db1\<lparr>ud_invalid := filter (\<lambda>r. iv_batch r \<noteq> bid) (ud_invalid db1), ud_batches := filter (\<lambda>b. ub_id b \<noteq> bid) (ud_batches db1)\<rparr>"
  using assms by (auto simp: rollback_batch_def split: option.splits if_splits)

text \<open>What a rollback deletes: the goals only this batch's transactions refer to, the accounts of its transactions
  that no remaining goal belongs to, and the clients of its transactions that no remaining account belongs to.\<close>

definition batch_goal_gone :: "nat \<Rightarrow> upload_db \<Rightarrow> nat \<Rightarrow> bool" where
  "batch_goal_gone bid db g =
     ((\<exists>r \<in> set (ud_rows db). fw_batch r = bid \<and> fw_goalId r = g) \<and>
      (\<forall>r \<in> set (ud_rows db). fw_goalId r = g \<longrightarrow> fw_batch r = bid) \<and> (\<forall>b \<in> set (ud_bank db). bf_goalId b \<noteq> g))"

definition batch_account_gone :: "nat \<Rightarrow> upload_db \<Rightarrow> nat \<Rightarrow> bool" where
  "batch_account_gone bid db a =
     ((\<exists>r \<in> set (ud_rows db). fw_batch r = bid \<and> fw_accountId r = a) \<and>
      (\<forall>g \<in> set (et_goals (ud_entities db)). gr_accountId g = a \<longrightarrow> batch_goal_gone bid db (gr_id g)))"

definition batch_client_gone :: "nat \<Rightarrow> upload_db \<Rightarrow> nat \<Rightarrow> bool" where
  "batch_client_gone bid db c =
     ((\<exists>r \<in> set (ud_rows db). fw_batch r = bid \<and> fw_clientId r = c) \<and>
      (\<forall>a \<in> set (et_accounts (ud_entities db)). ar_clientId a = c \<longrightarrow> batch_account_gone bid db (ar_id a)))"

lemma rows_refs: "refs_ok db \<Longrightarrow> refs_ok (db\<lparr>ud_rows := filter P (ud_rows db)\<rparr>)"
  by (simp add: refs_ok_def)

lemma rollback_result:
  assumes "rollback_batch bid db = Some (db', counts)" "refs_ok db"
  shows "db' = (without_clients (batch_client_gone bid db) (without_accounts (batch_account_gone bid db)
            (without_goals (batch_goal_gone bid db) db)))
          \<lparr>ud_rows := filter (\<lambda>r. fw_batch r \<noteq> bid) (ud_rows db),
           ud_invalid := filter (\<lambda>r. iv_batch r \<noteq> bid) (ud_invalid db),
           ud_batches := filter (\<lambda>b. ub_id b \<noteq> bid) (ud_batches db)\<rparr> \<and>
         refs_ok db'"
proof -
  obtain db4 where data: "delete_batch_data bid db = Some (db4, counts)"
    and db': "db' = db4\<lparr>ud_invalid := filter (\<lambda>r. iv_batch r \<noteq> bid) (ud_invalid db4), ud_batches := filter (\<lambda>b. ub_id b \<noteq> bid) (ud_batches db4)\<rparr>"
    using assms(1) by (rule rollback_cases)
  obtain db0 db1 db2 g a c where db0: "db0 = db\<lparr>ud_rows := filter (\<lambda>r. fw_batch r \<noteq> bid) (ud_rows db)\<rparr>"
    and loops: "delete_orphans goal_orphaned delete_goal db0 (js_unique (map fw_goalId (filter (\<lambda>r. fw_batch r = bid) (ud_rows db)))) = Some (db1, g)"
    "delete_orphans account_orphaned delete_account db1 (js_unique (map fw_accountId (filter (\<lambda>r. fw_batch r = bid) (ud_rows db)))) = Some (db2, a)"
    "delete_orphans client_orphaned delete_client db2 (js_unique (map fw_clientId (filter (\<lambda>r. fw_batch r = bid) (ud_rows db)))) = Some (db4, c)"
    using data by (rule delete_batch_data_cases)
  have "refs_ok db0" unfolding db0 by (rule rows_refs [OF assms(2)])
  then have "refs_ok db1"
    by (rule delete_orphans_invariant [where Inv = refs_ok, OF _ loops(1), rotated]) (rule delete_goal_refs)
  then have "refs_ok db2"
    by (rule delete_orphans_invariant [where Inv = refs_ok, OF _ loops(2), rotated]) (rule delete_account_refs)
  then have refs: "refs_ok db4"
    by (rule delete_orphans_invariant [where Inv = refs_ok, OF _ loops(3), rotated]) (rule delete_client_refs)
  have "(\<lambda>x. x \<in> set (js_unique (map fw_goalId (filter (\<lambda>r. fw_batch r = bid) (ud_rows db)))) \<and> goal_orphaned db0 x) = batch_goal_gone bid db"
    by (auto simp: db0 goal_orphaned_def batch_goal_gone_def count_where_def filter_empty_conv fun_eq_iff)
  then have db1: "db1 = without_goals (batch_goal_gone bid db) db0" using goal_loop.loop_removes [OF loops(1)] by simp
  have "(\<lambda>x. x \<in> set (js_unique (map fw_accountId (filter (\<lambda>r. fw_batch r = bid) (ud_rows db)))) \<and> account_orphaned db1 x) = batch_account_gone bid db"
    by (auto simp: db1 db0 without_goals_def account_orphaned_def batch_account_gone_def count_where_def filter_empty_conv fun_eq_iff)
  then have db2: "db2 = without_accounts (batch_account_gone bid db) db1" using account_loop.loop_removes [OF loops(2)] by simp
  have "(\<lambda>x. x \<in> set (js_unique (map fw_clientId (filter (\<lambda>r. fw_batch r = bid) (ud_rows db)))) \<and> client_orphaned db2 x) = batch_client_gone bid db"
    by (auto simp: db2 db1 db0 without_goals_def without_accounts_def client_orphaned_def batch_client_gone_def count_where_def filter_empty_conv fun_eq_iff)
  then have db4: "db4 = without_clients (batch_client_gone bid db) db2" using client_loop.loop_removes [OF loops(3)] by simp
  have shape: "db' = (without_clients (batch_client_gone bid db) (without_accounts (batch_account_gone bid db)
            (without_goals (batch_goal_gone bid db) db)))
          \<lparr>ud_rows := filter (\<lambda>r. fw_batch r \<noteq> bid) (ud_rows db),
           ud_invalid := filter (\<lambda>r. iv_batch r \<noteq> bid) (ud_invalid db),
           ud_batches := filter (\<lambda>b. ub_id b \<noteq> bid) (ud_batches db)\<rparr>"
    by (simp add: db' db4 db2 db1 db0 without_goals_def without_accounts_def without_clients_def)
  have "ud_batches db4 = ud_batches db" "\<forall>r \<in> set (ud_rows db4). fw_batch r \<noteq> bid"
    by (simp_all add: db4 db2 db1 db0 without_goals_def without_accounts_def without_clients_def)
  then have "refs_ok db'" using refs by (auto simp: refs_defs db' image_remove)
  with shape show ?thesis by blast
qed

lemma rollback_shape:
  assumes "rollback_batch bid db = Some (db', counts)" "refs_ok db"
  shows "refs_ok db'" "ud_rows db' = filter (\<lambda>r. fw_batch r \<noteq> bid) (ud_rows db)"
  using rollback_result [OF assms]
  by (rule conjunct2) (simp add: conjunct1 [OF rollback_result [OF assms]] without_clients_def without_accounts_def without_goals_def)

text \<open>C10: a successful rollback deletes the batch, its transactions and invalid rows, and exactly the goals, accounts and
  clients that this leaves orphaned, whoever created them; everything else stays, and every reference stays valid.\<close>

theorem rollback_correct:
  assumes "rollback_batch bid db = Some (db', counts)" "refs_ok db"
  shows "db' = (without_clients (batch_client_gone bid db) (without_accounts (batch_account_gone bid db)
            (without_goals (batch_goal_gone bid db) db)))
          \<lparr>ud_rows := filter (\<lambda>r. fw_batch r \<noteq> bid) (ud_rows db),
           ud_invalid := filter (\<lambda>r. iv_batch r \<noteq> bid) (ud_invalid db),
           ud_batches := filter (\<lambda>b. ub_id b \<noteq> bid) (ud_batches db)\<rparr> \<and>
         refs_ok db'"
  by (rule rollback_result [OF assms])

definition ex_entities :: entity_tables where
  "ex_entities = \<lparr>et_clients = [\<lparr>cr_id = 0, cr_name = ''N''\<rparr>],
     et_accounts = [\<lparr>ar_id = 1, ar_clientId = 0, ar_number = ''701-123456789'', ar_type = ''PERSONAL'', ar_category = ''GENERAL'', ar_sponsor = None\<rparr>],
     et_goals = [\<lparr>gr_id = 2, gr_accountId = 1, gr_number = ''701-123456789a'', gr_title = ''G'', gr_distribution = []\<rparr>], et_next = 3\<rparr>"

definition ex_row :: "nat \<Rightarrow> nat \<Rightarrow> string \<Rightarrow> fund_row" where
  "ex_row batch row i = \<lparr>fw_txn = ex_parsed row i (Some 10), fw_transactionId = Some ''T'', fw_clientId = 0, fw_accountId = 1,
     fw_goalId = 2, fw_fundId = 9, fw_batch = batch\<rparr>"

definition ex_upload_db :: "fund_row list \<Rightarrow> upload_db" where
  "ex_upload_db rows = \<lparr>ud_batches = [(new_batch 0 ''B'' ''f.csv'' ''f'' ''u'' 5)\<lparr>ub_processingStatus := COMPLETED\<rparr>],
     ud_entities = ex_entities, ud_funds = [\<lparr>fr_id = 9, fr_code = ''XUMMF''\<rparr>], ud_rows = rows, ud_invalid = [], ud_bank = [], ud_nextBatch = 1\<rparr>"

theorem rollback_correct_witness:
  "\<exists>db' counts. rollback_batch 0 (ex_upload_db [ex_row 0 1 ''x'']) = Some (db', counts) \<and>
     ud_rows db' = [] \<and> et_goals (ud_entities db') = [] \<and> ud_batches db' = []"
proof -
  have refs: "refs_ok (ex_upload_db [ex_row 0 1 ''x''])"
    by (simp add: refs_defs ex_upload_db_def ex_row_def ex_entities_def new_batch_def Let_def)
  have "rollback_batch 0 (ex_upload_db [ex_row 0 1 ''x'']) \<noteq> None" by code_simp
  then obtain db' counts where "rollback_batch 0 (ex_upload_db [ex_row 0 1 ''x'']) = Some (db', counts)" by auto
  with rollback_correct [OF this refs] show ?thesis
    by (auto simp: ex_upload_db_def ex_row_def ex_entities_def new_batch_def without_clients_def without_accounts_def
        without_goals_def batch_goal_gone_def)
qed

text \<open>The chunked save on the example: the row is stored.\<close>

theorem save_independent_of_chunks_witness:
  "\<exists>db'. save_transactions 2 0 [ex_parsed 1 ''x'' (Some 10)] (ex_upload_db []) = Some (Inr (db', 1)) \<and> ud_rows db' \<noteq> []"
proof -
  let ?db = "ex_upload_db []" and ?t = "ex_parsed 1 ''x'' (Some 10)"
  have "get_batch ?db 0 \<noteq> None" by code_simp
  moreover have "rows_unique (ud_rows ?db)" by (simp add: rows_unique_def ex_upload_db_def)
  moreover have "case resolve_row ?db 0 ?t of Inl e \<Rightarrow> False | Inr r \<Rightarrow> True" by code_simp
  then obtain r where r: "resolve_row ?db 0 ?t = Inr r" by (auto split: sum.splits)
  moreover have "savable ?db 0 [?t]"
    using r by (simp add: savable_def row_accepted_def number_fits_def fits_decimal_def ex_parsed_def allowed_types_def)
  ultimately obtain db' where "save_transactions 2 0 [?t] ?db = Some (Inr (db', 1))" "list_ex (conflicts r) (ud_rows db')"
    using save_independent_of_chunks [of ?db 0 "[?t]"] by (auto simp: list_all2_Cons1)
  then show ?thesis by (cases "ud_rows db'") auto
qed

end
