(* ===== verification/FundPipeline.thy ===== *)
theory FundPipeline
  imports FundRollback
begin

text \<open>
  \<open>FundFileProcessor\<close>, the job queue and the routes of \<open>fundUploadRoutes.ts\<close> that change a batch, as a state
  machine. A job advances by one database call at a time, so jobs and requests interleave between any two calls; the
  creation of approved entities, the save (one transaction) and a rollback (one transaction) are single steps. The
  result of parsing a file is a parameter: \<open>None\<close> when the parser throws. An uploaded file does not change.
\<close>

section \<open>Jobs\<close>

record pipeline =
  pl_parse :: "string \<Rightarrow> parsed_fund list option"
  pl_clock :: clock
  pl_config :: validation_config
  pl_chunk :: nat

datatype job_state =
    J_Waiting
  | P_Start | P_Parse | P_Parsed "parsed_fund list" | P_Validate "parsed_fund list"
  | P_Invalid fund_batch "validation_error list" | P_Reject job_error | P_Detect "parsed_fund list" | P_Report new_entities
  | R_Start | R_Create new_entities | R_Parse
  | F_Save "parsed_fund list" | F_Final "parsed_fund list"
  | J_Catch job_error | J_Done | J_Failed job_error

record job =
  jb_batch :: nat
  jb_path :: string
  jb_resume :: bool
  jb_state :: job_state
  jb_attempts :: nat

text \<open>Awaiting a database call: on an exception control goes to the handler.\<close>

definition await :: "upload_db \<Rightarrow> upload_db option \<Rightarrow> job_state \<Rightarrow> job_state \<times> upload_db" where
  "await db r next = (case r of None \<Rightarrow> (J_Catch Record_Missing, db) | Some db' \<Rightarrow> (next, db'))"

definition validation_result_status :: "validation_error list \<Rightarrow> validation_error list \<Rightarrow> validation_status" where
  "validation_result_status crit warnings =
     (if crit \<noteq> [] then VS_FAILED else if warnings \<noteq> [] then VS_WARNING else VS_PASSED)"

fun job_step :: "pipeline \<Rightarrow> instant \<Rightarrow> nat \<Rightarrow> string \<Rightarrow> job_state \<Rightarrow> upload_db \<Rightarrow> job_state \<times> upload_db" where
  "job_step pl now bid path P_Start db = await db (update_batch_status now bid PARSING None db) P_Parse"
| "job_step pl now bid path P_Parse db =
     (case pl_parse pl path of None \<Rightarrow> (J_Catch Parse_Failed, db)
      | Some ts \<Rightarrow> if ts = [] then (J_Catch No_Transactions, db) else (P_Parsed ts, db))"
| "job_step pl now bid path (P_Parsed ts) db =
     await db (update_with_parsing_results bid (length ts) db) (P_Validate ts)"
| "job_step pl now bid path (P_Validate ts) db =
     (let vr = validate_fund_batch (pl_clock pl) (pl_config pl) ts;
          groupErrors = validate_groups (fb_valid vr);
          allErrors = fb_errors vr @ groupErrors;
          crit = filter is_critical allErrors;
          warnings = filter (\<lambda>e. ve_severity e = WARNING) allErrors
      in await db (update_with_validation_results bid (length (fb_valid vr)) (length (fb_invalid vr)) crit warnings
                     (validation_result_status crit warnings) db) (P_Invalid vr groupErrors))"
| "job_step pl now bid path (P_Invalid vr groupErrors) db =
     await db (save_invalid_transactions bid (fb_invalid vr) db)
       (if fb_invalid vr \<noteq> [] then P_Reject Upload_Rejected
        else if filter is_critical groupErrors \<noteq> [] then P_Reject Group_Validation_Failed
        else P_Detect (fb_valid vr))"
| "job_step pl now bid path (P_Reject e) db =
     (if e = Group_Validation_Failed \<and> get_batch db bid = None then (J_Catch e, db)
      else await db (update_batch_status now bid FAILED None db) (J_Catch e))"
| "job_step pl now bid path (P_Detect ts) db =
     (let r = detect_new_entities (ud_entities db) ts
      in (if has_new_entities r then P_Report r else F_Save ts, db))"
| "job_step pl now bid path (P_Report r) db = await db (update_with_new_entities bid r db) J_Done"
| "job_step pl now bid path R_Start db =
     (case get_batch db bid of None \<Rightarrow> (J_Catch Batch_Not_Found, db)
      | Some b \<Rightarrow>
          if ub_newEntitiesStatus b \<noteq> Some EA_APPROVED then (J_Catch Not_Approved, db)
          else (case ub_report b of None \<Rightarrow> (J_Catch Creation_Failed, db) | Some r \<Rightarrow> (R_Create r, db)))"
| "job_step pl now bid path (R_Create r) db =
     (case create_approved_entities (ud_entities db) r of (e, counts) \<Rightarrow>
        (if counts = None then J_Catch Creation_Failed else R_Parse, db\<lparr>ud_entities := e\<rparr>))"
| "job_step pl now bid path R_Parse db =
     (case pl_parse pl path of None \<Rightarrow> (J_Catch Parse_Failed, db)
      | Some ts \<Rightarrow>
          let vr = validate_fund_batch (pl_clock pl) (pl_config pl) ts
          in (if fb_invalid vr \<noteq> [] then P_Reject Upload_Rejected else F_Save (fb_valid vr), db))"
| "job_step pl now bid path (F_Save ts) db =
     (case save_transactions (pl_chunk pl) bid ts db of
        None \<Rightarrow> (F_Save ts, db)
      | Some (Inl e) \<Rightarrow> (J_Catch e, db)
      | Some (Inr (db', n)) \<Rightarrow> (F_Final ts, db'))"
| "job_step pl now bid path (F_Final ts) db =
     (if \<not> summary_fits (calculate_summary ts) then (J_Catch Invalid_Data, db)
      else await db (update_with_final_results now bid (calculate_summary ts) (group_statistics ts) db) J_Done)"
| "job_step pl now bid path (J_Catch e) db =
     (if e = Group_Validation_Failed then (J_Failed e, db)
      else case update_with_error now bid e db of
             None \<Rightarrow> (J_Failed Record_Missing, db) | Some db' \<Rightarrow> (J_Failed e, db'))"
| "job_step pl now bid path J_Waiting db = (J_Waiting, db)"
| "job_step pl now bid path J_Done db = (J_Done, db)"
| "job_step pl now bid path (J_Failed e) db = (J_Failed e, db)"

text \<open>A job that runs undisturbed.\<close>

fun run_job :: "nat \<Rightarrow> pipeline \<Rightarrow> instant \<Rightarrow> nat \<Rightarrow> string \<Rightarrow> job_state \<Rightarrow> upload_db \<Rightarrow> job_state \<times> upload_db" where
  "run_job 0 pl now bid path st db = (st, db)"
| "run_job (Suc n) pl now bid path st db =
     (case job_step pl now bid path st db of (st', db') \<Rightarrow> run_job n pl now bid path st' db')"

definition process_file :: "pipeline \<Rightarrow> instant \<Rightarrow> nat \<Rightarrow> string \<Rightarrow> upload_db \<Rightarrow> job_state \<times> upload_db" where
  "process_file pl now bid path db = run_job 10 pl now bid path P_Start db"

definition resume_processing :: "pipeline \<Rightarrow> instant \<Rightarrow> nat \<Rightarrow> string \<Rightarrow> upload_db \<Rightarrow> job_state \<times> upload_db" where
  "resume_processing pl now bid path db = run_job 10 pl now bid path R_Start db"

section \<open>The system\<close>

record system =
  sy_db :: upload_db
  sy_jobs :: "job list"

text \<open>A job that is waiting or has failed can be taken from the queue; one that a worker holds cannot.\<close>

definition job_active :: "job \<Rightarrow> bool" where
  "job_active j = (case jb_state j of J_Waiting \<Rightarrow> False | J_Failed _ \<Rightarrow> False | J_Done \<Rightarrow> False | _ \<Rightarrow> True)"

definition job_listed :: "job \<Rightarrow> bool" where
  "job_listed j = (jb_state j \<noteq> J_Done)"

text \<open>\<open>getJob(id)\<close> and \<open>remove()\<close>: \<open>None\<close> when the job is held by a worker.\<close>

definition remove_job :: "nat \<Rightarrow> bool \<Rightarrow> job list \<Rightarrow> job list option" where
  "remove_job bid resume jobs =
     (if list_ex (\<lambda>j. jb_batch j = bid \<and> jb_resume j = resume \<and> job_active j) jobs then None
      else Some (filter (\<lambda>j. \<not> (jb_batch j = bid \<and> jb_resume j = resume)) jobs))"

definition upload_route :: "string \<Rightarrow> string \<Rightarrow> string \<Rightarrow> string \<Rightarrow> instant \<Rightarrow> system \<Rightarrow> system option" where
  "upload_route number fileName path uploadedBy now s =
     (case create_upload_batch number fileName path uploadedBy now (sy_db s) of
        None \<Rightarrow> None
      | Some (db, bid) \<Rightarrow>
          Some \<lparr>sy_db = db, sy_jobs = sy_jobs s @
                 [\<lparr>jb_batch = bid, jb_path = path, jb_resume = False, jb_state = J_Waiting, jb_attempts = 0\<rparr>]\<rparr>)"

definition approve_route :: "bool \<Rightarrow> string \<Rightarrow> instant \<Rightarrow> nat \<Rightarrow> system \<Rightarrow> system option" where
  "approve_route approved by now bid s =
     (case get_batch (sy_db s) bid of None \<Rightarrow> None
      | Some b \<Rightarrow>
          if ub_processingStatus b \<noteq> WAITING_FOR_APPROVAL then None
          else (case update_after_approval now bid approved by (sy_db s) of
                  None \<Rightarrow> None
                | Some db \<Rightarrow>
                    Some \<lparr>sy_db = db, sy_jobs = sy_jobs s @ (if approved
                       then [\<lparr>jb_batch = bid, jb_path = ub_filePath b, jb_resume = True, jb_state = J_Waiting, jb_attempts = 0\<rparr>]
                       else [])\<rparr>))"

text \<open>Cancelling: the status is written first; if the job cannot be removed the request fails after that. Only the job
  of the upload itself is looked for.\<close>

definition cancel_route :: "instant \<Rightarrow> nat \<Rightarrow> system \<Rightarrow> system option" where
  "cancel_route now bid s =
     (case cancel_batch now bid (sy_db s) of None \<Rightarrow> None
      | Some db \<Rightarrow>
          Some (case remove_job bid False (sy_jobs s) of
                  None \<Rightarrow> s\<lparr>sy_db := db\<rparr>
                | Some jobs \<Rightarrow> \<lparr>sy_db = delete_transactions bid db, sy_jobs = jobs\<rparr>))"

definition rollback_route :: "nat \<Rightarrow> system \<Rightarrow> system option" where
  "rollback_route bid s =
     (if \<not> can_rollback bid (sy_db s) then None
      else (case remove_job bid False (sy_jobs s) of None \<Rightarrow> None
            | Some jobs1 \<Rightarrow>
                (case remove_job bid True jobs1 of None \<Rightarrow> Some (s\<lparr>sy_jobs := jobs1\<rparr>)
                 | Some jobs2 \<Rightarrow>
                     (case rollback_batch bid (sy_db s) of
                        None \<Rightarrow> Some (s\<lparr>sy_jobs := jobs2\<rparr>)
                      | Some (db, counts) \<Rightarrow> Some \<lparr>sy_db = db, sy_jobs = jobs2\<rparr>))))"

text \<open>The worker: it takes a waiting job, advances it, and repeats a failed one until the third attempt.\<close>

definition first_state :: "job \<Rightarrow> job_state" where
  "first_state j = (if jb_resume j then R_Start else P_Start)"

definition worker_step :: "pipeline \<Rightarrow> instant \<Rightarrow> job \<Rightarrow> upload_db \<Rightarrow> job \<times> upload_db" where
  "worker_step pl now j db =
     (case jb_state j of
        J_Waiting \<Rightarrow> (j\<lparr>jb_state := first_state j, jb_attempts := jb_attempts j + 1\<rparr>, db)
      | J_Failed e \<Rightarrow> (if jb_attempts j < 3 then j\<lparr>jb_state := J_Waiting\<rparr> else j, db)
      | st \<Rightarrow> (case job_step pl now (jb_batch j) (jb_path j) st db of (st', db') \<Rightarrow> (j\<lparr>jb_state := st'\<rparr>, db')))"

inductive step :: "pipeline \<Rightarrow> system \<Rightarrow> system \<Rightarrow> bool" for pl :: pipeline where
  upload: "upload_route number fileName path by now s = Some s' \<Longrightarrow> step pl s s'"
| approve: "approve_route approved by now bid s = Some s' \<Longrightarrow> step pl s s'"
| cancel: "cancel_route now bid s = Some s' \<Longrightarrow> step pl s s'"
| rollback: "rollback_route bid s = Some s' \<Longrightarrow> step pl s s'"
| work: "sy_jobs s = js1 @ j # js2 \<Longrightarrow> worker_step pl now j (sy_db s) = (j', db') \<Longrightarrow>
    step pl s \<lparr>sy_db = db', sy_jobs = js1 @ j' # js2\<rparr>"

inductive reachable :: "pipeline \<Rightarrow> system \<Rightarrow> system \<Rightarrow> bool" for pl :: pipeline and s0 :: system where
  start: "reachable pl s0 s0"
| advance: "reachable pl s0 s \<Longrightarrow> step pl s s' \<Longrightarrow> reachable pl s0 s'"

inductive_cases stepE: "step pl s s'"

end
