(* ===== verification/FundPipelineProperties.thy ===== *)
theory FundPipelineProperties
  imports FundPipeline
begin

text \<open>
  The invariant of the upload system, by rule induction over its steps, and what a job does when it runs
  undisturbed: it ends, a rejected file leaves nothing behind but its errors, and an approved one is stored.
\<close>

section \<open>Validation of a whole file\<close>

lemma fund_fold_split:
  "fb_valid (foldl (fund_batch_step ck cfg) st ts) = fb_valid st @ filter (\<lambda>t. \<not> blocked ck cfg t) ts \<and>
   map fst (fb_invalid (foldl (fund_batch_step ck cfg) st ts)) = map fst (fb_invalid st) @ filter (blocked ck cfg) ts"
  by (induction ts arbitrary: st) (simp_all add: fund_batch_step_def Let_def split_beta blocked_def)

lemma fund_batch_split:
  "fb_valid (validate_fund_batch ck cfg ts) = filter (\<lambda>t. \<not> blocked ck cfg t) ts"
  "map fst (fb_invalid (validate_fund_batch ck cfg ts)) = filter (blocked ck cfg) ts"
  using fund_fold_split [of ck cfg _ ts] by (simp_all add: validate_fund_batch_def)

lemma no_invalid_iff: "fb_invalid (validate_fund_batch ck cfg ts) = [] \<longleftrightarrow> list_all (\<lambda>t. \<not> blocked ck cfg t) ts"
  using fund_batch_split(2) [of ck cfg ts] by (metis filter_empty_conv list_all_iff map_is_Nil_conv)

lemma all_valid: "list_all (\<lambda>t. \<not> blocked ck cfg t) ts \<Longrightarrow> fb_valid (validate_fund_batch ck cfg ts) = ts"
  by (simp add: fund_batch_split(1) filter_id_conv list_all_iff)

section \<open>The invariant\<close>

text \<open>A file all of whose rows are complete and whose goal transactions are consistent.\<close>

definition clean_file :: "pipeline \<Rightarrow> string \<Rightarrow> parsed_fund list \<Rightarrow> bool" where
  "clean_file pl path ts =
     (pl_parse pl path = Some ts \<and> list_all (\<lambda>t. \<not> blocked (pl_clock pl) (pl_config pl) t) ts \<and> codes_consistent ts)"

definition row_clean :: "pipeline \<Rightarrow> fund_row \<Rightarrow> bool" where
  "row_clean pl r = (\<exists>path ts. clean_file pl path ts \<and> fw_txn r \<in> set ts)"

definition db_ok :: "pipeline \<Rightarrow> upload_db \<Rightarrow> bool" where
  "db_ok pl db =
     (refs_ok db \<and> rows_unique (ud_rows db) \<and> distinct (map ub_id (ud_batches db)) \<and> (\<forall>r \<in> set (ud_rows db). row_clean pl r) \<and>
      (\<forall>b \<in> set (ud_batches db). ub_id b < ud_nextBatch db \<and>
         (ub_processingStatus b = WAITING_FOR_APPROVAL \<longrightarrow> (\<exists>ts. clean_file pl (ub_filePath b) ts))))"

fun state_ok :: "pipeline \<Rightarrow> string \<Rightarrow> job_state \<Rightarrow> bool" where
  "state_ok pl path (P_Parsed ts) = (pl_parse pl path = Some ts)"
| "state_ok pl path (P_Validate ts) = (pl_parse pl path = Some ts)"
| "state_ok pl path (P_Invalid vr groupErrors) =
     (\<exists>ts. pl_parse pl path = Some ts \<and> vr = validate_fund_batch (pl_clock pl) (pl_config pl) ts \<and>
           groupErrors = validate_groups (fb_valid vr))"
| "state_ok pl path (P_Detect ts) = clean_file pl path ts"
| "state_ok pl path (P_Report r) = (\<exists>ts. clean_file pl path ts)"
| "state_ok pl path (F_Save ts) = clean_file pl path ts"
| "state_ok pl path (F_Final ts) = clean_file pl path ts"
| "state_ok pl path _ = True"

text \<open>The files of the batches; a step may forget batches, never change their file.\<close>

definition files :: "upload_db \<Rightarrow> (nat \<times> string) set" where
  "files db = (\<lambda>b. (ub_id b, ub_filePath b)) ` set (ud_batches db)"

text \<open>The states only a resumed job can be in.\<close>

definition resume_only :: "job_state \<Rightarrow> bool" where
  "resume_only st = (st = R_Start \<or> st = R_Parse \<or> (\<exists>r. st = R_Create r))"

definition job_ok :: "pipeline \<Rightarrow> upload_db \<Rightarrow> job \<Rightarrow> bool" where
  "job_ok pl db j =
     (state_ok pl (jb_path j) (jb_state j) \<and> (jb_resume j \<longrightarrow> (\<exists>ts. clean_file pl (jb_path j) ts)) \<and>
      (resume_only (jb_state j) \<longrightarrow> jb_resume j) \<and>
      jb_batch j < ud_nextBatch db \<and> (\<forall>path. (jb_batch j, path) \<in> files db \<longrightarrow> path = jb_path j))"

definition sys_ok :: "pipeline \<Rightarrow> system \<Rightarrow> bool" where
  "sys_ok pl s = (db_ok pl (sy_db s) \<and> (\<forall>j \<in> set (sy_jobs s). job_ok pl (sy_db s) j))"

definition no_new_files :: "upload_db \<Rightarrow> upload_db \<Rightarrow> bool" where
  "no_new_files db db' = (ud_nextBatch db' = ud_nextBatch db \<and> files db' \<subseteq> files db)"

lemma no_new_files_refl [simp]: "no_new_files db db"
  by (simp add: no_new_files_def)

lemma job_ok_mono: "job_ok pl db j \<Longrightarrow> no_new_files db db' \<Longrightarrow> job_ok pl db' j"
  by (auto simp: job_ok_def no_new_files_def)

section \<open>Updates of the batch record\<close>

lemma update_batch_ok:
  assumes "db_ok pl db" "update_batch bid f db = Some db'"
    and keep: "\<And>b. ub_id (f b) = ub_id b" "\<And>b. ub_filePath (f b) = ub_filePath b"
    and waiting: "\<And>b. b \<in> set (ud_batches db) \<Longrightarrow> ub_id b = bid \<Longrightarrow> ub_processingStatus (f b) = WAITING_FOR_APPROVAL \<Longrightarrow>
      \<exists>ts. clean_file pl (ub_filePath b) ts"
  shows "db_ok pl db' \<and> no_new_files db db'"
proof -
  have db': "db' = db\<lparr>ud_batches := update_where (\<lambda>b. ub_id b = bid) f (ud_batches db)\<rparr>"
    using assms(2) by (auto simp: update_batch_def split: if_splits)
  have ids: "ub_id ` set (ud_batches db') = ub_id ` set (ud_batches db)" "files db' = files db"
    unfolding db' files_def upload_db.simps set_map [symmetric] by (simp_all add: update_where_map_same keep)
  have "refs_ok db'" using assms(1) ids(1) by (simp add: db_ok_def refs_defs db')
  moreover have "map ub_id (ud_batches db') = map ub_id (ud_batches db)" by (simp add: db' update_where_map_same keep)
  moreover have "\<forall>b \<in> set (ud_batches db'). ub_id b < ud_nextBatch db' \<and>
         (ub_processingStatus b = WAITING_FOR_APPROVAL \<longrightarrow> (\<exists>ts. clean_file pl (ub_filePath b) ts))"
    using assms(1) waiting by (auto simp: db_ok_def db' update_where_def keep)
  ultimately show ?thesis using assms(1) ids(2) by (simp add: db_ok_def no_new_files_def db')
qed

lemmas batch_updates = update_batch_status_def update_with_parsing_results_def update_with_validation_results_def
  update_with_new_entities_def update_after_approval_def update_with_final_results_def update_with_error_def cancel_batch_def

text \<open>Every update but that of the new entities leaves no batch waiting that was not.\<close>

lemma batch_update_ok:
  assumes "db_ok pl db"
  shows "update_batch_status now bid p v db = Some db' \<Longrightarrow> p \<noteq> WAITING_FOR_APPROVAL \<Longrightarrow> db_ok pl db' \<and> no_new_files db db'"
    and "update_with_parsing_results bid n db = Some db' \<Longrightarrow> db_ok pl db' \<and> no_new_files db db'"
    and "update_with_validation_results bid n m es ws vs db = Some db' \<Longrightarrow> db_ok pl db' \<and> no_new_files db db'"
    and "update_after_approval now bid ok by db = Some db' \<Longrightarrow> db_ok pl db' \<and> no_new_files db db'"
    and "update_with_final_results now bid fs gs db = Some db' \<Longrightarrow> db_ok pl db' \<and> no_new_files db db'"
    and "update_with_error now bid e db = Some db' \<Longrightarrow> db_ok pl db' \<and> no_new_files db db'"
    and "cancel_batch now bid db = Some db' \<Longrightarrow> db_ok pl db' \<and> no_new_files db db'"
  unfolding batch_updates
  by (erule update_batch_ok [OF assms]; simp add: set_status_def Let_def split: option.splits if_splits)+

lemma new_entities_ok:
  assumes "db_ok pl db" "update_with_new_entities bid r db = Some db'"
    and "clean_file pl path ts" "\<forall>p. (bid, p) \<in> files db \<longrightarrow> p = path"
  shows "db_ok pl db' \<and> no_new_files db db'"
proof (rule update_batch_ok [OF assms(1) assms(2) [unfolded update_with_new_entities_def]])
  fix b assume "b \<in> set (ud_batches db)" "ub_id b = bid"
  then have "(bid, ub_filePath b) \<in> files db" by (auto simp: files_def)
  with assms(3,4) show "\<exists>ts. clean_file pl (ub_filePath b) ts" by blast
qed simp_all

section \<open>The other operations\<close>

lemma stored_id_exists: "stored_id key ident rows k = Some i \<Longrightarrow> i \<in> ident ` set rows"
  unfolding stored_id_def by (auto dest!: map_of_SomeD)

lemma resolve_row_refs:
  assumes "resolve_row db bid t = Inr r"
  shows "fw_txn r = t" "fw_batch r = bid" "fw_clientId r \<in> cr_id ` set (et_clients (ud_entities db))"
    "fw_accountId r \<in> ar_id ` set (et_accounts (ud_entities db))" "fw_goalId r \<in> gr_id ` set (et_goals (ud_entities db))"
  using assms by (auto simp: resolve_row_def split: option.splits dest: stored_id_exists)

text \<open>A successful save inserts resolved rows of the file for an existing batch.\<close>

lemma save_loop_result:
  "save_loop chunk bid ts i db n = Some r \<Longrightarrow> r = Inr (db', m) \<longrightarrow>
     (\<exists>rows. db' = db\<lparr>ud_rows := foldl insert_row (ud_rows db) rows\<rparr> \<and> (\<forall>x \<in> set rows. \<exists>t \<in> set ts. resolve_row db bid t = Inr x) \<and>
        (rows = [] \<or> get_batch db bid \<noteq> None))"
proof (erule save_loop.raw_induct [rotated])
  fix loop chunk bid ts i db n r
  assume IH: "\<And>chunk bid ts i db n r. loop chunk bid ts i db n = Some r \<Longrightarrow> r = Inr (db', m) \<longrightarrow>
     (\<exists>rows. db' = db\<lparr>ud_rows := foldl insert_row (ud_rows db) rows\<rparr> \<and> (\<forall>x \<in> set rows. \<exists>t \<in> set ts. resolve_row db bid t = Inr x) \<and>
        (rows = [] \<or> get_batch db bid \<noteq> None))"
    and body: "(if i < length ts then let batch = take chunk (drop i ts) in
           case save_batch bid batch db of Inl e \<Rightarrow> Some (Inl e)
           | Inr db' \<Rightarrow> loop chunk bid ts (i + chunk) db' (n + length batch)
         else Some (Inr (db, n))) = Some r"
  show "r = Inr (db', m) \<longrightarrow>
     (\<exists>rows. db' = db\<lparr>ud_rows := foldl insert_row (ud_rows db) rows\<rparr> \<and> (\<forall>x \<in> set rows. \<exists>t \<in> set ts. resolve_row db bid t = Inr x) \<and>
        (rows = [] \<or> get_batch db bid \<noteq> None))"
  proof
    assume r: "r = Inr (db', m)"
    show "\<exists>rows. db' = db\<lparr>ud_rows := foldl insert_row (ud_rows db) rows\<rparr> \<and> (\<forall>x \<in> set rows. \<exists>t \<in> set ts. resolve_row db bid t = Inr x) \<and>
        (rows = [] \<or> get_batch db bid \<noteq> None)"
    proof (cases "i < length ts")
      case False
      with body r show ?thesis by (intro exI [of _ "[]"]) simp
    next
      case True
      let ?c = "take chunk (drop i ts)"
      obtain db1 where save: "save_batch bid ?c db = Inr db1" and rest: "loop chunk bid ts (i + chunk) db1 (n + length ?c) = Some r"
        using body r True by (auto simp: Let_def split: sum.splits)
      obtain rows1 where res: "map_result (resolve_row db bid) ?c = Inr rows1" and batch: "rows1 = [] \<or> get_batch db bid \<noteq> None"
        and db1: "db1 = db\<lparr>ud_rows := foldl insert_row (ud_rows db) rows1\<rparr>"
        using save by (auto simp: save_batch_def resolve_keys_rows split: sum.splits if_splits)
      have "\<exists>t \<in> set ts. resolve_row db bid t = Inr x" if "x \<in> set rows1" for x
        using list_all2_witness [OF map_result_Inr [OF res] that] by (meson in_set_takeD in_set_dropD)
      moreover obtain rows2 where "db' = db1\<lparr>ud_rows := foldl insert_row (ud_rows db1) rows2\<rparr>"
          "\<forall>x \<in> set rows2. \<exists>t \<in> set ts. resolve_row db1 bid t = Inr x" "rows2 = [] \<or> get_batch db1 bid \<noteq> None"
        using IH [OF rest] r by blast
      ultimately have "db' = db\<lparr>ud_rows := foldl insert_row (ud_rows db) (rows1 @ rows2)\<rparr>"
          "\<forall>x \<in> set (rows1 @ rows2). \<exists>t \<in> set ts. resolve_row db bid t = Inr x" "rows1 @ rows2 = [] \<or> get_batch db bid \<noteq> None"
        using batch by (auto simp: db1)
      then show ?thesis by blast
    qed
  qed
qed

lemma save_ok:
  assumes "db_ok pl db" "save_transactions chunk bid ts db = Some (Inr (db', n))" "clean_file pl path ts"
  shows "db_ok pl db' \<and> no_new_files db db'"
proof -
  have "save_loop chunk bid ts 0 db 0 = Some (Inr (db', n))" using assms(2) by (simp add: save_transactions_def)
  from mp [OF save_loop_result [OF this] refl]
  obtain rows where db': "db' = db\<lparr>ud_rows := foldl insert_row (ud_rows db) rows\<rparr>"
    and rows: "\<forall>x \<in> set rows. \<exists>t \<in> set ts. resolve_row db bid t = Inr x" "rows = [] \<or> get_batch db bid \<noteq> None"
    by (elim exE conjE) (rule that)
  have batch: "bid \<in> ub_id ` set (ud_batches db)" if nonempty: "rows \<noteq> []"
  proof -
    obtain b where "get_batch db bid = Some b" using rows(2) nonempty by (cases "get_batch db bid") auto
    then have "ub_id b = bid \<and> b \<in> set (ud_batches db)" unfolding get_batch_def by (rule find_SomeD)
    then show ?thesis by blast
  qed
  have new: "row_refs db r" "row_clean pl r" if r: "r \<in> set rows" for r
  proof -
    obtain t where t: "t \<in> set ts" "resolve_row db bid t = Inr r" using rows(1) r by blast
    have "rows \<noteq> []" using r by auto
    note row = resolve_row_refs [OF t(2)] batch [OF this]
    show "row_refs db r" using row by (simp add: row_refs_def)
    show "row_clean pl r" using row(1) t(1) assms(3) unfolding row_clean_def by blast
  qed
  have upper: "set (ud_rows db') \<subseteq> set (ud_rows db) \<union> set rows" using insert_rows_upper [of "ud_rows db" rows] by (simp add: db')
  have old: "refs_ok db" "\<forall>r \<in> set (ud_rows db). row_clean pl r" using assms(1) by (simp_all add: db_ok_def)
  have "row_refs db r" if "r \<in> set (ud_rows db')" for r
    using that upper new(1) old(1) unfolding refs_ok_def by blast
  then have "refs_ok db'" using old(1) unfolding refs_ok_def by (simp add: db')
  moreover have "\<forall>r \<in> set (ud_rows db'). row_clean pl r"
    using old(2) new(2) upper by blast
  ultimately show ?thesis
    using assms(1) rows_unique_fold [of "ud_rows db" rows] by (simp add: db_ok_def db' no_new_files_def files_def)
qed

text \<open>Creating entities keeps the references: the tables only grow and new rows refer to existing ones.\<close>

definition entities_ok :: "entity_tables \<Rightarrow> bool" where
  "entities_ok e = ((\<forall>g \<in> set (et_goals e). gr_accountId g \<in> ar_id ` set (et_accounts e)) \<and>
     (\<forall>a \<in> set (et_accounts e). ar_clientId a \<in> cr_id ` set (et_clients e)))"

lemma create_all_invariant:
  assumes "\<And>e x e' b. Inv e \<Longrightarrow> create e x = Some (e', b) \<Longrightarrow> Inv e'"
  shows "Inv e \<Longrightarrow> Inv (fst (create_all create e xs))"
proof (induction xs arbitrary: e)
  case (Cons x xs)
  show ?case
  proof (cases "create e x")
    case (Some y)
    obtain e1 b where y: "y = (e1, b)" by fastforce
    have "Inv (fst (create_all create e1 xs))" using Cons Some y assms by blast
    then show ?thesis using Some y by (cases "create_all create e1 xs") simp
  qed (use Cons.prems in simp)
qed simp

lemma create_entities_ok:
  assumes "entities_ok e"
  shows "entities_ok (fst (create_approved_entities e r)) \<and> extends e (fst (create_approved_entities e r))"
proof -
  define Inv where "Inv e' = (entities_ok e' \<and> extends e e')" for e'
  have client: "Inv e'" if "Inv a" "create_client a x = Some (e', b)" for a x e' b
    using that by (auto simp: Inv_def create_client_def entities_ok_def extends_def)
  have account: "Inv e'" if "Inv a" "create_account a x = Some (e', b)" for a x e' b
    using that by (auto simp: Inv_def create_account_def entities_ok_def extends_def split: option.splits if_splits dest!: find_SomeD)
  have goal: "Inv e'" if "Inv a" "create_goal a x = Some (e', b)" for a x e' b
    using that by (auto simp: Inv_def create_goal_def entities_ok_def extends_def split: option.splits if_splits dest!: find_SomeD)
  obtain e1 c ok1 where 1: "create_all create_client e (ne_clients r) = (e1, c, ok1)" by (cases "create_all create_client e (ne_clients r)")
  obtain e2 a ok2 where 2: "create_all create_account e1 (ne_accounts r) = (e2, a, ok2)" by (cases "create_all create_account e1 (ne_accounts r)")
  obtain e3 g ok3 where 3: "create_all create_goal e2 (ne_goals r) = (e3, g, ok3)" by (cases "create_all create_goal e2 (ne_goals r)")
  have "Inv e" using assms by (simp add: Inv_def)
  then have "Inv e1" using create_all_invariant [of Inv create_client e "ne_clients r", OF client] 1 by simp
  moreover from this have "Inv e2" using create_all_invariant [of Inv create_account e1 "ne_accounts r", OF account] 2 by simp
  moreover from this have "Inv e3" using create_all_invariant [of Inv create_goal e2 "ne_goals r", OF goal] 3 by simp
  ultimately show ?thesis by (auto simp: create_approved_entities_def 1 2 3 Inv_def)
qed

lemma entities_step_ok:
  assumes "db_ok pl db" "create_approved_entities (ud_entities db) r = (e, counts)"
  shows "db_ok pl (db\<lparr>ud_entities := e\<rparr>) \<and> no_new_files db (db\<lparr>ud_entities := e\<rparr>)"
proof -
  have old: "refs_ok db" using assms(1) by (simp add: db_ok_def)
  then have "entities_ok (ud_entities db)" by (simp add: refs_defs entities_ok_def)
  from create_entities_ok [OF this, of r] assms(2) have e: "entities_ok e" "extends (ud_entities db) e" by simp_all
  have "refs_ok (db\<lparr>ud_entities := e\<rparr>)"
    using old e by (fastforce simp: refs_defs entities_ok_def extends_def)
  then show ?thesis using assms(1) by (simp add: db_ok_def no_new_files_def files_def)
qed

lemma invalid_ok: "db_ok pl db \<Longrightarrow> save_invalid_transactions bid items db = Some db' \<Longrightarrow> db_ok pl db' \<and> no_new_files db db'"
  by (auto simp: save_invalid_transactions_def db_ok_def refs_defs no_new_files_def files_def split: if_splits)

lemma rows_unique_filter: "rows_unique rows \<Longrightarrow> rows_unique (filter P rows)"
proof (induction rows rule: rev_induct)
  case (snoc r rows)
  have split: "rows_unique (xs @ [x]) \<longleftrightarrow> rows_unique xs \<and> (\<forall>y \<in> set xs. \<not> conflicts y x)" for xs x
    by (auto simp: rows_unique_def nth_append less_Suc_eq conflicts_sym in_set_conv_nth all_set_conv_all_nth)
  from snoc show ?case by (simp add: split)
qed simp

lemma delete_ok: "db_ok pl db \<Longrightarrow> db_ok pl (delete_transactions bid db) \<and> no_new_files db (delete_transactions bid db)"
  by (auto simp: delete_transactions_def db_ok_def refs_defs no_new_files_def files_def rows_unique_filter distinct_map_filter)

lemma delete_batch_data_batches:
  "delete_batch_data bid db = Some (db', counts) \<Longrightarrow> ud_batches db' = ud_batches db \<and> ud_nextBatch db' = ud_nextBatch db"
  by (erule delete_batch_data_cases)
    (drule goal_loop.loop_removes, drule account_loop.loop_removes, drule client_loop.loop_removes,
      simp add: without_goals_def without_accounts_def without_clients_def)

lemma rollback_ok:
  assumes "db_ok pl db" "rollback_batch bid db = Some (db', counts)"
  shows "db_ok pl db' \<and> no_new_files db db'"
proof -
  obtain db1 where data: "delete_batch_data bid db = Some (db1, counts)"
    and db': "db' = db1\<lparr>ud_invalid := filter (\<lambda>r. iv_batch r \<noteq> bid) (ud_invalid db1), ud_batches := filter (\<lambda>b. ub_id b \<noteq> bid) (ud_batches db1)\<rparr>"
    using assms(2) by (rule rollback_cases)
  have "ud_nextBatch db' = ud_nextBatch db" "ud_batches db' = filter (\<lambda>b. ub_id b \<noteq> bid) (ud_batches db)"
    using delete_batch_data_batches [OF data] by (simp_all add: db')
  moreover have "refs_ok db'" "ud_rows db' = filter (\<lambda>r. fw_batch r \<noteq> bid) (ud_rows db)"
    using rollback_shape [OF assms(2)] assms(1) by (simp_all add: db_ok_def)
  ultimately show ?thesis
    using assms(1) by (auto simp: db_ok_def no_new_files_def files_def rows_unique_filter distinct_map_filter)
qed

section \<open>Steps keep the invariant\<close>

lemma await_ok:
  assumes "await db r next = (st', db')" "db_ok pl db" "state_ok pl path next"
    and "\<And>db1. r = Some db1 \<Longrightarrow> db_ok pl db1 \<and> no_new_files db db1"
  shows "db_ok pl db' \<and> no_new_files db db' \<and> state_ok pl path st'"
  using assms by (auto simp: await_def split: option.splits)

lemma job_step_ok:
  assumes "db_ok pl db" "state_ok pl path st" "\<forall>p. (bid, p) \<in> files db \<longrightarrow> p = path"
    and resumed: "st = R_Parse \<Longrightarrow> \<exists>ts. clean_file pl path ts"
    and step: "job_step pl now bid path st db = (st', db')"
  shows "db_ok pl db' \<and> no_new_files db db' \<and> state_ok pl path st'"
proof -
  note upd = batch_update_ok [OF assms(1)]
  show ?thesis
  proof (cases st)
    case P_Start
    with step have "await db (update_batch_status now bid PARSING None db) P_Parse = (st', db')" by simp
    then show ?thesis by (rule await_ok [OF _ assms(1)]) (simp_all add: upd(1))
  next
    case P_Parse
    with step assms(1) show ?thesis by (auto split: option.splits if_splits)
  next
    case (P_Parsed ts)
    with step have "await db (update_with_parsing_results bid (length ts) db) (P_Validate ts) = (st', db')" by simp
    then show ?thesis by (rule await_ok [OF _ assms(1)]) (use assms(2) P_Parsed upd(2) in simp_all)
  next
    case (P_Validate ts)
    define vr where "vr = validate_fund_batch (pl_clock pl) (pl_config pl) ts"
    obtain n m es ws vs where "await db (update_with_validation_results bid n m es ws vs db) (P_Invalid vr (validate_groups (fb_valid vr))) = (st', db')"
      using step P_Validate by (simp add: Let_def vr_def)
    then show ?thesis by (rule await_ok [OF _ assms(1)]) (use assms(2) P_Validate upd(3) vr_def in simp_all)
  next
    case (P_Invalid vr ge)
    then obtain ts where ts: "pl_parse pl path = Some ts" "vr = validate_fund_batch (pl_clock pl) (pl_config pl) ts" "ge = validate_groups (fb_valid vr)"
      using assms(2) by auto
    have clean: "clean_file pl path (fb_valid vr)" if "fb_invalid vr = []" "filter is_critical ge = []"
      using that ts by (simp add: no_invalid_iff all_valid clean_file_def groups_critical_iff)
    from step P_Invalid have "await db (save_invalid_transactions bid (fb_invalid vr) db)
        (if fb_invalid vr \<noteq> [] then P_Reject Upload_Rejected
         else if filter is_critical ge \<noteq> [] then P_Reject Group_Validation_Failed else P_Detect (fb_valid vr)) = (st', db')" by simp
    then show ?thesis by (rule await_ok [OF _ assms(1)]) (use clean invalid_ok [OF assms(1)] in auto)
  next
    case (P_Reject e)
    show ?thesis
    proof (cases "e = Group_Validation_Failed \<and> get_batch db bid = None")
      case False
      with P_Reject step have "await db (update_batch_status now bid FAILED None db) (J_Catch e) = (st', db')" by simp
      then show ?thesis by (rule await_ok [OF _ assms(1)]) (simp_all add: upd(1))
    qed (use P_Reject step assms(1) in auto)
  next
    case (P_Detect ts)
    with step assms(1,2) show ?thesis by (auto simp: Let_def split: if_splits)
  next
    case (P_Report r)
    then obtain ts where ts: "clean_file pl path ts" using assms(2) by auto
    from P_Report step have "await db (update_with_new_entities bid r db) J_Done = (st', db')" by simp
    then show ?thesis by (rule await_ok [OF _ assms(1)]) (use new_entities_ok [OF assms(1) _ ts assms(3)] in simp_all)
  next
    case R_Start
    with step assms(1) show ?thesis by (auto split: option.splits if_splits)
  next
    case (R_Create r)
    with step assms(1) show ?thesis by (auto split: prod.splits if_splits dest: entities_step_ok)
  next
    case R_Parse
    show ?thesis
    proof (cases "pl_parse pl path")
      case (Some ts)
      from resumed [OF R_Parse] Some have "clean_file pl path ts" by (auto simp: clean_file_def)
      then have "clean_file pl path (fb_valid (validate_fund_batch (pl_clock pl) (pl_config pl) ts))"
        by (simp add: clean_file_def all_valid)
      with R_Parse step assms(1) Some show ?thesis by (auto simp: Let_def)
    qed (use R_Parse step assms(1) in auto)
  next
    case (F_Save ts)
    then have ts: "clean_file pl path ts" using assms(2) by simp
    show ?thesis
    proof (cases "save_transactions (pl_chunk pl) bid ts db")
      case (Some r)
      show ?thesis
      proof (cases r)
        case (Inr x)
        obtain db1 n where "x = (db1, n)" by fastforce
        with Some Inr F_Save step ts save_ok [OF assms(1), of "pl_chunk pl" bid ts db1 n path] show ?thesis by auto
      qed (use Some F_Save step assms(1) in auto)
    qed (use F_Save step assms(1) ts in auto)
  next
    case (F_Final ts)
    show ?thesis
    proof (cases "summary_fits (calculate_summary ts)")
      case True
      with step F_Final have "await db (update_with_final_results now bid (calculate_summary ts) (group_statistics ts) db) J_Done = (st', db')"
        by simp
      then show ?thesis by (rule await_ok [OF _ assms(1)]) (simp_all add: upd(5))
    qed (use F_Final step assms(1) in auto)
  next
    case (J_Catch e)
    with step assms(1) upd(6) show ?thesis by (auto split: option.splits if_splits)
  qed (use step assms(1) in auto)
qed

lemma await_fst: "await db r next = (st', db') \<Longrightarrow> st' = next \<or> st' = J_Catch Record_Missing"
  by (auto simp: await_def split: option.splits)

lemma resume_only_step:
  "job_step pl now bid path st db = (st', db') \<Longrightarrow> resume_only st' \<Longrightarrow> resume_only st"
  by (cases st) (auto simp: resume_only_def Let_def split: option.splits if_splits prod.splits sum.splits dest!: await_fst)

lemma worker_step_ok:
  assumes "db_ok pl db" "job_ok pl db j" "worker_step pl now j db = (j', db')"
  shows "db_ok pl db' \<and> no_new_files db db' \<and> job_ok pl db' j'"
proof -
  have own_file: "\<forall>p. (jb_batch j, p) \<in> files db \<longrightarrow> p = jb_path j" and state: "state_ok pl (jb_path j) (jb_state j)"
    and resumed: "jb_resume j \<Longrightarrow> \<exists>ts. clean_file pl (jb_path j) ts"
    using assms(2) by (simp_all add: job_ok_def)
  show ?thesis
  proof (cases "jb_state j = J_Waiting \<or> (\<exists>e. jb_state j = J_Failed e)")
    case True
    then have j': "db' = db" "j' = j\<lparr>jb_state := first_state j, jb_attempts := jb_attempts j + 1\<rparr> \<or> j' = j\<lparr>jb_state := J_Waiting\<rparr> \<or> j' = j"
      using assms(3) by (auto simp: worker_step_def split: if_splits)
    have "job_ok pl db j'"
      using j'(2) assms(2) by (elim disjE) (simp_all add: job_ok_def first_state_def resume_only_def)
    then show ?thesis using assms(1) j' by simp
  next
    case False
    have "worker_step pl now j db =
        (case job_step pl now (jb_batch j) (jb_path j) (jb_state j) db of (st', db') \<Rightarrow> (j\<lparr>jb_state := st'\<rparr>, db'))"
      using False by (cases "jb_state j") (simp_all add: worker_step_def del: job_step.simps)
    with assms(3) obtain st' where st: "job_step pl now (jb_batch j) (jb_path j) (jb_state j) db = (st', db')" "j' = j\<lparr>jb_state := st'\<rparr>"
      by (cases "job_step pl now (jb_batch j) (jb_path j) (jb_state j) db") simp
    have "db_ok pl db' \<and> no_new_files db db' \<and> state_ok pl (jb_path j) st'"
    proof (rule job_step_ok [OF assms(1) state own_file _ st(1)])
      show "\<exists>ts. clean_file pl (jb_path j) ts" if "jb_state j = R_Parse"
        using assms(2) that resumed by (auto simp: job_ok_def resume_only_def)
    qed
    then show ?thesis using assms(2) st(2) job_ok_mono [OF assms(2), of db'] resume_only_step [OF st(1)] by (auto simp: job_ok_def)
  qed
qed

lemma new_batch_ok:
  assumes "db_ok pl db" "create_upload_batch number fileName path by now db = Some (db', bid)"
  shows "db_ok pl db' \<and> bid = ud_nextBatch db \<and> ud_nextBatch db' = bid + 1 \<and> files db' = insert (bid, path) (files db)"
proof -
  have db': "db' = db\<lparr>ud_batches := ud_batches db @ [new_batch (ud_nextBatch db) number fileName path by now], ud_nextBatch := ud_nextBatch db + 1\<rparr>"
    "bid = ud_nextBatch db"
    using assms(2) by (auto simp: create_upload_batch_def split: if_splits)
  have "refs_ok db'" using assms(1) by (auto simp: db_ok_def db' refs_defs)
  moreover have "ud_nextBatch db \<notin> ub_id ` set (ud_batches db)" using assms(1) by (auto simp: db_ok_def)
  ultimately show ?thesis using assms(1) by (auto simp: db_ok_def db' new_batch_def files_def)
qed

lemma unique_file:
  assumes "db_ok pl db" "b \<in> set (ud_batches db)" "(ub_id b, path) \<in> files db"
  shows "path = ub_filePath b"
  using assms by (auto simp: db_ok_def files_def distinct_map dest: inj_onD)

lemma remove_job_subset: "remove_job bid resume jobs = Some jobs' \<Longrightarrow> set jobs' \<subseteq> set jobs"
  by (auto simp: remove_job_def split: if_splits)

lemma jobs_mono:
  "\<forall>j \<in> set jobs. job_ok pl db j \<Longrightarrow> no_new_files db db' \<Longrightarrow> set jobs' \<subseteq> set jobs \<Longrightarrow> \<forall>j \<in> set jobs'. job_ok pl db' j"
  by (blast intro: job_ok_mono)

lemma no_new_files_trans: "no_new_files a b \<Longrightarrow> no_new_files b c \<Longrightarrow> no_new_files a c"
  by (auto simp: no_new_files_def)

lemma step_ok: "step pl s s' \<Longrightarrow> sys_ok pl s \<Longrightarrow> sys_ok pl s'"
proof (induction rule: step.induct)
  case (upload number fileName path user now s s')
  then obtain db bid where create: "create_upload_batch number fileName path user now (sy_db s) = Some (db, bid)"
    and s': "s' = \<lparr>sy_db = db, sy_jobs = sy_jobs s @ [\<lparr>jb_batch = bid, jb_path = path, jb_resume = False, jb_state = J_Waiting, jb_attempts = 0\<rparr>]\<rparr>"
    by (auto simp: upload_route_def split: option.splits)
  have ok: "db_ok pl (sy_db s)" "\<forall>j \<in> set (sy_jobs s). job_ok pl (sy_db s) j" using upload(2) by (simp_all add: sys_ok_def)
  note new = new_batch_ok [OF ok(1) create]
  have "job_ok pl db j" if "j \<in> set (sy_jobs s)" for j
    using ok(2) that new by (auto simp: job_ok_def)
  moreover have "bid \<notin> fst ` files (sy_db s)"
    using ok(1) new by (auto simp: db_ok_def files_def)
  ultimately show ?case using new by (auto simp: sys_ok_def s' job_ok_def resume_only_def) (metis fst_conv image_eqI)
next
  case (approve approved user now bid s s')
  then obtain b db where b: "get_batch (sy_db s) bid = Some b" "ub_processingStatus b = WAITING_FOR_APPROVAL"
      "update_after_approval now bid approved user (sy_db s) = Some db"
    and s': "s' = \<lparr>sy_db = db, sy_jobs = sy_jobs s @ (if approved
                       then [\<lparr>jb_batch = bid, jb_path = ub_filePath b, jb_resume = True, jb_state = J_Waiting, jb_attempts = 0\<rparr>] else [])\<rparr>"
    by (auto simp: approve_route_def split: option.splits if_splits)
  have ok: "db_ok pl (sy_db s)" "\<forall>j \<in> set (sy_jobs s). job_ok pl (sy_db s) j" using approve(2) by (simp_all add: sys_ok_def)
  note upd = batch_update_ok(4) [OF ok(1) b(3)]
  have mem: "b \<in> set (ud_batches (sy_db s))" "ub_id b = bid" using b(1) unfolding get_batch_def by (blast dest: find_SomeD)+
  have "\<exists>ts. clean_file pl (ub_filePath b) ts" "bid < ud_nextBatch (sy_db s)" using ok(1) mem b(2) by (auto simp: db_ok_def)
  moreover have "path = ub_filePath b" if "(bid, path) \<in> files (sy_db s)" for path
    using unique_file [OF ok(1) mem(1)] that mem(2) by simp
  ultimately have "approved \<Longrightarrow> job_ok pl (sy_db s) \<lparr>jb_batch = bid, jb_path = ub_filePath b, jb_resume = True, jb_state = J_Waiting, jb_attempts = 0\<rparr>"
    by (auto simp: job_ok_def)
  with ok upd show ?case by (auto simp: sys_ok_def s' intro: job_ok_mono)
next
  case (cancel now bid s s')
  have ok: "db_ok pl (sy_db s)" "\<forall>j \<in> set (sy_jobs s). job_ok pl (sy_db s) j" using cancel(2) by (simp_all add: sys_ok_def)
  obtain db where db: "cancel_batch now bid (sy_db s) = Some db"
    and s': "s' = (case remove_job bid False (sy_jobs s) of None \<Rightarrow> s\<lparr>sy_db := db\<rparr>
                | Some jobs \<Rightarrow> \<lparr>sy_db = delete_transactions bid db, sy_jobs = jobs\<rparr>)"
    using cancel(1) by (auto simp: cancel_route_def split: option.splits)
  note upd = batch_update_ok(7) [OF ok(1) db]
  show ?case
  proof (cases "remove_job bid False (sy_jobs s)")
    case None
    have "\<forall>j \<in> set (sy_jobs s). job_ok pl db j" by (rule jobs_mono [OF ok(2)]) (use upd in auto)
    with s' upd None show ?thesis by (simp add: sys_ok_def)
  next
    case (Some jobs)
    have "db_ok pl (delete_transactions bid db) \<and> no_new_files (sy_db s) (delete_transactions bid db)"
      using delete_ok [OF conjunct1 [OF upd], of bid] upd by (blast intro: no_new_files_trans)
    with s' Some jobs_mono [OF ok(2) _ remove_job_subset [OF Some]] show ?thesis by (simp add: sys_ok_def)
  qed
next
  case (rollback bid s s')
  have ok: "db_ok pl (sy_db s)" "\<forall>j \<in> set (sy_jobs s). job_ok pl (sy_db s) j" using rollback(2) by (simp_all add: sys_ok_def)
  obtain jobs1 where 1: "remove_job bid False (sy_jobs s) = Some jobs1"
    using rollback(1) by (auto simp: rollback_route_def split: if_splits option.splits)
  have keep: "sys_ok pl (s\<lparr>sy_jobs := jobs\<rparr>)" if "set jobs \<subseteq> set (sy_jobs s)" for jobs
    using ok that by (auto simp: sys_ok_def)
  show ?case
  proof (cases "remove_job bid True jobs1")
    case None
    with rollback(1) 1 keep [OF remove_job_subset [OF 1]] show ?thesis by (simp add: rollback_route_def split: if_splits)
  next
    case (Some jobs2)
    have sub: "set jobs2 \<subseteq> set (sy_jobs s)" using remove_job_subset [OF 1] remove_job_subset [OF Some] by blast
    show ?thesis
    proof (cases "rollback_batch bid (sy_db s)")
      case None
      with rollback(1) 1 Some keep [OF sub] show ?thesis by (simp add: rollback_route_def split: if_splits)
    next
      case (Some r)
      obtain db counts where r: "r = (db, counts)" by fastforce
      with rollback(1) 1 \<open>remove_job bid True jobs1 = Some jobs2\<close> Some
      have "s' = \<lparr>sy_db = db, sy_jobs = jobs2\<rparr>" by (simp add: rollback_route_def split: if_splits)
      with rollback_ok [OF ok(1) Some [unfolded r]] jobs_mono [OF ok(2) _ sub] show ?thesis by (simp add: sys_ok_def)
    qed
  qed
next
  case (work s js1 j js2 now j' db')
  have ok: "db_ok pl (sy_db s)" "\<forall>j \<in> set (sy_jobs s). job_ok pl (sy_db s) j" using work(3) by (simp_all add: sys_ok_def)
  have "job_ok pl (sy_db s) j" using ok(2) work(1) by simp
  note new = worker_step_ok [OF ok(1) this work(2)]
  have "\<forall>j \<in> set (js1 @ js2). job_ok pl db' j" by (rule jobs_mono [OF ok(2)]) (use new work(1) in auto)
  with new show ?case by (auto simp: sys_ok_def)
qed

text \<open>The empty system: some entities and funds, no batch, no transaction, no job.\<close>

definition initial_system :: "entity_tables \<Rightarrow> fund_rec list \<Rightarrow> system" where
  "initial_system e funds = \<lparr>sy_db = \<lparr>ud_batches = [], ud_entities = e, ud_funds = funds, ud_rows = [], ud_invalid = [],
     ud_bank = [], ud_nextBatch = 0\<rparr>, sy_jobs = []\<rparr>"

lemma initial_ok: "entities_ok e \<Longrightarrow> sys_ok pl (initial_system e funds)"
  by (simp add: sys_ok_def initial_system_def db_ok_def refs_defs rows_unique_def entities_ok_def)

lemma reachable_ok: "reachable pl s0 s \<Longrightarrow> sys_ok pl s0 \<Longrightarrow> sys_ok pl s"
  by (induction rule: reachable.induct) (auto intro: step_ok)

text \<open>C1: however uploads, approvals, cancellations, rollbacks and worker steps interleave, every stored transaction comes
  from a file all of whose rows are complete and whose goal transactions are consistent, refers to an existing
  client, account, goal and batch, and shares its id and its place in the batch with no other; a batch waiting for
  approval has such a file.\<close>

theorem reachable_state_safe:
  assumes "reachable pl (initial_system e funds) s" "entities_ok e"
  shows "list_all (row_clean pl) (ud_rows (sy_db s)) \<and> refs_ok (sy_db s) \<and> rows_unique (ud_rows (sy_db s)) \<and>
         list_all (\<lambda>b. ub_processingStatus b \<noteq> WAITING_FOR_APPROVAL \<or> (\<exists>ts. clean_file pl (ub_filePath b) ts)) (ud_batches (sy_db s))"
  using reachable_ok [OF assms(1) initial_ok [OF assms(2)]] by (auto simp: sys_ok_def db_ok_def list_all_iff)

section \<open>An example\<close>

definition ex_pipeline :: pipeline where
  "ex_pipeline = \<lparr>pl_parse = (\<lambda>p. if p = ''f'' then Some [ex_parsed 1 ''x'' (Some 10)]
       else if p = ''bad'' then Some [ex_parsed 1 ''x'' None] else None),
     pl_clock = ex_clock, pl_config = ex_cfg, pl_chunk = 500\<rparr>"

lemma ex_clean: "clean_file ex_pipeline ''f'' [ex_parsed 1 ''x'' (Some 10)]"
proof -
  have "\<not> blocked ex_clock ex_cfg (ex_parsed 1 ''x'' (Some 10))" by code_simp
  moreover have "codes_consistent [ex_parsed 1 ''x'' (Some 10)]" by code_simp
  ultimately show ?thesis by (simp add: clean_file_def ex_pipeline_def)
qed

theorem reachable_state_safe_witness:
  "\<exists>s. reachable ex_pipeline (initial_system ex_entities []) s \<and> sy_jobs s \<noteq> [] \<and> refs_ok (sy_db s)"
proof -
  let ?s0 = "initial_system ex_entities []"
  obtain s where s: "upload_route ''B'' ''f.csv'' ''f'' ''u'' 5 ?s0 = Some s" "sy_jobs s \<noteq> []"
    by (simp add: upload_route_def create_upload_batch_def initial_system_def)
  have "reachable ex_pipeline ?s0 s" using reachable.start s(1) by (blast intro: reachable.advance step.upload)
  moreover have "entities_ok ex_entities" by (simp add: entities_ok_def ex_entities_def)
  ultimately show ?thesis using reachable_state_safe [of ex_pipeline ex_entities "[]" s] s(2) by blast
qed

end
