(* ===== verification/FundJobs.thy ===== *)
theory FundJobs
  imports FundPipelineProperties
begin

text \<open>
  A job that runs undisturbed: for every file it ends within ten database calls, with the verdict of an abstract
  specification. Then what a rejected file leaves behind, and that an approved one is stored.
\<close>

section \<open>Running the steps\<close>

definition put_batch :: "nat \<Rightarrow> (upload_batch \<Rightarrow> upload_batch) \<Rightarrow> upload_db \<Rightarrow> upload_db" where
  "put_batch bid f db = db\<lparr>ud_batches := update_where (\<lambda>b. ub_id b = bid) f (ud_batches db)\<rparr>"

lemma put_batch_simps [simp]:
  "ud_entities (put_batch bid f db) = ud_entities db" "ud_rows (put_batch bid f db) = ud_rows db"
  "ud_funds (put_batch bid f db) = ud_funds db" "ud_invalid (put_batch bid f db) = ud_invalid db"
  "resolve_row (put_batch bid f db) = resolve_row db"
  by (simp_all add: put_batch_def resolve_row_def fun_eq_iff)

lemma update_batch_put: "get_batch db bid \<noteq> None \<Longrightarrow> update_batch bid f db = Some (put_batch bid f db)"
  by (simp add: update_batch_def put_batch_def)

lemma find_updated:
  "(\<And>x. key (f x) = key x) \<Longrightarrow>
     List.find (\<lambda>x. key x = k) (update_where (\<lambda>x. key x = k) f xs) = map_option f (List.find (\<lambda>x. key x = k) xs)"
  by (induction xs) (simp_all add: update_where_def)

lemma get_put_batch: "(\<And>b. ub_id (f b) = ub_id b) \<Longrightarrow> get_batch (put_batch bid f db) bid = map_option f (get_batch db bid)"
  by (simp add: put_batch_def get_batch_def find_updated [where key = ub_id])

lemma get_batch_same [simp]:
  "get_batch (db\<lparr>ud_invalid := v\<rparr>) bid = get_batch db bid" "get_batch (db\<lparr>ud_entities := e\<rparr>) bid = get_batch db bid"
  by (simp_all add: get_batch_def)

lemma resolve_row_same [simp]: "resolve_row (db\<lparr>ud_invalid := v\<rparr>) = resolve_row db"
  by (simp add: resolve_row_def fun_eq_iff)

text \<open>Updates of an existing batch succeed, and what they leave in its record.\<close>

lemma await_update:
  "get_batch db bid \<noteq> None \<Longrightarrow> await db (update_batch bid f db) next = (next, put_batch bid f db)"
  by (simp add: await_def update_batch_put)

lemma run_job_Suc:
  "0 < n \<Longrightarrow> run_job n pl now bid path st db =
     (case job_step pl now bid path st db of (st', db') \<Rightarrow> run_job (n - 1) pl now bid path st' db')"
  by (cases n) simp_all

lemma run_job_final [simp]:
  "run_job n pl now bid path J_Done db = (J_Done, db)" "run_job n pl now bid path (J_Failed e) db = (J_Failed e, db)"
  by (induction n) simp_all

definition failed_with :: "instant \<Rightarrow> job_error \<Rightarrow> upload_batch \<Rightarrow> upload_batch" where
  "failed_with now e b =
     (if e = Group_Validation_Failed then b
      else b\<lparr>ub_processingStatus := FAILED, ub_validationStatus := VS_FAILED, ub_validationErrors := Failure e,
             ub_completedAt := Some now\<rparr>)"

lemma failed_with_id [simp]: "ub_id (failed_with now e b) = ub_id b"
  by (simp add: failed_with_def)

lemma update_where_same [simp]: "update_where P (\<lambda>x. x) xs = xs"
  by (simp add: update_where_def)

lemma run_catch:
  assumes "0 < n" "get_batch db bid \<noteq> None"
  shows "run_job n pl now bid path (J_Catch e) db = (J_Failed e, put_batch bid (failed_with now e) db)"
  using assms by (simp add: run_job_Suc update_with_error_def update_batch_put failed_with_def [abs_def])
    (simp add: put_batch_def)

lemma run_reject:
  assumes "1 < n" "get_batch db bid \<noteq> None"
  shows "run_job n pl now bid path (P_Reject e) db =
    (J_Failed e, put_batch bid (failed_with now e) (put_batch bid (set_status now FAILED None) db))"
proof -
  let ?db = "put_batch bid (set_status now FAILED None) db"
  have "get_batch ?db bid \<noteq> None" using assms(2) by (simp add: get_put_batch set_status_def Let_def)
  from run_catch [OF _ this, of "n - 1" pl now path e] assms(1)
  have "run_job (n - 1) pl now bid path (J_Catch e) ?db = (J_Failed e, put_batch bid (failed_with now e) ?db)" by simp
  moreover have "job_step pl now bid path (P_Reject e) db = (J_Catch e, ?db)"
    using await_update [OF assms(2)] assms(2) unfolding job_step.simps update_batch_status_def by auto
  ultimately show ?thesis using assms(1) by (simp only: run_job_Suc prod.case)
qed

definition final_update :: "instant \<Rightarrow> parsed_fund list \<Rightarrow> upload_batch \<Rightarrow> upload_batch" where
  "final_update now ts b = b\<lparr>ub_summary := Some (calculate_summary ts), ub_groups := Some (group_statistics ts),
     ub_processingStatus := COMPLETED, ub_validationStatus := VS_PASSED, ub_completedAt := Some now\<rparr>"

lemma run_save:
  assumes "2 < n" "get_batch db bid \<noteq> None" "pl_chunk pl > 0"
  shows "savable db bid ts \<and> (\<exists>rows. map_result (resolve_row db bid) ts = Inr rows \<and>
      run_job n pl now bid path (F_Save ts) db =
        (if summary_fits (calculate_summary ts)
         then (J_Done, put_batch bid (final_update now ts) (db\<lparr>ud_rows := foldl insert_row (ud_rows db) rows\<rparr>))
         else (J_Failed Invalid_Data, put_batch bid (failed_with now Invalid_Data) (db\<lparr>ud_rows := foldl insert_row (ud_rows db) rows\<rparr>)))) \<or>
    \<not> savable db bid ts \<and> (\<exists>e. save_error db bid ts e \<and>
      run_job n pl now bid path (F_Save ts) db = (J_Failed e, put_batch bid (failed_with now e) db))"
proof -
  obtain r where r: "save_transactions (pl_chunk pl) bid ts db = Some r" "rest_saved bid ts db 0 r"
    using assms(3,2) by (rule save_transactions_outcome)
  show ?thesis
  proof (cases r)
    case (Inl e)
    then have "run_job n pl now bid path (F_Save ts) db = run_job (n - 1) pl now bid path (J_Catch e) db"
      using assms(1) r(1) by (simp add: run_job_Suc [of n])
    with Inl r(2) run_catch [of "n - 1" db bid pl now path e] assms(1,2) show ?thesis by auto
  next
    case (Inr res)
    let ?db = "\<lambda>rows. db\<lparr>ud_rows := foldl insert_row (ud_rows db) rows\<rparr>"
    obtain rows m where res: "res = (?db rows, m)" "map_result (resolve_row db bid) ts = Inr rows" "savable db bid ts"
      using r(2) Inr by (cases res) auto
    have run: "run_job n pl now bid path (F_Save ts) db = run_job (n - 1) pl now bid path (F_Final ts) (?db rows)"
      using assms(1) r(1) Inr res(1) by (simp add: run_job_Suc [of n])
    have present: "get_batch (?db rows) bid \<noteq> None" using assms(2) by simp
    show ?thesis
    proof (cases "summary_fits (calculate_summary ts)")
      case True
      have "run_job (n - 1) pl now bid path (F_Final ts) (?db rows) = (J_Done, put_batch bid (final_update now ts) (?db rows))"
        using assms(1) True await_update [OF present, of "final_update now ts" J_Done]
        by (simp add: run_job_Suc [of "n - Suc 0"] update_with_final_results_def final_update_def [abs_def])
      with True res run show ?thesis by auto
    next
      case False
      have "run_job (n - 1) pl now bid path (F_Final ts) (?db rows) =
          (J_Failed Invalid_Data, put_batch bid (failed_with now Invalid_Data) (?db rows))"
        using assms(1) False run_catch [OF _ present, of "n - 2" pl now path Invalid_Data]
        by (simp add: run_job_Suc [of "n - Suc 0"] numeral_2_eq_2)
      with False res run show ?thesis by auto
    qed
  qed
qed

section \<open>The verdict on a file\<close>

text \<open>All clients, accounts and goals of the rows are in the tables.\<close>

definition known :: "entity_tables \<Rightarrow> parsed_fund list \<Rightarrow> bool" where
  "known e ts =
     (pf_clientName ` set ts \<subseteq> cr_name ` set (et_clients e) \<and> pf_accountNumber ` set ts \<subseteq> ar_number ` set (et_accounts e) \<and>
      pf_goalNumber ` set ts \<subseteq> gr_number ` set (et_goals e))"

lemma no_new_entities_iff: "has_new_entities (detect_new_entities e ts) \<longleftrightarrow> \<not> known e ts"
proof -
  have "map nc_name (detect_new_clients e ts) = [] \<longleftrightarrow> pf_clientName ` set ts \<subseteq> cr_name ` set (et_clients e)"
    "map na_number (detect_new_accounts e ts) = [] \<longleftrightarrow> pf_accountNumber ` set ts \<subseteq> ar_number ` set (et_accounts e)"
    "map ng_number (detect_new_goals e ts) = [] \<longleftrightarrow> pf_goalNumber ` set ts \<subseteq> gr_number ` set (et_goals e)"
    unfolding detected_names filter_empty_conv by auto
  then show ?thesis by (auto simp: has_new_entities_def detect_new_entities_def known_def)
qed

lemma stored_id_None: "stored_id key ident rows k = None \<longleftrightarrow> k \<notin> key ` set rows"
  by (simp add: stored_id_def map_of_eq_None_iff image_comp comp_def)

definition unknown_fund :: "upload_db \<Rightarrow> parsed_fund \<Rightarrow> bool" where
  "unknown_fund db t = (pf_fundCode t \<notin> fr_code ` set (ud_funds db))"

lemma resolve_known:
  assumes "known (ud_entities db) ts" "t \<in> set ts"
  shows "(unknown_fund db t \<longrightarrow> resolve_row db bid t = Inl (Missing_Foreign_Key (pf_rowNumber t))) \<and>
    (\<not> unknown_fund db t \<longrightarrow> (\<exists>r. resolve_row db bid t = Inr r))"
proof -
  let ?c = "stored_id cr_name cr_id (et_clients (ud_entities db)) (pf_clientName t)"
  let ?a = "stored_id ar_number ar_id (et_accounts (ud_entities db)) (pf_accountNumber t)"
  let ?g = "stored_id gr_number gr_id (et_goals (ud_entities db)) (pf_goalNumber t)"
  have "?c \<noteq> None" "?a \<noteq> None" "?g \<noteq> None" using assms by (auto simp: stored_id_None known_def)
  moreover have "unknown_fund db t \<longleftrightarrow> stored_id fr_code fr_id (ud_funds db) (pf_fundCode t) = None"
    by (simp add: stored_id_None unknown_fund_def)
  ultimately show ?thesis by (auto simp: resolve_row_def)
qed

text \<open>Why a file whose entities exist cannot be saved.\<close>

definition refusal :: "upload_db \<Rightarrow> parsed_fund list \<Rightarrow> job_error \<Rightarrow> bool" where
  "refusal db ts e =
     ((\<exists>t \<in> set ts. unknown_fund db t \<and> e = Missing_Foreign_Key (pf_rowNumber t)) \<or>
      e = Invalid_Data \<and> (\<exists>t \<in> set ts. \<not> row_accepted t))"

definition acceptable_row :: "upload_db \<Rightarrow> parsed_fund \<Rightarrow> bool" where
  "acceptable_row db t = (\<not> unknown_fund db t \<and> row_accepted t)"

lemma savable_known:
  assumes "known (ud_entities db) ts"
  shows "savable db bid ts \<longleftrightarrow> list_all (acceptable_row db) ts" "save_error db bid ts e \<Longrightarrow> refusal db ts e"
proof -
  show "savable db bid ts \<longleftrightarrow> list_all (acceptable_row db) ts"
    using resolve_known [OF assms, of _ bid] unfolding savable_def list_all_iff acceptable_row_def
    by (metis Inl_Inr_False)
  assume "save_error db bid ts e"
  then show "refusal db ts e"
    using resolve_known [OF assms, of _ bid] unfolding save_error_def refusal_def
    by (metis Inl_Inr_False sum.inject(1))
qed

datatype verdict =
    Rejected job_error | Awaiting new_entities | Unsaved "parsed_fund list" | Unfinished "parsed_fund list" | Stored "parsed_fund list"

definition save_verdict :: "upload_db \<Rightarrow> parsed_fund list \<Rightarrow> verdict" where
  "save_verdict db ts =
     (if \<not> list_all (acceptable_row db) ts then Unsaved ts
      else if \<not> summary_fits (calculate_summary ts) then Unfinished ts
      else Stored ts)"

definition verdict :: "pipeline \<Rightarrow> string \<Rightarrow> upload_db \<Rightarrow> verdict" where
  "verdict pl path db =
     (case pl_parse pl path of
        None \<Rightarrow> Rejected Parse_Failed
      | Some ts \<Rightarrow>
          if ts = [] then Rejected No_Transactions
          else if \<not> list_all (\<lambda>t. \<not> blocked (pl_clock pl) (pl_config pl) t) ts then Rejected Upload_Rejected
          else if \<not> codes_consistent ts then Rejected Group_Validation_Failed
          else if \<not> known (ud_entities db) ts then Awaiting (detect_new_entities (ud_entities db) ts)
          else save_verdict db ts)"

text \<open>What a verdict means for the state of the job and the database.\<close>

definition rows_stored :: "parsed_fund list \<Rightarrow> nat \<Rightarrow> upload_db \<Rightarrow> upload_db \<Rightarrow> bool" where
  "rows_stored ts bid db db' =
     (\<exists>rows. list_all2 (\<lambda>t r. resolve_row db bid t = Inr r) ts rows \<and> ud_rows db' = foldl insert_row (ud_rows db) rows)"

definition delivers :: "verdict \<Rightarrow> nat \<Rightarrow> upload_db \<Rightarrow> job_state \<Rightarrow> upload_db \<Rightarrow> bool" where
  "delivers v bid db st db' =
     (ud_entities db' = ud_entities db \<and> ud_funds db' = ud_funds db \<and>
      (\<exists>b. get_batch db' bid = Some b \<and>
        (case v of
           Rejected e \<Rightarrow> st = J_Failed e \<and> ub_processingStatus b = FAILED \<and> ud_rows db' = ud_rows db
         | Awaiting r \<Rightarrow> st = J_Done \<and> ub_processingStatus b = WAITING_FOR_APPROVAL \<and> ub_report b = Some r \<and>
             ub_newEntitiesStatus b = Some EA_PENDING \<and> ud_rows db' = ud_rows db
         | Unsaved ts \<Rightarrow> (\<exists>e. refusal db ts e \<and> st = J_Failed e) \<and> ub_processingStatus b = FAILED \<and> ud_rows db' = ud_rows db
         | Unfinished ts \<Rightarrow> st = J_Failed Invalid_Data \<and> ub_processingStatus b = FAILED \<and> rows_stored ts bid db db'
         | Stored ts \<Rightarrow> st = J_Done \<and> ub_processingStatus b = COMPLETED \<and> ub_summary b = Some (calculate_summary ts) \<and>
             ub_groups b = Some (group_statistics ts) \<and> rows_stored ts bid db db')))"

text \<open>The database differs from the one at the start in the batch record and the invalid rows only.\<close>

definition only_bookkeeping :: "nat \<Rightarrow> upload_db \<Rightarrow> upload_db \<Rightarrow> bool" where
  "only_bookkeeping bid db db' =
     (get_batch db' bid \<noteq> None \<and> ud_entities db' = ud_entities db \<and> ud_funds db' = ud_funds db \<and> ud_rows db' = ud_rows db)"

lemma bookkeeping_resolves:
  assumes "only_bookkeeping bid db db'"
  shows "resolve_row db' = resolve_row db" "savable db' = savable db" "save_error db' = save_error db"
proof -
  show r: "resolve_row db' = resolve_row db" using assms by (simp add: only_bookkeeping_def resolve_row_def fun_eq_iff)
  show "savable db' = savable db" "save_error db' = save_error db"
    by (intro ext; simp add: savable_def save_error_def r)+
qed

lemma bookkeeping_put: "only_bookkeeping bid db db' \<Longrightarrow> (\<And>b. ub_id (f b) = ub_id b) \<Longrightarrow> only_bookkeeping bid db (put_batch bid f db')"
  by (simp add: only_bookkeeping_def get_put_batch)


lemma rejection_delivered:
  assumes "only_bookkeeping bid db db1"
  shows "1 < n \<Longrightarrow> run_job n pl now bid path (P_Reject e) db1 = (st, db') \<Longrightarrow> delivers (Rejected e) bid db st db'"
    and "0 < n \<Longrightarrow> e \<noteq> Group_Validation_Failed \<Longrightarrow> run_job n pl now bid path (J_Catch e) db1 = (st, db') \<Longrightarrow>
      delivers (Rejected e) bid db st db'"
proof -
  obtain b where b: "get_batch db1 bid = Some b" using assms by (auto simp: only_bookkeeping_def)
  let ?db = "put_batch bid (set_status now FAILED None) db1"
  have "get_batch ?db bid = Some (set_status now FAILED None b)" by (simp add: get_put_batch b set_status_def)
  then have "get_batch (put_batch bid (failed_with now e) ?db) bid = Some (failed_with now e (set_status now FAILED None b))"
    by (simp add: get_put_batch)
  moreover assume "1 < n" "run_job n pl now bid path (P_Reject e) db1 = (st, db')"
  ultimately show "delivers (Rejected e) bid db st db'"
    using assms run_reject [of n db1 bid pl now path e] b
    by (auto simp: delivers_def only_bookkeeping_def failed_with_def set_status_def)
next
  obtain b where b: "get_batch db1 bid = Some b" using assms by (auto simp: only_bookkeeping_def)
  have "get_batch (put_batch bid (failed_with now e) db1) bid = Some (failed_with now e b)" by (simp add: get_put_batch b)
  moreover assume "0 < n" "e \<noteq> Group_Validation_Failed" "run_job n pl now bid path (J_Catch e) db1 = (st, db')"
  ultimately show "delivers (Rejected e) bid db st db'"
    using assms run_catch [of n db1 bid pl now path e] b
    by (auto simp: delivers_def only_bookkeeping_def failed_with_def)
qed

lemma save_delivered:
  assumes book: "only_bookkeeping bid db db1" and n: "2 < n" "pl_chunk pl > 0"
    and run: "run_job n pl now bid path (F_Save ts) db1 = (st, db')" and known: "known (ud_entities db) ts"
  shows "delivers (save_verdict db ts) bid db st db'"
proof -
  obtain b where b: "get_batch db1 bid = Some b" using book by (auto simp: only_bookkeeping_def)
  have failed: "get_batch (put_batch bid (failed_with now e) d) bid = map_option (failed_with now e) (get_batch d bid)" for e d
    by (simp add: get_put_batch)
  note save = run_save [OF n(1) _ n(2), where db = db1 and bid = bid and now = now and path = path and ts = ts, unfolded run bookkeeping_resolves [OF book]]
  show ?thesis
  proof (cases "list_all (acceptable_row db) ts")
    case False
    then have "\<not> savable db bid ts" by (simp add: savable_known(1) [OF known])
    then obtain e where e: "save_error db bid ts e" "st = J_Failed e" "db' = put_batch bid (failed_with now e) db1"
      using save b by auto
    then have "refusal db ts e" by (intro savable_known(2) [OF known])
    moreover from this have "e \<noteq> Group_Validation_Failed" by (auto simp: refusal_def)
    ultimately show ?thesis
      using False e(2,3) b book by (auto simp: save_verdict_def delivers_def only_bookkeeping_def failed failed_with_def)
  next
    case True
    then have "savable db bid ts" by (simp add: savable_known(1) [OF known])
    then obtain rows where rows: "map_result (resolve_row db bid) ts = Inr rows"
      and res: "(st, db') = (if summary_fits (calculate_summary ts)
         then (J_Done, put_batch bid (final_update now ts) (db1\<lparr>ud_rows := foldl insert_row (ud_rows db1) rows\<rparr>))
         else (J_Failed Invalid_Data, put_batch bid (failed_with now Invalid_Data) (db1\<lparr>ud_rows := foldl insert_row (ud_rows db1) rows\<rparr>)))"
      using save b by auto
    have stored: "rows_stored ts bid db db'" if "ud_rows db' = foldl insert_row (ud_rows db1) rows"
      using map_result_Inr [OF rows] book that by (auto simp: rows_stored_def only_bookkeeping_def)
    show ?thesis
    proof (cases "summary_fits (calculate_summary ts)")
      case fits: True
      have "get_batch (put_batch bid (final_update now ts) d) bid = map_option (final_update now ts) (get_batch d bid)" for d
        by (simp add: get_put_batch final_update_def)
      then show ?thesis
        using True fits res stored b book by (simp add: save_verdict_def delivers_def only_bookkeeping_def final_update_def)
    next
      case False
      then show ?thesis
        using True res stored b book by (simp add: save_verdict_def delivers_def only_bookkeeping_def failed failed_with_def)
    qed
  qed
qed

lemma detection_delivered:
  assumes book: "only_bookkeeping bid db db1" and n: "3 < n" "pl_chunk pl > 0"
    and run: "run_job n pl now bid path (P_Detect ts) db1 = (st, db')"
  shows "delivers (if \<not> known (ud_entities db) ts then Awaiting (detect_new_entities (ud_entities db) ts)
     else save_verdict db ts) bid db st db'"
proof -
  obtain b where b: "get_batch db1 bid = Some b" using book by (auto simp: only_bookkeeping_def)
  let ?r = "detect_new_entities (ud_entities db) ts"
  have same: "ud_entities db1 = ud_entities db" using book by (simp add: only_bookkeeping_def)
  show ?thesis
  proof (cases "known (ud_entities db) ts")
    case True
    then have "run_job (n - 1) pl now bid path (F_Save ts) db1 = (st, db')"
      using run n(1) by (simp add: run_job_Suc [of n] same no_new_entities_iff)
    from save_delivered [OF book _ n(2) this True] n(1) True show ?thesis by simp
  next
    case False
    let ?f = "\<lambda>b. b\<lparr>ub_newClients := length (ne_clients ?r), ub_newAccounts := length (ne_accounts ?r),
       ub_newGoals := length (ne_goals ?r), ub_report := Some ?r, ub_newEntitiesStatus := Some EA_PENDING,
       ub_processingStatus := WAITING_FOR_APPROVAL\<rparr>"
    have "st = J_Done" "db' = put_batch bid ?f db1"
      using run n(1) False b
      by (simp_all add: run_job_Suc [of n] run_job_Suc [of "n - Suc 0"] same no_new_entities_iff update_with_new_entities_def await_update)
    moreover have "get_batch (put_batch bid ?f db1) bid = Some (?f b)" by (simp add: get_put_batch b)
    ultimately show ?thesis using False book by (simp add: delivers_def only_bookkeeping_def)
  qed
qed


lemma invalid_delivered:
  assumes book: "only_bookkeeping bid db db1" and n: "4 < n" "pl_chunk pl > 0"
    and vr: "vr = validate_fund_batch (pl_clock pl) (pl_config pl) ts"
    and run: "run_job n pl now bid path (P_Invalid vr (validate_groups (fb_valid vr))) db1 = (st, db')"
    and parse: "pl_parse pl path = Some ts" "ts \<noteq> []"
  shows "delivers (verdict pl path db) bid db st db'"
proof -
  obtain b where b: "get_batch db1 bid = Some b" using book by (auto simp: only_bookkeeping_def)
  define db2 where "db2 = (if fb_invalid vr = [] then db1 else db1\<lparr>ud_invalid := ud_invalid db1 @
     map (\<lambda>(t, es). \<lparr>iv_batch = bid, iv_transaction = t, iv_errors = es\<rparr>) (fb_invalid vr)\<rparr>)"
  have save: "save_invalid_transactions bid (fb_invalid vr) db1 = Some db2"
    by (simp add: save_invalid_transactions_def b db2_def)
  have book2: "only_bookkeeping bid db db2" using book by (simp add: only_bookkeeping_def db2_def)
  define st1 where "st1 = (if fb_invalid vr \<noteq> [] then P_Reject Upload_Rejected
        else if filter is_critical (validate_groups (fb_valid vr)) \<noteq> [] then P_Reject Group_Validation_Failed
        else P_Detect (fb_valid vr))"
  have rest: "run_job (n - 1) pl now bid path st1 db2 = (st, db')"
    using run n(1) by (simp add: run_job_Suc [of n] await_def save flip: st1_def)
  show ?thesis
  proof (cases "fb_invalid vr = []")
    case True
    then have valid: "list_all (\<lambda>t. \<not> blocked (pl_clock pl) (pl_config pl) t) ts" "fb_valid vr = ts"
      using vr by (simp_all add: no_invalid_iff all_valid)
    show ?thesis
    proof (cases "codes_consistent ts")
      case True
      with rest valid \<open>fb_invalid vr = []\<close> have "run_job (n - 1) pl now bid path (P_Detect ts) db2 = (st, db')"
        by (simp add: st1_def groups_critical_iff)
      from detection_delivered [OF book2 _ n(2) this] n(1) show ?thesis
        using True valid parse by (simp add: verdict_def)
    next
      case False
      with rest valid \<open>fb_invalid vr = []\<close> have "run_job (n - 1) pl now bid path (P_Reject Group_Validation_Failed) db2 = (st, db')"
        by (simp add: st1_def groups_critical_iff)
      from rejection_delivered(1) [OF book2 _ this] n(1) show ?thesis using False valid parse by (simp add: verdict_def)
    qed
  next
    case False
    then have "\<not> list_all (\<lambda>t. \<not> blocked (pl_clock pl) (pl_config pl) t) ts" using vr by (simp add: no_invalid_iff)
    moreover have "run_job (n - 1) pl now bid path (P_Reject Upload_Rejected) db2 = (st, db')" using rest False by (simp add: st1_def)
    ultimately show ?thesis
      using rejection_delivered(1) [OF book2 _ \<open>run_job (n - 1) pl now bid path (P_Reject Upload_Rejected) db2 = (st, db')\<close>] n(1) parse
      by (simp add: verdict_def)
  qed
qed

text \<open>A job reaches the end of validation with the results of validation in the batch record.\<close>

lemma validation_reached:
  assumes "get_batch db bid \<noteq> None" "pl_parse pl path = Some ts" "ts \<noteq> []"
  defines "vr \<equiv> validate_fund_batch (pl_clock pl) (pl_config pl) ts"
  defines "errors \<equiv> fb_errors vr @ validate_groups (fb_valid vr)"
  obtains db3 b3 where "only_bookkeeping bid db db3" "ud_invalid db3 = ud_invalid db" "get_batch db3 bid = Some b3"
    "ub_processedRecords b3 = length (fb_valid vr)" "ub_failedRecords b3 = length (fb_invalid vr)"
    "ub_validationErrors b3 = Detailed (filter is_critical errors)"
    "process_file pl now bid path db = run_job 6 pl now bid path (P_Invalid vr (validate_groups (fb_valid vr))) db3"
proof -
  define db1 where "db1 = put_batch bid (set_status now PARSING None) db"
  have "only_bookkeeping bid db db" using assms(1) by (simp add: only_bookkeeping_def)
  then have book1: "only_bookkeeping bid db db1" unfolding db1_def by (rule bookkeeping_put) (simp add: set_status_def Let_def)
  have 1: "process_file pl now bid path db = run_job 9 pl now bid path P_Parse db1"
    using assms(1) by (simp add: process_file_def run_job_Suc [of 10] update_batch_status_def await_update flip: db1_def)
  define db2 where "db2 = put_batch bid (\<lambda>b. b\<lparr>ub_totalRecords := length ts, ub_processingStatus := VALIDATING\<rparr>) db1"
  have book2: "only_bookkeeping bid db db2" unfolding db2_def by (rule bookkeeping_put [OF book1]) simp
  have some1: "get_batch db1 bid \<noteq> None" and some2: "get_batch db2 bid \<noteq> None"
    using book1 book2 by (simp_all add: only_bookkeeping_def)
  have "process_file pl now bid path db = run_job 8 pl now bid path (P_Parsed ts) db1"
    using 1 assms(2,3) by (simp add: run_job_Suc [of 9])
  also have "\<dots> = run_job 7 pl now bid path (P_Validate ts) db2"
    using some1 by (simp add: run_job_Suc [of 8] update_with_parsing_results_def await_update flip: db2_def)
  finally have 2: "process_file pl now bid path db = run_job 7 pl now bid path (P_Validate ts) db2" .
  let ?f = "\<lambda>b. b\<lparr>ub_processedRecords := length (fb_valid vr), ub_failedRecords := length (fb_invalid vr),
    ub_validationErrors := Detailed (filter is_critical errors),
    ub_validationWarnings := filter (\<lambda>e. ve_severity e = WARNING) errors,
    ub_validationStatus := validation_result_status (filter is_critical errors) (filter (\<lambda>e. ve_severity e = WARNING) errors),
    ub_processingStatus := PROCESSING\<rparr>"
  obtain b where b: "get_batch db2 bid = Some b" using some2 by auto
  show thesis
  proof (rule that [of "put_batch bid ?f db2" "?f b"])
    show "only_bookkeeping bid db (put_batch bid ?f db2)" by (rule bookkeeping_put [OF book2]) simp
    show "get_batch (put_batch bid ?f db2) bid = Some (?f b)" by (simp add: get_put_batch b)
    show "process_file pl now bid path db = run_job 6 pl now bid path (P_Invalid vr (validate_groups (fb_valid vr))) (put_batch bid ?f db2)"
      using 2 by (simp add: run_job_Suc [of 7] Let_def update_with_validation_results_def await_update [OF some2] errors_def flip: vr_def)
  qed (simp_all add: db2_def db1_def)
qed

lemma delivers_verdict:
  assumes "get_batch db bid \<noteq> None" "pl_chunk pl > 0"
  shows "case process_file pl now bid path db of (st, db') \<Rightarrow> delivers (verdict pl path db) bid db st db'"
proof -
  obtain st db' where run: "process_file pl now bid path db = (st, db')" by fastforce
  define db1 where "db1 = put_batch bid (set_status now PARSING None) db"
  have book: "only_bookkeeping bid db db" using assms(1) by (simp add: only_bookkeeping_def)
  then have book1: "only_bookkeeping bid db db1" unfolding db1_def by (rule bookkeeping_put) (simp add: set_status_def Let_def)
  have 1: "run_job 9 pl now bid path P_Parse db1 = (st, db')"
    using run assms(1) by (simp add: process_file_def run_job_Suc [of 10] update_batch_status_def await_update flip: db1_def)
  consider (fails) e where "pl_parse pl path = None \<or> pl_parse pl path = Some []"
      "e \<noteq> Group_Validation_Failed" "run_job 8 pl now bid path (J_Catch e) db1 = (st, db')" "verdict pl path db = Rejected e"
    | (parsed) ts where "pl_parse pl path = Some ts" "ts \<noteq> []"
    using 1 by (cases "pl_parse pl path") (auto simp: run_job_Suc [of 9] verdict_def split: if_splits)
  then show ?thesis
  proof cases
    case fails
    with rejection_delivered(2) [OF book1 _ fails(2,3)] run show ?thesis by simp
  next
    case parsed
    obtain db3 b3 where "only_bookkeeping bid db db3" "process_file pl now bid path db = run_job 6 pl now bid path
        (P_Invalid (validate_fund_batch (pl_clock pl) (pl_config pl) ts) (validate_groups (fb_valid (validate_fund_batch (pl_clock pl) (pl_config pl) ts)))) db3"
      using validation_reached [OF assms(1) parsed] by metis
    with invalid_delivered [OF _ _ assms(2) refl _ parsed, of bid db db3 6 now st db'] run show ?thesis by simp
  qed
qed

text \<open>C5: for every file, a job that processes it ends within ten database calls and delivers the verdict of the specification:
  the file is rejected as a whole and no row of it is stored; or it waits with the report of exactly its missing
  entities; or it cannot be saved, because a row names an unknown fund or has a value its column does not accept (a type outside
  the enumeration among them), then nothing is stored and the batch has failed with such an error; or every row of it
  is inserted and the batch is completed with its summary. If the rows are accepted but their totals exceed the columns of the batch, the rows
  are inserted and the batch has failed nevertheless.\<close>

theorem process_file_delivers_verdict:
  assumes "get_batch db bid \<noteq> None" "pl_chunk pl > 0"
  shows "case process_file pl now bid path db of (st, db') \<Rightarrow> delivers (verdict pl path db) bid db st db'"
  by (rule delivers_verdict [OF assms])

text \<open>C25: a rejected file leaves its errors: with incomplete rows, the invalid rows are saved with their errors, once more
  at every attempt, but the batch record keeps only the message of the exception; with inconsistent goal
  transactions it keeps every critical error.\<close>

theorem rejected_upload_errors:
  assumes "get_batch db bid \<noteq> None" "pl_parse pl path = Some ts" "ts \<noteq> []"
  defines "vr \<equiv> validate_fund_batch (pl_clock pl) (pl_config pl) ts"
  shows "case process_file pl now bid path db of (st, db') \<Rightarrow>
    (fb_invalid vr \<noteq> [] \<longrightarrow>
       st = J_Failed Upload_Rejected \<and>
       ud_invalid db' = ud_invalid db @ map (\<lambda>(t, es). \<lparr>iv_batch = bid, iv_transaction = t, iv_errors = es\<rparr>) (fb_invalid vr) \<and>
       (\<exists>b. get_batch db' bid = Some b \<and> ub_failedRecords b = length (filter (blocked (pl_clock pl) (pl_config pl)) ts) \<and>
          ub_validationErrors b = Failure Upload_Rejected)) \<and>
    (fb_invalid vr = [] \<and> \<not> codes_consistent ts \<longrightarrow>
       st = J_Failed Group_Validation_Failed \<and> ud_invalid db' = ud_invalid db \<and>
       (\<exists>b. get_batch db' bid = Some b \<and> ub_failedRecords b = 0 \<and> ub_processedRecords b = length ts \<and>
          ub_validationErrors b = Detailed (filter is_critical (fb_errors vr @ validate_groups ts))))"
proof -
  obtain db3 b3 where book: "only_bookkeeping bid db db3" "ud_invalid db3 = ud_invalid db" "get_batch db3 bid = Some b3"
    and b3: "ub_processedRecords b3 = length (fb_valid vr)" "ub_failedRecords b3 = length (fb_invalid vr)"
    "ub_validationErrors b3 = Detailed (filter is_critical (fb_errors vr @ validate_groups (fb_valid vr)))"
    and run: "process_file pl now bid path db = run_job 6 pl now bid path (P_Invalid vr (validate_groups (fb_valid vr))) db3"
    unfolding vr_def by (rule validation_reached [OF assms(1-3)])
  have count: "length (fb_invalid vr) = length (filter (blocked (pl_clock pl) (pl_config pl)) ts)"
    using arg_cong [OF fund_batch_split(2), of length] unfolding vr_def by simp
  show ?thesis
  proof (cases "fb_invalid vr = []")
    case True
    then have valid: "fb_valid vr = ts" by (simp add: vr_def no_invalid_iff all_valid)
    have "process_file pl now bid path db = run_job 5 pl now bid path (P_Reject Group_Validation_Failed) db3" if "\<not> codes_consistent ts"
      using that True valid by (simp add: run run_job_Suc [of 6] save_invalid_transactions_def await_def groups_critical_iff)
    then show ?thesis
      using run_reject [of 5 db3 bid pl now path Group_Validation_Failed] True valid book(2,3) b3
      by (cases "codes_consistent ts") (simp_all add: get_put_batch set_status_def failed_with_def case_prod_beta)
  next
    case False
    let ?inv = "ud_invalid db @ map (\<lambda>(t, es). \<lparr>iv_batch = bid, iv_transaction = t, iv_errors = es\<rparr>) (fb_invalid vr)"
    have "process_file pl now bid path db = run_job 5 pl now bid path (P_Reject Upload_Rejected) (db3\<lparr>ud_invalid := ?inv\<rparr>)"
      using False book by (simp add: run run_job_Suc [of 6] save_invalid_transactions_def await_def)
    then show ?thesis
      using run_reject [of 5 "db3\<lparr>ud_invalid := ?inv\<rparr>" bid pl now path Upload_Rejected] False book(3) b3 count
      by (simp add: get_put_batch set_status_def failed_with_def)
  qed
qed

lemma ex_accepted: "row_accepted (ex_parsed 1 ''x'' (Some 10))" "summary_fits (calculate_summary [ex_parsed 1 ''x'' (Some 10)])"
  by (simp_all add: row_accepted_def number_fits_def fits_decimal_def ex_parsed_def allowed_types_def summary_fits_def
      calculate_summary_def summary_step_def Let_def is_deposit_def amount_of_def units_of_def)

theorem process_file_delivers_verdict_witness:
  "case process_file ex_pipeline 6 0 ''f'' (ex_upload_db []) of (st, db') \<Rightarrow>
     st = J_Done \<and> rows_stored [ex_parsed 1 ''x'' (Some 10)] 0 (ex_upload_db []) db'"
proof -
  have "get_batch (ex_upload_db []) 0 \<noteq> None" by code_simp
  moreover have "known (ud_entities (ex_upload_db [])) [ex_parsed 1 ''x'' (Some 10)]" by code_simp
  moreover have "\<not> unknown_fund (ex_upload_db []) (ex_parsed 1 ''x'' (Some 10))" by code_simp
  ultimately have "verdict ex_pipeline ''f'' (ex_upload_db []) = Stored [ex_parsed 1 ''x'' (Some 10)]"
    using ex_clean by (simp add: verdict_def clean_file_def save_verdict_def acceptable_row_def ex_accepted [simplified])
  moreover have "pl_chunk ex_pipeline > 0" by (simp add: ex_pipeline_def)
  ultimately show ?thesis
    using process_file_delivers_verdict [OF \<open>get_batch (ex_upload_db []) 0 \<noteq> None\<close>, of ex_pipeline, where now = 6 and path = "''f''"]
    by (auto simp: delivers_def)
qed

theorem rejected_upload_errors_witness:
  "fst (process_file ex_pipeline 6 0 ''bad'' (ex_upload_db [])) = J_Failed Upload_Rejected"
proof -
  have "get_batch (ex_upload_db []) 0 \<noteq> None" by code_simp
  moreover have "pl_parse ex_pipeline ''bad'' = Some [ex_parsed 1 ''x'' None]" by (simp add: ex_pipeline_def)
  moreover have "blocked (pl_clock ex_pipeline) (pl_config ex_pipeline) (ex_parsed 1 ''x'' None)" by code_simp
  ultimately show ?thesis
    using rejected_upload_errors [of "ex_upload_db []" 0 ex_pipeline "''bad''" "[ex_parsed 1 ''x'' None]", where now = 6]
    by (simp add: no_invalid_iff case_prod_beta)
qed

end
