(* ===== verification/FundApproval.thy ===== *)
theory FundApproval
  imports FundJobs
begin

text \<open>
  Approval: a clean file whose missing entities are approved is stored by the resumed job. The same holds if the
  batch is cancelled in between, because cancelling looks for the job of the upload only.
\<close>

section \<open>The resumed job\<close>

text \<open>The resumed job stores the file and completes the batch.\<close>

definition completes :: "pipeline \<Rightarrow> instant \<Rightarrow> nat \<Rightarrow> string \<Rightarrow> parsed_fund list \<Rightarrow> upload_db \<Rightarrow> bool" where
  "completes pl now bid path ts db =
     (case resume_processing pl now bid path db of (st, db') \<Rightarrow>
        st = J_Done \<and> known (ud_entities db') ts \<and>
        (\<exists>b. get_batch db' bid = Some b \<and> ub_processingStatus b = COMPLETED \<and> ub_summary b = Some (calculate_summary ts)) \<and>
        (\<exists>rows. list_all2 (\<lambda>t r. resolve_row db' bid t = Inr r) ts rows \<and> ud_rows db' = foldl insert_row (ud_rows db) rows))"

lemma approved_known:
  assumes "list_all account_ok (detect_new_accounts e ts)"
  obtains e' counts where "create_approved_entities e (detect_new_entities e ts) = (e', Some counts)" "known e' ts"
proof -
  obtain e' c where r: "create_approved_entities e (detect_new_entities e ts) = (e', c)" by fastforce
  then obtain counts where "c = Some counts" using approved_entities [of e ts] assms by auto
  moreover from this have "known e' ts" using approved_entities [of e ts] r by (simp add: known_def)
  ultimately show thesis using r that by blast
qed

lemma resume_completes:
  assumes b: "get_batch db bid = Some b" "ub_newEntitiesStatus b = Some EA_APPROVED"
      "ub_report b = Some (detect_new_entities (ud_entities db) ts)"
    and clean: "clean_file pl path ts" and accounts: "list_all account_ok (detect_new_accounts (ud_entities db) ts)"
    and rows: "list_all (acceptable_row db) ts" "summary_fits (calculate_summary ts)" and chunk: "pl_chunk pl > 0"
  shows "completes pl now bid path ts db"
proof -
  obtain e counts where create: "create_approved_entities (ud_entities db) (detect_new_entities (ud_entities db) ts) = (e, Some counts)"
    and known: "known e ts"
    using accounts by (rule approved_known)
  let ?db = "db\<lparr>ud_entities := e\<rparr>"
  have valid: "fb_invalid (validate_fund_batch (pl_clock pl) (pl_config pl) ts) = []"
    "fb_valid (validate_fund_batch (pl_clock pl) (pl_config pl) ts) = ts" "pl_parse pl path = Some ts"
    using clean by (simp_all add: clean_file_def no_invalid_iff all_valid)
  obtain st db' where run: "resume_processing pl now bid path db = (st, db')" by fastforce
  have "resume_processing pl now bid path db = run_job 7 pl now bid path (F_Save ts) ?db"
    using b create valid
    by (simp add: resume_processing_def run_job_Suc [of 10] run_job_Suc [of 9] run_job_Suc [of 8] Let_def)
  then have save: "run_job 7 pl now bid path (F_Save ts) ?db = (st, db')" using run by simp
  have book: "only_bookkeeping bid ?db ?db" using b(1) by (simp add: only_bookkeeping_def)
  have "acceptable_row ?db = acceptable_row db" by (simp add: acceptable_row_def unknown_fund_def fun_eq_iff)
  then have "save_verdict ?db ts = Stored ts" using rows by (simp add: save_verdict_def)
  with save_delivered [OF book _ chunk save] known have "delivers (Stored ts) bid ?db st db'" by simp
  then have result: "st = J_Done" "ud_entities db' = e" "ud_funds db' = ud_funds db" "rows_stored ts bid ?db db'"
    "\<exists>b. get_batch db' bid = Some b \<and> ub_processingStatus b = COMPLETED \<and> ub_summary b = Some (calculate_summary ts)"
    by (auto simp: delivers_def)
  have "resolve_row db' = resolve_row ?db" using result(2,3) by (simp add: resolve_row_def fun_eq_iff)
  then show ?thesis using result known by (simp add: completes_def run rows_stored_def)
qed

section \<open>From upload to completion\<close>

lemma waiting_after_process:
  assumes "get_batch db bid \<noteq> None" "pl_chunk pl > 0" "clean_file pl path ts" "ts \<noteq> []" "\<not> known (ud_entities db) ts"
    and "process_file pl now bid path db = (st, db1)"
  obtains b where "get_batch db1 bid = Some b" "ub_processingStatus b = WAITING_FOR_APPROVAL"
    "ub_report b = Some (detect_new_entities (ud_entities db) ts)" "ud_entities db1 = ud_entities db" "ud_funds db1 = ud_funds db"
    "ud_rows db1 = ud_rows db" "st = J_Done"
proof -
  have "verdict pl path db = Awaiting (detect_new_entities (ud_entities db) ts)"
    using assms(3-5) by (simp add: verdict_def clean_file_def)
  moreover have "delivers (verdict pl path db) bid db st db1"
    using delivers_verdict [OF assms(1,2), where now = now and path = path] by (simp add: assms(6))
  ultimately show thesis using that by (auto simp: delivers_def)
qed

text \<open>What an approval leaves: the resumed job is queued and the record keeps the report.\<close>

lemma approval_effect:
  assumes "get_batch db bid = Some b" "ub_processingStatus b = WAITING_FOR_APPROVAL"
  obtains s2 b2 where "approve_route True user now bid \<lparr>sy_db = db, sy_jobs = jobs\<rparr> = Some s2"
    "get_batch (sy_db s2) bid = Some b2" "ub_newEntitiesStatus b2 = Some EA_APPROVED" "ub_report b2 = ub_report b"
    "ud_entities (sy_db s2) = ud_entities db" "ud_funds (sy_db s2) = ud_funds db" "ud_rows (sy_db s2) = ud_rows db"
    "\<lparr>jb_batch = bid, jb_path = ub_filePath b, jb_resume = True, jb_state = J_Waiting, jb_attempts = 0\<rparr> \<in> set (sy_jobs s2)"
proof -
  let ?f = "\<lambda>b. b\<lparr>ub_newEntitiesStatus := Some EA_APPROVED, ub_approvedBy := Some user, ub_approvedAt := Some now,
    ub_processingStatus := PROCESSING\<rparr>"
  have "get_batch (put_batch bid ?f db) bid = Some (?f b)" by (simp add: get_put_batch assms(1))
  moreover have "approve_route True user now bid \<lparr>sy_db = db, sy_jobs = jobs\<rparr> = Some \<lparr>sy_db = put_batch bid ?f db, sy_jobs = jobs @
      [\<lparr>jb_batch = bid, jb_path = ub_filePath b, jb_resume = True, jb_state = J_Waiting, jb_attempts = 0\<rparr>]\<rparr>"
    using assms by (simp add: approve_route_def update_after_approval_def update_batch_put Let_def)
  ultimately show thesis using that by auto
qed

lemma cancel_effect:
  assumes "get_batch (sy_db s) bid = Some b" "cancel_route now bid s = Some s'"
  obtains b' where "get_batch (sy_db s') bid = Some b'" "ub_processingStatus b' = CANCELED"
    "ub_newEntitiesStatus b' = ub_newEntitiesStatus b" "ub_report b' = ub_report b"
    "ud_entities (sy_db s') = ud_entities (sy_db s)" "ud_funds (sy_db s') = ud_funds (sy_db s)"
    "\<And>j. j \<in> set (sy_jobs s) \<Longrightarrow> jb_resume j \<Longrightarrow> j \<in> set (sy_jobs s')"
proof -
  let ?f = "\<lambda>b. b\<lparr>ub_processingStatus := CANCELED, ub_completedAt := Some now\<rparr>"
  have put: "get_batch (put_batch bid ?f (sy_db s)) bid = Some (?f b)" by (simp add: get_put_batch assms(1))
  have rows: "get_batch (delete_transactions bid db) bid = get_batch db bid" "ud_entities (delete_transactions bid db) = ud_entities db"
    "ud_funds (delete_transactions bid db) = ud_funds db" for db
    by (simp_all add: delete_transactions_def get_batch_def)
  have "s' = (case remove_job bid False (sy_jobs s) of
                  None \<Rightarrow> s\<lparr>sy_db := put_batch bid ?f (sy_db s)\<rparr>
                | Some jobs \<Rightarrow> \<lparr>sy_db = delete_transactions bid (put_batch bid ?f (sy_db s)), sy_jobs = jobs\<rparr>)"
    using assms by (simp add: cancel_route_def cancel_batch_def update_batch_put)
  then show thesis
    using that [of "?f b"] put rows by (cases "remove_job bid False (sy_jobs s)") (auto simp: remove_job_def split: if_splits)
qed


text \<open>Cancelling an approved upload does not stop it: the batch is marked as cancelled, but its resumed job stays in the
  queue and stores the file and completes the batch as if nothing had happened.\<close>

theorem cancelled_upload_completes:
  assumes "get_batch db bid = Some b" "ub_processingStatus b = WAITING_FOR_APPROVAL" "ub_filePath b = path"
    and "ub_report b = Some (detect_new_entities (ud_entities db) ts)"
    and "clean_file pl path ts" "list_all account_ok (detect_new_accounts (ud_entities db) ts)" "list_all (acceptable_row db) ts" "summary_fits (calculate_summary ts)"
    and "pl_chunk pl > 0"
    and "approve_route True user now bid \<lparr>sy_db = db, sy_jobs = jobs\<rparr> = Some s2" "cancel_route now2 bid s2 = Some s3"
  shows "map_option ub_processingStatus (get_batch (sy_db s3) bid) = Some CANCELED \<and>
    \<lparr>jb_batch = bid, jb_path = path, jb_resume = True, jb_state = J_Waiting, jb_attempts = 0\<rparr> \<in> set (sy_jobs s3) \<and>
    completes pl now3 bid path ts (sy_db s3)"
proof -
  obtain b2 where s2: "get_batch (sy_db s2) bid = Some b2" "ub_newEntitiesStatus b2 = Some EA_APPROVED" "ub_report b2 = ub_report b"
    "ud_entities (sy_db s2) = ud_entities db" "ud_funds (sy_db s2) = ud_funds db"
    "\<lparr>jb_batch = bid, jb_path = path, jb_resume = True, jb_state = J_Waiting, jb_attempts = 0\<rparr> \<in> set (sy_jobs s2)"
    using approval_effect [OF assms(1,2), of user now jobs] assms(3,10) by (metis option.inject)
  obtain b3 where s3: "get_batch (sy_db s3) bid = Some b3" "ub_processingStatus b3 = CANCELED"
    "ub_newEntitiesStatus b3 = ub_newEntitiesStatus b2" "ub_report b3 = ub_report b2"
    "ud_entities (sy_db s3) = ud_entities (sy_db s2)" "ud_funds (sy_db s3) = ud_funds (sy_db s2)"
    "\<And>j. j \<in> set (sy_jobs s2) \<Longrightarrow> jb_resume j \<Longrightarrow> j \<in> set (sy_jobs s3)"
    using cancel_effect [OF s2(1) assms(11)] by blast
  have "completes pl now3 bid path ts (sy_db s3)"
    using resume_completes [OF s3(1) _ _ assms(5) _ _ assms(8,9)] assms(4,6,7) s3(3-6) s2(2-5)
    by (simp add: acceptable_row_def [abs_def] unknown_fund_def)
  with s3 s2(6) show ?thesis by simp
qed

section \<open>An example\<close>

definition ex_new_db :: upload_db where
  "ex_new_db = (ex_upload_db [])\<lparr>ud_entities := \<lparr>et_clients = [], et_accounts = [], et_goals = [], et_next = 0\<rparr>\<rparr>"

definition ex_waiting_db :: upload_db where
  "ex_waiting_db = put_batch 0 (\<lambda>b. b\<lparr>ub_processingStatus := WAITING_FOR_APPROVAL,
     ub_report := Some (detect_new_entities (ud_entities ex_new_db) [ex_parsed 1 ''x'' (Some 10)])\<rparr>) ex_new_db"

lemma ex_approvable:
  "list_all account_ok (detect_new_accounts (ud_entities ex_new_db) [ex_parsed 1 ''x'' (Some 10)])"
  "list_all (acceptable_row ex_new_db) [ex_parsed 1 ''x'' (Some 10)]" "summary_fits (calculate_summary [ex_parsed 1 ''x'' (Some 10)])"
proof -
  show "list_all account_ok (detect_new_accounts (ud_entities ex_new_db) [ex_parsed 1 ''x'' (Some 10)])" by code_simp
  have "\<not> unknown_fund ex_new_db (ex_parsed 1 ''x'' (Some 10))" by code_simp
  then show "list_all (acceptable_row ex_new_db) [ex_parsed 1 ''x'' (Some 10)]" by (simp add: acceptable_row_def ex_accepted [simplified])
qed (rule ex_accepted)


theorem cancelled_upload_completes_witness:
  "\<exists>s2 s3. approve_route True ''a'' 7 0 \<lparr>sy_db = ex_waiting_db, sy_jobs = []\<rparr> = Some s2 \<and> cancel_route 8 0 s2 = Some s3 \<and>
     completes ex_pipeline 9 0 ''f'' [ex_parsed 1 ''x'' (Some 10)] (sy_db s3)"
proof -
  have "get_batch ex_waiting_db 0 \<noteq> None" by code_simp
  then obtain b where b: "get_batch ex_waiting_db 0 = Some b" by auto
  then have batch: "ub_processingStatus b = WAITING_FOR_APPROVAL" "ub_filePath b = ''f''"
    "ub_report b = Some (detect_new_entities (ud_entities ex_waiting_db) [ex_parsed 1 ''x'' (Some 10)])"
    by (auto simp: ex_waiting_db_def put_batch_def update_where_def ex_new_db_def ex_upload_db_def get_batch_def new_batch_def)
  have approvable: "list_all account_ok (detect_new_accounts (ud_entities ex_waiting_db) [ex_parsed 1 ''x'' (Some 10)])"
    "list_all (acceptable_row ex_waiting_db) [ex_parsed 1 ''x'' (Some 10)]" "summary_fits (calculate_summary [ex_parsed 1 ''x'' (Some 10)])"
    using ex_approvable by (simp_all add: ex_waiting_db_def acceptable_row_def unknown_fund_def)
  obtain s2 b2 where s2: "approve_route True ''a'' 7 0 \<lparr>sy_db = ex_waiting_db, sy_jobs = []\<rparr> = Some s2" "get_batch (sy_db s2) 0 = Some b2"
    using approval_effect [OF b batch(1), of "''a''" 7 "[]"] by metis
  then have "cancel_route 8 0 s2 \<noteq> None" by (simp add: cancel_route_def cancel_batch_def update_batch_put)
  then obtain s3 where s3: "cancel_route 8 0 s2 = Some s3" by auto
  have "pl_chunk ex_pipeline > 0" by (simp add: ex_pipeline_def)
  from cancelled_upload_completes [OF b batch ex_clean approvable this s2(1) s3, of 9] s2(1) s3 show ?thesis by blast
qed

end
