(* ===== verification/Calendar.thy ===== *)
theory Calendar
  imports GoalCode
begin

text \<open>
  The calendar behind JavaScript's \<open>Date\<close>: days since 1970-01-01 and the fields of the proleptic Gregorian calendar.
  \<open>make_day\<close> is what \<open>Date.UTC(year, month, day)\<close> and \<open>new Date(year, month, day)\<close> compute, months counted from 0:
  months and days outside their range carry over. Local time is taken to be UTC.
\<close>

section \<open>Years and months\<close>

definition leap_year :: "int \<Rightarrow> bool" where
  "leap_year y = (y mod 4 = 0 \<and> y mod 100 \<noteq> 0 \<or> y mod 400 = 0)"

text \<open>Days from 0001-01-01 to the first day of the year.\<close>

definition days_before_year :: "int \<Rightarrow> int" where
  "days_before_year y = 365 * (y - 1) + (y - 1) div 4 - (y - 1) div 100 + (y - 1) div 400"

definition month_starts :: "bool \<Rightarrow> int list" where
  "month_starts leap =
     (if leap then [0, 31, 60, 91, 121, 152, 182, 213, 244, 274, 305, 335]
      else [0, 31, 59, 90, 120, 151, 181, 212, 243, 273, 304, 334])"

definition days_in_month :: "bool \<Rightarrow> nat \<Rightarrow> nat" where
  "days_in_month leap m = [31, if leap then 29 else 28, 31, 30, 31, 30, 31, 31, 30, 31, 30, 31] ! m"

definition make_day :: "int \<Rightarrow> int \<Rightarrow> int \<Rightarrow> int" where
  "make_day y m d =
     (let ym = y + m div 12
      in days_before_year ym + month_starts (leap_year ym) ! nat (m mod 12) + (d - 1) - 719162)"

definition utc_date :: "int \<Rightarrow> int \<Rightarrow> int \<Rightarrow> instant" where
  "utc_date y m d = make_day y m d * ms_per_day"

text \<open>\<open>Date.UTC\<close> and the constructor read the years 0 to 99 as 1900 to 1999.\<close>

definition date_utc :: "int \<Rightarrow> int \<Rightarrow> int \<Rightarrow> instant" where
  "date_utc y m d = utc_date (if 0 \<le> y \<and> y \<le> 99 then 1900 + y else y) m d"

text \<open>The year of a day: the estimate by the mean length of a year is off by at most one.\<close>

definition year_of_day :: "int \<Rightarrow> int" where
  "year_of_day n =
     (let z = n + 719162; y = z * 400 div 146097 + 1
      in if z < days_before_year y then y - 1 else if days_before_year (y + 1) \<le> z then y + 1 else y)"

definition civil_of_day :: "int \<Rightarrow> civil" where
  "civil_of_day n =
     (let y = year_of_day n; r = n + 719162 - days_before_year y; starts = month_starts (leap_year y);
          m = length (filter (\<lambda>s. s \<le> r) starts)
      in \<lparr>c_year = nat y, c_month = m, c_day = nat (r - starts ! (m - 1) + 1)\<rparr>)"

definition valid_civil :: "civil \<Rightarrow> bool" where
  "valid_civil c = (1 \<le> c_year c \<and> 1 \<le> c_month c \<and> c_month c \<le> 12 \<and> 1 \<le> c_day c \<and>
     c_day c \<le> days_in_month (leap_year (int (c_year c))) (c_month c - 1))"

definition day_of_civil :: "civil \<Rightarrow> int" where
  "day_of_civil c = make_day (int (c_year c)) (int (c_month c) - 1) (int (c_day c))"

text \<open>\<open>toISOString().split('T')[0]\<close> for the years 0 to 9999.\<close>

definition iso_date :: "instant \<Rightarrow> string" where
  "iso_date t =
     (let c = civil_of_day (iso_day t)
      in pad_start 4 (nat_digits (c_year c)) @ ''-'' @ pad2 (c_month c) @ ''-'' @ pad2 (c_day c))"

section \<open>The calendar is consistent\<close>

lemma div_before:
  fixes y k :: int
  assumes "0 < k"
  shows "y div k = (y - 1) div k + (if y mod k = 0 then 1 else 0)"
proof (cases "y mod k = 0")
  case True
  then have "y - 1 = k * (y div k - 1) + (k - 1)" using mult_div_mod_eq [of k y] by (simp add: algebra_simps)
  from int_div_pos_eq [OF this] assms True show ?thesis by simp
next
  case False
  then have "y - 1 = k * (y div k) + (y mod k - 1)" "0 \<le> y mod k - 1"
    using mult_div_mod_eq [of k y] pos_mod_sign [OF assms, of y] by auto
  from int_div_pos_eq [OF this] pos_mod_bound [OF assms, of y] False show ?thesis by simp
qed

lemma leap_arith:
  fixes y a b c :: int
  assumes "R \<Longrightarrow> Q" "Q \<Longrightarrow> P"
  shows "365 * y + (a + (if P then 1 else 0)) - (b + (if Q then 1 else 0)) + (c + (if R then 1 else 0))
    = 365 * (y - 1) + a - b + c + (if P \<and> \<not> Q \<or> R then 366 else 365)"
  using assms by (cases P; cases Q; cases R) simp_all

lemma year_length: "days_before_year (y + 1) = days_before_year y + (if leap_year y then 366 else 365)"
proof -
  have "y mod 400 = 0 \<Longrightarrow> y mod 100 = 0" "y mod 100 = 0 \<Longrightarrow> y mod 4 = 0" by presburger+
  note leap_arith [OF this, where y = y and a = "(y - 1) div 4" and b = "(y - 1) div 100" and c = "(y - 1) div 400"]
  moreover have "y div 4 = (y - 1) div 4 + (if y mod 4 = 0 then 1 else 0)"
    "y div 100 = (y - 1) div 100 + (if y mod 100 = 0 then 1 else 0)"
    "y div 400 = (y - 1) div 400 + (if y mod 400 = 0 then 1 else 0)"
    by (rule div_before, simp)+
  ultimately show ?thesis unfolding days_before_year_def leap_year_def add_diff_cancel_right' by (simp only:)
qed

lemma year_starts_increase: "a < b \<Longrightarrow> days_before_year a < days_before_year b"
proof (induction "nat (b - a)" arbitrary: b)
  case (Suc k)
  show ?case
  proof (cases "a = b - 1")
    case True
    then show ?thesis using year_length [of a] by auto
  next
    case False
    then have "days_before_year a < days_before_year (b - 1)" using Suc by simp
    then show ?thesis using year_length [of "b - 1"] by (auto split: if_splits)
  qed
qed simp

lemma year_estimate: "400 * days_before_year (y + 1) - 146097 * y < 800" "-800 < 400 * days_before_year (y + 1) - 146097 * y"
proof -
  have d: "4 * (y div 4) + y mod 4 = y" "100 * (y div 100) + y mod 100 = y" "400 * (y div 400) + y mod 400 = y"
    by simp_all
  have m: "0 \<le> y mod 4" "y mod 4 < 4" "0 \<le> y mod 100" "y mod 100 < 100" "0 \<le> y mod 400" "y mod 400 < 400"
    by simp_all
  have e: "days_before_year (y + 1) = 365 * y + y div 4 - y div 100 + y div 400"
    by (simp add: days_before_year_def)
  show "400 * days_before_year (y + 1) - 146097 * y < 800" using d m e by linarith
  show "-800 < 400 * days_before_year (y + 1) - 146097 * y" using d m e by linarith
qed

lemma year_of_day_bounds:
  "days_before_year (year_of_day n) \<le> n + 719162" "n + 719162 < days_before_year (year_of_day n + 1)"
proof -
  define z where "z = n + 719162"
  define q where "q = z * 400 div 146097"
  have "146097 * q + z * 400 mod 146097 = z * 400" unfolding q_def by simp
  moreover have "0 \<le> z * 400 mod 146097" "z * 400 mod 146097 < 146097" by simp_all
  ultimately have q: "146097 * q \<le> 400 * z" "400 * z < 146097 * q + 146097" by linarith+
  have "days_before_year q \<le> z" using year_estimate [of "q - 1"] q by simp
  moreover have "z < days_before_year (q + 3)" using year_estimate [of "q + 2"] q by (simp add: add.commute)
  moreover have "year_of_day n = (if z < days_before_year (q + 1) then q else if days_before_year (q + 2) \<le> z then q + 2 else q + 1)"
    by (simp add: year_of_day_def Let_def z_def q_def add.commute)
  ultimately show "days_before_year (year_of_day n) \<le> n + 719162" "n + 719162 < days_before_year (year_of_day n + 1)"
    by (auto simp: z_def [symmetric] add.commute)
qed

lemma year_of_day_unique:
  assumes "days_before_year y \<le> n + 719162" "n + 719162 < days_before_year (y + 1)"
  shows "year_of_day n = y"
proof (rule ccontr)
  assume "year_of_day n \<noteq> y"
  then consider "year_of_day n + 1 \<le> y" | "y + 1 \<le> year_of_day n" by linarith
  then show False
  proof cases
    case 1
    then have "days_before_year (year_of_day n + 1) \<le> days_before_year y"
      using year_starts_increase [of "year_of_day n + 1" y] by (cases "year_of_day n + 1 = y") auto
    with year_of_day_bounds(2) [of n] assms(1) show False by simp
  next
    case 2
    then have "days_before_year (y + 1) \<le> days_before_year (year_of_day n)"
      using year_starts_increase [of "y + 1" "year_of_day n"] by (cases "y + 1 = year_of_day n") auto
    with year_of_day_bounds(1) [of n] assms(2) show False by simp
  qed
qed

lemma month_cases:
  fixes m :: nat
  assumes "m < 12"
  shows "m \<in> {0, 1, 2, 3, 4, 5, 6, 7, 8, 9, 10, 11}"
  using assms unfolding insert_iff empty_iff by presburger

lemma month_of_offset:
  assumes "m < 12" "1 \<le> d" "d \<le> days_in_month leap m"
  shows "length (filter (\<lambda>s. s \<le> month_starts leap ! m + (int d - 1)) (month_starts leap)) = Suc m"
    and "0 \<le> month_starts leap ! m + (int d - 1)"
    and "month_starts leap ! m + (int d - 1) < (if leap then 366 else 365)"
  using month_cases [OF assms(1)] assms(2,3)
  by (cases leap; elim insertE emptyE; simp add: month_starts_def days_in_month_def)+

lemma make_day_in_year:
  "0 \<le> m \<Longrightarrow> m < 12 \<Longrightarrow> make_day y m d = days_before_year y + month_starts (leap_year y) ! nat m + (d - 1) - 719162"
  by (simp add: make_day_def)

text \<open>The fields of a date are recovered from its day number.\<close>

lemma civil_of_day_of_civil:
  assumes "valid_civil c"
  shows "civil_of_day (day_of_civil c) = c"
proof -
  let ?y = "int (c_year c)" and ?m = "c_month c - 1"
  let ?r = "month_starts (leap_year ?y) ! ?m + (int (c_day c) - 1)"
  have v: "?m < 12" "1 \<le> c_day c" "c_day c \<le> days_in_month (leap_year ?y) ?m" "1 \<le> c_month c"
    using assms by (auto simp: valid_civil_def)
  have d: "day_of_civil c + 719162 = days_before_year ?y + ?r"
    using v make_day_in_year [of "int (c_month c) - 1" ?y] by (simp add: day_of_civil_def nat_diff_distrib)
  have "year_of_day (day_of_civil c) = ?y"
    using d month_of_offset(2,3) [OF v(1-3)] year_length [of ?y] by (intro year_of_day_unique) simp_all
  moreover have "day_of_civil c + 719162 - days_before_year ?y = ?r" using d by linarith
  ultimately have "civil_of_day (day_of_civil c) =
      \<lparr>c_year = nat ?y, c_month = Suc ?m, c_day = nat (?r - month_starts (leap_year ?y) ! ?m + 1)\<rparr>"
    unfolding civil_of_day_def Let_def by (simp only: month_of_offset(1) [OF v(1-3)] diff_Suc_1)
  then show ?thesis using v by simp
qed

lemma utc_date_day: "iso_day (utc_date y m d) = make_day y m d"
  by (simp add: utc_date_def iso_day_def)

text \<open>A month is over when the next one begins, leap years included: an excessive day of the month carries over.\<close>

lemma day_carries_over:
  assumes "0 \<le> m" "m < 11"
  shows "make_day y m (int (days_in_month (leap_year y) (nat m)) + d) = make_day y (m + 1) d"
proof -
  have "nat m \<in> {0, 1, 2, 3, 4, 5, 6, 7, 8, 9, 10}" using assms unfolding insert_iff empty_iff by presburger
  then have "month_starts (leap_year y) ! nat m + int (days_in_month (leap_year y) (nat m)) = month_starts (leap_year y) ! nat (m + 1)"
    using assms by (cases "leap_year y"; elim insertE emptyE; simp add: month_starts_def days_in_month_def nat_add_distrib)
  then show ?thesis using assms by (simp add: make_day_in_year)
qed

lemma year_carries_over: "make_day y (m + 12) d = make_day (y + 1) m d"
proof -
  have "y + (m + 12) div 12 = y + 1 + m div 12" by simp
  then show ?thesis unfolding make_day_def by (simp only: mod_add_self2)
qed

end
