(* ===== verification/TextScan.thy ===== *)
theory TextScan
  imports Calendar
begin

text \<open>
  Reading text: the regular expressions of the parsers, \<open>parseInt\<close>, \<open>parseFloat\<close> and the fields of a row of a
  parsed file. A character is one of the first 256 code points. The regular expressions are anchored sequences of
  repeated character classes; \<open>match_parts\<close> is the backtracking search of the engine, longest repetition first,
  and returns the captured groups. \<open>parse_float\<close> reads the longest decimal prefix; the literal
  \<open>Infinity\<close> and overflow are outside the rational numbers of the model.
\<close>

section \<open>Anchored regular expressions\<close>

datatype re_part = Rep "char \<Rightarrow> bool" nat "nat option" bool

fun first_result :: "('a \<Rightarrow> 'b option) \<Rightarrow> 'a list \<Rightarrow> 'b option" where
  "first_result f [] = None"
| "first_result f (x # xs) = (case f x of Some y \<Rightarrow> Some y | None \<Rightarrow> first_result f xs)"

definition most :: "(char \<Rightarrow> bool) \<Rightarrow> nat option \<Rightarrow> string \<Rightarrow> nat" where
  "most p hi s = (let n = length (takeWhile p s) in case hi of None \<Rightarrow> n | Some h \<Rightarrow> min h n)"

primrec match_parts :: "re_part list \<Rightarrow> string \<Rightarrow> string list option" where
  "match_parts [] s = (if s = [] then Some [] else None)"
| "match_parts (r # rs) s =
     (case r of Rep p lo hi keep \<Rightarrow>
        first_result
          (\<lambda>n. map_option (\<lambda>groups. if keep then take n s # groups else groups) (match_parts rs (drop n s)))
          (rev [lo ..< Suc (most p hi s)]))"

definition one_of :: "string \<Rightarrow> char \<Rightarrow> bool" where
  "one_of cs c = (c \<in> set cs)"

definition is_letter :: "char \<Rightarrow> bool" where
  "is_letter c = (let n = of_char c in 65 \<le> n \<and> n \<le> (90 :: nat) \<or> 97 \<le> n \<and> n \<le> 122)"

text \<open>The longest repetition is taken when the rest of the expression accepts the rest of the text.\<close>

lemma match_parts_greedy:
  assumes "list_all p w" "lo \<le> length w" "case hi of None \<Rightarrow> True | Some h \<Rightarrow> length w \<le> h"
    and "rest = [] \<or> \<not> p (hd rest) \<or> hi = Some (length w)"
    and "match_parts rs rest = Some groups"
  shows "match_parts (Rep p lo hi keep # rs) (w @ rest) = Some (if keep then w # groups else groups)"
proof -
  have "most p hi (w @ rest) = length w"
  proof (cases "hi = Some (length w)")
    case True
    have "length w \<le> length (takeWhile p (w @ rest))"
      using assms(1) by (simp add: takeWhile_append2 list_all_iff)
    then show ?thesis using True by (simp add: most_def Let_def min_def)
  next
    case False
    then have "takeWhile p rest = []" using assms(4) by (cases rest) auto
    then have "takeWhile p (w @ rest) = w" using assms(1) by (simp add: takeWhile_append2 list_all_iff)
    then show ?thesis using assms(3) by (cases hi) (simp_all add: most_def)
  qed
  then show ?thesis using assms(2,5) by simp
qed

lemma match_parts_too_short:
  assumes "length (takeWhile p s) < lo"
  shows "match_parts (Rep p lo hi keep # rs) s = None"
proof -
  have "most p hi s < lo" using assms by (cases hi) (simp_all add: most_def Let_def)
  then show ?thesis by simp
qed

lemma first_result_None: "first_result f xs = None \<longleftrightarrow> (\<forall>x \<in> set xs. f x = None)"
  by (induction xs) (auto split: option.splits)

lemma match_parts_fails:
  assumes "\<And>n. lo \<le> n \<Longrightarrow> n \<le> most p hi s \<Longrightarrow> match_parts rs (drop n s) = None"
  shows "match_parts (Rep p lo hi keep # rs) s = None"
  using assms by (auto simp: first_result_None)

section \<open>Whole numbers\<close>

definition digit_value :: "char \<Rightarrow> nat" where
  "digit_value c = of_char c - 48"

text \<open>\<open>parseInt(s, 10)\<close> on a string of digits.\<close>

definition digits_value :: "string \<Rightarrow> nat" where
  "digits_value s = foldl (\<lambda>n c. 10 * n + digit_value c) 0 s"

lemma digit_value_nth: "m < 10 \<Longrightarrow> digit_value (''0123456789'' ! m) = m"
proof -
  assume "m < 10"
  then have "m \<in> {0, 1, 2, 3, 4, 5, 6, 7, 8, 9}" unfolding insert_iff empty_iff by presburger
  then show ?thesis by (elim insertE emptyE) (simp_all add: digit_value_def)
qed

lemma digits_value_append: "digits_value (s @ t) = digits_value s * 10 ^ length t + digits_value t"
proof -
  have "foldl (\<lambda>n c. 10 * n + digit_value c) k t = k * 10 ^ length t + foldl (\<lambda>n c. 10 * n + digit_value c) 0 t" for k t
  proof (induction t arbitrary: k)
    case (Cons c t)
    show ?case
      unfolding foldl_Cons Cons [of "10 * k + digit_value c"] Cons [of "10 * 0 + digit_value c"]
      by (simp add: distrib_right)
  qed simp
  from this [of "digits_value s" t] show ?thesis by (simp add: digits_value_def)
qed

lemma digits_value_nat_digits [simp]: "digits_value (nat_digits n) = n"
proof (induction n rule: nat_digits.induct)
  case (1 n)
  then show ?case
    by (cases "n < 10") (simp_all add: nat_digits.simps [of n] digits_value_append digit_value_nth,
      simp_all add: digits_value_def digit_value_nth)
qed

lemma digits_value_zeros [simp]: "digits_value (replicate k CHR ''0'' @ s) = digits_value s"
  by (induction k) (simp_all add: digits_value_def digit_value_def)

lemma digits_value_pad [simp]: "digits_value (pad2 n) = n" "digits_value (pad_start k (nat_digits n)) = n"
proof -
  show "digits_value (pad2 n) = n"
    using digits_value_zeros [of 1 "nat_digits n"] by (simp add: pad2_def Let_def)
  show "digits_value (pad_start k (nat_digits n)) = n" by (simp add: pad_start_def)
qed

section \<open>Decimal numbers\<close>

text \<open>The optional exponent of a decimal literal.\<close>

definition exponent_of :: "string \<Rightarrow> int" where
  "exponent_of s =
     (case s of
        [] \<Rightarrow> 0
      | c # t \<Rightarrow>
          if one_of ''eE'' c
          then let (neg, u) = (case t of x # y \<Rightarrow> if x = CHR ''-'' then (True, y) else if x = CHR ''+'' then (False, y) else (False, t)
                  | [] \<Rightarrow> (False, [])); ds = takeWhile is_digit u
               in if neg then - int (digits_value ds) else int (digits_value ds)
          else 0)"

definition power_of_ten :: "int \<Rightarrow> rat" where
  "power_of_ten e = (if e < 0 then 1 / 10 ^ nat (- e) else 10 ^ nat e)"

definition parse_unsigned :: "string \<Rightarrow> rat option" where
  "parse_unsigned s =
     (let whole = takeWhile is_digit s; rest = dropWhile is_digit s;
          (frac, rest') = (case rest of
             c # t \<Rightarrow> if c = CHR ''.'' then (takeWhile is_digit t, dropWhile is_digit t) else ([], rest)
           | [] \<Rightarrow> ([], []))
      in if whole = [] \<and> frac = [] then None
         else Some (of_nat (digits_value (whole @ frac)) / 10 ^ length frac * power_of_ten (exponent_of rest')))"

definition parse_float :: "string \<Rightarrow> rat option" where
  "parse_float s =
     (case dropWhile js_space s of
        [] \<Rightarrow> None
      | c # t \<Rightarrow>
          if c = CHR ''-'' then map_option uminus (parse_unsigned t)
          else if c = CHR ''+'' then parse_unsigned t
          else parse_unsigned (c # t))"

text \<open>Digits, or digits and a point and digits, are read as the number they denote.\<close>

definition decimal_text :: "string \<Rightarrow> bool" where
  "decimal_text s = (\<exists>a b. s = a @ b \<and> a \<noteq> [] \<and> list_all is_digit a \<and>
     (b = [] \<or> (\<exists>t. b = CHR ''.'' # t \<and> list_all is_digit t)))"

lemma is_digit_facts:
  assumes "is_digit c"
  shows "c \<noteq> CHR ''-''" "c \<noteq> CHR ''+''" "c \<noteq> CHR ''.''" "c \<noteq> CHR ''(''" "c \<noteq> CHR '')''" "\<not> js_space c" "\<not> one_of ''eE'' c"
  using assms by (auto simp: is_digit_def js_space_def one_of_def)

lemma takeWhile_all: "list_all P s \<Longrightarrow> takeWhile P s = s" "list_all P s \<Longrightarrow> dropWhile P s = []"
  by (induction s) auto

lemma takeWhile_until:
  assumes "list_all P s" "\<not> P c"
  shows "takeWhile P (s @ c # t) = s" "dropWhile P (s @ c # t) = c # t"
  using assms by (induction s) auto

lemma parse_unsigned_digits:
  "list_all is_digit s \<Longrightarrow> s \<noteq> [] \<Longrightarrow> parse_unsigned s = Some (of_nat (digits_value s))"
  by (simp add: parse_unsigned_def takeWhile_all exponent_of_def power_of_ten_def)

lemma parse_unsigned_decimal:
  assumes "list_all is_digit a" "a \<noteq> []" "list_all is_digit t"
  shows "parse_unsigned (a @ CHR ''.'' # t) = Some (of_nat (digits_value (a @ t)) / 10 ^ length t)"
  using assms by (simp add: parse_unsigned_def takeWhile_until takeWhile_all exponent_of_def power_of_ten_def is_digit_def)

lemma parse_unsigned_defined: "decimal_text s \<Longrightarrow> \<exists>v \<ge> 0. parse_unsigned s = Some v"
  by (auto simp: decimal_text_def parse_unsigned_digits parse_unsigned_decimal)

lemma decimal_text_first:
  assumes "decimal_text s"
  obtains c t where "s = c # t" "is_digit c"
  using assms by (auto simp: decimal_text_def neq_Nil_conv)

lemma parse_float_unsigned: "decimal_text s \<Longrightarrow> parse_float s = parse_unsigned s"
  by (auto elim!: decimal_text_first simp: parse_float_def is_digit_facts)

lemma parse_float_minus: "parse_float (CHR ''-'' # s) = map_option uminus (parse_unsigned s)"
  by (simp add: parse_float_def js_space_def)

lemma decimal_text_chars: "decimal_text s \<Longrightarrow> c \<in> set s \<Longrightarrow> is_digit c \<or> c = CHR ''.''"
  by (auto simp: decimal_text_def list_all_iff)

section \<open>Rows of a file\<close>

text \<open>A row as the CSV library returns it: header and text, in the order of the columns.\<close>

type_synonym file_row = "(string \<times> string) list"

definition cell :: "file_row \<Rightarrow> string \<Rightarrow> string option" where
  "cell row k = map_of row k"

text \<open>\<open>a || b\<close> on nullable strings.\<close>

definition or_else :: "string option \<Rightarrow> string option \<Rightarrow> string option" where
  "or_else a b = (if truthy_str a then a else b)"

text \<open>\<open>String(value).trim()\<close>, and the empty string for a missing value.\<close>

definition clean_string :: "string option \<Rightarrow> string" where
  "clean_string v = (case v of None \<Rightarrow> [] | Some s \<Rightarrow> trim s)"

text \<open>A row whose headers are trimmed; of two columns with the same trimmed header the later one counts.\<close>

definition trim_headers :: "file_row \<Rightarrow> file_row" where
  "trim_headers row = foldl (\<lambda>m (k, v). map_set m (trim k) v) [] row"

text \<open>The rows of a file are numbered; a row that is not parsed leaves no trace.\<close>

definition number_rows :: "nat \<Rightarrow> file_row list \<Rightarrow> (nat \<times> file_row) list" where
  "number_rows start rows = zip [start ..< start + length rows] rows"

definition parse_rows :: "nat \<Rightarrow> (file_row \<Rightarrow> bool) \<Rightarrow> (file_row \<Rightarrow> nat \<Rightarrow> 't option) \<Rightarrow> file_row list \<Rightarrow> 't list" where
  "parse_rows start skip parse rows =
     List.map_filter (\<lambda>(n, row). if skip row then None else parse row n) (number_rows start rows)"

definition row_survives :: "(file_row \<Rightarrow> bool) \<Rightarrow> (file_row \<Rightarrow> nat \<Rightarrow> 't option) \<Rightarrow> nat \<Rightarrow> file_row list \<Rightarrow> nat \<Rightarrow> bool" where
  "row_survives skip parse start rows n = (\<not> skip (rows ! (n - start)) \<and> parse (rows ! (n - start)) n \<noteq> None)"

lemma parse_rows_by_number:
  "parse_rows start skip parse rows =
     List.map_filter (\<lambda>n. if skip (rows ! (n - start)) then None else parse (rows ! (n - start)) n)
       [start ..< start + length rows]"
proof -
  have "number_rows start rows = map (\<lambda>n. (n, rows ! (n - start))) [start ..< start + length rows]"
    by (rule nth_equalityI) (simp_all add: number_rows_def)
  moreover have "List.map_filter (\<lambda>(n, row). if skip row then None else parse row n) (map (\<lambda>n. (n, rows ! (n - start))) ns) =
      List.map_filter (\<lambda>n. if skip (rows ! (n - start)) then None else parse (rows ! (n - start)) n) ns" for ns
    by (induction ns) (auto simp: map_filter_simps split: option.splits)
  ultimately show ?thesis by (simp only: parse_rows_def)
qed

lemma row_numbers_of_parse:
  assumes "\<And>row n t. parse row n = Some t \<Longrightarrow> num t = n"
  shows "map num (parse_rows start skip parse rows) =
     filter (row_survives skip parse start rows) [start ..< start + length rows]"
proof -
  have "map num (List.map_filter (\<lambda>n. if skip (rows ! (n - start)) then None else parse (rows ! (n - start)) n) ns) =
      filter (row_survives skip parse start rows) ns" for ns
    using assms by (induction ns) (auto simp: map_filter_simps row_survives_def)
  then show ?thesis by (simp only: parse_rows_by_number)
qed

lemma parse_rows_all:
  assumes "\<And>row n t. parse row n = Some t \<Longrightarrow> P t"
  shows "list_all P (parse_rows start skip parse rows)"
proof -
  have "list_all P (List.map_filter (\<lambda>(n, row). if skip row then None else parse row n) rs)" for rs
    using assms by (induction rs) (auto simp: map_filter_simps split: option.splits if_splits)
  then show ?thesis by (simp only: parse_rows_def)
qed

section \<open>File types\<close>

text \<open>\<open>path.extname\<close>: from the last dot of the last segment of the path, unless the dot begins the segment.\<close>

definition base_name :: "string \<Rightarrow> string" where
  "base_name path = last (split_on CHR ''/'' path)"

definition ext_name :: "string \<Rightarrow> string" where
  "ext_name path =
     (let parts = split_on CHR ''.'' (base_name path)
      in if length parts < 2 \<or> (length parts = 2 \<and> hd parts = []) \<or> base_name path = ''..'' then [] else CHR ''.'' # last parts)"

datatype file_kind = CsvFile | ExcelFile | UnsupportedFile

definition file_kind_of :: "string \<Rightarrow> file_kind" where
  "file_kind_of path =
     (let ext = to_lower (ext_name path)
      in if ext = ''.csv'' then CsvFile else if ext = ''.xlsx'' \<or> ext = ''.xls'' then ExcelFile else UnsupportedFile)"

end
