(* ===== verification/BankParse.thy ===== *)
theory BankParse
  imports TextScan BankValidator
begin

text \<open>
  \<open>services/bank-upload/parsers/BankCSVParser\<close>: dates, amounts, the shares of the four funds and the rows of a file.
  The CSV library is outside the model: a row is what it hands to the \<open>step\<close> callback, the header fields
  and the number of rows are arguments. The last resort of \<open>parseDate\<close>, the engine's own \<open>new Date(text)\<close>, is
  the parameter \<open>native\<close>.
\<close>

section \<open>Dates\<close>

definition bank_months :: "(string \<times> int) list" where
  "bank_months =
     [(''jan'', 0), (''january'', 0), (''feb'', 1), (''february'', 1), (''mar'', 2), (''march'', 2),
      (''apr'', 3), (''april'', 3), (''may'', 4), (''jun'', 5), (''june'', 5), (''jul'', 6), (''july'', 6),
      (''aug'', 7), (''august'', 7), (''sep'', 8), (''sept'', 8), (''september'', 8), (''oct'', 9), (''october'', 9),
      (''nov'', 10), (''november'', 10), (''dec'', 11), (''december'', 11)]"

definition expand_year :: "int \<Rightarrow> int" where
  "expand_year y = (if y \<ge> 100 then y else if y < 50 then 2000 + y else 1900 + y)"

definition date_sep :: re_part where
  "date_sep = Rep (one_of ''-/'') 1 (Some 1) False"

definition digits_part :: "nat \<Rightarrow> nat \<Rightarrow> re_part" where
  "digits_part lo hi = Rep is_digit lo (Some hi) True"

definition int_of :: "string \<Rightarrow> int" where
  "int_of s = int (digits_value s)"

definition checked_date :: "int \<Rightarrow> int \<Rightarrow> int \<Rightarrow> instant option" where
  "checked_date year month day =
     (if 0 \<le> month \<and> month \<le> 11 \<and> 1 \<le> day \<and> day \<le> 31 then Some (date_utc year month day) else None)"

text \<open>The seven formats, in the order they are tried.\<close>

definition iso_format :: "string \<Rightarrow> instant option" where
  "iso_format s =
     (case match_parts [digits_part 4 4, date_sep, digits_part 1 2, date_sep, digits_part 1 2] s of
        Some [y, m, d] \<Rightarrow> checked_date (int_of y) (int_of m - 1) (int_of d)
      | _ \<Rightarrow> None)"

definition named_month_date :: "string \<Rightarrow> string \<Rightarrow> string \<Rightarrow> instant option" where
  "named_month_date d m y =
     (case map_of bank_months (to_lower m) of
        None \<Rightarrow> None
      | Some month \<Rightarrow> if 1 \<le> int_of d \<and> int_of d \<le> 31 then Some (date_utc (expand_year (int_of y)) month (int_of d)) else None)"

definition named_format :: "string \<Rightarrow> instant option" where
  "named_format s =
     (case match_parts [digits_part 1 2, date_sep, Rep is_letter 1 None True, date_sep, digits_part 2 4] s of
        Some [d, m, y] \<Rightarrow> named_month_date d m y
      | _ \<Rightarrow> None)"

definition european_format :: "string \<Rightarrow> instant option" where
  "european_format s =
     (case match_parts [digits_part 1 2, date_sep, digits_part 1 2, date_sep, digits_part 4 4] s of
        Some [d, m, y] \<Rightarrow> checked_date (int_of y) (int_of m - 1) (int_of d)
      | _ \<Rightarrow> None)"

definition european_short_format :: "string \<Rightarrow> instant option" where
  "european_short_format s =
     (case match_parts [digits_part 1 2, date_sep, digits_part 1 2, date_sep, digits_part 2 2] s of
        Some [d, m, y] \<Rightarrow> checked_date (expand_year (int_of y)) (int_of m - 1) (int_of d)
      | _ \<Rightarrow> None)"

definition month_first_format :: "string \<Rightarrow> instant option" where
  "month_first_format s =
     (case match_parts [Rep is_letter 1 None True, Rep (\<lambda>c. one_of ''-/'' c \<or> js_space c) 1 None False,
          digits_part 1 2, Rep (one_of '','') 0 (Some 1) False, Rep js_space 0 None False,
          Rep (one_of ''-/'') 0 (Some 1) False, Rep js_space 0 None False, digits_part 2 4] s of
        Some [m, d, y] \<Rightarrow> named_month_date d m y
      | _ \<Rightarrow> None)"

definition excel_format :: "string \<Rightarrow> instant option" where
  "excel_format s =
     (case match_parts [digits_part 5 5] s of
        Some [serial] \<Rightarrow> Some (date_utc 1899 11 30 + int_of serial * ms_per_day)
      | _ \<Rightarrow> None)"

definition native_format :: "(string \<Rightarrow> instant option) \<Rightarrow> string \<Rightarrow> instant option" where
  "native_format native s =
     (if includes_str s '' '' \<or> includes_str s ''T''
      then (case native s of
              None \<Rightarrow> None
            | Some t \<Rightarrow> let year = year_of_day (iso_day t) in if 1990 \<le> year \<and> year \<le> 2100 then Some t else None)
      else None)"

definition date_formats :: "(string \<Rightarrow> instant option) \<Rightarrow> (string \<Rightarrow> instant option) list" where
  "date_formats native =
     [iso_format, named_format, european_format, european_short_format, month_first_format, excel_format, native_format native]"

definition parse_bank_date :: "(string \<Rightarrow> instant option) \<Rightarrow> string option \<Rightarrow> instant option" where
  "parse_bank_date native dateStr =
     (case dateStr of
        None \<Rightarrow> None
      | Some s \<Rightarrow> if trim s = [] then None else first_result (\<lambda>f. f (trim s)) (date_formats native))"

section \<open>Amounts\<close>

definition bank_symbol :: "char \<Rightarrow> bool" where
  "bank_symbol c = (one_of ''UGXugx,$'' c \<or> js_space c)"

definition starts_with :: "char \<Rightarrow> string \<Rightarrow> bool" where
  "starts_with c s = (s \<noteq> [] \<and> hd s = c)"

definition ends_with :: "char \<Rightarrow> string \<Rightarrow> bool" where
  "ends_with c s = (s \<noteq> [] \<and> last s = c)"

definition parse_bank_amount :: "string option \<Rightarrow> money option" where
  "parse_bank_amount amountStr =
     (case amountStr of
        None \<Rightarrow> None
      | Some s \<Rightarrow>
          if trim s = [] then Some 0
          else let clean = filter (\<lambda>c. \<not> bank_symbol c) (trim s);
                   negative = (starts_with CHR ''('' clean \<and> ends_with CHR '')'' clean \<or> starts_with CHR ''-'' clean);
                   bare = filter (\<lambda>c. \<not> one_of ''()'' c) clean;
                   bare = (if starts_with CHR ''-'' bare then tl bare else bare);
                   bare = filter (\<lambda>c. c \<noteq> CHR '','') bare
               in map_option (\<lambda>v. if negative then - v else v) (parse_float bare))"

section \<open>The shares of the funds\<close>

record fund_columns =
  fc_pct :: "string option"
  fc_amt :: "string option"
  fc_other :: "string list"

definition fund_keys :: "file_row \<Rightarrow> string \<Rightarrow> string list" where
  "fund_keys row code =
     filter (\<lambda>k. includes_str (to_upper k) code \<or> includes_str (to_lower k) (to_lower code)) (map fst row)"

definition is_pct_key :: "string \<Rightarrow> bool" where
  "is_pct_key key =
     (includes_str (to_lower key) ''%'' \<or> includes_str (to_lower key) ''pct'' \<or>
      includes_str (to_lower key) ''percent'' \<or> suffix ''_pct'' key)"

definition is_amt_key :: "string \<Rightarrow> bool" where
  "is_amt_key key =
     (includes_str (to_lower key) ''$'' \<or> includes_str (to_lower key) ''amt'' \<or>
      includes_str (to_lower key) ''amount'' \<or> suffix ''_amt'' key)"

definition add_column :: "fund_columns \<Rightarrow> string \<Rightarrow> fund_columns" where
  "add_column cols key =
     (if is_pct_key key then cols\<lparr>fc_pct := Some key\<rparr>
      else if is_amt_key key then cols\<lparr>fc_amt := Some key\<rparr>
      else cols\<lparr>fc_other := fc_other cols @ [key]\<rparr>)"

definition fund_columns_of :: "file_row \<Rightarrow> string \<Rightarrow> fund_columns" where
  "fund_columns_of row code = foldl add_column \<lparr>fc_pct = None, fc_amt = None, fc_other = []\<rparr> (fund_keys row code)"

definition column_value :: "file_row \<Rightarrow> string option \<Rightarrow> rat" where
  "column_value row key =
     (case key of None \<Rightarrow> 0 | Some k \<Rightarrow> (case parse_bank_amount (cell row k) of None \<Rightarrow> 0 | Some v \<Rightarrow> v))"

text \<open>Columns named after the fund only: the smaller value is taken for the percentage.\<close>

definition by_magnitude :: "fund_columns \<Rightarrow> rat list \<Rightarrow> rat \<Rightarrow> rat \<Rightarrow> rat \<times> rat" where
  "by_magnitude cols values pct amt =
     (let (pct', rest) = (if fc_pct cols = None \<and> values \<noteq> [] \<and> 0 \<le> hd values \<and> hd values \<le> 100
                          then (hd values, tl values) else (pct, values))
      in (pct', if fc_amt cols = None \<and> rest \<noteq> [] then hd rest else amt))"

definition fill_in :: "money \<Rightarrow> rat \<times> rat \<Rightarrow> rat \<times> rat" where
  "fill_in totalAmount share =
     (let (pct, amt) = share;
          amt' = (if pct > 0 \<and> amt = 0 \<and> totalAmount \<noteq> 0 then pct / 100 * \<bar>totalAmount\<bar> else amt);
          pct' = (if amt' > 0 \<and> pct = 0 \<and> totalAmount \<noteq> 0 then amt' / \<bar>totalAmount\<bar> * 100 else pct)
      in (pct', amt'))"

definition fund_share :: "file_row \<Rightarrow> money \<Rightarrow> string \<Rightarrow> rat \<times> rat" where
  "fund_share row totalAmount code =
     (let cols = fund_columns_of row code;
          pct = column_value row (fc_pct cols); amt = column_value row (fc_amt cols);
          values = sort (List.map_filter (\<lambda>k. parse_bank_amount (cell row k)) (fc_other cols))
      in fill_in totalAmount (by_magnitude cols values pct amt))"

section \<open>Rows\<close>

definition text_field :: "file_row \<Rightarrow> string \<Rightarrow> string \<Rightarrow> string" where
  "text_field row name lowercase = clean_string (or_else (or_else (cell row name) (cell row lowercase)) (Some []))"

definition parse_bank_row_with :: "(string option \<Rightarrow> instant option) \<Rightarrow> file_row \<Rightarrow> nat \<Rightarrow> parsed_bank option" where
  "parse_bank_row_with read_date row rowNumber =
     (case read_date (or_else (cell row ''Date'') (cell row ''date'')) of
        None \<Rightarrow> None
      | Some date \<Rightarrow>
          (case parse_bank_amount (or_else (cell row ''Total Amount'') (cell row ''total amount'')) of
             None \<Rightarrow> None
           | Some totalAmount \<Rightarrow>
               (let xummf = fund_share row totalAmount ''XUMMF''; xubf = fund_share row totalAmount ''XUBF'';
                    xudef = fund_share row totalAmount ''XUDEF''; xuref = fund_share row totalAmount ''XUREF''
                in Some \<lparr>pb_rowNumber = rowNumber,
                     pb_firstName = text_field row ''First Name'' ''first name'',
                     pb_lastName = text_field row ''Last Name'' ''last name'',
                     pb_accountNumber = text_field row ''Acc Number'' ''acc number'',
                     pb_goalTitle = text_field row ''Goal Name'' ''goal name'',
                     pb_goalNumber = text_field row ''Goal Number'' ''goal number'',
                     pb_transactionDate = Some date,
                     pb_transactionType = to_upper (text_field row ''Transaction Type'' ''transaction type''),
                     pb_transactionId = text_field row ''Transaction ID'' ''transaction id'',
                     pb_totalAmount = Some totalAmount,
                     pb_xummfPercentage = Some (fst xummf), pb_xubfPercentage = Some (fst xubf),
                     pb_xudefPercentage = Some (fst xudef), pb_xurefPercentage = Some (fst xuref),
                     pb_xummfAmount = Some (snd xummf), pb_xubfAmount = Some (snd xubf),
                     pb_xudefAmount = Some (snd xudef), pb_xurefAmount = Some (snd xuref)\<rparr>)))"

definition parse_bank_row :: "(string \<Rightarrow> instant option) \<Rightarrow> file_row \<Rightarrow> nat \<Rightarrow> parsed_bank option" where
  "parse_bank_row native row rowNumber = parse_bank_row_with (parse_bank_date native) row rowNumber"

definition bank_empty_row :: "file_row \<Rightarrow> bool" where
  "bank_empty_row row = list_all (\<lambda>(k, v). v = [] \<or> trim v = []) row"

definition parse_bank_file :: "(string \<Rightarrow> instant option) \<Rightarrow> file_row list \<Rightarrow> parsed_bank list" where
  "parse_bank_file native rows = parse_rows 1 bank_empty_row (parse_bank_row native) rows"

section \<open>Headers\<close>

definition bank_headers :: "string list" where
  "bank_headers = [''Date'', ''First Name'', ''Last Name'', ''Acc Number'', ''Goal Name'', ''Goal Number'',
     ''Total Amount'', ''Transaction Type'', ''Transaction ID'']"

definition first_word :: "string \<Rightarrow> string" where
  "first_word h = hd (split_on CHR '' '' h)"

definition missing_bank_headers :: "string list \<Rightarrow> string list" where
  "missing_bank_headers header =
     (let actual = map (\<lambda>h. trim (to_lower h)) header
      in filter (\<lambda>h. \<not> list_ex (\<lambda>ah. includes_str ah (first_word h)) actual) (map to_lower bank_headers))"

definition extra_bank_headers :: "string list \<Rightarrow> string list" where
  "extra_bank_headers header =
     (let actual = map (\<lambda>h. trim (to_lower h)) header
      in filter (\<lambda>h. \<not> list_ex (\<lambda>rh. includes_str h (first_word rh)) (map to_lower bank_headers)) actual)"

datatype structure_error = MissingColumns "string list" | NoDataRows | FileError

record structure_result =
  sr_errors :: "structure_error list"
  sr_rowCount :: "nat option"

definition sr_valid :: "structure_result \<Rightarrow> bool" where
  "sr_valid r = (sr_errors r = [])"

text \<open>Header fields and row count as read by the library, \<open>None\<close> where it reports an error.\<close>

definition validate_bank_structure :: "string list option \<Rightarrow> nat option \<Rightarrow> structure_result" where
  "validate_bank_structure header rowCount =
     (case header of
        None \<Rightarrow> \<lparr>sr_errors = [FileError], sr_rowCount = None\<rparr>
      | Some fs \<Rightarrow>
          (let missing = missing_bank_headers fs; errors = (if missing = [] then [] else [MissingColumns missing])
           in case rowCount of
                None \<Rightarrow> \<lparr>sr_errors = errors @ [FileError], sr_rowCount = None\<rparr>
              | Some n \<Rightarrow> \<lparr>sr_errors = errors @ (if n = 0 then [NoDataRows] else []), sr_rowCount = Some n\<rparr>))"

section \<open>Reading dates\<close>

lemma trim_framed: "s \<noteq> [] \<Longrightarrow> \<not> js_space (hd s) \<Longrightarrow> \<not> js_space (last s) \<Longrightarrow> trim s = s"
  by (rule trim_id) simp

lemma two_digits:
  assumes "n < 100"
  obtains a b where "pad2 n = [a, b]" "is_digit a" "is_digit b"
  using pad2_two_digits [OF assms] by (auto simp: length_Suc_conv numeral_2_eq_2)

lemma four_digits:
  assumes "1000 \<le> n" "n \<le> 9999"
  obtains a b c d where "nat_digits n = [a, b, c, d]" "is_digit a" "is_digit b" "is_digit c" "is_digit d"
proof -
  have "n div 10 div 10 div 10 < 10" "10 \<le> n div 10 div 10" "10 \<le> n div 10" "10 \<le> n"
    using assms by (simp_all add: div_less_iff_less_mult less_eq_div_iff_mult_less_eq)
  then have "length (nat_digits n) = 4"
    by (simp add: nat_digits.simps [of n] nat_digits.simps [of "n div 10"]
        nat_digits.simps [of "n div 10 div 10"] nat_digits.simps [of "n div 10 div 10 div 10"])
  then show thesis
    using that nat_digits_digits [of _ n] by (auto simp: length_Suc_conv numeral_eq_Suc)
qed

text \<open>The three ways a date is usually written.\<close>

definition slash_date :: "civil \<Rightarrow> string" where
  "slash_date c = pad2 (c_day c) @ ''/'' @ pad2 (c_month c) @ ''/'' @ nat_digits (c_year c)"

definition named_date :: "string \<Rightarrow> civil \<Rightarrow> string" where
  "named_date name c = pad2 (c_day c) @ ''-'' @ name @ ''-'' @ nat_digits (c_year c)"

definition date_in_range :: "civil \<Rightarrow> bool" where
  "date_in_range c = (1000 \<le> c_year c \<and> c_year c \<le> 9999 \<and> 1 \<le> c_month c \<and> c_month c \<le> 12 \<and> 1 \<le> c_day c \<and> c_day c \<le> 31)"

definition start_of_day :: "civil \<Rightarrow> instant" where
  "start_of_day c = day_of_civil c * ms_per_day"

lemma date_utc_start: "1000 \<le> c_year c \<Longrightarrow> date_utc (int (c_year c)) (int (c_month c) - 1) (int (c_day c)) = start_of_day c"
  by (simp add: date_utc_def start_of_day_def day_of_civil_def utc_date_def)

lemma checked_date_in_range:
  "date_in_range c \<Longrightarrow> checked_date (int (c_year c)) (int (c_month c) - 1) (int (c_day c)) = Some (start_of_day c)"
  by (simp add: date_in_range_def checked_date_def date_utc_start)

lemma sep_facts [simp]: "one_of ''-/'' CHR ''-''" "one_of ''-/'' CHR ''/''" "is_digit c \<Longrightarrow> \<not> one_of ''-/'' c"
  by (auto simp: one_of_def is_digit_def)

lemma date_chars:
  assumes "date_in_range c"
  obtains y1 y2 y3 y4 m1 m2 d1 d2 where "nat_digits (c_year c) = [y1, y2, y3, y4]" "pad2 (c_month c) = [m1, m2]"
    "pad2 (c_day c) = [d1, d2]" "list_all is_digit [y1, y2, y3, y4, m1, m2, d1, d2]"
proof -
  have i: "1000 \<le> c_year c" "c_year c \<le> 9999" "c_month c < 100" "c_day c < 100"
    using assms by (simp_all add: date_in_range_def)
  obtain y1 y2 y3 y4 where "nat_digits (c_year c) = [y1, y2, y3, y4]" "list_all is_digit [y1, y2, y3, y4]"
    using i by (auto elim: four_digits)
  moreover obtain m1 m2 where "pad2 (c_month c) = [m1, m2]" "list_all is_digit [m1, m2]" using i by (auto elim: two_digits)
  moreover obtain d1 d2 where "pad2 (c_day c) = [d1, d2]" "list_all is_digit [d1, d2]" using i by (auto elim: two_digits)
  ultimately show thesis by (intro that) auto
qed

lemma match_sep:
  "match_parts rs rest = Some groups \<Longrightarrow> one_of ''-/'' c \<Longrightarrow> match_parts (date_sep # rs) (c # rest) = Some groups"
  using match_parts_greedy [of "one_of ''-/''" "[c]" 1 "Some 1" rest rs groups False]
  by (simp add: date_sep_def del: match_parts.simps(2))

lemma match_digits:
  assumes "list_all is_digit w" "lo \<le> length w" "length w \<le> hi" "rest = [] \<or> \<not> is_digit (hd rest)" "match_parts rs rest = Some groups"
  shows "match_parts (digits_part lo hi # rs) (w @ rest) = Some (w # groups)"
  using assms match_parts_greedy [of is_digit w lo "Some hi" rest rs groups True]
  by (auto simp: digits_part_def simp del: match_parts.simps(2))

lemma match_last_digits:
  assumes "list_all is_digit w" "lo \<le> length w" "length w \<le> hi"
  shows "match_parts [digits_part lo hi] w = Some [w]"
  using match_digits [OF assms, of "[]" "[]" "[]"] by simp

lemma no_four_digits: "\<not> is_digit c \<Longrightarrow> match_parts (digits_part 4 4 # rs) (a # b # c # rest) = None"
  unfolding digits_part_def by (rule match_parts_too_short) simp

lemma no_letters:
  assumes "is_digit d2" "\<not> is_letter c"
  shows "match_parts (digits_part 1 2 # date_sep # Rep is_letter 1 None True # rs) (d1 # d2 # s # c # rest) = None"
  unfolding digits_part_def
proof (rule match_parts_fails)
  have letters: "match_parts (Rep is_letter 1 None True # rs) (c # rest) = None"
    using assms(2) by (intro match_parts_too_short) simp
  fix n
  assume n: "1 \<le> n" "n \<le> most is_digit (Some 2) (d1 # d2 # s # c # rest)"
  then have "n \<le> 2" by (simp add: most_def min_def split: if_splits)
  with n consider "n = 1" | "n = 2" by linarith
  then show "match_parts (date_sep # Rep is_letter 1 None True # rs) (drop n (d1 # d2 # s # c # rest)) = None"
  proof cases
    case 1
    show ?thesis unfolding date_sep_def by (rule match_parts_too_short) (simp add: 1 assms)
  next
    case 2
    show ?thesis
      unfolding date_sep_def
      by (rule match_parts_fails) (use 2 letters in \<open>auto simp: most_def numeral_2_eq_2 le_Suc_eq simp del: match_parts.simps(2)\<close>)
  qed
qed

lemma not_digit_sep: "\<not> is_digit CHR ''-''" "\<not> is_digit CHR ''/''" "\<not> is_letter CHR ''-''" "is_digit c \<Longrightarrow> \<not> is_letter c"
  by (auto simp: is_digit_def is_letter_def)

lemma iso_date_read:
  assumes "date_in_range c"
  shows "parse_bank_date native (Some (format_date c)) = Some (start_of_day c)"
proof -
  obtain y1 y2 y3 y4 m1 m2 d1 d2 where f: "nat_digits (c_year c) = [y1, y2, y3, y4]" "pad2 (c_month c) = [m1, m2]"
    "pad2 (c_day c) = [d1, d2]" "list_all is_digit [y1, y2, y3, y4, m1, m2, d1, d2]" using assms by (rule date_chars)
  have chars: "format_date c = [y1, y2, y3, y4] @ CHR ''-'' # [m1, m2] @ CHR ''-'' # [d1, d2]"
    by (simp add: format_date_def f)
  have "match_parts [digits_part 4 4, date_sep, digits_part 1 2, date_sep, digits_part 1 2] (format_date c)
      = Some [nat_digits (c_year c), pad2 (c_month c), pad2 (c_day c)]"
    unfolding chars f(1-3) by (intro match_digits match_sep match_last_digits) (use f(4) not_digit_sep in simp_all)
  then have "iso_format (format_date c) = Some (start_of_day c)"
    using checked_date_in_range [OF assms] by (simp add: iso_format_def int_of_def del: match_parts.simps(2))
  moreover have "trim (format_date c) = format_date c" by (rule trim_framed) (use f(4) in \<open>simp_all add: chars is_digit_facts\<close>)
  ultimately show ?thesis by (simp add: parse_bank_date_def date_formats_def chars)
qed

lemma slash_date_read:
  assumes "date_in_range c"
  shows "parse_bank_date native (Some (slash_date c)) = Some (start_of_day c)"
proof -
  obtain y1 y2 y3 y4 m1 m2 d1 d2 where f: "nat_digits (c_year c) = [y1, y2, y3, y4]" "pad2 (c_month c) = [m1, m2]"
    "pad2 (c_day c) = [d1, d2]" "list_all is_digit [y1, y2, y3, y4, m1, m2, d1, d2]" using assms by (rule date_chars)
  have chars: "slash_date c = [d1, d2] @ CHR ''/'' # [m1, m2] @ CHR ''/'' # [y1, y2, y3, y4]"
    by (simp add: slash_date_def f)
  have "match_parts [digits_part 1 2, date_sep, digits_part 1 2, date_sep, digits_part 4 4] (slash_date c)
      = Some [pad2 (c_day c), pad2 (c_month c), nat_digits (c_year c)]"
    unfolding chars f(1-3) by (intro match_digits match_sep match_last_digits) (use f(4) not_digit_sep in simp_all)
  then have "european_format (slash_date c) = Some (start_of_day c)"
    using checked_date_in_range [OF assms] by (simp add: european_format_def int_of_def del: match_parts.simps(2))
  moreover have "iso_format (slash_date c) = None"
    using no_four_digits [OF not_digit_sep(2)] by (simp add: iso_format_def chars del: match_parts.simps(2))
  moreover have "named_format (slash_date c) = None"
    using no_letters [of d2 m1] f(4) not_digit_sep(4) by (simp add: named_format_def chars del: match_parts.simps(2))
  moreover have "trim (slash_date c) = slash_date c" by (rule trim_framed) (use f(4) in \<open>simp_all add: chars is_digit_facts\<close>)
  ultimately show ?thesis by (simp add: parse_bank_date_def date_formats_def chars)
qed

lemma bank_month_letters: "list_all (\<lambda>(name, m). list_all is_letter name) bank_months"
  by (simp add: bank_months_def is_letter_def)

lemma bank_month_distinct: "list_all (\<lambda>(name, m). map_of bank_months name = Some m) bank_months"
  by (simp add: bank_months_def)

lemma bank_month_lower: "list_all (\<lambda>(name, m). to_lower name = name) bank_months"
  by (simp add: bank_months_def to_lower_def lower_char_def)

lemma bank_month_range: "list_all (\<lambda>(name, m). name \<noteq> [] \<and> 0 \<le> m \<and> m \<le> 11) bank_months"
  by (simp add: bank_months_def)

lemma bank_month_names:
  assumes "(name, m) \<in> set bank_months"
  shows "map_of bank_months name = Some m" "list_all is_letter name" "name \<noteq> []" "to_lower name = name"
  using bank_month_distinct bank_month_letters bank_month_range bank_month_lower
  by (simp_all only: list_all_iff) (use assms in blast)+

lemma named_date_read:
  assumes "date_in_range c" "(name, int (c_month c) - 1) \<in> set bank_months"
  shows "parse_bank_date native (Some (named_date name c)) = Some (start_of_day c)"
proof -
  note n = bank_month_names [OF assms(2)]
  obtain y1 y2 y3 y4 m1 m2 d1 d2 where f: "nat_digits (c_year c) = [y1, y2, y3, y4]" "pad2 (c_month c) = [m1, m2]"
    "pad2 (c_day c) = [d1, d2]" "list_all is_digit [y1, y2, y3, y4, m1, m2, d1, d2]" using assms(1) by (rule date_chars)
  have chars: "named_date name c = [d1, d2] @ CHR ''-'' # name @ CHR ''-'' # [y1, y2, y3, y4]"
    by (simp add: named_date_def f)
  have "match_parts [Rep is_letter 1 None True, date_sep, digits_part 2 4] (name @ CHR ''-'' # [y1, y2, y3, y4])
      = Some (if True then name # [[y1, y2, y3, y4]] else [[y1, y2, y3, y4]])"
    by (intro match_parts_greedy match_sep match_last_digits) (use n f(4) not_digit_sep in \<open>simp_all add: Suc_le_eq\<close>)
  then have "match_parts [digits_part 1 2, date_sep, Rep is_letter 1 None True, date_sep, digits_part 2 4] (named_date name c)
      = Some [pad2 (c_day c), name, nat_digits (c_year c)]"
    unfolding chars f(1,3) by (intro match_digits match_sep) (use f(4) not_digit_sep in simp_all)
  then have "named_format (named_date name c) = Some (start_of_day c)"
    using assms(1) n(1,4) date_utc_start [of c]
    by (simp add: named_format_def named_month_date_def int_of_def expand_year_def date_in_range_def del: match_parts.simps(2))
  moreover have "iso_format (named_date name c) = None"
    using no_four_digits [OF not_digit_sep(1)] by (simp add: iso_format_def chars del: match_parts.simps(2))
  moreover have "trim (named_date name c) = named_date name c" by (rule trim_framed) (use f(4) in \<open>simp_all add: chars is_digit_facts\<close>)
  ultimately show ?thesis by (simp add: parse_bank_date_def date_formats_def chars)
qed

section \<open>Reading amounts\<close>

lemma trim_filter:
  assumes "\<And>c. js_space c \<Longrightarrow> \<not> P c"
  shows "filter P (trim s) = filter P s"
proof -
  have left: "filter P (dropWhile js_space u) = filter P u" for u using assms by (induction u) auto
  have "filter P (trim s) = rev (filter P (dropWhile js_space (rev (dropWhile js_space s))))"
    by (simp add: trim_def rev_filter)
  also have "\<dots> = filter P (dropWhile js_space s)" by (simp add: left rev_filter [symmetric])
  finally show ?thesis by (simp add: left)
qed

lemma trim_nonempty: "filter P s \<noteq> [] \<Longrightarrow> (\<And>c. js_space c \<Longrightarrow> \<not> P c) \<Longrightarrow> trim s \<noteq> []"
  using trim_filter [of P s] by (metis filter.simps(1))

text \<open>What is left of an amount once currency symbols, commas and blanks are removed.\<close>

definition bank_core :: "string \<Rightarrow> string" where
  "bank_core s = filter (\<lambda>c. \<not> bank_symbol c) s"

lemma bank_core_trim: "filter (\<lambda>c. \<not> bank_symbol c) (trim s) = bank_core s"
  unfolding bank_core_def by (rule trim_filter) (simp add: bank_symbol_def)

lemma bank_core_nonempty: "bank_core s \<noteq> [] \<Longrightarrow> trim s \<noteq> []"
  unfolding bank_core_def by (rule trim_nonempty [where P = "\<lambda>c. \<not> bank_symbol c"]) (auto simp: bank_symbol_def)

lemma decimal_text_plain:
  assumes "decimal_text s"
  shows "filter (\<lambda>c. \<not> one_of ''()'' c) s = s" "filter (\<lambda>c. c \<noteq> CHR '','') s = s"
    "\<not> starts_with CHR ''('' s" "\<not> starts_with CHR ''-'' s" "s \<noteq> []"
proof -
  have c: "\<not> one_of ''()'' c \<and> c \<noteq> CHR '',''" if "c \<in> set s" for c
    using decimal_text_chars [OF assms that] by (auto simp: one_of_def is_digit_def)
  then show "filter (\<lambda>c. \<not> one_of ''()'' c) s = s" "filter (\<lambda>c. c \<noteq> CHR '','') s = s" by (simp_all add: filter_id_conv)
  show "\<not> starts_with CHR ''('' s" "\<not> starts_with CHR ''-'' s" "s \<noteq> []"
    using assms by (auto elim!: decimal_text_first simp: starts_with_def is_digit_facts)
qed

lemma bank_amount_of_core:
  assumes "decimal_text num" "parse_unsigned num = Some v"
  shows "bank_core s = num \<Longrightarrow> parse_bank_amount (Some s) = Some v"
    and "bank_core s = CHR ''('' # num @ '')'' \<Longrightarrow> parse_bank_amount (Some s) = Some (- v)"
    and "bank_core s = CHR ''-'' # num \<Longrightarrow> parse_bank_amount (Some s) = Some (- v)"
  using decimal_text_plain [OF assms(1)] parse_float_unsigned [OF assms(1)] assms(2) bank_core_nonempty [of s]
  by (simp_all add: parse_bank_amount_def Let_def bank_core_trim)
     (simp_all add: starts_with_def ends_with_def one_of_def)

section \<open>Shares\<close>

lemma two_values_sorted: "sort [a, b] = (if a \<le> b then [a, b] else [b, a])" for a b :: rat
  by simp

lemma share_by_magnitude:
  assumes cols: "fund_columns_of row code = \<lparr>fc_pct = None, fc_amt = None, fc_other = [k1, k2]\<rparr>"
    and v: "parse_bank_amount (cell row k1) = Some p" "parse_bank_amount (cell row k2) = Some a"
    and p: "0 < p" "p \<le> 100"
  shows "p \<le> a \<Longrightarrow> fund_share row totalAmount code = (p, a)"
    and "a < 0 \<Longrightarrow> fund_share row totalAmount code = (0, a)"
    and "0 < a \<Longrightarrow> a < p \<Longrightarrow> fund_share row totalAmount code = (a, p)"
proof -
  have share: "fund_share row totalAmount code = fill_in totalAmount
      (by_magnitude \<lparr>fc_pct = None, fc_amt = None, fc_other = [k1, k2]\<rparr> (sort [p, a]) 0 0)"
    by (simp add: fund_share_def Let_def cols map_filter_simps v column_value_def)
  show "p \<le> a \<Longrightarrow> fund_share row totalAmount code = (p, a)" "a < 0 \<Longrightarrow> fund_share row totalAmount code = (0, a)"
    "0 < a \<Longrightarrow> a < p \<Longrightarrow> fund_share row totalAmount code = (a, p)"
    using p by (simp_all only: share two_values_sorted) (simp_all add: by_magnitude_def fill_in_def)
qed

lemma share_from_percentage:
  assumes "fund_columns_of row code = \<lparr>fc_pct = Some k, fc_amt = None, fc_other = []\<rparr>"
    and "parse_bank_amount (cell row k) = Some p" "0 \<le> p" "totalAmount \<noteq> 0"
  shows "fund_share row totalAmount code = (p, p / 100 * \<bar>totalAmount\<bar>)"
  using assms by (simp add: fund_share_def column_value_def map_filter_def by_magnitude_def fill_in_def)

section \<open>The rows of a file\<close>

definition bank_row_complete :: "parsed_bank \<Rightarrow> bool" where
  "bank_row_complete t =
     (pb_transactionDate t \<noteq> None \<and> pb_totalAmount t \<noteq> None \<and>
      pb_xummfPercentage t \<noteq> None \<and> pb_xubfPercentage t \<noteq> None \<and> pb_xudefPercentage t \<noteq> None \<and>
      pb_xurefPercentage t \<noteq> None \<and> pb_xummfAmount t \<noteq> None \<and> pb_xubfAmount t \<noteq> None \<and>
      pb_xudefAmount t \<noteq> None \<and> pb_xurefAmount t \<noteq> None)"

text \<open>The errors of the validator for a missing date or amount.\<close>

definition missing_number_or_date :: "validation_error \<Rightarrow> bool" where
  "missing_number_or_date e = (ve_code e = ''REQUIRED_FIELD'' \<and> (ve_field e = ''transactionDate'' \<or> ve_field e = ''totalAmount''))"

lemma parse_bank_row_fields:
  "parse_bank_row_with read_date row n = Some t \<Longrightarrow> pb_rowNumber t = n \<and> bank_row_complete t"
  by (auto simp: parse_bank_row_with_def Let_def bank_row_complete_def split: option.splits)

lemma complete_row_no_missing: "bank_row_complete t \<Longrightarrow> filter missing_number_or_date (validate_bank ck t) = []"
  by (auto simp: bank_row_complete_def validate_bank_def bank_required_def bank_type_check_def bank_amount_check_def
      bank_date_check_def bank_percentage_check_def bank_fund_sum_check_def missing_number_or_date_def err_if_def err_def Let_def
      split: option.splits)

end
