(* ===== verification/FundParse.thy ===== *)
theory FundParse
  imports BankParse
begin

text \<open>
  Files of fund transactions: \<open>DateUtils.parseDate\<close>, \<open>NumberUtils.parseAmount\<close>, \<open>StringUtils.clean\<close>, the rows of
  \<open>FundCSVParser\<close> and \<open>ExcelParser\<close>, the Excel variant of the bank parser and the dispatch on the file type. The
  spreadsheet library is outside the model: with \<open>raw: false\<close> its cells are texts, a row is what \<open>sheet_to_json\<close>
  returns. \<open>native\<close> is the engine's \<open>new Date(text)\<close>, \<open>now\<close> the time of the call. The euro sign is not among the
  characters of the model.
\<close>

section \<open>Dates\<close>

definition slash_part :: re_part where
  "slash_part = Rep (one_of ''/'') 1 (Some 1) False"

definition dash_part :: re_part where
  "dash_part = Rep (one_of ''-'') 1 (Some 1) False"

definition full_date_pattern :: "re_part list" where
  "full_date_pattern = [digits_part 2 2, slash_part, digits_part 2 2, slash_part, digits_part 4 4]"

definition month_abbrev :: "(string \<times> int) list" where
  "month_abbrev = [(''jan'', 0), (''feb'', 1), (''mar'', 2), (''apr'', 3), (''may'', 4), (''jun'', 5),
     (''jul'', 6), (''aug'', 7), (''sep'', 8), (''oct'', 9), (''nov'', 10), (''dec'', 11)]"

definition short_year :: "string \<Rightarrow> int" where
  "short_year y = (if int_of y < 50 then 2000 + int_of y else 1900 + int_of y)"

text \<open>The attempts in their order. A date built from fields is always a valid \<open>Date\<close>: fields out of range carry over.\<close>

definition native_iso :: "(string \<Rightarrow> instant option) \<Rightarrow> string \<Rightarrow> instant option" where
  "native_iso native s = (case native s of None \<Rightarrow> None | Some t \<Rightarrow> if includes_str s ''-'' then Some t else None)"

definition day_month_year :: "string \<Rightarrow> instant option" where
  "day_month_year s =
     (case match_parts full_date_pattern s of
        Some [day, month, year] \<Rightarrow> Some (date_utc (int_of year) (int_of month - 1) (int_of day)) | _ \<Rightarrow> None)"

definition month_day_year :: "string \<Rightarrow> instant option" where
  "month_day_year s =
     (case match_parts full_date_pattern s of
        Some [month, day, year] \<Rightarrow> Some (date_utc (int_of year) (int_of month - 1) (int_of day)) | _ \<Rightarrow> None)"

definition day_month_short :: "string \<Rightarrow> instant option" where
  "day_month_short s =
     (case match_parts [digits_part 2 2, slash_part, digits_part 2 2, slash_part, digits_part 2 2] s of
        Some [day, month, year] \<Rightarrow> Some (date_utc (short_year year) (int_of month - 1) (int_of day)) | _ \<Rightarrow> None)"

definition day_name_short :: "string \<Rightarrow> instant option" where
  "day_name_short s =
     (case match_parts [digits_part 1 2, dash_part, Rep is_letter 3 (Some 3) True, dash_part, digits_part 2 2] s of
        Some [day, name, year] \<Rightarrow>
          (case map_of month_abbrev (to_lower name) of
             None \<Rightarrow> None | Some month \<Rightarrow> Some (date_utc (short_year year) month (int_of day)))
      | _ \<Rightarrow> None)"

definition parse_fund_date :: "(string \<Rightarrow> instant option) \<Rightarrow> string option \<Rightarrow> instant option" where
  "parse_fund_date native dateStr =
     (case dateStr of
        None \<Rightarrow> None
      | Some s \<Rightarrow>
          if s = [] then None
          else first_result (\<lambda>f. f (trim s))
                 [native_iso native, day_month_year, month_day_year, day_month_short, day_name_short])"

section \<open>Numbers and strings\<close>

definition fund_symbol :: "char \<Rightarrow> bool" where
  "fund_symbol c = (one_of ''UGXugx$,'' c \<or> c = CHR 0xA3 \<or> c = CHR 0xA5 \<or> js_space c)"

definition parse_fund_amount :: "string option \<Rightarrow> money option" where
  "parse_fund_amount v =
     (case v of
        None \<Rightarrow> None
      | Some s \<Rightarrow>
          if trim s = [] then None
          else let cleaned = trim (filter (\<lambda>c. \<not> fund_symbol c) (trim s))
               in parse_float
                    (if starts_with CHR ''('' cleaned \<and> ends_with CHR '')'' cleaned
                     then CHR ''-'' # butlast (tl cleaned) else cleaned))"

definition clean_value :: "string option \<Rightarrow> string" where
  "clean_value v = (case v of None \<Rightarrow> [] | Some s \<Rightarrow> clean s)"

definition source_names :: "(string \<times> transaction_source) list" where
  "source_names =
     [(''Transfer_Reversal'', Transfer_Reversal), (''AIRTEL_APP'', AIRTEL_APP), (''MTN_USSD'', MTN_USSD),
      (''AIRTEL_WEB'', AIRTEL_WEB), (''MTN_APP'', MTN_APP), (''MTN_WEB'', MTN_WEB), (''BANK'', BANK),
      (''MTN_MOMO'', MTN_MOMO), (''AIRTEL_MONEY'', AIRTEL_MONEY), (''RT_Adjustment'', RT_Adjustment)]"

section \<open>Rows\<close>

text \<open>The part both parsers share; they differ in how a date cell is read.\<close>

definition parse_fund_row_with ::
    "(string option \<Rightarrow> instant option) \<Rightarrow> instant \<Rightarrow> file_row \<Rightarrow> nat \<Rightarrow> parsed_fund option" where
  "parse_fund_row_with read_date now row rowNumber =
     (let field = (\<lambda>k. clean_value (cell row k)); number = (\<lambda>k. parse_fund_amount (cell row k)) in
      if field ''fundTransactionId'' = [] then None
      else case read_date (cell row ''transactionDate'') of
        None \<Rightarrow> None
      | Some transactionDate \<Rightarrow>
          if number ''amount'' = None \<or> number ''units'' = None \<or> number ''bidPrice'' = None \<or>
             number ''offerPrice'' = None \<or> number ''midPrice'' = None then None
          else
            (let sourceStr = field ''source'';
                 code = generate_code (\<lambda>_. None) (DateValue (civil_of_day (iso_day transactionDate)))
                   (field ''accountNumber'') (field ''goalNumber'') (field ''transactionId'') sourceStr
             in case code of
                  None \<Rightarrow> None
                | Some goalTransactionCode \<Rightarrow>
                    Some \<lparr>pf_fundTransactionId = field ''fundTransactionId'',
                      pf_goalTransactionCode = goalTransactionCode,
                      pf_transactionId = field ''transactionId'',
                      pf_source = (if sourceStr = [] then None else map_of source_names sourceStr),
                      pf_transactionDate = Some transactionDate,
                      pf_clientName = field ''clientName'',
                      pf_fundCode = to_upper (field ''fundCode''),
                      pf_amount = number ''amount'',
                      pf_units = number ''units'',
                      pf_transactionType = to_upper (field ''transactionType''),
                      pf_bidPrice = number ''bidPrice'',
                      pf_offerPrice = number ''offerPrice'',
                      pf_midPrice = number ''midPrice'',
                      pf_dateCreated = Some (case read_date (cell row ''dateCreated'') of None \<Rightarrow> now | Some d \<Rightarrow> d),
                      pf_goalTitle = field ''goalTitle'',
                      pf_goalNumber = field ''goalNumber'',
                      pf_accountNumber = field ''accountNumber'',
                      pf_accountType = to_upper (field ''accountType''),
                      pf_accountCategory = to_upper (field ''accountCategory''),
                      pf_sponsorCode = (if field ''sponsorCode'' = [] then None else Some (field ''sponsorCode'')),
                      pf_rowNumber = rowNumber\<rparr>))"

definition parse_fund_row :: "(string \<Rightarrow> instant option) \<Rightarrow> instant \<Rightarrow> file_row \<Rightarrow> nat \<Rightarrow> parsed_fund option" where
  "parse_fund_row native now row rowNumber = parse_fund_row_with (parse_fund_date native) now row rowNumber"

definition fund_empty_row :: "file_row \<Rightarrow> bool" where
  "fund_empty_row row = list_all (\<lambda>(k, v). is_empty_str v) row"

definition parse_fund_csv :: "(string \<Rightarrow> instant option) \<Rightarrow> instant \<Rightarrow> file_row list \<Rightarrow> parsed_fund list" where
  "parse_fund_csv native now rows = parse_rows 1 fund_empty_row (parse_fund_row native now) rows"

text \<open>A date cell of a sheet read with \<open>raw: false\<close> is a text.\<close>

definition excel_fund_date :: "(string \<Rightarrow> instant option) \<Rightarrow> string option \<Rightarrow> instant option" where
  "excel_fund_date native v = (if truthy_str v then parse_fund_date native v else None)"

definition parse_excel_fund_row :: "(string \<Rightarrow> instant option) \<Rightarrow> instant \<Rightarrow> file_row \<Rightarrow> nat \<Rightarrow> parsed_fund option" where
  "parse_excel_fund_row native now row rowNumber = parse_fund_row_with (excel_fund_date native) now row rowNumber"

definition parse_fund_excel :: "(string \<Rightarrow> instant option) \<Rightarrow> instant \<Rightarrow> file_row list \<Rightarrow> parsed_fund list" where
  "parse_fund_excel native now rows =
     parse_rows 2 fund_empty_row (parse_excel_fund_row native now) (map trim_headers rows)"

section \<open>The Excel variant of the bank parser\<close>

definition excel_bank_date :: "(string \<Rightarrow> instant option) \<Rightarrow> string option \<Rightarrow> instant option" where
  "excel_bank_date native v = (if truthy_str v then parse_bank_date native v else None)"

definition parse_excel_bank_row :: "(string \<Rightarrow> instant option) \<Rightarrow> file_row \<Rightarrow> nat \<Rightarrow> parsed_bank option" where
  "parse_excel_bank_row native row rowNumber = parse_bank_row_with (excel_bank_date native) row rowNumber"

definition parse_bank_excel :: "(string \<Rightarrow> instant option) \<Rightarrow> file_row list \<Rightarrow> parsed_bank list" where
  "parse_bank_excel native rows = parse_rows 2 bank_empty_row (parse_excel_bank_row native) (map trim_headers rows)"

section \<open>Dispatch on the file type\<close>

datatype parse_failure = UnsupportedType | ReaderFailed

text \<open>\<open>content\<close> is what the library reads from the file: the rows, or \<open>None\<close> where it fails.\<close>

definition parse_fund_file ::
    "(string \<Rightarrow> instant option) \<Rightarrow> instant \<Rightarrow> string \<Rightarrow> file_row list option \<Rightarrow> parse_failure + parsed_fund list" where
  "parse_fund_file native now path content =
     (case file_kind_of path of
        UnsupportedFile \<Rightarrow> Inl UnsupportedType
      | CsvFile \<Rightarrow> (case content of None \<Rightarrow> Inl ReaderFailed | Some rows \<Rightarrow> Inr (parse_fund_csv native now rows))
      | ExcelFile \<Rightarrow> (case content of None \<Rightarrow> Inl ReaderFailed | Some rows \<Rightarrow> Inr (parse_fund_excel native now rows)))"

definition parse_bank_upload ::
    "(string \<Rightarrow> instant option) \<Rightarrow> string \<Rightarrow> file_row list option \<Rightarrow> parse_failure + parsed_bank list" where
  "parse_bank_upload native path content =
     (case file_kind_of path of
        UnsupportedFile \<Rightarrow> Inl UnsupportedType
      | CsvFile \<Rightarrow> (case content of None \<Rightarrow> Inl ReaderFailed | Some rows \<Rightarrow> Inr (parse_bank_file native rows))
      | ExcelFile \<Rightarrow> (case content of None \<Rightarrow> Inl ReaderFailed | Some rows \<Rightarrow> Inr (parse_bank_excel native rows)))"

section \<open>Headers of a fund file\<close>

definition fund_headers :: "string list" where
  "fund_headers = [''fundTransactionId'', ''transactionDate'', ''clientName'', ''fundCode'', ''amount'', ''units'',
     ''transactionType'', ''bidPrice'', ''offerPrice'', ''midPrice'', ''dateCreated'', ''goalTitle'', ''goalNumber'',
     ''accountNumber'', ''accountType'', ''accountCategory'', ''transactionId'', ''source'']"

definition missing_fund_headers :: "string list \<Rightarrow> string list" where
  "missing_fund_headers actual = filter (\<lambda>h. h \<notin> set actual) fund_headers"

definition extra_fund_headers :: "string list \<Rightarrow> string list" where
  "extra_fund_headers actual = filter (\<lambda>h. h \<notin> set fund_headers) actual"

end
