(* ===== verification/BankStore.thy ===== *)
theory BankStore
  imports FundParse Domain
begin

text \<open>
  \<open>BankUploadBatchManager\<close> and the storing half of \<open>BankTransactionRepository\<close>: the batch records of bank uploads,
  saving the rows of a file inside one database transaction, deleting and listing them, the list of transactions with
  its filters and aggregates, and the updates of the reconciliation status by hand. Identifiers (uuids) are fresh
  numbers; a date column keeps the day of an instant; the rounding of decimal columns is left out.
\<close>

section \<open>Tables\<close>

datatype bank_error =
    BE_Parse parse_failure | BE_NoTransactions | BE_Rejected nat nat | BE_RecordMissing
  | BE_AccountNotFound string nat | BE_GoalNotFound string nat | BE_InvalidData nat | BE_Refused

datatype bank_saved_errors = BS_None | BS_Errors "validation_error list" | BS_Failure bank_error

record bank_totals =
  bs_totalAmount :: money
  bs_depositCount :: nat
  bs_withdrawalCount :: nat
  bs_totalDeposits :: money
  bs_totalWithdrawals :: money

record bank_batch =
  kb_id :: row_id
  kb_batchNumber :: string
  kb_fileName :: string
  kb_filePath :: string
  kb_processingStatus :: processing_status
  kb_validationStatus :: validation_status
  kb_totalRecords :: nat
  kb_processedRecords :: nat
  kb_failedRecords :: nat
  kb_totalAmount :: money
  kb_validationErrors :: bank_saved_errors
  kb_validationWarnings :: "validation_error list"
  kb_withWarnings :: nat
  kb_summary :: "bank_totals option"
  kb_uploadedBy :: string
  kb_uploadedAt :: instant
  kb_startedAt :: "instant option"
  kb_completedAt :: "instant option"

text \<open>A row of \<open>bank_goal_transactions\<close> with the columns that only the lists show.\<close>

record stored_bank = bank_txn +
  sb_firstName :: string
  sb_lastName :: string
  sb_goalTitle :: string
  sb_xummfPercentage :: rat
  sb_xubfPercentage :: rat
  sb_xudefPercentage :: rat
  sb_xurefPercentage :: rat

record bank_store =
  bu_batches :: "bank_batch list"
  bu_rows :: "stored_bank list"
  bu_fund :: "fund_txn list"
  bu_goals :: "goal_row list"
  bu_accounts :: "account_row list"
  bu_clients :: "client_row list"
  bu_next :: nat

text \<open>The tables as the reconciliation services read them.\<close>

definition as_database :: "bank_store \<Rightarrow> database" where
  "as_database db = \<lparr>db_bank = map bank_txn.truncate (bu_rows db), db_fund = bu_fund db, db_goals = bu_goals db,
     db_accounts = bu_accounts db, db_clients = bu_clients db\<rparr>"

section \<open>The batch record\<close>

definition bank_batch_number :: "civil \<Rightarrow> nat \<Rightarrow> string" where
  "bank_batch_number today random =
     ''BANK-'' @ nat_digits (c_year today) @ pad2 (c_month today) @ pad2 (c_day today) @ ''-''
     @ pad_start 5 (nat_digits random)"

definition find_batch :: "bank_store \<Rightarrow> row_id \<Rightarrow> bank_batch option" where
  "find_batch db bid = List.find (\<lambda>b. kb_id b = bid) (bu_batches db)"

definition create_bank_batch :: "string \<Rightarrow> string \<Rightarrow> string \<Rightarrow> string \<Rightarrow> instant \<Rightarrow> bank_store \<Rightarrow> (bank_store \<times> row_id) option" where
  "create_bank_batch number fileName filePath uploadedBy now db =
     (if number \<in> set (map kb_batchNumber (bu_batches db)) then None
      else let bid = nat_digits (bu_next db)
           in Some (db\<lparr>bu_batches := bu_batches db @
                 [\<lparr>kb_id = bid, kb_batchNumber = number, kb_fileName = fileName, kb_filePath = filePath,
                   kb_processingStatus = QUEUED, kb_validationStatus = VS_PENDING, kb_totalRecords = 0,
                   kb_processedRecords = 0, kb_failedRecords = 0, kb_totalAmount = 0, kb_validationErrors = BS_None,
                   kb_validationWarnings = [], kb_withWarnings = 0, kb_summary = None, kb_uploadedBy = uploadedBy,
                   kb_uploadedAt = now, kb_startedAt = None, kb_completedAt = None\<rparr>],
               bu_next := bu_next db + 1\<rparr>, bid))"

text \<open>\<open>update\<close> throws when there is no such record.\<close>

definition change_batch :: "row_id \<Rightarrow> (bank_batch \<Rightarrow> bank_batch) \<Rightarrow> bank_store \<Rightarrow> bank_store option" where
  "change_batch bid f db =
     (if find_batch db bid = None then None
      else Some (db\<lparr>bu_batches := update_where (\<lambda>b. kb_id b = bid) f (bu_batches db)\<rparr>))"

definition bank_batch_status :: "instant \<Rightarrow> processing_status \<Rightarrow> validation_status option \<Rightarrow> bank_batch \<Rightarrow> bank_batch" where
  "bank_batch_status now p v b =
     (let b1 = b\<lparr>kb_processingStatus := p\<rparr>;
          b2 = (case v of None \<Rightarrow> b1 | Some v \<Rightarrow> b1\<lparr>kb_validationStatus := v\<rparr>)
      in if p = PARSING then b2\<lparr>kb_startedAt := Some now\<rparr>
         else if p = COMPLETED \<or> p = FAILED then b2\<lparr>kb_completedAt := Some now\<rparr> else b2)"

definition update_bank_status :: "instant \<Rightarrow> row_id \<Rightarrow> processing_status \<Rightarrow> validation_status option \<Rightarrow> bank_store \<Rightarrow> bank_store option" where
  "update_bank_status now bid p v = change_batch bid (bank_batch_status now p v)"

definition bank_parsing_results :: "row_id \<Rightarrow> nat \<Rightarrow> bank_store \<Rightarrow> bank_store option" where
  "bank_parsing_results bid n = change_batch bid (\<lambda>b. b\<lparr>kb_totalRecords := n, kb_processingStatus := VALIDATING\<rparr>)"

definition bank_validation_results :: "row_id \<Rightarrow> nat \<Rightarrow> nat \<Rightarrow> validation_error list \<Rightarrow> validation_error list \<Rightarrow>
    validation_status \<Rightarrow> nat \<Rightarrow> bank_store \<Rightarrow> bank_store option" where
  "bank_validation_results bid processed failed errors warnings v withWarnings =
     change_batch bid (\<lambda>b. b\<lparr>kb_processedRecords := processed, kb_failedRecords := failed,
       kb_validationErrors := BS_Errors errors, kb_validationWarnings := warnings, kb_validationStatus := v,
       kb_processingStatus := PROCESSING, kb_withWarnings := withWarnings\<rparr>)"

definition bank_final_results :: "instant \<Rightarrow> row_id \<Rightarrow> bank_totals \<Rightarrow> nat \<Rightarrow> bank_store \<Rightarrow> bank_store option" where
  "bank_final_results now bid s saved =
     change_batch bid (\<lambda>b. b\<lparr>kb_totalAmount := bs_totalAmount s, kb_processedRecords := saved, kb_summary := Some s,
       kb_processingStatus := COMPLETED, kb_validationStatus := VS_PASSED, kb_completedAt := Some now\<rparr>)"

definition bank_batch_error :: "instant \<Rightarrow> row_id \<Rightarrow> bank_error \<Rightarrow> bank_store \<Rightarrow> bank_store option" where
  "bank_batch_error now bid e =
     change_batch bid (\<lambda>b. b\<lparr>kb_processingStatus := FAILED, kb_validationStatus := VS_FAILED,
       kb_validationErrors := BS_Failure e, kb_completedAt := Some now\<rparr>)"

definition cancel_bank_batch :: "instant \<Rightarrow> row_id \<Rightarrow> bank_store \<Rightarrow> bank_store option" where
  "cancel_bank_batch now bid = change_batch bid (\<lambda>b. b\<lparr>kb_processingStatus := CANCELED, kb_completedAt := Some now\<rparr>)"

text \<open>\<open>n || d\<close> for a number that may be missing.\<close>

definition nat_or :: "nat option \<Rightarrow> nat \<Rightarrow> nat" where
  "nat_or n d = (case n of None \<Rightarrow> d | Some k \<Rightarrow> if k = 0 then d else k)"

definition page_of :: "nat \<Rightarrow> nat \<Rightarrow> 'a list \<Rightarrow> 'a list" where
  "page_of page limit xs = take limit (drop ((page - 1) * limit) xs)"

definition page_count :: "nat \<Rightarrow> nat \<Rightarrow> nat" where
  "page_count limit n = (n + limit - 1) div limit"

definition list_bank_batches :: "nat option \<Rightarrow> nat option \<Rightarrow> bank_store \<Rightarrow> bank_batch list \<times> nat" where
  "list_bank_batches page limit db =
     (page_of (nat_or page 1) (nat_or limit 20) (sort_key (\<lambda>b. - kb_uploadedAt b) (bu_batches db)),
      page_count (nat_or limit 20) (length (bu_batches db)))"

section \<open>Saving transactions\<close>

definition type_of_name :: "string \<Rightarrow> transaction_type option" where
  "type_of_name s = map_of (map (\<lambda>t. (type_name t, t)) [DEPOSIT, WITHDRAWAL, REDEMPTION, SWITCH, DIVIDEND, TRANSFER]) s"

text \<open>A date column keeps the day only.\<close>

definition db_date :: "instant \<Rightarrow> instant" where
  "db_date t = iso_day t * ms_per_day"

definition new_bank_row :: "row_id \<Rightarrow> instant \<Rightarrow> account_row \<Rightarrow> goal_row \<Rightarrow> instant \<Rightarrow> transaction_type \<Rightarrow> money \<Rightarrow>
    (rat \<times> rat \<times> rat \<times> rat) \<Rightarrow> (money \<times> money \<times> money \<times> money) \<Rightarrow> parsed_bank \<Rightarrow> stored_bank" where
  "new_bank_row bid now account goal date ttype totalAmount pcts amts t =
     (case (pcts, amts) of ((p1, p2, p3, p4), (a1, a2, a3, a4)) \<Rightarrow>
       \<lparr>b_id = [], b_clientId = ac_clientId account, b_accountId = ac_id account, b_goalId = go_id goal,
        b_uploadBatchId = bid, b_transactionDate = db_date date, b_transactionType = ttype,
        b_transactionId = pb_transactionId t, b_goalNumber = pb_goalNumber t, b_totalAmount = totalAmount,
        b_xummfAmount = a1, b_xubfAmount = a2, b_xudefAmount = a3, b_xurefAmount = a4,
        b_reconciliationStatus = RS_PENDING, b_matchedGoalTransactionCode = None, b_matchedAt = None,
        b_matchScore = None, b_reviewTag = None, b_reviewNotes = None, b_reviewedAt = None, b_reviewedBy = None,
        b_varianceResolved = False, b_resolvedAt = None, b_resolvedReason = None, b_resolvedByBatchId = None,
        b_createdAt = now, b_updatedAt = now, b_rowNumber = pb_rowNumber t,
        sb_firstName = pb_firstName t, sb_lastName = pb_lastName t, sb_goalTitle = pb_goalTitle t,
        sb_xummfPercentage = p1 / 100, sb_xubfPercentage = p2 / 100, sb_xudefPercentage = p3 / 100,
        sb_xurefPercentage = p4 / 100\<rparr>)"

text \<open>The data of a row; a missing number, date or an unknown type is refused by the database client.\<close>

definition prepare_bank_row :: "bank_store \<Rightarrow> row_id \<Rightarrow> instant \<Rightarrow> parsed_bank \<Rightarrow> bank_error + stored_bank" where
  "prepare_bank_row db bid now t =
     (case List.find (\<lambda>a. ac_number a = pb_accountNumber t) (bu_accounts db) of
        None \<Rightarrow> Inl (BE_AccountNotFound (pb_accountNumber t) (pb_rowNumber t))
      | Some account \<Rightarrow>
          (case List.find (\<lambda>g. go_number g = pb_goalNumber t) (bu_goals db) of
             None \<Rightarrow> Inl (BE_GoalNotFound (pb_goalNumber t) (pb_rowNumber t))
           | Some goal \<Rightarrow>
               (case (pb_transactionDate t, type_of_name (pb_transactionType t), pb_totalAmount t) of
                  (Some date, Some ttype, Some totalAmount) \<Rightarrow>
                    (case (pb_xummfPercentage t, pb_xubfPercentage t, pb_xudefPercentage t, pb_xurefPercentage t) of
                       (Some p1, Some p2, Some p3, Some p4) \<Rightarrow>
                         (case (pb_xummfAmount t, pb_xubfAmount t, pb_xudefAmount t, pb_xurefAmount t) of
                            (Some a1, Some a2, Some a3, Some a4) \<Rightarrow>
                              Inr (new_bank_row bid now account goal date ttype totalAmount (p1, p2, p3, p4) (a1, a2, a3, a4) t)
                          | _ \<Rightarrow> Inl (BE_InvalidData (pb_rowNumber t)))
                     | _ \<Rightarrow> Inl (BE_InvalidData (pb_rowNumber t)))
                | _ \<Rightarrow> Inl (BE_InvalidData (pb_rowNumber t)))))"

fun try_map :: "('a \<Rightarrow> 'e + 'b) \<Rightarrow> 'a list \<Rightarrow> 'e + 'b list" where
  "try_map f [] = Inr []"
| "try_map f (x # xs) =
     (case f x of Inl e \<Rightarrow> Inl e
      | Inr y \<Rightarrow> (case try_map f xs of Inl e \<Rightarrow> Inl e | Inr ys \<Rightarrow> Inr (y # ys)))"

text \<open>\<open>createMany\<close> refuses all its rows if a number of one of them is out of the range of its column: amounts have sixteen
  digits before the point, percentages (stored as fractions) a single one.\<close>

definition bank_row_fits :: "stored_bank \<Rightarrow> bool" where
  "bank_row_fits r =
     (fits_decimal 18 2 (b_totalAmount r) \<and>
      fits_decimal 5 4 (sb_xummfPercentage r) \<and> fits_decimal 5 4 (sb_xubfPercentage r) \<and>
      fits_decimal 5 4 (sb_xudefPercentage r) \<and> fits_decimal 5 4 (sb_xurefPercentage r) \<and>
      fits_decimal 18 2 (b_xummfAmount r) \<and> fits_decimal 18 2 (b_xubfAmount r) \<and>
      fits_decimal 18 2 (b_xudefAmount r) \<and> fits_decimal 18 2 (b_xurefAmount r))"

text \<open>\<open>createMany\<close> with \<open>skipDuplicates\<close>: batch and row number are unique.\<close>

definition insert_bank_row :: "bank_store \<Rightarrow> stored_bank \<Rightarrow> bank_store" where
  "insert_bank_row db r =
     (if list_ex (\<lambda>x. b_uploadBatchId x = b_uploadBatchId r \<and> b_rowNumber x = b_rowNumber r) (bu_rows db) then db
      else db\<lparr>bu_rows := bu_rows db @ [r\<lparr>b_id := nat_digits (bu_next db)\<rparr>], bu_next := bu_next db + 1\<rparr>)"

definition bank_chunk :: nat where
  "bank_chunk = 500"

function save_bank_loop ::
    "row_id \<Rightarrow> instant \<Rightarrow> parsed_bank list \<Rightarrow> nat \<Rightarrow> bank_store \<Rightarrow> nat \<Rightarrow> bank_error + bank_store \<times> nat" where
  "save_bank_loop bid now ts i db saved =
     (if i < length ts
      then case try_map (prepare_bank_row db bid now) (take bank_chunk (drop i ts)) of
             Inl e \<Rightarrow> Inl e
           | Inr rows \<Rightarrow>
               if \<not> list_all bank_row_fits rows then Inl BE_Refused
               else if rows \<noteq> [] \<and> find_batch db bid = None then Inl BE_RecordMissing
               else save_bank_loop bid now ts (i + bank_chunk) (foldl insert_bank_row db rows) (saved + length rows)
      else Inr (db, saved))"
  by pat_completeness auto

termination save_bank_loop
  by (relation "measure (\<lambda>(bid, now, ts, i, db, saved). length ts - i)") (auto simp: bank_chunk_def)

declare save_bank_loop.simps [simp del]

text \<open>One database transaction: an exception leaves the store as it was.\<close>

definition save_bank_transactions :: "row_id \<Rightarrow> instant \<Rightarrow> parsed_bank list \<Rightarrow> bank_store \<Rightarrow> bank_error + bank_store \<times> nat" where
  "save_bank_transactions bid now ts db = save_bank_loop bid now ts 0 db 0"

definition bank_rows_of_batch :: "bank_store \<Rightarrow> row_id \<Rightarrow> stored_bank list" where
  "bank_rows_of_batch db bid = sort_key b_rowNumber (filter (\<lambda>r. b_uploadBatchId r = bid) (bu_rows db))"

definition delete_bank_rows :: "row_id \<Rightarrow> bank_store \<Rightarrow> bank_store \<times> nat" where
  "delete_bank_rows bid db =
     (db\<lparr>bu_rows := filter (\<lambda>r. b_uploadBatchId r \<noteq> bid) (bu_rows db)\<rparr>,
      count_where (\<lambda>r. b_uploadBatchId r = bid) (bu_rows db))"

section \<open>The financial summary\<close>

definition bank_summary_step :: "bank_totals \<Rightarrow> parsed_bank \<Rightarrow> bank_totals" where
  "bank_summary_step s t =
     (let amount = num_or_zero (pb_totalAmount t); s1 = s\<lparr>bs_totalAmount := bs_totalAmount s + amount\<rparr>
      in if pb_transactionType t = ''DEPOSIT''
         then s1\<lparr>bs_depositCount := bs_depositCount s + 1, bs_totalDeposits := bs_totalDeposits s + amount\<rparr>
         else if pb_transactionType t = ''WITHDRAWAL'' \<or> pb_transactionType t = ''REDEMPTION''
         then s1\<lparr>bs_withdrawalCount := bs_withdrawalCount s + 1, bs_totalWithdrawals := bs_totalWithdrawals s + \<bar>amount\<bar>\<rparr>
         else s1)"

definition bank_financial_summary :: "parsed_bank list \<Rightarrow> bank_totals" where
  "bank_financial_summary ts =
     foldl bank_summary_step
       \<lparr>bs_totalAmount = 0, bs_depositCount = 0, bs_withdrawalCount = 0, bs_totalDeposits = 0, bs_totalWithdrawals = 0\<rparr> ts"

section \<open>Listing transactions\<close>

record bank_query =
  bq_page :: "nat option"
  bq_limit :: "nat option"
  bq_start :: "instant option"
  bq_end :: "instant option"
  bq_search :: string
  bq_type :: "transaction_type option"
  bq_status :: "reconciliation_status option"

text \<open>\<open>contains\<close> with \<open>mode: 'insensitive'\<close>.\<close>

definition contains_ci :: "string \<Rightarrow> string \<Rightarrow> bool" where
  "contains_ci s t = includes_str (to_lower s) (to_lower t)"

text \<open>\<open>s.split(/\s+/).filter(w => w.length > 0)\<close>.\<close>

definition search_words :: "string \<Rightarrow> string list" where
  "search_words s = filter (\<lambda>w. w \<noteq> []) (split_on CHR '' '' (map (\<lambda>c. if js_space c then CHR '' '' else c) s))"

definition account_number_of :: "bank_store \<Rightarrow> stored_bank \<Rightarrow> string" where
  "account_number_of db r = (case List.find (\<lambda>a. ac_id a = b_accountId r) (bu_accounts db) of None \<Rightarrow> [] | Some a \<Rightarrow> ac_number a)"

definition bank_search :: "bank_store \<Rightarrow> string \<Rightarrow> stored_bank \<Rightarrow> bool" where
  "bank_search db search r =
     (if search = [] then True
      else let term = trim search; words = search_words term
           in (if length words > 1
               then list_all (\<lambda>w. contains_ci (sb_firstName r) w \<or> contains_ci (sb_lastName r) w) words
               else contains_ci (sb_firstName r) term \<or> contains_ci (sb_lastName r) term)
              \<or> contains_ci (b_goalNumber r) term \<or> contains_ci (sb_goalTitle r) term
              \<or> contains_ci (b_transactionId r) term \<or> contains_ci (account_number_of db r) term)"

definition bank_where :: "bank_store \<Rightarrow> bank_query \<Rightarrow> stored_bank \<Rightarrow> bool" where
  "bank_where db q r =
     ((case bq_start q of None \<Rightarrow> True | Some d \<Rightarrow> d \<le> b_transactionDate r) \<and>
      (case bq_end q of None \<Rightarrow> True | Some d \<Rightarrow> b_transactionDate r \<le> d) \<and>
      (case bq_type q of None \<Rightarrow> True | Some t \<Rightarrow> b_transactionType r = t) \<and>
      (case bq_status q of None \<Rightarrow> True | Some s \<Rightarrow> b_reconciliationStatus r = s) \<and>
      bank_search db (bq_search q) r)"

record bank_aggregates =
  ba_count :: nat
  ba_amount :: money
  ba_xummf :: money
  ba_xubf :: money
  ba_xudef :: money
  ba_xuref :: money
  ba_depositCount :: nat
  ba_depositAmount :: money
  ba_withdrawalCount :: nat
  ba_withdrawalAmount :: money

record bank_page =
  bg_data :: "stored_bank list"
  bg_aggregates :: bank_aggregates
  bg_total :: nat
  bg_pages :: nat

text \<open>The conditions on the type in the aggregates replace the filter's own.\<close>

definition list_bank_transactions :: "bank_query \<Rightarrow> bank_store \<Rightarrow> bank_page" where
  "list_bank_transactions q db =
     (let rows = filter (bank_where db q) (bu_rows db);
          anyType = filter (bank_where db (q\<lparr>bq_type := None\<rparr>)) (bu_rows db);
          deposits = filter (\<lambda>r. b_transactionType r = DEPOSIT) anyType;
          withdrawals = filter (\<lambda>r. b_transactionType r = WITHDRAWAL \<or> b_transactionType r = REDEMPTION) anyType;
          page = nat_or (bq_page q) 1; limit = nat_or (bq_limit q) 50
      in \<lparr>bg_data = page_of page limit (sort_key (\<lambda>r. - b_transactionDate r) (sort_key b_rowNumber rows)),
          bg_aggregates = \<lparr>ba_count = length rows, ba_amount = sum_list (map b_totalAmount rows),
            ba_xummf = sum_list (map b_xummfAmount rows), ba_xubf = sum_list (map b_xubfAmount rows),
            ba_xudef = sum_list (map b_xudefAmount rows), ba_xuref = sum_list (map b_xurefAmount rows),
            ba_depositCount = length deposits, ba_depositAmount = sum_list (map b_totalAmount deposits),
            ba_withdrawalCount = length withdrawals,
            ba_withdrawalAmount = \<bar>sum_list (map b_totalAmount withdrawals)\<bar>\<rparr>,
          bg_total = length rows, bg_pages = page_count limit (length rows)\<rparr>)"

section \<open>The status of a transaction\<close>

definition find_bank_row :: "bank_store \<Rightarrow> row_id \<Rightarrow> stored_bank option" where
  "find_bank_row db i = List.find (\<lambda>r. b_id r = i) (bu_rows db)"

definition set_row_status :: "instant \<Rightarrow> reconciliation_status \<Rightarrow> row_id \<Rightarrow> bank_store \<Rightarrow> bank_store option" where
  "set_row_status now st i db =
     (if find_bank_row db i = None then None
      else Some (db\<lparr>bu_rows := update_where (\<lambda>r. b_id r = i)
             (\<lambda>r. r\<lparr>b_reconciliationStatus := st, b_updatedAt := now\<rparr>) (bu_rows db)\<rparr>))"

definition update_transaction_status :: "instant \<Rightarrow> row_id \<Rightarrow> reconciliation_status \<Rightarrow> bank_store \<Rightarrow> bank_store option" where
  "update_transaction_status now i st db =
     (case find_bank_row db i of None \<Rightarrow> None | Some _ \<Rightarrow> set_row_status now st i db)"

record bulk_result =
  bk_updated :: nat
  bk_failed :: nat
  bk_errors :: "row_id list"

definition bulk_status_step :: "instant \<Rightarrow> reconciliation_status \<Rightarrow> bank_store \<times> bulk_result \<Rightarrow> row_id \<Rightarrow> bank_store \<times> bulk_result" where
  "bulk_status_step now st acc i =
     (case acc of (db, r) \<Rightarrow>
        (case set_row_status now st i db of
           Some db' \<Rightarrow> (db', r\<lparr>bk_updated := bk_updated r + 1\<rparr>)
         | None \<Rightarrow> (db, r\<lparr>bk_failed := bk_failed r + 1, bk_errors := bk_errors r @ [i]\<rparr>)))"

definition bulk_update_status :: "instant \<Rightarrow> row_id list \<Rightarrow> reconciliation_status \<Rightarrow> bank_store \<Rightarrow> bank_store \<times> bulk_result" where
  "bulk_update_status now ids st db =
     foldl (bulk_status_step now st) (db, \<lparr>bk_updated = 0, bk_failed = 0, bk_errors = []\<rparr>) ids"

end
