(* ===== verification/BankUpload.thy ===== *)
theory BankUpload
  imports BankStore
begin

text \<open>
  \<open>BankFileProcessor\<close> and the requests of \<open>bankUploadRoutes.ts\<close> that change a batch: a file is parsed,
  validated as a whole and saved, or the batch fails with the error. What the CSV and spreadsheet libraries read from a
  file is a parameter. The rows of the file are those of the concrete parsers, so the properties reach from the
  cells of the file to the rows of the database.
\<close>

record bank_pipeline =
  bp_native :: "string \<Rightarrow> instant option"
  bp_rows :: "string \<Rightarrow> file_row list option"
  bp_headers :: "string \<Rightarrow> string list option"
  bp_count :: "string \<Rightarrow> nat option"
  bp_clock :: bank_clock

section \<open>Processing a file\<close>

text \<open>Awaiting an update: an exception ends the body with the store as it is.\<close>

definition and_then :: "bank_store option \<Rightarrow> bank_store \<Rightarrow> (bank_store \<Rightarrow> bank_error option \<times> bank_store) \<Rightarrow>
    bank_error option \<times> bank_store" where
  "and_then r db k = (case r of None \<Rightarrow> (Some BE_RecordMissing, db) | Some db' \<Rightarrow> k db')"

definition bank_result_status :: "validation_error list \<Rightarrow> validation_error list \<Rightarrow> validation_status" where
  "bank_result_status crit warnings =
     (if crit \<noteq> [] then VS_FAILED else if warnings \<noteq> [] then VS_WARNING else VS_PASSED)"

text \<open>Writing the final results fails if the total of the file is out of the range of its column; the rows are stored by then.\<close>

definition finalize_bank :: "instant \<Rightarrow> row_id \<Rightarrow> parsed_bank list \<Rightarrow> bank_store \<Rightarrow> bank_error option \<times> bank_store" where
  "finalize_bank now bid ts db =
     (case save_bank_transactions bid now ts db of
        Inl e \<Rightarrow> (Some e, db)
      | Inr (db', saved) \<Rightarrow>
          let s = bank_financial_summary ts
          in if find_batch db' bid \<noteq> None \<and> \<not> fits_decimal 18 2 (bs_totalAmount s) then (Some BE_Refused, db')
             else and_then (bank_final_results now bid s saved db') db' (\<lambda>db''. (None, db'')))"

definition validate_in_db :: "bank_pipeline \<Rightarrow> bank_store \<Rightarrow> parsed_bank list \<Rightarrow> bank_batch_result" where
  "validate_in_db pl db ts =
     validate_bank_batch (bp_clock pl) (map ac_number (bu_accounts db)) (map go_number (bu_goals db)) ts"

definition process_bank_body ::
    "bank_pipeline \<Rightarrow> instant \<Rightarrow> row_id \<Rightarrow> string \<Rightarrow> bank_store \<Rightarrow> bank_error option \<times> bank_store" where
  "process_bank_body pl now bid path db =
     and_then (update_bank_status now bid PARSING None db) db (\<lambda>db1.
       case parse_bank_upload (bp_native pl) path (bp_rows pl path) of
         Inl f \<Rightarrow> (Some (BE_Parse f), db1)
       | Inr ts \<Rightarrow>
           if ts = [] then (Some BE_NoTransactions, db1)
           else and_then (bank_parsing_results bid (length ts) db1) db1 (\<lambda>db2.
             and_then (update_bank_status now bid VALIDATING None db2) db2 (\<lambda>db3.
               let vr = validate_in_db pl db3 ts;
                   crit = filter is_critical (bb_errors vr); warnings = filter is_warning (bb_errors vr)
               in and_then (bank_validation_results bid (length (bb_valid vr)) (length (bb_invalid vr)) crit warnings
                     (bank_result_status crit warnings) (length (bb_warnings vr)) db3) db3 (\<lambda>db4.
                  if bb_invalid vr \<noteq> []
                  then and_then (update_bank_status now bid FAILED None db4) db4 (\<lambda>db5.
                    (Some (BE_Rejected (length (bb_invalid vr)) (length ts)), db5))
                  else finalize_bank now bid (bb_valid vr) db4))))"

text \<open>The handler records the error in the batch and throws it again.\<close>

definition process_bank_file ::
    "bank_pipeline \<Rightarrow> instant \<Rightarrow> row_id \<Rightarrow> string \<Rightarrow> bank_store \<Rightarrow> bank_error option \<times> bank_store" where
  "process_bank_file pl now bid path db =
     (case process_bank_body pl now bid path db of
        (None, db') \<Rightarrow> (None, db')
      | (Some e, db') \<Rightarrow>
          (case bank_batch_error now bid e db' of None \<Rightarrow> (Some BE_RecordMissing, db') | Some db'' \<Rightarrow> (Some e, db'')))"

section \<open>Requests\<close>

datatype file_error = FE_UnsupportedType | FE_Structure structure_error

text \<open>The spreadsheet variant reports an unreadable file as one without headers and rows.\<close>

definition excel_bank_structure :: "string list option \<Rightarrow> nat option \<Rightarrow> structure_result" where
  "excel_bank_structure header rowCount =
     (let missing = (case header of None \<Rightarrow> bank_headers | Some hs \<Rightarrow> missing_bank_headers hs);
          n = (case rowCount of None \<Rightarrow> 0 | Some n \<Rightarrow> n)
      in \<lparr>sr_errors = (if missing = [] then [] else [MissingColumns missing]) @ (if n = 0 then [NoDataRows] else []),
          sr_rowCount = Some n\<rparr>)"

definition validate_bank_file :: "bank_pipeline \<Rightarrow> string \<Rightarrow> file_error list" where
  "validate_bank_file pl path =
     (case file_kind_of path of
        UnsupportedFile \<Rightarrow> [FE_UnsupportedType]
      | CsvFile \<Rightarrow> map FE_Structure (sr_errors (validate_bank_structure (bp_headers pl path) (bp_count pl path)))
      | ExcelFile \<Rightarrow> map FE_Structure (sr_errors (excel_bank_structure (bp_headers pl path) (bp_count pl path))))"

record bank_job =
  bj_batch :: row_id
  bj_path :: string
  bj_active :: bool

definition bank_upload_route :: "bank_pipeline \<Rightarrow> string \<Rightarrow> string \<Rightarrow> string \<Rightarrow> string \<Rightarrow> instant \<Rightarrow>
    bank_store \<times> bank_job list \<Rightarrow> (bank_store \<times> bank_job list) option" where
  "bank_upload_route pl number fileName path uploadedBy now s =
     (if validate_bank_file pl path \<noteq> [] then None
      else case create_bank_batch number fileName path uploadedBy now (fst s) of
        None \<Rightarrow> None
      | Some (db, bid) \<Rightarrow> Some (db, snd s @ [\<lparr>bj_batch = bid, bj_path = path, bj_active = False\<rparr>]))"

text \<open>\<open>getJob(id)\<close> and \<open>remove()\<close>: a job held by a worker cannot be removed.\<close>

definition take_job :: "row_id \<Rightarrow> bank_job list \<Rightarrow> bank_job list option" where
  "take_job bid jobs =
     (if list_ex (\<lambda>j. bj_batch j = bid \<and> bj_active j) jobs then None
      else Some (filter (\<lambda>j. bj_batch j \<noteq> bid) jobs))"

text \<open>The state a request leaves behind, and whether it succeeded.\<close>

definition cancel_bank_route :: "instant \<Rightarrow> row_id \<Rightarrow> bank_store \<times> bank_job list \<Rightarrow> bool \<times> bank_store \<times> bank_job list" where
  "cancel_bank_route now bid s =
     (case cancel_bank_batch now bid (fst s) of
        None \<Rightarrow> (False, s)
      | Some db \<Rightarrow>
          (case take_job bid (snd s) of
             None \<Rightarrow> (False, db, snd s)
           | Some jobs \<Rightarrow> (True, fst (delete_bank_rows bid db), jobs)))"

definition rollback_bank_route :: "row_id \<Rightarrow> bank_store \<times> bank_job list \<Rightarrow> bool \<times> bank_store \<times> bank_job list" where
  "rollback_bank_route bid s =
     (if find_batch (fst s) bid = None then (False, s)
      else case take_job bid (snd s) of
        None \<Rightarrow> (False, s)
      | Some jobs \<Rightarrow>
          (let db = fst (delete_bank_rows bid (fst s))
           in (True, db\<lparr>bu_batches := filter (\<lambda>b. kb_id b \<noteq> bid) (bu_batches db)\<rparr>, jobs)))"

end
