(* ===== verification/ParseProperties.thy ===== *)
theory ParseProperties
  imports FundParse
begin

text \<open>
  What the parsers of uploaded files guarantee: which dates and amounts are read and how, that a parsed row is
  complete, which rows are lost, and that the CSV and the Excel variants agree.
\<close>

section \<open>Dates of fund files\<close>

lemma match_slash:
  "match_parts rs rest = Some groups \<Longrightarrow> match_parts (slash_part # rs) (CHR ''/'' # rest) = Some groups"
  using match_parts_greedy [of "one_of ''/''" "[CHR ''/'']" 1 "Some 1" rest rs groups False]
  by (simp add: slash_part_def one_of_def del: match_parts.simps(2))

text \<open>Two two-digit numbers and a year, separated by slashes.\<close>

definition slash_text :: "nat \<Rightarrow> nat \<Rightarrow> nat \<Rightarrow> string" where
  "slash_text a b y = pad2 a @ ''/'' @ pad2 b @ ''/'' @ nat_digits y"

lemma slash_text_fields:
  assumes "a < 100" "b < 100" "1000 \<le> y" "y \<le> 9999"
  shows "match_parts full_date_pattern (slash_text a b y) = Some [pad2 a, pad2 b, nat_digits y]"
    and "trim (slash_text a b y) = slash_text a b y" and "\<not> includes_str (slash_text a b y) ''-''" and "slash_text a b y \<noteq> []"
proof -
  obtain y1 y2 y3 y4 where y: "nat_digits y = [y1, y2, y3, y4]" "list_all is_digit [y1, y2, y3, y4]"
    using assms(3,4) by (auto elim: four_digits)
  obtain a1 a2 where a: "pad2 a = [a1, a2]" "list_all is_digit [a1, a2]" using assms(1) by (auto elim: two_digits)
  obtain b1 b2 where b: "pad2 b = [b1, b2]" "list_all is_digit [b1, b2]" using assms(2) by (auto elim: two_digits)
  have chars: "slash_text a b y = [a1, a2] @ CHR ''/'' # [b1, b2] @ CHR ''/'' # [y1, y2, y3, y4]"
    by (simp add: slash_text_def a b y)
  show "match_parts full_date_pattern (slash_text a b y) = Some [pad2 a, pad2 b, nat_digits y]"
    unfolding chars a(1) b(1) y(1) full_date_pattern_def
    by (intro match_digits match_slash match_last_digits) (use y a b not_digit_sep in simp_all)
  show "trim (slash_text a b y) = slash_text a b y"
    by (rule trim_framed) (use a y in \<open>simp_all add: chars is_digit_facts\<close>)
  have "CHR ''-'' \<notin> set (slash_text a b y)" using a y b is_digit_facts(1) by (auto simp: chars)
  then show "\<not> includes_str (slash_text a b y) ''-''" by (auto simp: includes_str_def sublist_def)
  show "slash_text a b y \<noteq> []" by (simp add: chars)
qed

lemma slash_text_read:
  assumes "a < 100" "b < 100" "1000 \<le> y" "y \<le> 9999"
  shows "parse_fund_date native (Some (slash_text a b y)) = Some (date_utc (int y) (int b - 1) (int a))"
  using slash_text_fields [OF assms]
  by (auto simp: parse_fund_date_def native_iso_def day_month_year_def int_of_def split: option.splits)

lemma slash_date_text: "slash_date c = slash_text (c_day c) (c_month c) (c_year c)"
  by (simp add: slash_date_def slash_text_def)

section \<open>Dates of bank files\<close>

lemma start_of_day_day: "iso_day (start_of_day c) = day_of_civil c"
  by (simp add: start_of_day_def iso_day_def)

definition days_of :: "civil \<Rightarrow> nat" where
  "days_of c = days_in_month (leap_year (int (c_year c))) (c_month c - 1)"

definition carried_over :: "civil \<Rightarrow> civil" where
  "carried_over c = c\<lparr>c_month := c_month c + 1, c_day := c_day c - days_of c\<rparr>"

lemma december_has_31: "days_in_month leap 11 = 31"
  by (simp add: days_in_month_def)

lemma excess_day_carries:
  assumes "date_in_range c" "\<not> valid_civil c"
  shows "date_in_range (carried_over c)" "start_of_day c = start_of_day (carried_over c)"
proof -
  let ?y = "int (c_year c)" and ?m = "int (c_month c) - 1"
  have r: "1000 \<le> c_year c" "c_year c \<le> 9999" "1 \<le> c_month c" "c_month c \<le> 12" "1 \<le> c_day c" "c_day c \<le> 31"
    using assms(1) by (simp_all add: date_in_range_def)
  have excess: "days_of c < c_day c" using assms r by (simp add: valid_civil_def days_of_def)
  have "c_month c \<noteq> 12" using excess r(6) december_has_31 by (auto simp: days_of_def)
  then have m: "0 \<le> ?m" "?m < 11" "nat ?m = c_month c - 1" using r by auto
  show "date_in_range (carried_over c)"
    using r excess \<open>c_month c \<noteq> 12\<close> by (auto simp: date_in_range_def carried_over_def)
  have "make_day ?y ?m (int (days_of c) + (int (c_day c) - int (days_of c))) = make_day ?y (?m + 1) (int (c_day c) - int (days_of c))"
    using day_carries_over [OF m(1,2), of ?y "int (c_day c) - int (days_of c)"] unfolding days_of_def m(3) .
  then show "start_of_day c = start_of_day (carried_over c)"
    using excess by (simp add: start_of_day_def day_of_civil_def carried_over_def of_nat_diff)
qed

text \<open>C26: the dates of a bank file. A date written year first, day first or with the name of its month is read as
  midnight of that day, whatever the engine makes of the text, and the calendar fields of the result are those written. A
  day beyond the end of its month is not rejected: it is read as a day of the following month.\<close>

theorem bank_dates_read:
  assumes "date_in_range c"
  shows "parse_bank_date native (Some (format_date c)) = Some (start_of_day c) \<and>
    parse_bank_date native (Some (slash_date c)) = Some (start_of_day c) \<and>
    list_all (\<lambda>(name, m). m = int (c_month c) - 1 \<longrightarrow> parse_bank_date native (Some (named_date name c)) = Some (start_of_day c))
      bank_months \<and>
    (if valid_civil c then civil_of_day (iso_day (start_of_day c)) = c
     else parse_bank_date native (Some (format_date c)) = parse_bank_date native (Some (format_date (carried_over c))))"
proof -
  have "parse_bank_date native (Some (named_date name c)) = Some (start_of_day c)"
    if "(name, m) \<in> set bank_months" "m = int (c_month c) - 1" for name m
    using named_date_read [OF assms] that by simp
  then show ?thesis
    using assms excess_day_carries [OF assms] iso_date_read [of "carried_over c" native]
    by (auto simp: iso_date_read slash_date_read list_all_iff start_of_day_day civil_of_day_of_civil)
qed

definition ex_date :: civil where
  "ex_date = \<lparr>c_year = 2025, c_month = 2, c_day = 30\<rparr>"

theorem bank_dates_read_witness:
  "parse_bank_date (\<lambda>_. None) (Some (format_date ex_date)) = parse_bank_date (\<lambda>_. None) (Some (format_date (carried_over ex_date)))
   \<and> \<not> valid_civil ex_date"
proof -
  have range: "date_in_range ex_date" by (simp add: ex_date_def date_in_range_def)
  have "\<not> valid_civil ex_date" by (simp add: ex_date_def valid_civil_def days_in_month_def leap_year_def)
  with bank_dates_read [OF range, of "\<lambda>_. None"] show ?thesis by metis
qed

text \<open>Dates with slashes in a fund file are read day first, whatever they are. A date written month first, which
  the parser documents as accepted, is therefore never read as such: if its day exceeds 12 the result is a day of the
  following year or later, not the date that was written and not an error.\<close>

theorem us_dates_misread:
  assumes "1000 \<le> y" "y \<le> 9999" "1 \<le> m" "m \<le> 12" "12 < d" "d \<le> 31"
  shows "parse_fund_date native (Some (slash_text m d y)) = Some (date_utc (int y) (int d - 1) (int m)) \<and>
    year_of_day (iso_day (date_utc (int y) (int d - 1) (int m))) > int y"
proof -
  let ?Y = "int y + (int d - 1) div 12" and ?M = "(int d - 1) mod 12"
  have "parse_fund_date native (Some (slash_text m d y)) = Some (date_utc (int y) (int d - 1) (int m))"
    using assms by (intro slash_text_read) simp_all
  moreover have "int y < ?Y" using assms(5) by linarith
  have "nat ?M < 12" by simp
  have offset: "month_starts (leap_year ?Y) ! nat ?M \<le> 335" "0 \<le> month_starts (leap_year ?Y) ! nat ?M"
    using month_cases [OF \<open>nat ?M < 12\<close>] by (elim insertE emptyE; simp add: month_starts_def)+
  have day: "iso_day (date_utc (int y) (int d - 1) (int m)) + 719162 =
      days_before_year ?Y + month_starts (leap_year ?Y) ! nat ?M + (int m - 1)"
    using assms(1) by (simp add: date_utc_def utc_date_day make_day_def Let_def)
  have "year_of_day (iso_day (date_utc (int y) (int d - 1) (int m))) = ?Y"
  proof (rule year_of_day_unique)
    show "days_before_year ?Y \<le> iso_day (date_utc (int y) (int d - 1) (int m)) + 719162"
      unfolding day using offset assms(3) by linarith
    show "iso_day (date_utc (int y) (int d - 1) (int m)) + 719162 < days_before_year (?Y + 1)"
      unfolding day using offset assms(4) year_length [of ?Y] by (simp split: if_splits)
  qed
  ultimately show ?thesis using \<open>int y < ?Y\<close> by simp
qed

theorem us_dates_misread_witness:
  "parse_fund_date (\<lambda>_. None) (Some ''12/25/2024'') = Some (start_of_day \<lparr>c_year = 2026, c_month = 1, c_day = 12\<rparr>)"
proof -
  have "slash_text 12 25 2024 = ''12/25/2024''" by (simp add: slash_text_def pad2_def nat_digits.simps)
  moreover have "date_utc 2024 24 12 = start_of_day \<lparr>c_year = 2026, c_month = 1, c_day = 12\<rparr>"
    by (simp add: date_utc_def utc_date_def make_day_def start_of_day_def day_of_civil_def days_before_year_def month_starts_def leap_year_def)
  ultimately show ?thesis using us_dates_misread [of 2024 12 25 "\<lambda>_. None"] by simp
qed

section \<open>Amounts\<close>

definition fund_core :: "string \<Rightarrow> string" where
  "fund_core s = filter (\<lambda>c. \<not> fund_symbol c) s"

lemma fund_core_trim: "filter (\<lambda>c. \<not> fund_symbol c) (trim s) = fund_core s"
  unfolding fund_core_def by (rule trim_filter) (simp add: fund_symbol_def)

lemma fund_core_nonempty: "fund_core s \<noteq> [] \<Longrightarrow> trim s \<noteq> []"
  unfolding fund_core_def by (rule trim_nonempty [where P = "\<lambda>c. \<not> fund_symbol c"]) (auto simp: fund_symbol_def)

lemma trim_core: "trim (fund_core s) = fund_core s"
proof (cases "fund_core s = []")
  case True
  then show ?thesis by (simp add: trim_def)
next
  case False
  have "\<not> js_space c" if "c \<in> set (fund_core s)" for c using that by (simp add: fund_core_def fund_symbol_def)
  then show ?thesis using False by (intro trim_framed) auto
qed

lemma fund_amount_of_core:
  assumes "decimal_text num" "parse_unsigned num = Some v"
  shows "fund_core s = num \<Longrightarrow> parse_fund_amount (Some s) = Some v"
    and "fund_core s = CHR ''('' # num @ '')'' \<Longrightarrow> parse_fund_amount (Some s) = Some (- v)"
    and "fund_core s = CHR ''-'' # num \<Longrightarrow> parse_fund_amount (Some s) = Some (- v)"
  using decimal_text_plain [OF assms(1)] parse_float_unsigned [OF assms(1)] assms(2) fund_core_nonempty [of s] trim_core [of s]
  by (simp_all add: parse_fund_amount_def Let_def fund_core_trim parse_float_minus)
     (simp_all add: starts_with_def ends_with_def parse_float_minus)

lemma cores_agree:
  assumes "CHR 0xA3 \<notin> set s" "CHR 0xA5 \<notin> set s"
  shows "fund_core s = bank_core s"
  unfolding fund_core_def bank_core_def
  using assms by (intro filter_cong refl) (auto simp: fund_symbol_def bank_symbol_def one_of_def)

lemma empty_amounts: "parse_bank_amount (Some '' '') = Some 0" "parse_fund_amount (Some '' '') = None"
  by (simp_all add: parse_bank_amount_def parse_fund_amount_def trim_def js_space_def)

lemma minus_in_parentheses: "parse_bank_amount (Some ''(-5)'') = Some (- 5)" "parse_fund_amount (Some ''(-5)'') = None"
  by (simp_all add: parse_bank_amount_def parse_fund_amount_def trim_def js_space_def bank_symbol_def fund_symbol_def one_of_def
      starts_with_def ends_with_def parse_float_def parse_unsigned_def is_digit_def digits_value_def digit_value_def
      exponent_of_def power_of_ten_def)

text \<open>Amounts. The bank parser and the fund parser read the same number from a text that, without currency
  letters, dollar signs, commas and blanks, is a decimal number, possibly with a minus sign or in parentheses. They do not
  agree on an empty cell, which is zero for a bank file and missing for a fund file, and on a minus sign within
  parentheses.\<close>

theorem amounts_read_alike:
  assumes "decimal_text num" "parse_unsigned num = Some v" "CHR 0xA3 \<notin> set s" "CHR 0xA5 \<notin> set s"
    and "bank_core s = num \<or> bank_core s = CHR ''('' # num @ '')'' \<or> bank_core s = CHR ''-'' # num"
  shows "parse_bank_amount (Some s) = Some (if bank_core s = num then v else - v) \<and>
    parse_fund_amount (Some s) = parse_bank_amount (Some s) \<and>
    parse_bank_amount (Some '' '') = Some 0 \<and> parse_fund_amount (Some '' '') = None \<and>
    parse_bank_amount (Some ''(-5)'') = Some (- 5) \<and> parse_fund_amount (Some ''(-5)'') = None"
proof -
  have "CHR ''('' # num @ '')'' \<noteq> num" by simp
  then have "parse_bank_amount (Some s) = Some (if bank_core s = num then v else - v)"
    "parse_fund_amount (Some s) = Some (if bank_core s = num then v else - v)"
    using assms(5) bank_amount_of_core [OF assms(1,2), of s] fund_amount_of_core [OF assms(1,2), of s]
    by (auto simp: cores_agree [OF assms(3,4)])
  then show ?thesis using empty_amounts minus_in_parentheses by simp
qed

theorem amounts_read_alike_witness:
  "parse_bank_amount (Some ''UGX (1,250.75)'') = Some (- 5003 / 4) \<and>
   parse_fund_amount (Some ''UGX (1,250.75)'') = Some (- 5003 / 4)"
proof -
  have num: "decimal_text ''1250.75''"
    unfolding decimal_text_def
    by (intro exI [of _ "''1250''"] exI [of _ "''.75''"]) (simp add: is_digit_def)
  have v: "parse_unsigned ''1250.75'' = Some (5003 / 4)"
    by (simp add: parse_unsigned_def is_digit_def digits_value_def digit_value_def exponent_of_def power_of_ten_def)
  have core: "bank_core ''UGX (1,250.75)'' = ''(1250.75)''"
    by (simp add: bank_core_def bank_symbol_def one_of_def js_space_def)
  show ?thesis using amounts_read_alike [OF num v, of "''UGX (1,250.75)''"] by (simp add: core)
qed

section \<open>Complete rows\<close>

lemma all_blank_trim: "trim s = [] \<longleftrightarrow> list_all js_space s"
proof
  assume "trim s = []"
  then have "filter (\<lambda>c. \<not> js_space c) s = []" using trim_filter [of "\<lambda>c. \<not> js_space c" s] by simp
  then show "list_all js_space s" by (simp add: filter_empty_conv list_all_iff)
next
  assume "list_all js_space s"
  then show "trim s = []" by (simp add: trim_def takeWhile_all)
qed

lemma collapse_non_blank: "filter (\<lambda>c. \<not> js_space c) (collapse_spaces s) = filter (\<lambda>c. \<not> js_space c) s"
proof (induction s rule: collapse_spaces.induct)
  case (2 c s)
  have "filter (\<lambda>c. \<not> js_space c) (dropWhile js_space u) = filter (\<lambda>c. \<not> js_space c) u" for u
    by (induction u) auto
  moreover have "js_space CHR 0x20" by (simp add: js_space_def)
  ultimately show ?case using 2 by simp
qed simp

lemma clean_empty_iff: "clean s = [] \<longleftrightarrow> list_all js_space s"
  unfolding clean_def all_blank_trim [symmetric] by (cases "trim s") simp_all

lemma clean_clean_empty [simp]: "clean (clean s) = [] \<longleftrightarrow> clean s = []"
proof -
  have "filter (\<lambda>c. \<not> js_space c) (clean s) = filter (\<lambda>c. \<not> js_space c) s"
    by (simp add: clean_def collapse_non_blank trim_filter)
  then have "list_all js_space (clean s) \<longleftrightarrow> list_all js_space s"
    unfolding list_all_iff by (metis (mono_tags, lifting) filter_empty_conv)
  then show ?thesis by (simp add: clean_empty_iff)
qed

definition fund_row_complete :: "parsed_fund \<Rightarrow> bool" where
  "fund_row_complete t =
     (\<not> is_empty_str (pf_fundTransactionId t) \<and> pf_transactionDate t \<noteq> None \<and> pf_dateCreated t \<noteq> None \<and>
      pf_amount t \<noteq> None \<and> pf_units t \<noteq> None \<and> pf_bidPrice t \<noteq> None \<and> pf_offerPrice t \<noteq> None \<and> pf_midPrice t \<noteq> None)"

text \<open>The errors of the validator for a missing identifier, date, number or price.\<close>

definition missing_fund_value :: "validation_error \<Rightarrow> bool" where
  "missing_fund_value e =
     (ve_code e \<in> {''REQUIRED_FUND_TRANSACTION_ID'', ''REQUIRED_TRANSACTION_DATE'', ''REQUIRED_AMOUNT'', ''REQUIRED_UNITS'',
        ''REQUIRED_OFFER_PRICE'', ''REQUIRED_BID_PRICE'', ''MISSING_MID_PRICE''})"

text \<open>The branches of the row parser.\<close>

lemma parse_fund_row_cases:
  assumes "parse_fund_row_with read_date now row n = Some t"
  obtains d code where "clean_value (cell row ''fundTransactionId'') \<noteq> []" "read_date (cell row ''transactionDate'') = Some d"
    "list_all (\<lambda>k. parse_fund_amount (cell row k) \<noteq> None) [''amount'', ''units'', ''bidPrice'', ''offerPrice'', ''midPrice'']"
    "pf_rowNumber t = n" "pf_fundTransactionId t = clean_value (cell row ''fundTransactionId'')"
    "pf_transactionDate t = Some d" "pf_dateCreated t \<noteq> None"
    "pf_amount t = parse_fund_amount (cell row ''amount'')" "pf_units t = parse_fund_amount (cell row ''units'')"
    "pf_bidPrice t = parse_fund_amount (cell row ''bidPrice'')" "pf_offerPrice t = parse_fund_amount (cell row ''offerPrice'')"
    "pf_midPrice t = parse_fund_amount (cell row ''midPrice'')"
proof -
  note r = assms [unfolded parse_fund_row_with_def Let_def]
  have i: "clean_value (cell row ''fundTransactionId'') \<noteq> []" using r by (auto split: if_split_asm)
  obtain d where d: "read_date (cell row ''transactionDate'') = Some d" using r i by (auto split: option.split_asm)
  have n: "list_all (\<lambda>k. parse_fund_amount (cell row k) \<noteq> None) [''amount'', ''units'', ''bidPrice'', ''offerPrice'', ''midPrice'']"
    using r i d by (simp split: if_split_asm)
  show thesis using r i d n that by (simp split: option.split_asm) auto
qed

lemma parse_fund_row_fields:
  "parse_fund_row_with read_date now row n = Some t \<Longrightarrow> pf_rowNumber t = n \<and> fund_row_complete t"
  by (erule parse_fund_row_cases) (auto simp: fund_row_complete_def is_empty_str_def clean_value_def split: option.splits)

lemma filter_err_if:
  "filter P (err_if c row field code sev) = (if P (err row field code sev) then err_if c row field code sev else [])"
  by (simp add: err_if_def)

lemma complete_fund_row_no_missing:
  assumes "fund_row_complete t"
  shows "filter missing_fund_value (validate_fund ck cfg t) = []"
proof -
  have "filter missing_fund_value (validate_required t) = []"
    using assms by (simp add: validate_required_def Let_def fund_row_complete_def filter_err_if err_if_empty)
      (simp add: missing_fund_value_def err_def)
  moreover have "filter missing_fund_value (validate_source_tracking t) = []"
    by (simp add: validate_source_tracking_def filter_err_if) (simp add: missing_fund_value_def err_def)
  moreover have "filter missing_fund_value (validate_dates ck t) = []"
    by (simp add: validate_dates_def filter_err_if split: option.split) (simp add: missing_fund_value_def err_def)
  moreover have "filter missing_fund_value (validate_amounts cfg t) = []"
    by (simp add: validate_amounts_def filter_err_if split: option.split) (simp add: missing_fund_value_def err_def)
  moreover have "filter missing_fund_value (validate_units cfg t) = []"
    by (simp add: validate_units_def filter_err_if split: option.split) (simp add: missing_fund_value_def err_def)
  moreover have "filter missing_fund_value (validate_prices t) = []"
    using assms by (simp add: validate_prices_def fund_row_complete_def filter_err_if) (simp add: missing_fund_value_def err_def)
  moreover have "filter missing_fund_value (validate_business_rules t) = []"
    by (simp add: validate_business_rules_def filter_err_if) (simp add: missing_fund_value_def err_def)
  ultimately show ?thesis by (simp add: validate_fund_def)
qed

text \<open>The rows of a fund file. The parsed transactions carry, in the order of the file, the numbers of the rows that
  are neither empty nor unreadable; each has an identifier, a date and all its numbers, so that the checks of the
  validator for a missing one of these never report anything: a row that lacks one has been dropped before, without
  a trace.\<close>

theorem fund_rows_complete:
  shows "map pf_rowNumber (parse_fund_csv native now rows) =
      filter (row_survives fund_empty_row (parse_fund_row native now) 1 rows) [1 ..< Suc (length rows)] \<and>
    list_all fund_row_complete (parse_fund_csv native now rows) \<and>
    list_all (\<lambda>t. filter missing_fund_value (validate_fund ck cfg t) = []) (parse_fund_csv native now rows)"
proof -
  have "map pf_rowNumber (parse_fund_csv native now rows) =
      filter (row_survives fund_empty_row (parse_fund_row native now) 1 rows) [1 ..< Suc (length rows)]"
    using row_numbers_of_parse [where parse = "parse_fund_row native now" and num = pf_rowNumber and start = 1] parse_fund_row_fields
    by (simp add: parse_fund_csv_def parse_fund_row_def)
  moreover have "list_all fund_row_complete (parse_fund_csv native now rows)"
    unfolding parse_fund_csv_def parse_fund_row_def by (rule parse_rows_all) (blast dest: parse_fund_row_fields)
  ultimately show ?thesis using complete_fund_row_no_missing by (auto simp: list_all_iff)
qed

text \<open>C27: the rows of a bank file: as for a fund file, the parsed rows carry the numbers of the rows that are neither
  empty nor unreadable; each has a date, an amount and the shares of all funds, and the checks of the validator for a
  missing date or amount never report anything.\<close>

theorem bank_rows_complete:
  shows "map pb_rowNumber (parse_bank_file native rows) =
      filter (row_survives bank_empty_row (parse_bank_row native) 1 rows) [1 ..< Suc (length rows)] \<and>
    list_all bank_row_complete (parse_bank_file native rows) \<and>
    list_all (\<lambda>t. filter missing_number_or_date (validate_bank ck t) = []) (parse_bank_file native rows)"
proof -
  have "map pb_rowNumber (parse_bank_file native rows) =
      filter (row_survives bank_empty_row (parse_bank_row native) 1 rows) [1 ..< Suc (length rows)]"
    using row_numbers_of_parse [where parse = "parse_bank_row native" and num = pb_rowNumber and start = 1] parse_bank_row_fields
    by (simp add: parse_bank_file_def parse_bank_row_def)
  moreover have "list_all bank_row_complete (parse_bank_file native rows)"
    unfolding parse_bank_file_def parse_bank_row_def by (rule parse_rows_all) (blast dest: parse_bank_row_fields)
  ultimately show ?thesis using complete_row_no_missing by (auto simp: list_all_iff)
qed

section \<open>CSV and Excel\<close>

lemma parse_rows_shift:
  assumes "\<And>row n. parse' row (Suc n) = map_option shift (parse row n)"
  shows "parse_rows (Suc start) skip parse' rows = map shift (parse_rows start skip parse rows)"
proof -
  have "List.map_filter (\<lambda>(n, row). if skip row then None else parse' row n) (zip (map Suc ns) rs) =
      map shift (List.map_filter (\<lambda>(n, row). if skip row then None else parse row n) (zip ns rs))" for ns rs
  proof (induction ns arbitrary: rs)
    case (Cons n ns)
    then show ?case using assms by (cases rs) (auto simp: map_filter_simps split: option.splits)
  qed (simp add: map_filter_simps)
  moreover have "[Suc start ..< Suc start + length rows] = map Suc [start ..< start + length rows]"
    by (simp only: map_Suc_upt add_Suc)
  ultimately show ?thesis by (simp only: parse_rows_def number_rows_def)
qed

lemma excel_dates: "excel_fund_date native = parse_fund_date native" "excel_bank_date native = parse_bank_date native"
proof -
  have "excel_fund_date native v = parse_fund_date native v" "excel_bank_date native v = parse_bank_date native v" for v
    by (cases v; simp add: excel_fund_date_def excel_bank_date_def parse_fund_date_def parse_bank_date_def trim_def)+
  then show "excel_fund_date native = parse_fund_date native" "excel_bank_date native = parse_bank_date native" by auto
qed

lemma fund_row_shift:
  "parse_fund_row_with read_date now row (Suc n) =
     map_option (\<lambda>t. t\<lparr>pf_rowNumber := Suc (pf_rowNumber t)\<rparr>) (parse_fund_row_with read_date now row n)"
  unfolding parse_fund_row_with_def Let_def
  by (simp only: if_distrib [of "map_option _"] option.map_sel option.case_distrib [of "map_option _"] option.map
      parsed_fund.update_convs parsed_fund.select_convs cong: if_cong option.case_cong)

lemma bank_row_shift:
  "parse_bank_row_with read_date row (Suc n) =
     map_option (\<lambda>t. t\<lparr>pb_rowNumber := Suc (pb_rowNumber t)\<rparr>) (parse_bank_row_with read_date row n)"
  unfolding parse_bank_row_with_def Let_def
  by (simp only: option.case_distrib [of "map_option _"] option.map parsed_bank.update_convs parsed_bank.select_convs
      cong: option.case_cong)

text \<open>A sheet is parsed like the CSV file with the same rows and trimmed headers, except that its rows are numbered
  from 2; this holds for fund files and for bank files.\<close>

theorem excel_parsed_like_csv:
  "parse_fund_excel native now rows =
     map (\<lambda>t. t\<lparr>pf_rowNumber := Suc (pf_rowNumber t)\<rparr>) (parse_fund_csv native now (map trim_headers rows)) \<and>
   parse_bank_excel native rows =
     map (\<lambda>t. t\<lparr>pb_rowNumber := Suc (pb_rowNumber t)\<rparr>) (parse_bank_file native (map trim_headers rows))"
proof -
  have "parse_excel_fund_row native now row (Suc n) =
      map_option (\<lambda>t. t\<lparr>pf_rowNumber := Suc (pf_rowNumber t)\<rparr>) (parse_fund_row native now row n)" for row n
    unfolding parse_excel_fund_row_def parse_fund_row_def excel_dates by (rule fund_row_shift)
  moreover have "parse_excel_bank_row native row (Suc n) =
      map_option (\<lambda>t. t\<lparr>pb_rowNumber := Suc (pb_rowNumber t)\<rparr>) (parse_bank_row native row n)" for row n
    unfolding parse_excel_bank_row_def parse_bank_row_def excel_dates by (rule bank_row_shift)
  ultimately show ?thesis
    unfolding parse_fund_excel_def parse_fund_csv_def parse_bank_excel_def parse_bank_file_def numeral_2_eq_2 One_nat_def
    by (intro conjI parse_rows_shift)
qed

end
