(* ===== verification/BankUploadProperties.thy ===== *)
theory BankUploadProperties
  imports BankUpload ParseProperties
begin

text \<open>
  What becomes of an uploaded bank file: saving does not depend on the chunks, a validated row can always be saved,
  and a file is stored completely or not at all.
\<close>

section \<open>Updates of the batch\<close>

lemma find_batch_updated:
  assumes "\<And>b. kb_id (f b) = kb_id b"
  shows "List.find (\<lambda>b. kb_id b = bid) (update_where (\<lambda>b. kb_id b = bid) f bs) = map_option f (List.find (\<lambda>b. kb_id b = bid) bs)"
  using assms by (induction bs) (auto simp: update_where_def)

lemma change_batch_Some:
  assumes "find_batch db bid = Some b" "\<And>b. kb_id (f b) = kb_id b"
  obtains bs where "change_batch bid f db = Some (db\<lparr>bu_batches := bs\<rparr>)" "find_batch (db\<lparr>bu_batches := bs\<rparr>) bid = Some (f b)"
proof
  show "change_batch bid f db = Some (db\<lparr>bu_batches := update_where (\<lambda>b. kb_id b = bid) f (bu_batches db)\<rparr>)"
    using assms(1) by (simp add: change_batch_def)
  show "find_batch (db\<lparr>bu_batches := update_where (\<lambda>b. kb_id b = bid) f (bu_batches db)\<rparr>) bid = Some (f b)"
    using assms(1) find_batch_updated [OF assms(2)] by (simp add: find_batch_def)
qed

lemma status_keeps_id [simp]: "kb_id (bank_batch_status now p v b) = kb_id b"
  by (simp add: bank_batch_status_def Let_def split: option.split)

lemma store_overwrite [simp]: "db\<lparr>bu_batches := x, bu_batches := y\<rparr> = db\<lparr>bu_batches := y\<rparr>" for db :: bank_store
  by simp

section \<open>Saving\<close>

lemma prepare_same_entities:
  assumes "bu_accounts db' = bu_accounts db" "bu_goals db' = bu_goals db"
  shows "prepare_bank_row db' = prepare_bank_row db"
  by (intro ext) (simp only: prepare_bank_row_def assms)

lemma insert_bank_row_frame:
  "bu_accounts (insert_bank_row db r) = bu_accounts db" "bu_goals (insert_bank_row db r) = bu_goals db"
  "bu_batches (insert_bank_row db r) = bu_batches db" "bu_fund (insert_bank_row db r) = bu_fund db"
  by (simp_all add: insert_bank_row_def)

lemma insert_rows_frame [simp]:
  "bu_accounts (foldl insert_bank_row db rs) = bu_accounts db" "bu_goals (foldl insert_bank_row db rs) = bu_goals db"
  "bu_batches (foldl insert_bank_row db rs) = bu_batches db" "bu_fund (foldl insert_bank_row db rs) = bu_fund db"
  by (induction rs arbitrary: db) (simp_all add: insert_bank_row_frame)

lemma try_map_append:
  "try_map f (xs @ ys) = (case try_map f xs of Inl e \<Rightarrow> Inl e
     | Inr us \<Rightarrow> (case try_map f ys of Inl e \<Rightarrow> Inl e | Inr vs \<Rightarrow> Inr (us @ vs)))"
  by (induction xs) (auto split: sum.splits)

lemma try_map_list_all2: "try_map f xs = Inr ys \<longleftrightarrow> list_all2 (\<lambda>x y. f x = Inr y) xs ys"
proof (induction xs arbitrary: ys)
  case (Cons x xs)
  show ?case
    by (cases "f x"; cases "try_map f xs") (auto simp: list_all2_Cons1 Cons.IH [symmetric])
qed auto

lemma save_bank_loop_reference:
  assumes "find_batch db bid \<noteq> None" "try_map (prepare_bank_row db bid now) (drop i ts) = Inr rows"
  shows "save_bank_loop bid now ts i db saved =
    (if list_all bank_row_fits rows then Inr (foldl insert_bank_row db rows, saved + length rows) else Inl BE_Refused)"
  using assms
proof (induction bid now ts i db saved arbitrary: rows rule: save_bank_loop.induct)
  case (1 bid now ts i db saved)
  show ?case
  proof (cases "i < length ts")
    case True
    have split: "drop i ts = take bank_chunk (drop i ts) @ drop (i + bank_chunk) ts"
      by (simp add: add.commute drop_drop [symmetric] del: drop_drop)
    obtain us vs where parts: "try_map (prepare_bank_row db bid now) (take bank_chunk (drop i ts)) = Inr us"
        "try_map (prepare_bank_row db bid now) (drop (i + bank_chunk) ts) = Inr vs" "rows = us @ vs"
      using 1(3) by (subst (asm) split) (auto simp: try_map_append split: sum.splits)
    show ?thesis
    proof (cases "list_all bank_row_fits us")
      case False
      then show ?thesis using True by (simp add: save_bank_loop.simps [of bid now ts i] parts(1,3))
    next
      case fits: True
      let ?db = "foldl insert_bank_row db us"
      have same: "prepare_bank_row ?db = prepare_bank_row db" by (rule prepare_same_entities) simp_all
      have found: "find_batch ?db bid \<noteq> None" using 1(2) by (simp add: find_batch_def)
      have "save_bank_loop bid now ts i db saved = save_bank_loop bid now ts (i + bank_chunk) ?db (saved + length us)"
        using True fits 1(2) by (auto simp: save_bank_loop.simps [of bid now ts i] parts(1))
      also have "\<dots> = (if list_all bank_row_fits vs then Inr (foldl insert_bank_row ?db vs, saved + length us + length vs) else Inl BE_Refused)"
        by (rule 1(1) [OF True parts(1) _ _ found]) (use fits 1(2) parts(2) same in auto)
      finally show ?thesis using fits by (simp add: parts(3))
    qed
  next
    case False
    then show ?thesis using 1(3) by (simp add: save_bank_loop.simps [of bid now ts i])
  qed
qed

lemma save_bank_reference:
  "find_batch db bid \<noteq> None \<Longrightarrow> try_map (prepare_bank_row db bid now) ts = Inr rows \<Longrightarrow> save_bank_transactions bid now ts db =
    (if list_all bank_row_fits rows then Inr (foldl insert_bank_row db rows, length rows) else Inl BE_Refused)"
  using save_bank_loop_reference [of db bid now 0 ts rows 0] by (simp add: save_bank_transactions_def)

text \<open>Rows of a batch with different numbers are all inserted, in order.\<close>

lemma insert_rows_all:
  assumes "distinct (map b_rowNumber rs)" "\<And>r. r \<in> set rs \<Longrightarrow> b_uploadBatchId r = bid"
    and "\<And>x r. x \<in> set (bu_rows db) \<Longrightarrow> r \<in> set rs \<Longrightarrow> b_uploadBatchId x \<noteq> bid \<or> b_rowNumber x \<noteq> b_rowNumber r"
  obtains new where "bu_rows (foldl insert_bank_row db rs) = bu_rows db @ new"
    "list_all2 (\<lambda>r x. \<exists>i. x = r\<lparr>b_id := i\<rparr>) rs new"
  using assms
proof (induction rs arbitrary: db thesis)
  case (Cons r rs)
  let ?x = "r\<lparr>b_id := nat_digits (bu_next db)\<rparr>"
  let ?db = "db\<lparr>bu_rows := bu_rows db @ [?x], bu_next := bu_next db + 1\<rparr>"
  have "\<not> list_ex (\<lambda>x. b_uploadBatchId x = b_uploadBatchId r \<and> b_rowNumber x = b_rowNumber r) (bu_rows db)"
    using Cons.prems(3) [of r] Cons.prems(4) [of _ r] by (auto simp: list_ex_iff)
  then have ins: "insert_bank_row db r = ?db" by (simp add: insert_bank_row_def)
  obtain new where "bu_rows (foldl insert_bank_row ?db rs) = bu_rows ?db @ new" "list_all2 (\<lambda>r x. \<exists>i. x = r\<lparr>b_id := i\<rparr>) rs new"
  proof (rule Cons.IH)
    show "distinct (map b_rowNumber rs)" using Cons.prems(2) by simp
    show "b_uploadBatchId r' = bid" if "r' \<in> set rs" for r' using Cons.prems(3) that by simp
    show "b_uploadBatchId x \<noteq> bid \<or> b_rowNumber x \<noteq> b_rowNumber r'" if "x \<in> set (bu_rows ?db)" "r' \<in> set rs" for x r'
      using Cons.prems(2,4) that by auto
  qed
  then show ?case by (intro Cons.prems(1) [of "?x # new"]) (auto simp: ins)
qed simp

section \<open>Validated rows can be saved\<close>

lemma letter_codes:
  "list_all (\<lambda>d. of_char d < (91 :: nat)) ''ABCDEFGHIJKLMNOPQRSTUVWXYZ''"
  "list_all (\<lambda>d. (97 :: nat) \<le> of_char d) ''abcdefghijklmnopqrstuvwxyz''"
  by simp_all

lemma upper_char_idem: "upper_char (upper_char c) = upper_char c"
proof (cases "map_of (zip ''abcdefghijklmnopqrstuvwxyz'' ''ABCDEFGHIJKLMNOPQRSTUVWXYZ'') c")
  case None
  then show ?thesis by (simp only: upper_char_def option.case)
next
  case (Some d)
  then have up: "d \<in> set ''ABCDEFGHIJKLMNOPQRSTUVWXYZ''" by (metis map_of_SomeD set_zip_rightD)
  have "of_char d < (91 :: nat)" using letter_codes(1) [unfolded list_all_iff] up by (rule bspec)
  moreover have "(97 :: nat) \<le> of_char d" if "d \<in> set ''abcdefghijklmnopqrstuvwxyz''"
    using letter_codes(2) [unfolded list_all_iff] that by (rule bspec)
  ultimately have "d \<notin> set ''abcdefghijklmnopqrstuvwxyz''" by linarith
  then have "map_of (zip ''abcdefghijklmnopqrstuvwxyz'' ''ABCDEFGHIJKLMNOPQRSTUVWXYZ'') d = None"
    by (metis map_of_SomeD set_zip_leftD not_None_eq)
  then show ?thesis using Some by (simp only: upper_char_def option.case)
qed

lemma to_upper_idem [simp]: "to_upper (to_upper s) = to_upper s"
  by (simp add: to_upper_def upper_char_idem)

lemma type_of_name_allowed:
  "s \<in> set allowed_types \<longleftrightarrow> (\<exists>t. type_of_name s = Some t)" "type_of_name s = Some t \<Longrightarrow> type_name t = s"
proof -
  show "s \<in> set allowed_types \<longleftrightarrow> (\<exists>t. type_of_name s = Some t)" by (auto simp: allowed_types_def type_of_name_def)
  show "type_of_name s = Some t \<Longrightarrow> type_name t = s" by (auto simp: type_of_name_def split: if_splits)
qed

definition stored_as :: "bank_store \<Rightarrow> row_id \<Rightarrow> parsed_bank \<Rightarrow> stored_bank \<Rightarrow> bool" where
  "stored_as db bid t r =
     (b_uploadBatchId r = bid \<and> b_rowNumber r = pb_rowNumber t \<and> b_reconciliationStatus r = RS_PENDING \<and>
      pb_totalAmount t = Some (b_totalAmount r) \<and> map_option db_date (pb_transactionDate t) = Some (b_transactionDate r) \<and>
      type_name (b_transactionType r) = pb_transactionType t \<and> b_transactionId r = pb_transactionId t \<and>
      b_goalNumber r = pb_goalNumber t \<and>
      pb_xummfAmount t = Some (b_xummfAmount r) \<and> pb_xubfAmount t = Some (b_xubfAmount r) \<and>
      pb_xudefAmount t = Some (b_xudefAmount r) \<and> pb_xurefAmount t = Some (b_xurefAmount r) \<and>
      pb_xummfPercentage t = Some (100 * sb_xummfPercentage r) \<and> pb_xubfPercentage t = Some (100 * sb_xubfPercentage r) \<and>
      pb_xudefPercentage t = Some (100 * sb_xudefPercentage r) \<and> pb_xurefPercentage t = Some (100 * sb_xurefPercentage r) \<and>
      sb_firstName r = pb_firstName t \<and> sb_lastName r = pb_lastName t \<and> sb_goalTitle r = pb_goalTitle t \<and>
      (\<exists>a \<in> set (bu_accounts db). ac_number a = pb_accountNumber t \<and> ac_id a = b_accountId r \<and> ac_clientId a = b_clientId r) \<and>
      (\<exists>g \<in> set (bu_goals db). go_number g = pb_goalNumber t \<and> go_id g = b_goalId r))"

text \<open>The numbers of a parsed row fit their columns: amounts below 10 to the 16, percentages below 1000.\<close>

definition bank_storable :: "parsed_bank \<Rightarrow> bool" where
  "bank_storable t =
     (list_all (number_fits 18 2) [pb_totalAmount t, pb_xummfAmount t, pb_xubfAmount t, pb_xudefAmount t, pb_xurefAmount t] \<and>
      list_all (\<lambda>p. number_fits 5 4 (map_option (\<lambda>v. v / 100) p))
        [pb_xummfPercentage t, pb_xubfPercentage t, pb_xudefPercentage t, pb_xurefPercentage t])"

lemma stored_as_fits: "stored_as db bid t r \<Longrightarrow> bank_row_fits r = bank_storable t"
  by (auto simp: stored_as_def bank_storable_def bank_row_fits_def number_fits_def)

lemma stored_as_id [simp]: "stored_as db bid t (r\<lparr>b_id := i\<rparr>) = stored_as db bid t r"
  by (simp add: stored_as_def)

lemma prepare_succeeds:
  assumes "bank_row_complete t" "pb_transactionType t \<in> set allowed_types"
    and "pb_accountNumber t \<in> set (map ac_number (bu_accounts db))" "pb_goalNumber t \<in> set (map go_number (bu_goals db))"
  obtains r where "prepare_bank_row db bid now t = Inr r" "stored_as db bid t r"
proof -
  have "List.find (\<lambda>a. ac_number a = pb_accountNumber t) (bu_accounts db) \<noteq> None" using assms(3) by (auto simp: find_None_iff)
  then obtain a where a: "List.find (\<lambda>a. ac_number a = pb_accountNumber t) (bu_accounts db) = Some a" by blast
  have "List.find (\<lambda>g. go_number g = pb_goalNumber t) (bu_goals db) \<noteq> None" using assms(4) by (auto simp: find_None_iff)
  then obtain g where g: "List.find (\<lambda>g. go_number g = pb_goalNumber t) (bu_goals db) = Some g" by blast
  obtain ty where ty: "type_of_name (pb_transactionType t) = Some ty" using assms(2) type_of_name_allowed(1) by blast
  obtain d m p1 p2 p3 p4 a1 a2 a3 a4 where f: "pb_transactionDate t = Some d" "pb_totalAmount t = Some m"
    "pb_xummfPercentage t = Some p1" "pb_xubfPercentage t = Some p2" "pb_xudefPercentage t = Some p3" "pb_xurefPercentage t = Some p4"
    "pb_xummfAmount t = Some a1" "pb_xubfAmount t = Some a2" "pb_xudefAmount t = Some a3" "pb_xurefAmount t = Some a4"
    using assms(1) by (auto simp: bank_row_complete_def)
  show thesis
  proof (rule that)
    show "prepare_bank_row db bid now t = Inr (new_bank_row bid now a g d ty m (p1, p2, p3, p4) (a1, a2, a3, a4) t)"
      by (simp add: prepare_bank_row_def a g ty f)
    show "stored_as db bid t (new_bank_row bid now a g d ty m (p1, p2, p3, p4) (a1, a2, a3, a4) t)"
      using find_SomeD [OF a] find_SomeD [OF g] type_of_name_allowed(2) [OF ty] f
      by (auto simp: stored_as_def new_bank_row_def)
  qed
qed

lemma parsed_row_type: "parse_bank_row_with read_date row n = Some t \<Longrightarrow> to_upper (pb_transactionType t) = pb_transactionType t"
  by (auto simp: parse_bank_row_with_def Let_def split: option.splits)

lemma parsed_upload_rows:
  assumes "parse_bank_upload native path content = Inr ts"
  shows "list_all bank_row_complete ts" "list_all (\<lambda>t. to_upper (pb_transactionType t) = pb_transactionType t) ts"
    "distinct (map pb_rowNumber ts)"
proof -
  have eta: "parse_bank_row native = parse_bank_row_with (parse_bank_date native)"
    "parse_excel_bank_row native = parse_bank_row_with (parse_bank_date native)"
    by (intro ext; simp add: parse_bank_row_def parse_excel_bank_row_def excel_dates)+
  obtain start read_date rows where ts: "ts = parse_rows start bank_empty_row (parse_bank_row_with read_date) rows"
    using assms unfolding parse_bank_upload_def parse_bank_file_def parse_bank_excel_def eta
    by (auto split: file_kind.splits option.splits)
  show "list_all bank_row_complete ts" unfolding ts by (rule parse_rows_all) (blast dest: parse_bank_row_fields)
  show "list_all (\<lambda>t. to_upper (pb_transactionType t) = pb_transactionType t) ts"
    unfolding ts by (rule parse_rows_all) (blast dest: parsed_row_type)
  have "map pb_rowNumber ts = filter (row_survives bank_empty_row (parse_bank_row_with read_date) start rows) [start ..< start + length rows]"
    unfolding ts by (rule row_numbers_of_parse) (blast dest: parse_bank_row_fields)
  then show "distinct (map pb_rowNumber ts)" by simp
qed

text \<open>The rows that pass the validation of a parsed file: complete, of a known type, and with numbers of the database.\<close>

lemma valid_rows_savable:
  fixes ck :: bank_clock and accounts goals :: "string list"
  assumes "parse_bank_upload native path content = Inr ts"
  defines "valid \<equiv> bb_valid (validate_bank_batch ck accounts goals ts)"
  shows "list_all (\<lambda>t. bank_row_complete t \<and> pb_transactionType t \<in> set allowed_types \<and>
      pb_accountNumber t \<in> set accounts \<and> pb_goalNumber t \<in> set goals) valid" "distinct (map pb_rowNumber valid)"
proof -
  note rows = parsed_upload_rows [OF assms(1)]
  have valid: "valid = map (\<lambda>t. fst (bank_row_of ck accounts goals ts t)) (filter (acceptable ck accounts goals ts) ts)"
    unfolding valid_def by (rule validate_bank_batch_parts(1))
  have "bank_row_complete t' \<and> pb_transactionType t' \<in> set allowed_types \<and> pb_accountNumber t' \<in> set accounts \<and> pb_goalNumber t' \<in> set goals"
    if mem: "t \<in> set ts" and acc: "acceptable ck accounts goals ts t" and res: "t' = fst (bank_row_of ck accounts goals ts t)" for t t'
  proof -
    obtain a g where t': "t' = t\<lparr>pb_accountNumber := a, pb_goalNumber := g\<rparr>" "a \<in> set accounts" "g \<in> set goals"
      using bank_row_of_cases(2) [OF acc] res by (auto simp: normalized_def)
    have "bank_row_complete t" "to_upper (pb_transactionType t) = pb_transactionType t"
      using rows(1,2) mem by (auto simp: list_all_iff)
    moreover have "to_upper (pb_transactionType t) \<in> set allowed_types" using acc by (simp add: acceptable_def fields_ok_def)
    ultimately show ?thesis by (simp add: t' bank_row_complete_def)
  qed
  then show "list_all (\<lambda>t. bank_row_complete t \<and> pb_transactionType t \<in> set allowed_types \<and>
      pb_accountNumber t \<in> set accounts \<and> pb_goalNumber t \<in> set goals) valid"
    by (auto simp: valid list_all_iff)
  have "map pb_rowNumber valid = map pb_rowNumber (filter (acceptable ck accounts goals ts) ts)"
    by (simp add: valid bank_row_of_cases(3))
  then show "distinct (map pb_rowNumber valid)" using rows(3) by (simp add: distinct_map_filter)
qed

section \<open>The outcome of an upload\<close>

lemma save_valid_rows:
  assumes "find_batch db bid \<noteq> None" "\<And>r. r \<in> set (bu_rows db) \<Longrightarrow> b_uploadBatchId r \<noteq> bid"
    and "list_all (\<lambda>t. bank_row_complete t \<and> pb_transactionType t \<in> set allowed_types \<and>
      pb_accountNumber t \<in> set (map ac_number (bu_accounts db)) \<and> pb_goalNumber t \<in> set (map go_number (bu_goals db))) ts"
    and "distinct (map pb_rowNumber ts)"
  shows "if list_all bank_storable ts
    then \<exists>db' new. save_bank_transactions bid now ts db = Inr (db', length ts) \<and> bu_rows db' = bu_rows db @ new \<and>
      list_all2 (stored_as db bid) ts new \<and> bu_batches db' = bu_batches db
    else save_bank_transactions bid now ts db = Inl BE_Refused"
proof -
  have "\<exists>r. prepare_bank_row db bid now t = Inr r \<and> stored_as db bid t r" if "t \<in> set ts" for t
    using assms(3) that prepare_succeeds [of t db bid now] by (metis (no_types, lifting) list_all_iff)
  then obtain f where f: "prepare_bank_row db bid now t = Inr (f t)" "stored_as db bid t (f t)" if "t \<in> set ts" for t by metis
  let ?rows = "map f ts"
  have rows: "try_map (prepare_bank_row db bid now) ts = Inr ?rows"
    using f(1) by (simp add: try_map_list_all2 list_all2_conv_all_nth)
  have fits: "list_all bank_row_fits ?rows = list_all bank_storable ts"
    by (simp add: list_all_iff stored_as_fits [OF f(2)])
  have numbers: "map b_rowNumber ?rows = map pb_rowNumber ts" using f(2) by (simp add: stored_as_def)
  obtain new where new: "bu_rows (foldl insert_bank_row db ?rows) = bu_rows db @ new"
    "list_all2 (\<lambda>r x. \<exists>i. x = r\<lparr>b_id := i\<rparr>) ?rows new"
  proof (rule insert_rows_all)
    show "distinct (map b_rowNumber ?rows)" using assms(4) by (simp only: numbers)
    show "b_uploadBatchId r = bid" if "r \<in> set ?rows" for r using f(2) that by (auto simp: stored_as_def)
    show "b_uploadBatchId x \<noteq> bid \<or> b_rowNumber x \<noteq> b_rowNumber r" if "x \<in> set (bu_rows db)" for x r
      using assms(2) that by blast
  qed
  have "list_all2 (stored_as db bid) ts new" using new(2) f(2) by (auto simp: list_all2_conv_all_nth)
  then show ?thesis
    using save_bank_reference [OF assms(1) rows] new(1) by (auto simp: fits)
qed

definition upload_completed :: "instant \<Rightarrow> nat \<Rightarrow> bank_batch \<Rightarrow> bool" where
  "upload_completed now n b =
     (kb_processingStatus b = COMPLETED \<and> kb_validationStatus b = VS_PASSED \<and> kb_completedAt b = Some now \<and>
      kb_totalRecords b = n \<and> kb_processedRecords b = n \<and> kb_failedRecords b = 0)"

definition upload_failed :: "instant \<Rightarrow> bank_error \<Rightarrow> bank_batch \<Rightarrow> bool" where
  "upload_failed now e b =
     (kb_processingStatus b = FAILED \<and> kb_validationStatus b = VS_FAILED \<and> kb_completedAt b = Some now \<and>
      kb_validationErrors b = BS_Failure e)"

lemma change_batch_step:
  assumes "find_batch db bid = Some b" "\<And>b. kb_id (f b) = kb_id b"
  shows "\<exists>bs. change_batch bid f db = Some (db\<lparr>bu_batches := bs\<rparr>) \<and> find_batch (db\<lparr>bu_batches := bs\<rparr>) bid = Some (f b)"
  using change_batch_Some [OF assms] by metis

lemma fail_step:
  assumes "find_batch db bid = Some b"
  shows "\<exists>bs b'. bank_batch_error now bid e db = Some (db\<lparr>bu_batches := bs\<rparr>) \<and>
    find_batch (db\<lparr>bu_batches := bs\<rparr>) bid = Some b' \<and> upload_failed now e b'"
  using change_batch_step [OF assms, of "\<lambda>b. b\<lparr>kb_processingStatus := FAILED, kb_validationStatus := VS_FAILED,
       kb_validationErrors := BS_Failure e, kb_completedAt := Some now\<rparr>"]
  by (auto simp: bank_batch_error_def upload_failed_def)

lemma status_step:
  assumes "find_batch db bid = Some b"
  obtains bs b' where "update_bank_status now bid p None db = Some (db\<lparr>bu_batches := bs\<rparr>)"
    "find_batch (db\<lparr>bu_batches := bs\<rparr>) bid = Some b'" "kb_totalRecords b' = kb_totalRecords b" "kb_failedRecords b' = kb_failedRecords b"
proof -
  obtain bs where "change_batch bid (bank_batch_status now p None) db = Some (db\<lparr>bu_batches := bs\<rparr>)"
      "find_batch (db\<lparr>bu_batches := bs\<rparr>) bid = Some (bank_batch_status now p None b)"
    using change_batch_Some [OF assms status_keeps_id] .
  then show thesis
    by (intro that [of bs "bank_batch_status now p None b"]) (simp_all add: update_bank_status_def bank_batch_status_def Let_def)
qed

lemma parsing_step:
  assumes "find_batch db bid = Some b"
  obtains bs b' where "bank_parsing_results bid n db = Some (db\<lparr>bu_batches := bs\<rparr>)"
    "find_batch (db\<lparr>bu_batches := bs\<rparr>) bid = Some b'" "kb_totalRecords b' = n"
proof -
  let ?f = "\<lambda>b. b\<lparr>kb_totalRecords := n, kb_processingStatus := VALIDATING\<rparr>"
  obtain bs where "change_batch bid ?f db = Some (db\<lparr>bu_batches := bs\<rparr>)" "find_batch (db\<lparr>bu_batches := bs\<rparr>) bid = Some (?f b)"
    by (rule change_batch_Some [OF assms, of ?f]) simp_all
  then show thesis by (intro that [of bs "?f b"]) (simp_all add: bank_parsing_results_def)
qed

lemma validation_step:
  assumes "find_batch db bid = Some b"
  obtains bs b' where "bank_validation_results bid k n crit warnings v w db = Some (db\<lparr>bu_batches := bs\<rparr>)"
    "find_batch (db\<lparr>bu_batches := bs\<rparr>) bid = Some b'" "kb_totalRecords b' = kb_totalRecords b" "kb_failedRecords b' = n"
proof -
  let ?f = "\<lambda>b. b\<lparr>kb_processedRecords := k, kb_failedRecords := n, kb_validationErrors := BS_Errors crit,
    kb_validationWarnings := warnings, kb_validationStatus := v, kb_processingStatus := PROCESSING, kb_withWarnings := w\<rparr>"
  obtain bs where "change_batch bid ?f db = Some (db\<lparr>bu_batches := bs\<rparr>)" "find_batch (db\<lparr>bu_batches := bs\<rparr>) bid = Some (?f b)"
    by (rule change_batch_Some [OF assms, of ?f]) simp_all
  then show thesis by (intro that [of bs "?f b"]) (simp_all add: bank_validation_results_def)
qed

text \<open>The updates before the rows are saved: they touch the batch record only.\<close>

lemma body_until_save:
  assumes "find_batch db bid = Some b"
    and "parse_bank_upload (bp_native pl) path (bp_rows pl path) = Inr ts" "ts \<noteq> []"
  defines "vr \<equiv> validate_in_db pl db ts"
  shows "\<exists>bs b'. find_batch (db\<lparr>bu_batches := bs\<rparr>) bid = Some b' \<and> kb_totalRecords b' = length ts \<and>
    kb_failedRecords b' = length (bb_invalid vr) \<and>
    process_bank_body pl now bid path db =
      (if bb_invalid vr \<noteq> [] then (Some (BE_Rejected (length (bb_invalid vr)) (length ts)), db\<lparr>bu_batches := bs\<rparr>)
       else finalize_bank now bid (bb_valid vr) (db\<lparr>bu_batches := bs\<rparr>))"
proof -
  let ?w = "filter is_warning (bb_errors vr)" and ?c = "filter is_critical (bb_errors vr)"
  obtain bs1 b1 where s1: "update_bank_status now bid PARSING None db = Some (db\<lparr>bu_batches := bs1\<rparr>)"
      "find_batch (db\<lparr>bu_batches := bs1\<rparr>) bid = Some b1" by (rule status_step [OF assms(1)])
  obtain bs2 b2 where s2: "bank_parsing_results bid (length ts) (db\<lparr>bu_batches := bs1\<rparr>) = Some (db\<lparr>bu_batches := bs2\<rparr>)"
      "find_batch (db\<lparr>bu_batches := bs2\<rparr>) bid = Some b2" "kb_totalRecords b2 = length ts"
    using parsing_step [OF s1(2), of "length ts"] unfolding store_overwrite by metis
  obtain bs3 b3 where s3: "update_bank_status now bid VALIDATING None (db\<lparr>bu_batches := bs2\<rparr>) = Some (db\<lparr>bu_batches := bs3\<rparr>)"
      "find_batch (db\<lparr>bu_batches := bs3\<rparr>) bid = Some b3" "kb_totalRecords b3 = length ts"
    using status_step [OF s2(2), of now VALIDATING] s2(3) unfolding store_overwrite by metis
  have vr: "validate_in_db pl (db\<lparr>bu_batches := bs3\<rparr>) ts = vr" by (simp add: vr_def validate_in_db_def)
  obtain bs4 b4 where s4: "bank_validation_results bid (length (bb_valid vr)) (length (bb_invalid vr)) ?c ?w
        (bank_result_status ?c ?w) (length (bb_warnings vr)) (db\<lparr>bu_batches := bs3\<rparr>) = Some (db\<lparr>bu_batches := bs4\<rparr>)"
      "find_batch (db\<lparr>bu_batches := bs4\<rparr>) bid = Some b4" "kb_totalRecords b4 = length ts" "kb_failedRecords b4 = length (bb_invalid vr)"
    using validation_step [OF s3(2), of "length (bb_valid vr)" "length (bb_invalid vr)" ?c ?w "bank_result_status ?c ?w"
        "length (bb_warnings vr)"] s3(3)
    unfolding store_overwrite by metis
  have body: "process_bank_body pl now bid path db =
      (if bb_invalid vr \<noteq> []
       then and_then (update_bank_status now bid FAILED None (db\<lparr>bu_batches := bs4\<rparr>)) (db\<lparr>bu_batches := bs4\<rparr>) (\<lambda>db5.
              (Some (BE_Rejected (length (bb_invalid vr)) (length ts)), db5))
       else finalize_bank now bid (bb_valid vr) (db\<lparr>bu_batches := bs4\<rparr>))"
    by (simp add: process_bank_body_def and_then_def s1(1) assms(2,3) s2(1) s3(1) vr s4(1) Let_def)
  show ?thesis
  proof (cases "bb_invalid vr = []")
    case True
    then show ?thesis using body s4(2-4) by auto
  next
    case False
    obtain bs5 b5 where "update_bank_status now bid FAILED None (db\<lparr>bu_batches := bs4\<rparr>) = Some (db\<lparr>bu_batches := bs5\<rparr>)"
        "find_batch (db\<lparr>bu_batches := bs5\<rparr>) bid = Some b5" "kb_totalRecords b5 = length ts" "kb_failedRecords b5 = length (bb_invalid vr)"
      using status_step [OF s4(2), of now FAILED] s4(3,4) unfolding store_overwrite by metis
    then show ?thesis using body False by (auto simp: and_then_def)
  qed
qed

text \<open>Validation changes the numbers of account and goal only.\<close>

lemma bank_total_is_sum: "bs_totalAmount (bank_financial_summary ts) = sum_list (map (num_or_zero \<circ> pb_totalAmount) ts)"
proof -
  have "bs_totalAmount (foldl bank_summary_step s ts) = bs_totalAmount s + sum_list (map (num_or_zero \<circ> pb_totalAmount) ts)" for s
    by (induction ts arbitrary: s) (simp_all add: bank_summary_step_def Let_def add.assoc)
  then show ?thesis by (simp add: bank_financial_summary_def)
qed

lemma validated_row:
  obtains a g where "fst (bank_row_of ck accounts goals all t) = t\<lparr>pb_accountNumber := a, pb_goalNumber := g\<rparr>"
proof -
  obtain ea a eg g where "check_entity (lookup_of (unique_numbers (map pb_accountNumber all)) accounts)
      (pb_rowNumber t) ''accountNumber'' ''ACCOUNT_NOT_FOUND'' (pb_accountNumber t) = (ea, a)"
    "check_entity (lookup_of (unique_numbers (map pb_goalNumber all)) goals)
      (pb_rowNumber t) ''goalNumber'' ''GOAL_NOT_FOUND'' (pb_goalNumber t) = (eg, g)" by fastforce
  then show thesis by (intro that [of g a]) (simp add: bank_row_of_def bank_row_result_def)
qed

lemma validated_row_numbers:
  "bank_storable (fst (bank_row_of ck accounts goals all t)) = bank_storable t"
  "pb_totalAmount (fst (bank_row_of ck accounts goals all t)) = pb_totalAmount t"
  by (rule validated_row [of ck accounts goals all t], simp add: bank_storable_def)+

lemma validated_rows:
  fixes ck :: bank_clock and accounts goals :: "string list" and ts :: "parsed_bank list"
  defines "valid \<equiv> map (\<lambda>t. fst (bank_row_of ck accounts goals ts t)) ts"
  shows "map pb_rowNumber valid = map pb_rowNumber ts" "length valid = length ts"
    "list_all bank_storable valid = list_all bank_storable ts"
    "bs_totalAmount (bank_financial_summary valid) = sum_list (map (num_or_zero \<circ> pb_totalAmount) ts)"
  by (simp_all add: valid_def bank_row_of_cases(3) validated_row_numbers list_all_iff bank_total_is_sum comp_def)

lemma finalize_outcome:
  assumes "find_batch db bid = Some b" "\<And>r. r \<in> set (bu_rows db) \<Longrightarrow> b_uploadBatchId r \<noteq> bid"
    and "list_all (\<lambda>t. bank_row_complete t \<and> pb_transactionType t \<in> set allowed_types \<and>
      pb_accountNumber t \<in> set (map ac_number (bu_accounts db)) \<and> pb_goalNumber t \<in> set (map go_number (bu_goals db))) ts"
    and "distinct (map pb_rowNumber ts)"
  shows "\<exists>e db' b' new. finalize_bank now bid ts db = (e, db') \<and> find_batch db' bid = Some b' \<and> bu_rows db' = bu_rows db @ new \<and>
    (if \<not> list_all bank_storable ts then e = Some BE_Refused \<and> new = []
     else list_all2 (stored_as db bid) ts new \<and>
       (if fits_decimal 18 2 (bs_totalAmount (bank_financial_summary ts))
        then e = None \<and> kb_processingStatus b' = COMPLETED \<and> kb_validationStatus b' = VS_PASSED \<and> kb_completedAt b' = Some now \<and>
          kb_processedRecords b' = length ts \<and> kb_totalRecords b' = kb_totalRecords b \<and> kb_failedRecords b' = kb_failedRecords b \<and>
          kb_totalAmount b' = bs_totalAmount (bank_financial_summary ts)
        else e = Some BE_Refused))"
proof (cases "list_all bank_storable ts")
  case False
  have "save_bank_transactions bid now ts db = Inl BE_Refused"
    using save_valid_rows [of db bid ts now] assms False by simp
  then show ?thesis using assms(1) False by (simp add: finalize_bank_def)
next
  case True
  obtain db2 new where save: "save_bank_transactions bid now ts db = Inr (db2, length ts)"
      "bu_rows db2 = bu_rows db @ new" "list_all2 (stored_as db bid) ts new" "bu_batches db2 = bu_batches db"
    using save_valid_rows [of db bid ts now] assms True by auto
  have found: "find_batch db2 bid = Some b" using assms(1) save(4) by (simp add: find_batch_def)
  let ?s = "bank_financial_summary ts"
  let ?f = "\<lambda>b. b\<lparr>kb_totalAmount := bs_totalAmount ?s, kb_processedRecords := length ts, kb_summary := Some ?s,
     kb_processingStatus := COMPLETED, kb_validationStatus := VS_PASSED, kb_completedAt := Some now\<rparr>"
  show ?thesis
  proof (cases "fits_decimal 18 2 (bs_totalAmount ?s)")
    case fits: True
    obtain bs3 where final: "bank_final_results now bid ?s (length ts) db2 = Some (db2\<lparr>bu_batches := bs3\<rparr>)"
        "find_batch (db2\<lparr>bu_batches := bs3\<rparr>) bid = Some (?f b)"
      using change_batch_step [OF found, of ?f] by (auto simp: bank_final_results_def)
    have "finalize_bank now bid ts db = (None, db2\<lparr>bu_batches := bs3\<rparr>)"
      by (simp add: finalize_bank_def save(1) final(1) fits and_then_def)
    then show ?thesis
      using True fits save(2,3) final(2) by (intro exI [of _ None] exI [of _ "db2\<lparr>bu_batches := bs3\<rparr>"] exI [of _ "?f b"] exI [of _ new]) simp
  next
    case False
    have "finalize_bank now bid ts db = (Some BE_Refused, db2)"
      by (simp add: finalize_bank_def save(1) found False)
    then show ?thesis
      using True False save(2,3) found by (intro exI [of _ "Some BE_Refused"] exI [of _ db2] exI [of _ b] exI [of _ new]) simp
  qed
qed

text \<open>C3: the outcome of an uploaded bank file, for the rows that the parser returns (it drops rows it cannot read). If one of
  them is not acceptable, or one has a number out of the range of its column (an amount of 17 digits, a percentage of 1000), no
  row is stored and the batch fails with its error, which replaces the validation errors saved before. If all are acceptable
  and fit, the database gets, after its old rows and in the order of the file, one pending row for each parsed row with its row number,
  amounts, fractions, names and day and the ids of its account and goal. Then the batch is completed with the counts and the
  total of the file, except if that total is out of range of its column: then the rows stay and the batch fails.\<close>

theorem bank_upload_outcome:
  assumes "find_batch db bid = Some b" "\<And>r. r \<in> set (bu_rows db) \<Longrightarrow> b_uploadBatchId r \<noteq> bid"
    and "parse_bank_upload (bp_native pl) path (bp_rows pl path) = Inr ts" "ts \<noteq> []"
  shows "\<exists>e db' b' new. process_bank_file pl now bid path db = (e, db') \<and> find_batch db' bid = Some b' \<and> bu_rows db' = bu_rows db @ new \<and>
    (if \<not> list_all (acceptable (bp_clock pl) (map ac_number (bu_accounts db)) (map go_number (bu_goals db)) ts) ts
     then new = [] \<and> (\<exists>n. e = Some (BE_Rejected n (length ts)) \<and> upload_failed now (BE_Rejected n (length ts)) b')
     else if \<not> list_all bank_storable ts
     then new = [] \<and> e = Some BE_Refused \<and> upload_failed now BE_Refused b'
     else list_all2 (\<lambda>t r. \<exists>t'. normalized (map ac_number (bu_accounts db)) (map go_number (bu_goals db)) t t' \<and> stored_as db bid t' r) ts new \<and>
       (if fits_decimal 18 2 (sum_list (map (num_or_zero \<circ> pb_totalAmount) ts))
        then e = None \<and> upload_completed now (length ts) b' \<and>
          kb_totalAmount b' = sum_list (map (num_or_zero \<circ> pb_totalAmount) ts)
        else e = Some BE_Refused \<and> upload_failed now BE_Refused b'))"
proof -
  let ?A = "map ac_number (bu_accounts db)" and ?G = "map go_number (bu_goals db)"
  let ?vr = "validate_in_db pl db ts" and ?sum = "sum_list (map (num_or_zero \<circ> pb_totalAmount) ts)"
  let ?ok = "list_all (acceptable (bp_clock pl) ?A ?G ts) ts"
  have invalid: "bb_invalid ?vr = [] \<longleftrightarrow> ?ok"
    by (simp add: validate_in_db_def validate_bank_batch_parts(2) filter_empty_conv list_all_iff)
  obtain bs b1 where s: "find_batch (db\<lparr>bu_batches := bs\<rparr>) bid = Some b1" "kb_totalRecords b1 = length ts"
      "kb_failedRecords b1 = length (bb_invalid ?vr)"
    and body: "process_bank_body pl now bid path db =
      (if bb_invalid ?vr \<noteq> [] then (Some (BE_Rejected (length (bb_invalid ?vr)) (length ts)), db\<lparr>bu_batches := bs\<rparr>)
       else finalize_bank now bid (bb_valid ?vr) (db\<lparr>bu_batches := bs\<rparr>))"
    using body_until_save [OF assms(1,3,4), of now] by metis
  let ?db = "db\<lparr>bu_batches := bs\<rparr>"
  show ?thesis
  proof (cases ?ok)
    case True
    note savable = valid_rows_savable [OF assms(3), where ck = "bp_clock pl" and accounts = ?A and goals = ?G, folded validate_in_db_def]
    have all: "filter (acceptable (bp_clock pl) ?A ?G ts) ts = ts" using True by (simp add: filter_id_conv list_all_iff)
    have valid: "bb_valid ?vr = map (\<lambda>t. fst (bank_row_of (bp_clock pl) ?A ?G ts t)) ts"
      by (simp add: validate_in_db_def validate_bank_batch_parts(1) all)
    note same = validated_rows [where ck = "bp_clock pl" and accounts = ?A and goals = ?G and ts = ts, folded valid]
    obtain e db2 b2 new where fin: "finalize_bank now bid (bb_valid ?vr) ?db = (e, db2)" "find_batch db2 bid = Some b2"
        "bu_rows db2 = bu_rows ?db @ new" and
      verdict: "if \<not> list_all bank_storable ts then e = Some BE_Refused \<and> new = []
       else list_all2 (stored_as ?db bid) (bb_valid ?vr) new \<and>
         (if fits_decimal 18 2 ?sum
          then e = None \<and> kb_processingStatus b2 = COMPLETED \<and> kb_validationStatus b2 = VS_PASSED \<and> kb_completedAt b2 = Some now \<and>
            kb_processedRecords b2 = length ts \<and> kb_totalRecords b2 = kb_totalRecords b1 \<and> kb_failedRecords b2 = kb_failedRecords b1 \<and>
            kb_totalAmount b2 = ?sum
          else e = Some BE_Refused)"
      using finalize_outcome [OF s(1), of "bb_valid ?vr" now, unfolded same] assms(2) savable
        savable(2) [unfolded same] by auto
    have stored: "list_all2 (stored_as ?db bid) = list_all2 (stored_as db bid)" by (simp add: stored_as_def [abs_def])
    have rows: "list_all2 (\<lambda>t r. \<exists>t'. normalized ?A ?G t t' \<and> stored_as db bid t' r) ts new"
      if "list_all2 (stored_as db bid) (bb_valid ?vr) new"
      using that True bank_row_of_cases(2) [of "bp_clock pl" ?A ?G ts]
      by (fastforce simp: valid list_all2_conv_all_nth list_all_length)
    show ?thesis
    proof (cases e)
      case None
      have "process_bank_file pl now bid path db = (None, db2)"
        using True invalid by (simp add: process_bank_file_def body fin(1) None)
      then show ?thesis
        using True verdict fin(2,3) rows s(2,3) invalid None unfolding stored
        by (intro exI [of _ None] exI [of _ db2] exI [of _ b2] exI [of _ new]) (auto simp: upload_completed_def split: if_splits)
    next
      case (Some e')
      obtain bs3 b3 where fail: "bank_batch_error now bid e' db2 = Some (db2\<lparr>bu_batches := bs3\<rparr>)"
          "find_batch (db2\<lparr>bu_batches := bs3\<rparr>) bid = Some b3" "upload_failed now e' b3"
        using fail_step [OF fin(2)] by metis
      have "process_bank_file pl now bid path db = (Some e', db2\<lparr>bu_batches := bs3\<rparr>)"
        using True invalid by (simp add: process_bank_file_def body fin(1) Some fail(1))
      then show ?thesis
        using True verdict fin(3) fail(2,3) rows Some unfolding stored
        by (intro exI [of _ "Some e'"] exI [of _ "db2\<lparr>bu_batches := bs3\<rparr>"] exI [of _ b3] exI [of _ new]) (auto split: if_splits)
    qed
  next
    case False
    let ?e = "BE_Rejected (length (bb_invalid ?vr)) (length ts)"
    obtain bs2 b2 where fail: "bank_batch_error now bid ?e ?db = Some (?db\<lparr>bu_batches := bs2\<rparr>)"
        "find_batch (?db\<lparr>bu_batches := bs2\<rparr>) bid = Some b2" "upload_failed now ?e b2"
      using fail_step [OF s(1)] by metis
    have "process_bank_file pl now bid path db = (Some ?e, ?db\<lparr>bu_batches := bs2\<rparr>)"
      using False invalid by (simp add: process_bank_file_def body fail(1))
    then show ?thesis
      using False fail by (intro exI [of _ "Some ?e"] exI [of _ "?db\<lparr>bu_batches := bs2\<rparr>"] exI [of _ b2] exI [of _ "[]"]) auto
  qed
qed

section \<open>Example\<close>

definition ex_upload_row :: file_row where
  "ex_upload_row = [(''Date'', ''2025-01-15''), (''First Name'', ''Ann''), (''Acc Number'', ''701''), (''Goal Number'', ''701a''),
     (''Total Amount'', ''1,000''), (''Transaction Type'', ''deposit''), (''Transaction ID'', ''T1'')]"

definition ex_bank_store :: bank_store where
  "ex_bank_store = \<lparr>bu_batches = [\<lparr>kb_id = ''b'', kb_batchNumber = ''n'', kb_fileName = ''f'', kb_filePath = ''f.csv'',
       kb_processingStatus = QUEUED, kb_validationStatus = VS_PENDING, kb_totalRecords = 0, kb_processedRecords = 0,
       kb_failedRecords = 0, kb_totalAmount = 0, kb_validationErrors = BS_None, kb_validationWarnings = [],
       kb_withWarnings = 0, kb_summary = None, kb_uploadedBy = ''u'', kb_uploadedAt = 0, kb_startedAt = None,
       kb_completedAt = None\<rparr>],
     bu_rows = [], bu_fund = [], bu_goals = [\<lparr>go_id = ''g'', go_accountId = ''a'', go_number = ''701a''\<rparr>],
     bu_accounts = [\<lparr>ac_id = ''a'', ac_clientId = ''c'', ac_number = ''701''\<rparr>], bu_clients = [], bu_next = 0\<rparr>"

definition ex_bank_pipeline :: bank_pipeline where
  "ex_bank_pipeline = \<lparr>bp_native = \<lambda>_. None, bp_rows = \<lambda>_. Some [ex_upload_row], bp_headers = \<lambda>_. None, bp_count = \<lambda>_. None,
     bp_clock = \<lparr>bk_endOfToday = 2000000000000, bk_tenYearsAgo = 0\<rparr>\<rparr>"

definition ex_parsed_bank :: parsed_bank where
  "ex_parsed_bank = \<lparr>pb_rowNumber = 1, pb_firstName = ''Ann'', pb_lastName = [], pb_accountNumber = ''701'',
     pb_goalTitle = [], pb_goalNumber = ''701a'', pb_transactionDate = Some 1736899200000, pb_transactionType = ''DEPOSIT'',
     pb_transactionId = ''T1'', pb_totalAmount = Some 1000, pb_xummfPercentage = Some 0, pb_xubfPercentage = Some 0,
     pb_xudefPercentage = Some 0, pb_xurefPercentage = Some 0, pb_xummfAmount = Some 0, pb_xubfAmount = Some 0,
     pb_xudefAmount = Some 0, pb_xurefAmount = Some 0\<rparr>"

lemma ex_parsed: "parse_bank_upload (bp_native ex_bank_pipeline) ''f.csv'' (bp_rows ex_bank_pipeline ''f.csv'') = Inr [ex_parsed_bank]"
  by code_simp

lemma ex_acceptable: "acceptable (bp_clock ex_bank_pipeline) [''701''] [''701a''] [ex_parsed_bank] ex_parsed_bank"
  by (simp add: acceptable_def fields_ok_def known_def ex_parsed_bank_def ex_bank_pipeline_def allowed_types_def
      to_upper_def upper_char_def)

theorem bank_upload_outcome_witness:
  "\<exists>db' new. process_bank_file ex_bank_pipeline 9 ''b'' ''f.csv'' ex_bank_store = (None, db') \<and> bu_rows db' = new \<and>
     map b_rowNumber new = [1]"
proof -
  have "find_batch ex_bank_store ''b'' = Some (hd (bu_batches ex_bank_store))" "bu_rows ex_bank_store = []"
    "map ac_number (bu_accounts ex_bank_store) = [''701'']" "map go_number (bu_goals ex_bank_store) = [''701a'']"
    by (simp_all add: ex_bank_store_def find_batch_def)
  moreover have "bank_storable ex_parsed_bank" "fits_decimal 18 2 1000" "pb_totalAmount ex_parsed_bank = Some 1000"
    by (simp_all add: bank_storable_def ex_parsed_bank_def number_fits_def fits_decimal_def)
  ultimately show ?thesis
    using bank_upload_outcome [of ex_bank_store "''b''", OF _ _ ex_parsed, of "hd (bu_batches ex_bank_store)" 9] ex_acceptable
    by (auto simp: num_or_zero_def list_all2_Cons1 normalized_def stored_as_def ex_parsed_bank_def)
qed

end
