(* ===== verification/BankReconcile.thy ===== *)
theory BankReconcile
  imports BankStore BankMatcher
begin

text \<open>
  The reconciling half of \<open>BankTransactionRepository\<close>: a run takes the oldest pending bank transactions, compares each
  with the fund transactions of its goal and transaction id and writes status, code and score. The verdict on one
  transaction is compared with the one of \<open>BankReconciliationMatcher\<close>.
\<close>

section \<open>One transaction\<close>

definition fund_rows_for :: "bank_store \<Rightarrow> stored_bank \<Rightarrow> fund_txn list" where
  "fund_rows_for db r =
     filter (\<lambda>f. fund_of_goal (as_database db) (b_goalNumber r) f \<and> f_transactionId f = Some (b_transactionId r)) (bu_fund db)"

definition recon_tolerance :: "money \<Rightarrow> money" where
  "recon_tolerance fundTotal = max (\<bar>fundTotal\<bar> * (1 / 100)) 1000"

interpretation recon_tol: tolerance_policy recon_tolerance 1000
  by unfold_locales (simp_all add: recon_tolerance_def)

text \<open>\<open>fundChecks\<close> with \<open>fundAmounts[code] || 0\<close>.\<close>

definition fund_checks :: "stored_bank \<Rightarrow> (string \<times> money) list" where
  "fund_checks r = [(''XUMMF'', b_xummfAmount r), (''XUBF'', b_xubfAmount r), (''XUDEF'', b_xudefAmount r), (''XUREF'', b_xurefAmount r)]"

definition minor_variance :: "fund_txn list \<Rightarrow> string \<times> money \<Rightarrow> bool" where
  "minor_variance fts check =
     (let fundAmount = (case map_get (fund_amounts fts) (fst check) of None \<Rightarrow> 0 | Some a \<Rightarrow> a);
          diff = \<bar>snd check - fundAmount\<bar>
      in diff > 1000 \<and> diff / max fundAmount 1 > 1 / 100)"

definition has_minor_variances :: "fund_txn list \<Rightarrow> stored_bank \<Rightarrow> bool" where
  "has_minor_variances fts r = list_ex (minor_variance fts) (fund_checks r)"

text \<open>The status, the code and the score a transaction gets.\<close>

definition recon_verdict :: "fund_txn list \<Rightarrow> stored_bank \<Rightarrow> reconciliation_status \<times> string option \<times> int" where
  "recon_verdict fts r =
     (case fts of
        [] \<Rightarrow> (RS_MISSING_IN_FUND, None, 0)
      | ft # _ \<Rightarrow>
          (let fundTotal = sum_list (map f_amount fts); code = Some (f_goalTransactionCode ft)
           in if \<not> \<bar>b_totalAmount r - fundTotal\<bar> \<le> recon_tolerance fundTotal then (RS_VARIANCE_DETECTED, code, 50)
              else if has_minor_variances fts r then (RS_AUTO_APPROVED, code, 90)
              else (RS_MATCHED, code, 100)))"

text \<open>A transaction without counterpart keeps its code and the time of an earlier match.\<close>

definition apply_verdict :: "instant \<Rightarrow> reconciliation_status \<times> string option \<times> int \<Rightarrow> stored_bank \<Rightarrow> stored_bank" where
  "apply_verdict now v r =
     (case v of (st, code, score) \<Rightarrow>
       (if st = RS_MISSING_IN_FUND
        then r\<lparr>b_reconciliationStatus := st, b_matchScore := Some score, b_updatedAt := now\<rparr>
        else r\<lparr>b_reconciliationStatus := st, b_matchedGoalTransactionCode := code, b_matchedAt := Some now,
               b_matchScore := Some score, b_updatedAt := now\<rparr>))"

section \<open>A run\<close>

record recon_counts =
  rc_processed :: nat
  rc_matched :: nat
  rc_unmatched :: nat
  rc_autoApproved :: nat
  rc_manualReview :: nat

definition count_verdict :: "reconciliation_status \<Rightarrow> recon_counts \<Rightarrow> recon_counts" where
  "count_verdict st c =
     (let c1 = (if st = RS_MISSING_IN_FUND then c\<lparr>rc_unmatched := rc_unmatched c + 1\<rparr>
                else if st = RS_VARIANCE_DETECTED then c\<lparr>rc_manualReview := rc_manualReview c + 1\<rparr>
                else if st = RS_AUTO_APPROVED
                then c\<lparr>rc_autoApproved := rc_autoApproved c + 1, rc_matched := rc_matched c + 1\<rparr>
                else c\<lparr>rc_matched := rc_matched c + 1\<rparr>)
      in c1\<lparr>rc_processed := rc_processed c1 + 1\<rparr>)"

definition recon_step :: "instant \<Rightarrow> bank_store \<times> recon_counts \<Rightarrow> stored_bank \<Rightarrow> bank_store \<times> recon_counts" where
  "recon_step now s r =
     (case s of (db, c) \<Rightarrow>
       (let v = recon_verdict (fund_rows_for db r) r
        in (db\<lparr>bu_rows := update_where (\<lambda>x. b_id x = b_id r) (apply_verdict now v) (bu_rows db)\<rparr>, count_verdict (fst v) c)))"

record recon_result =
  rr_counts :: recon_counts
  rr_totalPending :: nat
  rr_hasMore :: bool

definition pending_rows :: "row_id list option \<Rightarrow> bank_store \<Rightarrow> stored_bank list" where
  "pending_rows ids db =
     filter (\<lambda>r. b_reconciliationStatus r = RS_PENDING \<and>
       (case ids of None \<Rightarrow> True | Some xs \<Rightarrow> xs = [] \<or> b_id r \<in> set xs)) (bu_rows db)"

definition run_reconciliation :: "instant \<Rightarrow> row_id list option \<Rightarrow> nat \<Rightarrow> bank_store \<Rightarrow> bank_store \<times> recon_result" where
  "run_reconciliation now ids batchSize db =
     (let pending = pending_rows ids db;
          batch = take batchSize (sort_key b_transactionDate (sort_key b_createdAt pending));
          (db', c) = foldl (recon_step now)
            (db, \<lparr>rc_processed = 0, rc_matched = 0, rc_unmatched = 0, rc_autoApproved = 0, rc_manualReview = 0\<rparr>) batch
      in (db', \<lparr>rr_counts = c, rr_totalPending = length pending, rr_hasMore = (length pending > batchSize)\<rparr>))"

definition default_batch_size :: nat where
  "default_batch_size = 2000"

section \<open>Statistics\<close>

record recon_stats =
  rs_total :: nat
  rs_pending :: nat
  rs_matched :: nat
  rs_autoApproved :: nat
  rs_manualReview :: nat
  rs_approved :: nat
  rs_rejected :: nat
  rs_missingInFund :: nat
  rs_varianceDetected :: nat

definition status_count :: "reconciliation_status \<Rightarrow> bank_store \<Rightarrow> nat" where
  "status_count st db = count_where (\<lambda>r. b_reconciliationStatus r = st) (bu_rows db)"

definition reconciliation_stats :: "bank_store \<Rightarrow> recon_stats" where
  "reconciliation_stats db =
     \<lparr>rs_total = length (bu_rows db), rs_pending = status_count RS_PENDING db, rs_matched = status_count RS_MATCHED db,
      rs_autoApproved = status_count RS_AUTO_APPROVED db, rs_manualReview = status_count RS_MANUAL_REVIEW db,
      rs_approved = status_count RS_APPROVED db, rs_rejected = status_count RS_REJECTED db,
      rs_missingInFund = status_count RS_MISSING_IN_FUND db, rs_varianceDetected = status_count RS_VARIANCE_DETECTED db\<rparr>"

section \<open>The verdict\<close>

lemma verdict_status:
  "fst (recon_verdict fts r) \<in> {RS_MISSING_IN_FUND, RS_VARIANCE_DETECTED, RS_AUTO_APPROVED, RS_MATCHED}"
  by (simp add: recon_verdict_def Let_def split: list.split)

lemma verdict_not_pending [simp]: "fst (recon_verdict fts r) \<noteq> RS_PENDING"
  using verdict_status [of fts r] by auto

lemma apply_verdict_fields [simp]:
  "b_id (apply_verdict now v r) = b_id r" "b_reconciliationStatus (apply_verdict now v r) = fst v"
  "b_goalNumber (apply_verdict now v r) = b_goalNumber r" "b_transactionId (apply_verdict now v r) = b_transactionId r"
  "b_totalAmount (apply_verdict now v r) = b_totalAmount r"
  by (simp_all add: apply_verdict_def split: prod.split)

text \<open>The verdict does not depend on the bank rows, which the run changes.\<close>

definition verdict_in :: "bank_store \<Rightarrow> stored_bank \<Rightarrow> reconciliation_status \<times> string option \<times> int" where
  "verdict_in db r = recon_verdict (fund_rows_for db r) r"

lemma verdict_frame [simp]: "verdict_in (db\<lparr>bu_rows := rows\<rparr>) r = verdict_in db r"
  by (simp add: verdict_in_def fund_rows_for_def as_database_def fund_of_goal_def)

section \<open>What a run does\<close>

text \<open>The rows after a run on the chosen ones.\<close>

definition reconciled :: "instant \<Rightarrow> bank_store \<Rightarrow> row_id set \<Rightarrow> stored_bank \<Rightarrow> stored_bank" where
  "reconciled now db chosen r = (if b_id r \<in> chosen then apply_verdict now (verdict_in db r) r else r)"

lemma recon_fold:
  assumes "distinct (map b_id (bu_rows db))" "set batch \<subseteq> set (bu_rows db)" "distinct (map b_id batch)"
  shows "fst (foldl (recon_step now) (db, c) batch) =
      db\<lparr>bu_rows := map (reconciled now db (b_id ` set batch)) (bu_rows db)\<rparr>"
proof -
  have general: "fst (foldl (recon_step now) (db\<lparr>bu_rows := map (reconciled now db done) (bu_rows db)\<rparr>, c) batch) =
      db\<lparr>bu_rows := map (reconciled now db (done \<union> b_id ` set batch)) (bu_rows db)\<rparr>"
    if "done \<inter> b_id ` set batch = {}" "set batch \<subseteq> set (bu_rows db)" "distinct (map b_id batch)" for "done" batch c
    using that
  proof (induction batch arbitrary: "done" c)
    case (Cons r rs)
    have r: "r \<in> set (bu_rows db)" "b_id r \<notin> done" using Cons.prems by auto
    have same: "x = r" if "x \<in> set (bu_rows db)" "b_id x = b_id r" for x
      using assms(1) that r(1) by (auto simp: distinct_map dest: inj_onD)
    have row: "(if b_id (reconciled now db done x) = b_id r then apply_verdict now (verdict_in db r) (reconciled now db done x)
        else reconciled now db done x) = reconciled now db (insert (b_id r) done) x" if "x \<in> set (bu_rows db)" for x
      using same [OF that] r(2) by (auto simp: reconciled_def)
    have "update_where (\<lambda>x. b_id x = b_id r) (apply_verdict now (verdict_in db r)) (map (reconciled now db done) (bu_rows db))
        = map (reconciled now db (insert (b_id r) done)) (bu_rows db)"
      unfolding update_where_def map_map comp_def using row by (intro map_cong refl) simp
    then have step: "recon_step now (db\<lparr>bu_rows := map (reconciled now db done) (bu_rows db)\<rparr>, c) r =
        (db\<lparr>bu_rows := map (reconciled now db (insert (b_id r) done)) (bu_rows db)\<rparr>, count_verdict (fst (verdict_in db r)) c)"
      by (simp add: recon_step_def verdict_in_def [symmetric])
    show ?case
      using Cons.IH [of "insert (b_id r) done"] Cons.prems by (simp add: step)
  qed simp
  have "map (reconciled now db {}) (bu_rows db) = bu_rows db" by (simp add: reconciled_def map_idI)
  then have "db\<lparr>bu_rows := map (reconciled now db {}) (bu_rows db)\<rparr> = db" by simp
  then show ?thesis using general [of "{}" batch c] assms by simp
qed

text \<open>The transactions a run takes: the oldest pending ones.\<close>

definition recon_batch :: "row_id list option \<Rightarrow> nat \<Rightarrow> bank_store \<Rightarrow> stored_bank list" where
  "recon_batch ids batchSize db = take batchSize (sort_key b_transactionDate (sort_key b_createdAt (pending_rows ids db)))"

lemma count_fold:
  "let c' = snd (foldl (recon_step now) (db, c) batch)
   in rc_processed c' = rc_processed c + length batch
    \<and> rc_matched c' + rc_unmatched c' + rc_manualReview c' = rc_matched c + rc_unmatched c + rc_manualReview c + length batch
    \<and> rc_autoApproved c' + rc_matched c \<le> rc_matched c' + rc_autoApproved c"
proof (induction batch arbitrary: db c)
  case (Cons r rs)
  obtain db1 c1 where step: "recon_step now (db, c) r = (db1, c1)" by fastforce
  then have "c1 = count_verdict (fst (recon_verdict (fund_rows_for db r) r)) c" by (auto simp: recon_step_def Let_def)
  then have "rc_processed c1 = rc_processed c + 1
      \<and> rc_matched c1 + rc_unmatched c1 + rc_manualReview c1 = rc_matched c + rc_unmatched c + rc_manualReview c + 1
      \<and> rc_autoApproved c1 + rc_matched c \<le> rc_matched c1 + rc_autoApproved c"
    by (simp add: count_verdict_def Let_def)
  then show ?case using Cons.IH [of db1 c1] by (simp add: Let_def step)
qed simp

lemma distinct_pending: "distinct (map b_id (bu_rows db)) \<Longrightarrow> distinct (map b_id (pending_rows ids db))"
  unfolding pending_rows_def by (rule distinct_map_filter)

lemma recon_batch_facts:
  assumes "distinct (map b_id (bu_rows db))"
  shows "set (recon_batch ids n db) \<subseteq> set (pending_rows ids db)" (is ?sub)
    and "distinct (map b_id (recon_batch ids n db))" (is ?dist)
    and "length (recon_batch ids n db) = min n (length (pending_rows ids db))" (is ?len)
proof -
  let ?s = "sort_key b_transactionDate (sort_key b_createdAt (pending_rows ids db))"
  have perm: "mset ?s = mset (pending_rows ids db)" by simp
  show ?sub using set_take_subset [of n ?s] unfolding recon_batch_def by simp
  have "distinct (map b_id ?s)"
    using distinct_pending [OF assms] perm by (metis mset_map mset_eq_imp_distinct_iff)
  then show ?dist unfolding recon_batch_def by (simp add: take_map [symmetric] distinct_take)
  show ?len by (simp add: recon_batch_def)
qed

lemma run_rows:
  assumes "distinct (map b_id (bu_rows db))"
  shows "fst (run_reconciliation now ids n db) =
    db\<lparr>bu_rows := map (reconciled now db (b_id ` set (recon_batch ids n db))) (bu_rows db)\<rparr>"
proof -
  have "set (recon_batch ids n db) \<subseteq> set (bu_rows db)"
    using recon_batch_facts(1) [OF assms] by (auto simp: pending_rows_def)
  then show ?thesis
    using recon_fold [OF assms _ recon_batch_facts(2) [OF assms], of ids n now]
    by (simp add: run_reconciliation_def Let_def recon_batch_def split: prod.split) (metis fst_conv)
qed

lemma pending_reconciled:
  assumes "distinct (map b_id (bu_rows db))" "chosen \<subseteq> b_id ` set (pending_rows ids db)"
  shows "pending_rows ids (db\<lparr>bu_rows := map (reconciled now db chosen) (bu_rows db)\<rparr>) =
    filter (\<lambda>r. b_id r \<notin> chosen) (pending_rows ids db)"
proof -
  have "filter (\<lambda>r. b_reconciliationStatus r = RS_PENDING \<and> Q (b_id r)) (map (reconciled now db chosen) rows) =
      filter (\<lambda>r. b_id r \<notin> chosen) (filter (\<lambda>r. b_reconciliationStatus r = RS_PENDING \<and> Q (b_id r)) rows)" for Q rows
    by (induction rows) (auto simp: reconciled_def verdict_in_def)
  from this [of "\<lambda>i. case ids of None \<Rightarrow> True | Some xs \<Rightarrow> xs = [] \<or> i \<in> set xs"] show ?thesis
    by (simp add: pending_rows_def)
qed

lemma run_pending:
  assumes "distinct (map b_id (bu_rows db))"
  shows "pending_rows ids (fst (run_reconciliation now ids n db)) =
    filter (\<lambda>r. b_id r \<notin> b_id ` set (recon_batch ids n db)) (pending_rows ids db)"
  unfolding run_rows [OF assms]
  using recon_batch_facts(1) [OF assms] by (intro pending_reconciled assms) auto

lemma length_filter_outside:
  assumes "distinct (map f xs)" "distinct (map f ys)" "set ys \<subseteq> set xs"
  shows "length (filter (\<lambda>x. f x \<notin> f ` set ys) xs) = length xs - length ys"
proof -
  have inj: "inj_on f (set xs)" using assms(1) by (simp add: distinct_map)
  have "length (filter (\<lambda>x. f x \<notin> f ` set ys) xs) = card (set (filter (\<lambda>x. f x \<notin> f ` set ys) xs))"
    by (rule distinct_card [symmetric]) (use assms(1) in \<open>simp add: distinct_map\<close>)
  also have "set (filter (\<lambda>x. f x \<notin> f ` set ys) xs) = set xs - set ys"
    using inj assms(3) by (auto dest: inj_onD)
  also have "card (set xs - set ys) = card (set xs) - card (set ys)" using assms(3) by (simp add: card_Diff_subset)
  finally show ?thesis using assms(1,2) by (simp add: distinct_map distinct_card)
qed

lemma run_pending_length:
  assumes "distinct (map b_id (bu_rows db))"
  shows "length (pending_rows ids (fst (run_reconciliation now ids n db))) = length (pending_rows ids db) - n"
  unfolding run_pending [OF assms]
  using length_filter_outside [OF distinct_pending [OF assms] recon_batch_facts(2) [OF assms] recon_batch_facts(1) [OF assms]]
    recon_batch_facts(3) [OF assms, of ids n]
  by (simp add: min_def split: if_splits)

section \<open>Properties\<close>

text \<open>C4: a reconciliation run takes the oldest pending transactions up to the batch size, writes to exactly those
  the verdict computed from the fund transactions, and counts every one of them as matched, unmatched or for manual
  review; what it left pending is the difference, and it reports more to do exactly when something is left.\<close>

theorem run_reconciliation_correct:
  assumes "distinct (map b_id (bu_rows db))"
  shows "let (db', r) = run_reconciliation now ids n db; c = rr_counts r
    in db' = db\<lparr>bu_rows := map (reconciled now db (b_id ` set (recon_batch ids n db))) (bu_rows db)\<rparr>
     \<and> rc_processed c = min n (rr_totalPending r)
     \<and> rc_matched c + rc_unmatched c + rc_manualReview c = rc_processed c
     \<and> rc_autoApproved c \<le> rc_matched c
     \<and> length (pending_rows ids db') + rc_processed c = rr_totalPending r
     \<and> (rr_hasMore r = (pending_rows ids db' \<noteq> []))"
proof -
  obtain db' r where run: "run_reconciliation now ids n db = (db', r)" by fastforce
  let ?z = "\<lparr>rc_processed = 0, rc_matched = 0, rc_unmatched = 0, rc_autoApproved = 0, rc_manualReview = 0\<rparr>"
  have r: "rr_counts r = snd (foldl (recon_step now) (db, ?z) (recon_batch ids n db))"
    "rr_totalPending r = length (pending_rows ids db)" "rr_hasMore r = (length (pending_rows ids db) > n)"
    using run by (auto simp: run_reconciliation_def recon_batch_def Let_def split: prod.splits)
  have left: "length (pending_rows ids db') = length (pending_rows ids db) - n"
    using run_pending_length [OF assms, of ids now n] run by simp
  have "(rr_hasMore r = (pending_rows ids db' \<noteq> []))"
    using left r(3) by (cases "pending_rows ids db'") auto
  moreover have "db' = db\<lparr>bu_rows := map (reconciled now db (b_id ` set (recon_batch ids n db))) (bu_rows db)\<rparr>"
    using run_rows [OF assms, of now ids n] run by simp
  ultimately show ?thesis
    using count_fold [of now db ?z "recon_batch ids n db"] left r(2) recon_batch_facts(3) [OF assms, of ids n]
    by (simp add: run Let_def r(1) [symmetric])
qed

text \<open>Repeated runs, as the background job of the upload page makes them.\<close>

fun recon_runs :: "instant \<Rightarrow> row_id list option \<Rightarrow> nat \<Rightarrow> nat \<Rightarrow> bank_store \<Rightarrow> bank_store" where
  "recon_runs now ids n 0 db = db"
| "recon_runs now ids n (Suc k) db = recon_runs now ids n k (fst (run_reconciliation now ids n db))"

lemma reconciled_twice:
  "reconciled now (db\<lparr>bu_rows := rows\<rparr>) (P - C) \<circ> reconciled now db C = reconciled now db (C \<union> P)"
  by (rule ext) (auto simp: reconciled_def)

lemma recon_runs_rows:
  assumes "distinct (map b_id (bu_rows db))" "length (pending_rows ids db) \<le> k * n"
  shows "recon_runs now ids n k db = db\<lparr>bu_rows := map (reconciled now db (b_id ` set (pending_rows ids db))) (bu_rows db)\<rparr>"
  using assms
proof (induction k arbitrary: db)
  case 0
  have "map (reconciled now db {}) (bu_rows db) = bu_rows db" by (simp add: reconciled_def map_idI)
  then have "db\<lparr>bu_rows := map (reconciled now db {}) (bu_rows db)\<rparr> = db" by simp
  then show ?case using 0 by simp
next
  case (Suc k)
  define C where "C = b_id ` set (recon_batch ids n db)"
  define db1 where "db1 = fst (run_reconciliation now ids n db)"
  have db1: "db1 = db\<lparr>bu_rows := map (reconciled now db C) (bu_rows db)\<rparr>"
    using run_rows [OF Suc.prems(1), of now ids n] by (simp add: db1_def C_def)
  have ids_kept: "map b_id (bu_rows db1) = map b_id (bu_rows db)" by (simp add: db1 reconciled_def)
  have "length (pending_rows ids db1) \<le> k * n"
    using run_pending_length [OF Suc.prems(1), of ids now n] Suc.prems(2) by (simp add: db1_def)
  then have IH: "recon_runs now ids n k db1 =
      db1\<lparr>bu_rows := map (reconciled now db1 (b_id ` set (pending_rows ids db1))) (bu_rows db1)\<rparr>"
    using Suc.IH Suc.prems(1) by (simp add: ids_kept)
  have sub: "C \<subseteq> b_id ` set (pending_rows ids db)"
    using recon_batch_facts(1) [OF Suc.prems(1), of ids n] by (auto simp: C_def)
  have "b_id ` set (pending_rows ids db1) = b_id ` set (pending_rows ids db) - C"
    using run_pending [OF Suc.prems(1), of ids now n] by (auto simp: db1_def C_def)
  then show ?case
    using IH sub by (simp add: db1_def [symmetric]) (simp add: db1 reconciled_twice Un_absorb1)
qed

text \<open>C12: repeating runs finishes. After enough of them every transaction that was pending carries its verdict,
  whatever the batch size, so the result does not depend on how the work was divided.\<close>

theorem repeated_runs_reconcile_everything:
  assumes "distinct (map b_id (bu_rows db))" "length (pending_rows ids db) \<le> k * n"
  shows "recon_runs now ids n k db = db\<lparr>bu_rows := map (reconciled now db (b_id ` set (pending_rows ids db))) (bu_rows db)\<rparr>
    \<and> pending_rows ids (recon_runs now ids n k db) = []"
  using recon_runs_rows [OF assms, of now] pending_reconciled [OF assms(1) order_refl, of ids now] by simp

section \<open>Compared with the matcher\<close>

text \<open>A stored transaction as the matcher would be given it.\<close>

definition matcher_view :: "stored_bank \<Rightarrow> matcher_input" where
  "matcher_view r = \<lparr>mi_goalNumber = b_goalNumber r, mi_transactionId = b_transactionId r, mi_totalAmount = b_totalAmount r,
     mi_transactionDate = b_transactionDate r, mi_xummfAmount = b_xummfAmount r, mi_xubfAmount = b_xubfAmount r,
     mi_xudefAmount = b_xudefAmount r, mi_xurefAmount = b_xurefAmount r\<rparr>"

lemma same_fund_rows: "matching_fund_rows (as_database db) (matcher_view r) = fund_rows_for db r"
  by (simp add: matching_fund_rows_def fund_rows_for_def matcher_view_def as_database_def)

lemma same_tolerance: "amounts_match default_tolerance a b \<longleftrightarrow> \<bar>a - b\<bar> \<le> recon_tolerance b"
  by (simp add: amounts_match_def amount_allowance_def default_tolerance_def recon_tolerance_def)

lemma view_amount [simp]: "mi_totalAmount (matcher_view r) = b_totalAmount r"
  by (simp add: matcher_view_def)

lemma determined: "fst (determine_status vs) \<in> {RS_MATCHED, RS_AUTO_APPROVED, RS_MANUAL_REVIEW}"
  by (simp add: status_cases)

text \<open>C13: a reconciliation run and the matcher agree on what has no fund transaction and on what differs in total, and
  on the goal transaction code. What the matcher matches, approves or sends to manual review is matched or
  auto-approved by the run, which never asks for a review of the split.\<close>

theorem run_agrees_with_matcher:
  fixes db :: bank_store and r :: stored_bank
  defines "m \<equiv> match_transaction default_tolerance (as_database db) (matcher_view r)"
  shows "(fst (verdict_in db r) = RS_MISSING_IN_FUND \<longleftrightarrow> mr_status m = RS_MISSING_IN_FUND)
    \<and> (fst (verdict_in db r) = RS_VARIANCE_DETECTED \<longleftrightarrow> mr_status m = RS_VARIANCE_DETECTED)
    \<and> (fst (verdict_in db r) \<in> {RS_MATCHED, RS_AUTO_APPROVED}
        \<longleftrightarrow> mr_status m \<in> {RS_MATCHED, RS_AUTO_APPROVED, RS_MANUAL_REVIEW})
    \<and> fst (snd (verdict_in db r)) = mr_goalTransactionCode m"
proof (cases "fund_rows_for db r")
  case Nil
  then show ?thesis
    by (simp add: m_def match_transaction_def same_fund_rows verdict_in_def recon_verdict_def)
next
  case (Cons ft rest)
  then show ?thesis
    using determined [of "detect_variances default_tolerance (matcher_view r) (ft # rest)"]
    by (auto simp: m_def match_transaction_def same_fund_rows verdict_in_def recon_verdict_def Let_def same_tolerance)
qed

lemma severe_variance:
  assumes "code \<in> set fund_codes" "map_get (fund_amounts fts) code = Some x" "x \<noteq> 0"
    and "\<bar>bank_fund_amount bank code - x\<bar> \<ge> 10000" "\<bar>bank_fund_amount bank code - x\<bar> > \<bar>x\<bar> / 100"
  shows "\<exists>v \<in> set (detect_variances default_tolerance bank fts). dv_severity v = VS_CRITICAL \<or> dv_severity v = VS_HIGH"
proof -
  have "\<bar>bank_fund_amount bank code - x\<bar> / \<bar>x\<bar> > 1 / 100" using assms(3,5) by (simp add: field_simps)
  then have "\<exists>v \<in> set (fund_variance default_tolerance code (bank_fund_amount bank code) x).
      dv_severity v = VS_CRITICAL \<or> dv_severity v = VS_HIGH"
    using assms(3,4) by (simp add: fund_variance_def Let_def default_tolerance_def amount_severity_def)
  then show ?thesis using assms(1,2) by (force simp: detect_variances_def)
qed

lemma view_fund_amount: "code \<in> set fund_codes \<Longrightarrow> (code, bank_fund_amount (matcher_view r) code) \<in> set (fund_checks r)"
  by (auto simp: fund_codes_def fund_checks_def bank_fund_amount_def matcher_view_def)

text \<open>A transaction that agrees with the fund side in total but puts the money into the wrong funds is sent to manual
  review by the matcher and is auto-approved with score 90 by a reconciliation run.\<close>

theorem wrong_split_auto_approved:
  assumes "fund_rows_for db r \<noteq> []" "\<bar>b_totalAmount r - sum_list (map f_amount (fund_rows_for db r))\<bar> \<le> 1000"
    and "code \<in> set fund_codes" "map_get (fund_amounts (fund_rows_for db r)) code = Some x" "x \<ge> 1"
    and "\<bar>bank_fund_amount (matcher_view r) code - x\<bar> \<ge> 10000" "\<bar>bank_fund_amount (matcher_view r) code - x\<bar> > x / 100"
  shows "mr_status (match_transaction default_tolerance (as_database db) (matcher_view r)) = RS_MANUAL_REVIEW
    \<and> verdict_in db r = (RS_AUTO_APPROVED, Some (f_goalTransactionCode (hd (fund_rows_for db r))), 90)"
proof -
  obtain ft rest where fts: "fund_rows_for db r = ft # rest" using assms(1) by (cases "fund_rows_for db r") auto
  let ?total = "sum_list (map f_amount (fund_rows_for db r))"
  have tol: "\<bar>b_totalAmount r - ?total\<bar> \<le> recon_tolerance ?total" using assms(2) by (simp add: recon_tolerance_def)
  have "\<exists>v \<in> set (detect_variances default_tolerance (matcher_view r) (fund_rows_for db r)).
      dv_severity v = VS_CRITICAL \<or> dv_severity v = VS_HIGH"
    using assms(5-7) by (intro severe_variance [OF assms(3,4)]) auto
  then have status: "fst (determine_status (detect_variances default_tolerance (matcher_view r) (fund_rows_for db r))) = RS_MANUAL_REVIEW"
    by (auto simp: determine_status_def)
  have "minor_variance (fund_rows_for db r) (code, bank_fund_amount (matcher_view r) code)"
    using assms(4-7) by (simp add: minor_variance_def Let_def max_def field_simps)
  then have minor: "has_minor_variances (fund_rows_for db r) r"
    using view_fund_amount [OF assms(3)] by (auto simp: has_minor_variances_def list_ex_iff)
  show ?thesis
    using tol status minor fts
    by (simp add: match_transaction_def same_fund_rows same_tolerance verdict_in_def recon_verdict_def Let_def)
qed

section \<open>Examples\<close>

definition ex_stored_bank :: "row_id \<Rightarrow> string \<Rightarrow> int \<Rightarrow> money \<Rightarrow> money \<Rightarrow> stored_bank" where
  "ex_stored_bank i txid day xummf xubf = bank_txn.extend
     ((ex_bank i txid day (xummf + xubf) None)\<lparr>b_xummfAmount := xummf, b_xubfAmount := xubf, b_reconciliationStatus := RS_PENDING\<rparr>)
     \<lparr>sb_firstName = ''A'', sb_lastName = ''B'', sb_goalTitle = ''T'', sb_xummfPercentage = 0, sb_xubfPercentage = 0,
      sb_xudefPercentage = 0, sb_xurefPercentage = 0\<rparr>"

definition ex_recon_store :: bank_store where
  "ex_recon_store = \<lparr>bu_batches = [],
     bu_rows = [ex_stored_bank ''r1'' ''Q3'' 91 0 50000, ex_stored_bank ''r2'' ''Q3'' 90 50000 0, ex_stored_bank ''r3'' ''none'' 80 100 0],
     bu_fund = db_fund ex_db, bu_goals = db_goals ex_db, bu_accounts = db_accounts ex_db, bu_clients = db_clients ex_db, bu_next = 1\<rparr>"

lemma ex_recon_ids: "distinct (map b_id (bu_rows ex_recon_store))"
  by code_simp

lemma ex_recon_pending: "length (pending_rows None ex_recon_store) = 3"
  by code_simp

theorem run_reconciliation_correct_witness:
  "rc_processed (rr_counts (snd (run_reconciliation 0 None 2 ex_recon_store))) = min 2 (rr_totalPending (snd (run_reconciliation 0 None 2 ex_recon_store)))"
  using run_reconciliation_correct [OF ex_recon_ids, of 0 None 2] by (simp add: Let_def split: prod.splits)

theorem repeated_runs_reconcile_everything_witness:
  "pending_rows None (recon_runs 0 None 2 2 ex_recon_store) = []"
  by (rule repeated_runs_reconcile_everything [OF ex_recon_ids, of None 2 2 0, THEN conjunct2]) (simp add: ex_recon_pending)

theorem wrong_split_auto_approved_witness:
  "verdict_in ex_recon_store (ex_stored_bank ''r1'' ''Q3'' 91 0 50000) = (RS_AUTO_APPROVED, Some ''c3'', 90)"
proof -
  let ?r = "ex_stored_bank ''r1'' ''Q3'' 91 0 50000"
  have rows: "fund_rows_for ex_recon_store ?r = [ex_fund ''f4'' ''c3'' ''Q3'' 90 50000]" by code_simp
  have "b_totalAmount ?r = 50000" "bank_fund_amount (matcher_view ?r) ''XUMMF'' = 0"
    "map_get (fund_amounts [ex_fund ''f4'' ''c3'' ''Q3'' 90 50000]) ''XUMMF'' = Some 50000" "f_amount (ex_fund ''f4'' ''c3'' ''Q3'' 90 50000) = 50000"
    "f_goalTransactionCode (ex_fund ''f4'' ''c3'' ''Q3'' 90 50000) = ''c3''"
    by code_simp+
  then show ?thesis
    using wrong_split_auto_approved [of ex_recon_store ?r "''XUMMF''" 50000] by (simp add: rows fund_codes_def)
qed

end
