(* ===== verification/VarianceResolution.thy ===== *)
theory VarianceResolution
  imports VarianceList Calendar
begin

text \<open>
  \<open>VarianceResolutionService\<close>: reviewed transactions tagged as missing on the other side, or as dated apart, are looked up
  again after an upload, and those that have found a counterpart are marked as resolved. \<open>LIMIT 1\<close> without an order
  may return any row: the parameter \<open>pick\<close> chooses a position from the number of rows.
\<close>

section \<open>Looking for a counterpart\<close>

type_synonym day_range = "(int \<times> int) option"

definition in_range :: "day_range \<Rightarrow> instant \<Rightarrow> bool" where
  "in_range period t = (case period of None \<Rightarrow> True | Some (s, e) \<Rightarrow> in_days s e t)"

definition resolution_allowance :: "money \<Rightarrow> money" where
  "resolution_allowance amount = max (\<bar>amount\<bar> * (1 / 100)) 1000"

interpretation resolution_tol: tolerance_policy resolution_allowance 1000
  by unfold_locales (simp_all add: resolution_allowance_def)

text \<open>What the finders are given.\<close>

record sought =
  so_goal :: string
  so_txnId :: "string option"
  so_type :: transaction_type
  so_amount :: money
  so_date :: instant

definition limit_one :: "(nat \<Rightarrow> nat) \<Rightarrow> 'a list \<Rightarrow> 'a option" where
  "limit_one pick xs = (if xs = [] then None else Some (xs ! (pick (length xs) mod length xs)))"

definition near :: "int \<Rightarrow> sought \<Rightarrow> instant \<Rightarrow> bool" where
  "near days q t = (so_date q - days * ms_per_day \<le> t \<and> t \<le> so_date q + days * ms_per_day)"

definition goal_candidate :: "database \<Rightarrow> sought \<Rightarrow> fund_txn \<Rightarrow> bool" where
  "goal_candidate db q f = (fund_of_goal db (so_goal q) f \<and> f_transactionType f = so_type q)"

text \<open>\<open>GROUP BY goalTransactionCode HAVING ABS(SUM(amount) - a) <= t\<close>.\<close>

definition fitting_groups :: "database \<Rightarrow> sought \<Rightarrow> (fund_txn \<Rightarrow> bool) \<Rightarrow> (string \<times> fund_txn list) list" where
  "fitting_groups db q P =
     filter (\<lambda>g. \<bar>sum_list (map f_amount (snd g)) - so_amount q\<bar> \<le> resolution_allowance (so_amount q))
       (group_by f_goalTransactionCode (filter (\<lambda>f. goal_candidate db q f \<and> P f) (db_fund db)))"

definition bank_candidates :: "database \<Rightarrow> sought \<Rightarrow> (bank_txn \<Rightarrow> bool) \<Rightarrow> bank_txn list" where
  "bank_candidates db q P =
     filter (\<lambda>b. b_goalNumber b = so_goal q \<and> b_transactionType b = so_type q \<and> P b \<and>
        \<bar>b_totalAmount b - so_amount q\<bar> \<le> resolution_allowance (so_amount q)) (db_bank db)"

definition exact_groups :: "database \<Rightarrow> sought \<Rightarrow> (string \<times> fund_txn list) list" where
  "exact_groups db q =
     (if truthy_str (so_txnId q) then fitting_groups db q (\<lambda>f. f_transactionId f = so_txnId q) else [])"

definition find_matching_goal :: "(nat \<Rightarrow> nat) \<Rightarrow> database \<Rightarrow> sought \<Rightarrow> string option" where
  "find_matching_goal pick db q =
     (case limit_one pick (exact_groups db q) of
        Some g \<Rightarrow> Some (fst g)
      | None \<Rightarrow> map_option fst (limit_one pick (fitting_groups db q (\<lambda>f. near 30 q (f_transactionDate f)))))"

definition exact_bank_rows :: "database \<Rightarrow> sought \<Rightarrow> bank_txn list" where
  "exact_bank_rows db q =
     (if truthy_str (so_txnId q) then bank_candidates db q (\<lambda>b. Some (b_transactionId b) = so_txnId q) else [])"

definition find_matching_bank :: "(nat \<Rightarrow> nat) \<Rightarrow> database \<Rightarrow> sought \<Rightarrow> string option" where
  "find_matching_bank pick db q =
     (case limit_one pick (exact_bank_rows db q) of
        Some b \<Rightarrow> Some (b_transactionId b)
      | None \<Rightarrow> map_option b_transactionId (limit_one pick (bank_candidates db q (\<lambda>b. near 30 q (b_transactionDate b)))))"

definition earliest :: "instant list \<Rightarrow> instant" where
  "earliest ts = fold min (tl ts) (hd ts)"

definition goal_date_near :: "(nat \<Rightarrow> nat) \<Rightarrow> database \<Rightarrow> sought \<Rightarrow> instant option" where
  "goal_date_near pick db q =
     (if truthy_str (so_txnId q)
      then map_option (\<lambda>g. earliest (map f_transactionDate (snd g)))
             (limit_one pick (fitting_groups db q (\<lambda>f. f_transactionId f = so_txnId q \<and> near 3 q (f_transactionDate f))))
      else None)"

definition bank_date_near :: "(nat \<Rightarrow> nat) \<Rightarrow> database \<Rightarrow> sought \<Rightarrow> instant option" where
  "bank_date_near pick db q =
     (if truthy_str (so_txnId q)
      then map_option b_transactionDate
             (limit_one pick (bank_candidates db q (\<lambda>b. Some (b_transactionId b) = so_txnId q \<and> near 3 q (b_transactionDate b))))
      else None)"

section \<open>The tagged transactions\<close>

definition tagged_bank :: "review_tag \<Rightarrow> day_range \<Rightarrow> database \<Rightarrow> bank_txn list" where
  "tagged_bank tag period db =
     filter (\<lambda>b. b_reviewTag b = Some tag \<and> \<not> b_varianceResolved b \<and> in_range period (b_transactionDate b)) (db_bank db)"

text \<open>Fund rows joined with their goal, grouped by code, goal number, transaction id and type.\<close>

type_synonym group_key = "string \<times> string \<times> string option \<times> transaction_type"

definition goal_key :: "string \<times> fund_txn \<Rightarrow> group_key" where
  "goal_key x = (case x of (n, f) \<Rightarrow> (f_goalTransactionCode f, n, f_transactionId f, f_transactionType f))"

definition join_goals :: "database \<Rightarrow> fund_txn list \<Rightarrow> (string \<times> fund_txn) list" where
  "join_goals db fs = concat (map (\<lambda>f. map (\<lambda>g. (go_number g, f)) (filter (\<lambda>g. go_id g = f_goalId f) (db_goals db))) fs)"

definition tagged_fund :: "review_tag \<Rightarrow> day_range \<Rightarrow> fund_txn \<Rightarrow> bool" where
  "tagged_fund tag period f = (f_reviewTag f = Some tag \<and> \<not> f_varianceResolved f \<and> in_range period (f_transactionDate f))"

definition tagged_goals :: "review_tag \<Rightarrow> day_range \<Rightarrow> database \<Rightarrow> (group_key \<times> (string \<times> fund_txn) list) list" where
  "tagged_goals tag period db = group_by goal_key (join_goals db (filter (tagged_fund tag period) (db_fund db)))"

definition bank_sought :: "bank_txn \<Rightarrow> sought" where
  "bank_sought b = \<lparr>so_goal = b_goalNumber b, so_txnId = Some (b_transactionId b), so_type = b_transactionType b,
     so_amount = b_totalAmount b, so_date = b_transactionDate b\<rparr>"

definition goal_sought :: "group_key \<times> (string \<times> fund_txn) list \<Rightarrow> sought" where
  "goal_sought g = (case g of ((code, n, txid, ty), rows) \<Rightarrow>
     \<lparr>so_goal = n, so_txnId = txid, so_type = ty, so_amount = sum_list (map (\<lambda>x. f_amount (snd x)) rows),
      so_date = earliest (map (\<lambda>x. f_transactionDate (snd x)) rows)\<rparr>)"

section \<open>Detection\<close>

record resolution =
  re_id :: string
  re_source :: variance_side
  re_sought :: sought
  re_tag :: review_tag
  re_reason :: string

definition bank_resolution :: "review_tag \<Rightarrow> (sought \<Rightarrow> string option) \<Rightarrow> bank_txn \<Rightarrow> resolution option" where
  "bank_resolution tag reason b =
     map_option (\<lambda>r. \<lparr>re_id = b_id b, re_source = BANK_SIDE, re_sought = bank_sought b, re_tag = tag, re_reason = r\<rparr>)
       (reason (bank_sought b))"

definition goal_resolution :: "review_tag \<Rightarrow> (sought \<Rightarrow> string option) \<Rightarrow> group_key \<times> (string \<times> fund_txn) list \<Rightarrow> resolution option" where
  "goal_resolution tag reason g =
     map_option (\<lambda>r. \<lparr>re_id = fst (fst g), re_source = GOAL_SIDE, re_sought = goal_sought g, re_tag = tag, re_reason = r\<rparr>)
       (reason (goal_sought g))"

definition check_missing_in_goal :: "(nat \<Rightarrow> nat) \<Rightarrow> day_range \<Rightarrow> database \<Rightarrow> resolution list" where
  "check_missing_in_goal pick period db =
     List.map_filter (bank_resolution MISSING_IN_GOAL
         (\<lambda>q. map_option (\<lambda>c. ''Matching goal transaction found: '' @ c) (find_matching_goal pick db q)))
       (tagged_bank MISSING_IN_GOAL period db)"

definition check_missing_in_bank :: "(nat \<Rightarrow> nat) \<Rightarrow> day_range \<Rightarrow> database \<Rightarrow> resolution list" where
  "check_missing_in_bank pick period db =
     List.map_filter (goal_resolution MISSING_IN_BANK
         (\<lambda>q. map_option (\<lambda>i. ''Matching bank transaction found: '' @ i) (find_matching_bank pick db q)))
       (tagged_goals MISSING_IN_BANK period db)"

definition check_timing_difference :: "(nat \<Rightarrow> nat) \<Rightarrow> day_range \<Rightarrow> database \<Rightarrow> resolution list" where
  "check_timing_difference pick period db =
     List.map_filter (bank_resolution TIMING_DIFFERENCE
         (\<lambda>q. map_option (\<lambda>d. ''Date now within tolerance. Bank: '' @ iso_date (so_date q) @ '', Goal: '' @ iso_date d) (goal_date_near pick db q)))
       (tagged_bank TIMING_DIFFERENCE period db)
     @ List.map_filter (goal_resolution TIMING_DIFFERENCE
         (\<lambda>q. map_option (\<lambda>d. ''Date now within tolerance. Goal: '' @ iso_date (so_date q) @ '', Bank: '' @ iso_date d) (bank_date_near pick db q)))
       (tagged_goals TIMING_DIFFERENCE period db)"

definition detected :: "(nat \<Rightarrow> nat) \<Rightarrow> day_range \<Rightarrow> database \<Rightarrow> resolution list" where
  "detected pick period db =
     check_missing_in_goal pick period db @ check_missing_in_bank pick period db @ check_timing_difference pick period db"

text \<open>The database client writes \<open>updatedAt\<close> with every update of a bank row (the rows of the fund side are modelled without it).\<close>

definition resolve_bank :: "instant \<Rightarrow> row_id option \<Rightarrow> string \<Rightarrow> bank_txn \<Rightarrow> bank_txn" where
  "resolve_bank now batch reason b =
     b\<lparr>b_varianceResolved := True, b_resolvedAt := Some now, b_resolvedReason := Some reason, b_resolvedByBatchId := batch,
      b_updatedAt := now\<rparr>"

definition resolve_fund :: "instant \<Rightarrow> row_id option \<Rightarrow> string \<Rightarrow> fund_txn \<Rightarrow> fund_txn" where
  "resolve_fund now batch reason f =
     f\<lparr>f_varianceResolved := True, f_resolvedAt := Some now, f_resolvedReason := Some reason, f_resolvedByBatchId := batch\<rparr>"

definition mark_as_resolved :: "instant \<Rightarrow> row_id option \<Rightarrow> resolution list \<Rightarrow> database \<Rightarrow> database" where
  "mark_as_resolved now batch results db =
     (let bank = filter (\<lambda>r. re_source r = BANK_SIDE) results; goal = filter (\<lambda>r. re_source r = GOAL_SIDE) results
      in db\<lparr>db_bank := foldl (\<lambda>rows r. update_where (\<lambda>b. b_id b = re_id r) (resolve_bank now batch (re_reason r)) rows) (db_bank db) bank,
            db_fund := foldl (\<lambda>rows r. update_where (\<lambda>f. f_goalTransactionCode f = re_id r) (resolve_fund now batch (re_reason r)) rows)
              (db_fund db) goal\<rparr>)"

record detection =
  de_resolved :: nat
  de_byTag :: "(review_tag, nat) jsmap"
  de_details :: "resolution list"

definition detect_resolved_variances ::
    "(nat \<Rightarrow> nat) \<Rightarrow> instant \<Rightarrow> row_id option \<Rightarrow> day_range \<Rightarrow> database \<Rightarrow> database \<times> detection" where
  "detect_resolved_variances pick now batch period db =
     (let results = detected pick period db
      in (if results = [] then db else mark_as_resolved now batch results db,
          \<lparr>de_resolved = length results, de_byTag = accumulate re_tag (\<lambda>_. 0) (\<lambda>n _. n + 1) results, de_details = results\<rparr>))"

text \<open>The goals are not used.\<close>

definition detect_for_goals :: "(nat \<Rightarrow> nat) \<Rightarrow> instant \<Rightarrow> string list \<Rightarrow> string \<Rightarrow> database \<Rightarrow> database \<times> detection" where
  "detect_for_goals pick now goalNumbers triggeredBy db = detect_resolved_variances pick now None None db"

section \<open>The report\<close>

record resolved_row =
  ro_source :: variance_side
  ro_id :: string
  ro_goal :: string
  ro_client :: string
  ro_account :: string
  ro_date :: instant
  ro_type :: transaction_type
  ro_amount :: money
  ro_txnId :: "string option"
  ro_tag :: "string option"
  ro_notes :: "string option"
  ro_resolvedAt :: "instant option"
  ro_reason :: "string option"
  ro_batch :: "string option"

definition resolved_bank :: "database \<Rightarrow> resolved_row list" where
  "resolved_bank db =
     concat (map (\<lambda>b. map (\<lambda>(client, account).
         \<lparr>ro_source = BANK_SIDE, ro_id = b_id b, ro_goal = b_goalNumber b, ro_client = client, ro_account = account,
          ro_date = b_transactionDate b, ro_type = b_transactionType b, ro_amount = b_totalAmount b,
          ro_txnId = Some (b_transactionId b), ro_tag = map_option tag_name (b_reviewTag b), ro_notes = b_reviewNotes b,
          ro_resolvedAt = b_resolvedAt b, ro_reason = b_resolvedReason b, ro_batch = b_resolvedByBatchId b\<rparr>)
       (label_of_bank db b)) (filter b_varianceResolved (db_bank db)))"

text \<open>\<open>MAX\<close> leaves nulls out; texts are compared by the rank the database gives them.\<close>

definition max_text :: "('a \<Rightarrow> 'k :: linorder) \<Rightarrow> 'a option list \<Rightarrow> 'a option" where
  "max_text rank xs =
     (case List.map_filter id xs of
        [] \<Rightarrow> None
      | y # ys \<Rightarrow> Some (fold (\<lambda>x m. if rank m < rank x then x else m) ys y))"

definition label_of_fund :: "database \<Rightarrow> fund_txn \<Rightarrow> (string \<times> string \<times> string) list" where
  "label_of_fund db f =
     concat (map (\<lambda>g. concat (map (\<lambda>a. map (\<lambda>c. (go_number g, cl_name c, ac_number a))
           (filter (\<lambda>c. cl_id c = ac_clientId a) (db_clients db)))
         (filter (\<lambda>a. ac_id a = go_accountId g) (db_accounts db))))
       (filter (\<lambda>g. go_id g = f_goalId f) (db_goals db)))"

definition resolved_key :: "(string \<times> string \<times> string) \<times> fund_txn \<Rightarrow>
    string \<times> (string \<times> string \<times> string) \<times> transaction_type \<times> string option" where
  "resolved_key x = (f_goalTransactionCode (snd x), fst x, f_transactionType (snd x), f_transactionId (snd x))"

definition resolved_goal :: "(string \<Rightarrow> nat) \<Rightarrow> database \<Rightarrow> resolved_row list" where
  "resolved_goal collate db =
     map (\<lambda>((code, (goal, client, account), ty, txid), rows).
         let fs = map snd rows
         in \<lparr>ro_source = GOAL_SIDE, ro_id = code, ro_goal = goal, ro_client = client, ro_account = account,
             ro_date = earliest (map f_transactionDate fs), ro_type = ty, ro_amount = sum_list (map f_amount fs),
             ro_txnId = txid, ro_tag = max_text collate (map (\<lambda>f. map_option tag_name (f_reviewTag f)) fs),
             ro_notes = max_text collate (map f_reviewNotes fs), ro_resolvedAt = max_text id (map f_resolvedAt fs),
             ro_reason = max_text collate (map f_resolvedReason fs), ro_batch = max_text collate (map f_resolvedByBatchId fs)\<rparr>)
       (group_by resolved_key
         (concat (map (\<lambda>f. map (\<lambda>l. (l, f)) (label_of_fund db f)) (filter f_varianceResolved (db_fund db)))))"

record report_filters =
  rf_goalNumber :: "string option"
  rf_clientSearch :: "string option"
  rf_originalTag :: "string option"

text \<open>A filter that is given and not empty is a condition; \<open>ilike\<close> is the pattern match of the database.\<close>

definition when_given :: "string option \<Rightarrow> (string \<Rightarrow> bool) \<Rightarrow> bool" where
  "when_given v P = (if truthy_str v then P (the v) else True)"

definition report_where :: "(string \<Rightarrow> string \<Rightarrow> bool) \<Rightarrow> day_range \<Rightarrow> report_filters \<Rightarrow> resolved_row \<Rightarrow> bool" where
  "report_where ilike period flt r =
     (in_range period (ro_date r) \<and>
      when_given (rf_goalNumber flt) (\<lambda>q. ilike (ro_goal r) (''%'' @ q @ ''%'')) \<and>
      when_given (rf_clientSearch flt) (\<lambda>q. ilike (ro_client r) (''%'' @ q @ ''%'')) \<and>
      when_given (rf_originalTag flt) (\<lambda>q. ro_tag r = Some q))"

text \<open>Descending order puts nulls first.\<close>

definition newest_first :: "instant option \<Rightarrow> int \<times> int" where
  "newest_first t = (case t of None \<Rightarrow> (0, 0) | Some t \<Rightarrow> (1, - t))"

record resolved_report =
  rp_data :: "resolved_row list"
  rp_total :: nat
  rp_byTag :: "(string, nat) jsmap"
  rp_bank :: nat
  rp_goal :: nat

definition resolved_variances_report ::
    "(string \<Rightarrow> string \<Rightarrow> bool) \<Rightarrow> (string \<Rightarrow> nat) \<Rightarrow> day_range \<Rightarrow> report_filters \<Rightarrow> database \<Rightarrow> resolved_report" where
  "resolved_variances_report ilike collate period flt db =
     (let rows = sort_key (\<lambda>r. (newest_first (ro_resolvedAt r), collate (ro_goal r)))
            (filter (report_where ilike period flt) (resolved_bank db @ resolved_goal collate db));
          tags = List.map_filter (\<lambda>r. if truthy_str (ro_tag r) then ro_tag r else None) rows
      in \<lparr>rp_data = rows, rp_total = length rows, rp_byTag = accumulate id (\<lambda>_. 0) (\<lambda>n _. n + 1) tags,
          rp_bank = length (filter (\<lambda>r. ro_source r = BANK_SIDE) rows),
          rp_goal = length (filter (\<lambda>r. ro_source r \<noteq> BANK_SIDE) rows)\<rparr>)"

section \<open>Statistics\<close>

record tag_stats =
  ts_total :: int
  ts_resolved :: int
  ts_pending :: int

record resolution_stats =
  st_tagged :: int
  st_resolved :: int
  st_pending :: int
  st_byTag :: "(review_tag \<times> tag_stats) list"

definition resolvable_tags :: "review_tag list" where
  "resolvable_tags = [MISSING_IN_GOAL, MISSING_IN_BANK, TIMING_DIFFERENCE]"

definition bank_stats :: "database \<Rightarrow> review_tag \<Rightarrow> int \<times> int" where
  "bank_stats db tag =
     (let rows = filter (\<lambda>b. b_reviewTag b = Some tag) (db_bank db)
      in (int (length rows), int (length (filter b_varianceResolved rows))))"

text \<open>\<open>COUNT(DISTINCT goalTransactionCode)\<close> beside a sum over rows.\<close>

definition goal_stats :: "database \<Rightarrow> review_tag \<Rightarrow> int \<times> int" where
  "goal_stats db tag =
     (let rows = filter (\<lambda>f. f_reviewTag f = Some tag) (db_fund db)
      in (int (length (remdups (map f_goalTransactionCode rows))), int (length (filter f_varianceResolved rows))))"

definition tag_in_use :: "database \<Rightarrow> review_tag \<Rightarrow> bool" where
  "tag_in_use db tag =
     (list_ex (\<lambda>b. b_reviewTag b = Some tag) (db_bank db) \<or> list_ex (\<lambda>f. f_reviewTag f = Some tag) (db_fund db))"

definition tag_statistics :: "database \<Rightarrow> review_tag \<Rightarrow> tag_stats" where
  "tag_statistics db tag =
     (let total = fst (bank_stats db tag) + fst (goal_stats db tag);
          resolved = snd (bank_stats db tag) + snd (goal_stats db tag)
      in \<lparr>ts_total = total, ts_resolved = resolved, ts_pending = total - resolved\<rparr>)"

definition resolution_statistics :: "database \<Rightarrow> resolution_stats" where
  "resolution_statistics db =
     (let rows = map (\<lambda>t. (t, tag_statistics db t)) (filter (tag_in_use db) resolvable_tags);
          tagged = sum_list (map (\<lambda>r. ts_total (snd r)) rows); resolved = sum_list (map (\<lambda>r. ts_resolved (snd r)) rows)
      in \<lparr>st_tagged = tagged, st_resolved = resolved, st_pending = tagged - resolved, st_byTag = rows\<rparr>)"

end
