(* ===== verification/ResolutionProperties.thy ===== *)
theory ResolutionProperties
  imports VarianceResolution SmartMatchProperties
begin

text \<open>
  What the detection of resolved variances marks, that it marks it once, and what the report and the statistics say
  of the marked rows.
\<close>

section \<open>Counterparts\<close>

lemma limit_one_None [simp]: "limit_one pick xs = None \<longleftrightarrow> xs = []"
  by (simp add: limit_one_def)

lemma limit_one_Nil [simp]: "limit_one pick [] = None"
  by (simp add: limit_one_def)

text \<open>A goal transaction that fits: the rows of its code that are candidates add up to the amount.\<close>

definition has_goal :: "database \<Rightarrow> sought \<Rightarrow> (fund_txn \<Rightarrow> bool) \<Rightarrow> bool" where
  "has_goal db q P =
     list_ex (\<lambda>f. goal_candidate db q f \<and> P f \<and>
        \<bar>sum_list (map f_amount (filter (\<lambda>x. (goal_candidate db q x \<and> P x) \<and> f_goalTransactionCode x = f_goalTransactionCode f) (db_fund db)))
          - so_amount q\<bar> \<le> resolution_allowance (so_amount q)) (db_fund db)"

lemma in_group_by: "(k, ys) \<in> set (group_by kf xs) \<longleftrightarrow> ys = filter (\<lambda>x. kf x = k) xs \<and> ys \<noteq> []"
proof
  assume r: "ys = filter (\<lambda>x. kf x = k) xs \<and> ys \<noteq> []"
  then have "\<exists>x \<in> set xs. kf x = k" by (auto simp: filter_empty_conv)
  then have "map_get (group_by kf xs) k = Some ys" using r by (simp add: map_get_group_by)
  then show "(k, ys) \<in> set (group_by kf xs)" unfolding map_get_def by (rule map_of_SomeD)
qed (rule entry_group_by)

lemma nonempty_iff: "filter p xs \<noteq> [] \<longleftrightarrow> (\<exists>x \<in> set xs. p x)"
  by (simp add: filter_empty_conv)

lemma some_group: "(\<exists>g \<in> set (group_by kf xs). Q (snd g)) \<longleftrightarrow> (\<exists>x \<in> set xs. Q (filter (\<lambda>y. kf y = kf x) xs))"
proof
  assume "\<exists>g \<in> set (group_by kf xs). Q (snd g)"
  then obtain e where e: "e \<in> set (group_by kf xs)" "Q (snd e)" by blast
  obtain k ys where "e = (k, ys)" by (rule prod.exhaust)
  with e have g: "(k, ys) \<in> set (group_by kf xs)" "Q ys" by simp_all
  then have ys: "ys = filter (\<lambda>x. kf x = k) xs" "ys \<noteq> []" unfolding in_group_by by blast+
  then obtain x where x: "x \<in> set xs" "kf x = k" by (auto simp: filter_empty_conv)
  have "Q (filter (\<lambda>y. kf y = kf x) xs)" unfolding x(2) ys(1) [symmetric] by (rule g(2))
  with x(1) show "\<exists>x \<in> set xs. Q (filter (\<lambda>y. kf y = kf x) xs)" by blast
next
  assume "\<exists>x \<in> set xs. Q (filter (\<lambda>y. kf y = kf x) xs)"
  then obtain x where x: "x \<in> set xs" "Q (filter (\<lambda>y. kf y = kf x) xs)" by blast
  have "filter (\<lambda>y. kf y = kf x) xs \<noteq> []" unfolding nonempty_iff by (rule bexI [OF refl x(1)])
  then have "(kf x, filter (\<lambda>y. kf y = kf x) xs) \<in> set (group_by kf xs)" unfolding in_group_by by blast
  then show "\<exists>g \<in> set (group_by kf xs). Q (snd g)" by (rule bexI [rotated]) (simp add: x(2))
qed

lemma fitting_groups_iff: "fitting_groups db q P \<noteq> [] \<longleftrightarrow> has_goal db q P"
proof -
  let ?ok = "\<lambda>ys. \<bar>sum_list (map f_amount ys) - so_amount q\<bar> \<le> resolution_allowance (so_amount q)"
  let ?fs = "filter (\<lambda>f. goal_candidate db q f \<and> P f) (db_fund db)"
  have "fitting_groups db q P \<noteq> [] \<longleftrightarrow> (\<exists>f \<in> set ?fs. ?ok (filter (\<lambda>x. f_goalTransactionCode x = f_goalTransactionCode f) ?fs))"
    unfolding fitting_groups_def nonempty_iff by (rule some_group [where Q = ?ok])
  also have "\<dots> \<longleftrightarrow> has_goal db q P"
    unfolding has_goal_def list_ex_iff filter_filter set_filter by (simp only: bex_simps mem_Collect_eq Bex_def conj_assoc)
  finally show ?thesis .
qed

text \<open>Whether the four searches find something; the choice among several rows plays no part.\<close>

definition goal_found :: "database \<Rightarrow> sought \<Rightarrow> bool" where
  "goal_found db q =
     (truthy_str (so_txnId q) \<and> has_goal db q (\<lambda>f. f_transactionId f = so_txnId q) \<or>
      has_goal db q (\<lambda>f. near 30 q (f_transactionDate f)))"

definition bank_found :: "database \<Rightarrow> sought \<Rightarrow> bool" where
  "bank_found db q =
     (truthy_str (so_txnId q) \<and> bank_candidates db q (\<lambda>b. Some (b_transactionId b) = so_txnId q) \<noteq> [] \<or>
      bank_candidates db q (\<lambda>b. near 30 q (b_transactionDate b)) \<noteq> [])"

definition goal_aligned :: "database \<Rightarrow> sought \<Rightarrow> bool" where
  "goal_aligned db q =
     (truthy_str (so_txnId q) \<and> has_goal db q (\<lambda>f. f_transactionId f = so_txnId q \<and> near 3 q (f_transactionDate f)))"

definition bank_aligned :: "database \<Rightarrow> sought \<Rightarrow> bool" where
  "bank_aligned db q =
     (truthy_str (so_txnId q) \<and>
      bank_candidates db q (\<lambda>b. Some (b_transactionId b) = so_txnId q \<and> near 3 q (b_transactionDate b)) \<noteq> [])"

lemma finders:
  "find_matching_goal pick db q = None \<longleftrightarrow> \<not> goal_found db q"
  "find_matching_bank pick db q = None \<longleftrightarrow> \<not> bank_found db q"
  "goal_date_near pick db q = None \<longleftrightarrow> \<not> goal_aligned db q"
  "bank_date_near pick db q = None \<longleftrightarrow> \<not> bank_aligned db q"
proof -
  show "find_matching_goal pick db q = None \<longleftrightarrow> \<not> goal_found db q"
    unfolding find_matching_goal_def goal_found_def exact_groups_def
    by (simp add: fitting_groups_iff [symmetric] split: option.split) auto
  show "find_matching_bank pick db q = None \<longleftrightarrow> \<not> bank_found db q"
    unfolding find_matching_bank_def bank_found_def exact_bank_rows_def by (simp split: option.split) auto
  show "goal_date_near pick db q = None \<longleftrightarrow> \<not> goal_aligned db q"
    unfolding goal_date_near_def goal_aligned_def by (simp add: fitting_groups_iff [symmetric])
  show "bank_date_near pick db q = None \<longleftrightarrow> \<not> bank_aligned db q"
    unfolding bank_date_near_def bank_aligned_def by simp
qed

section \<open>What is detected\<close>

definition bank_resolvable :: "day_range \<Rightarrow> database \<Rightarrow> bank_txn \<Rightarrow> bool" where
  "bank_resolvable period db b =
     (\<not> b_varianceResolved b \<and> in_range period (b_transactionDate b) \<and>
      (b_reviewTag b = Some MISSING_IN_GOAL \<and> goal_found db (bank_sought b) \<or>
       b_reviewTag b = Some TIMING_DIFFERENCE \<and> goal_aligned db (bank_sought b)))"

definition code_resolvable :: "day_range \<Rightarrow> database \<Rightarrow> string \<Rightarrow> bool" where
  "code_resolvable period db code =
     (list_ex (\<lambda>g. fst (fst g) = code \<and> bank_found db (goal_sought g)) (tagged_goals MISSING_IN_BANK period db) \<or>
      list_ex (\<lambda>g. fst (fst g) = code \<and> bank_aligned db (goal_sought g)) (tagged_goals TIMING_DIFFERENCE period db))"

lemma in_map_filter: "y \<in> set (List.map_filter f xs) \<longleftrightarrow> (\<exists>x \<in> set xs. f x = Some y)"
  by (induction xs) (auto simp: map_filter_simps split: option.splits)

definition found_ids :: "variance_side \<Rightarrow> resolution list \<Rightarrow> string set" where
  "found_ids side rs = re_id ` set (filter (\<lambda>r. re_source r = side) rs)"

lemma found_ids_append: "found_ids side (xs @ ys) = found_ids side xs \<union> found_ids side ys"
  by (auto simp: found_ids_def)

lemma found_map_filter:
  assumes "\<And>x r. f x = Some r \<Longrightarrow> re_source r = side \<and> re_id r = key x"
  shows "found_ids s (List.map_filter f xs) = (if s = side then {key x | x. x \<in> set xs \<and> f x \<noteq> None} else {})"
proof -
  have mem: "i \<in> found_ids s (List.map_filter f xs) \<longleftrightarrow> (\<exists>x \<in> set xs. \<exists>r. f x = Some r \<and> re_source r = s \<and> i = re_id r)" for i
    unfolding found_ids_def set_filter image_iff Bex_def in_map_filter mem_Collect_eq by blast
  have "(\<exists>r. f x = Some r \<and> re_source r = s \<and> i = re_id r) \<longleftrightarrow> s = side \<and> f x \<noteq> None \<and> i = key x" for x i
    using assms [of x] by (cases "f x") auto
  then show ?thesis by (intro set_eqI) (simp add: mem, blast)
qed

lemma found_bank_side:
  "found_ids s (List.map_filter (bank_resolution tag reason) bs) =
    (if s = BANK_SIDE then {b_id b | b. b \<in> set bs \<and> reason (bank_sought b) \<noteq> None} else {})"
proof -
  have "(bank_resolution tag reason b \<noteq> None) = (reason (bank_sought b) \<noteq> None)" for b
    by (simp add: bank_resolution_def)
  then show ?thesis
    by (subst found_map_filter [where key = b_id and side = BANK_SIDE]) (auto simp: bank_resolution_def)
qed

lemma found_goal_side:
  "found_ids s (List.map_filter (goal_resolution tag reason) gs) =
    (if s = GOAL_SIDE then {fst (fst g) | g. g \<in> set gs \<and> reason (goal_sought g) \<noteq> None} else {})"
proof -
  have "(goal_resolution tag reason g \<noteq> None) = (reason (goal_sought g) \<noteq> None)" for g
    by (simp add: goal_resolution_def)
  then show ?thesis
    by (subst found_map_filter [where key = "\<lambda>g. fst (fst g)" and side = GOAL_SIDE]) (auto simp: goal_resolution_def)
qed

lemma found_bank_ids:
  "found_ids BANK_SIDE (detected pick period db) = {b_id b | b. b \<in> set (db_bank db) \<and> bank_resolvable period db b}"
  unfolding detected_def check_missing_in_goal_def check_missing_in_bank_def check_timing_difference_def found_ids_append
    found_bank_side found_goal_side
  by (auto simp: finders tagged_bank_def bank_resolvable_def)

lemma found_goal_codes:
  "found_ids GOAL_SIDE (detected pick period db) = Collect (code_resolvable period db)"
  unfolding detected_def check_missing_in_goal_def check_missing_in_bank_def check_timing_difference_def found_ids_append
    found_bank_side found_goal_side
  unfolding code_resolvable_def list_ex_iff
  by (intro set_eqI)
    (simp only: variance_side.distinct if_True if_False Un_iff mem_Collect_eq option.map_disc_iff finders not_not empty_iff simp_thms, blast)

section \<open>Marking\<close>

text \<open>A sequence of updates, seen from one row.\<close>

definition updated :: "('a \<Rightarrow> string) \<Rightarrow> (resolution \<Rightarrow> 'a \<Rightarrow> 'a) \<Rightarrow> resolution list \<Rightarrow> 'a \<Rightarrow> 'a" where
  "updated key upd rs x = foldl (\<lambda>x r. if key x = re_id r then upd r x else x) x rs"

lemma foldl_update_where:
  "foldl (\<lambda>rows r. update_where (\<lambda>x. key x = re_id r) (upd r) rows) xs rs = map (updated key upd rs) xs"
proof (induction rs arbitrary: xs)
  case Nil
  then show ?case by (simp add: updated_def map_idI)
next
  case (Cons r rs)
  then show ?case by (simp add: updated_def update_where_def comp_def)
qed

lemma updated_other: "key x \<notin> re_id ` set rs \<Longrightarrow> updated key upd rs x = x"
  by (induction rs) (auto simp: updated_def)

lemma updated_keeps: "(\<And>r x. h (upd r x) = h x) \<Longrightarrow> h (updated key upd rs x) = h x"
  unfolding updated_def by (induction rs arbitrary: x) simp_all

lemma updated_flag:
  assumes "\<And>r x. flag (upd r x)" "\<And>r x. key (upd r x) = key x"
  shows "flag (updated key upd rs x) \<longleftrightarrow> flag x \<or> key x \<in> re_id ` set rs"
  using assms unfolding updated_def by (induction rs arbitrary: x) auto

lemma updated_once:
  assumes twice: "\<And>r s x. upd r (upd s x) = upd r x" and key: "\<And>r x. key (upd r x) = key x" and "key x \<in> re_id ` set rs"
  shows "\<exists>r. updated key upd rs x = upd r x"
proof -
  have again: "\<exists>r. updated key upd rs (upd r0 x) = upd r x" for r0 rs
    unfolding updated_def by (induction rs arbitrary: r0) (auto simp: twice key)
  show ?thesis
    using assms(3)
  proof (induction rs)
    case (Cons r rs)
    show ?case
    proof (cases "key x = re_id r")
      case True
      then show ?thesis using again [of rs r] by (simp add: updated_def)
    next
      case False
      then show ?thesis using Cons by (simp add: updated_def)
    qed
  qed simp
qed

text \<open>A row without the columns that a resolution writes.\<close>

definition bank_unresolved :: "bank_txn \<Rightarrow> bank_txn" where
  "bank_unresolved b = b\<lparr>b_varianceResolved := False, b_resolvedAt := None, b_resolvedReason := None, b_resolvedByBatchId := None,
     b_updatedAt := 0\<rparr>"

definition fund_unresolved :: "fund_txn \<Rightarrow> fund_txn" where
  "fund_unresolved f = f\<lparr>f_varianceResolved := False, f_resolvedAt := None, f_resolvedReason := None, f_resolvedByBatchId := None\<rparr>"

lemma unresolved_resolve [simp]:
  "bank_unresolved (resolve_bank now batch reason b) = bank_unresolved b" "fund_unresolved (resolve_fund now batch reason f) = fund_unresolved f"
  "b_varianceResolved (resolve_bank now batch reason b)" "f_varianceResolved (resolve_fund now batch reason f)"
  "b_id (resolve_bank now batch reason b) = b_id b" "f_goalTransactionCode (resolve_fund now batch reason f) = f_goalTransactionCode f"
  by (simp_all add: bank_unresolved_def resolve_bank_def fund_unresolved_def resolve_fund_def)

lemma fields_of_unresolved:
  "f_goalId (fund_unresolved f) = f_goalId f" "f_transactionType (fund_unresolved f) = f_transactionType f"
  "f_goalTransactionCode (fund_unresolved f) = f_goalTransactionCode f" "f_amount (fund_unresolved f) = f_amount f"
  "f_transactionId (fund_unresolved f) = f_transactionId f" "f_transactionDate (fund_unresolved f) = f_transactionDate f"
  "b_goalNumber (bank_unresolved b) = b_goalNumber b" "b_transactionType (bank_unresolved b) = b_transactionType b"
  "b_totalAmount (bank_unresolved b) = b_totalAmount b" "b_transactionId (bank_unresolved b) = b_transactionId b"
  "b_transactionDate (bank_unresolved b) = b_transactionDate b"
  by (simp_all add: fund_unresolved_def bank_unresolved_def)

definition bank_mark :: "instant \<Rightarrow> row_id option \<Rightarrow> resolution list \<Rightarrow> bank_txn \<Rightarrow> bank_txn" where
  "bank_mark now batch rs = updated b_id (\<lambda>r. resolve_bank now batch (re_reason r)) (filter (\<lambda>r. re_source r = BANK_SIDE) rs)"

definition fund_mark :: "instant \<Rightarrow> row_id option \<Rightarrow> resolution list \<Rightarrow> fund_txn \<Rightarrow> fund_txn" where
  "fund_mark now batch rs = updated f_goalTransactionCode (\<lambda>r. resolve_fund now batch (re_reason r)) (filter (\<lambda>r. re_source r = GOAL_SIDE) rs)"

lemma marked: "mark_as_resolved now batch rs db = db\<lparr>db_bank := map (bank_mark now batch rs) (db_bank db), db_fund := map (fund_mark now batch rs) (db_fund db)\<rparr>"
  unfolding mark_as_resolved_def Let_def foldl_update_where [where key = b_id and upd = "\<lambda>r. resolve_bank now batch (re_reason r)"]
    foldl_update_where [where key = f_goalTransactionCode and upd = "\<lambda>r. resolve_fund now batch (re_reason r)"]
  by (simp add: bank_mark_def fund_mark_def)

lemma mark_nothing: "mark_as_resolved now batch [] db = db"
  by (simp add: mark_as_resolved_def)

lemma detection_effect:
  "fst (detect_resolved_variances pick now batch period db) = mark_as_resolved now batch (detected pick period db) db"
  by (simp add: detect_resolved_variances_def Let_def mark_nothing)

lemma mark_flags:
  "b_varianceResolved (bank_mark now batch rs b) \<longleftrightarrow> b_varianceResolved b \<or> b_id b \<in> found_ids BANK_SIDE rs"
  "f_varianceResolved (fund_mark now batch rs f) \<longleftrightarrow> f_varianceResolved f \<or> f_goalTransactionCode f \<in> found_ids GOAL_SIDE rs"
  unfolding bank_mark_def fund_mark_def found_ids_def by (rule updated_flag; simp)+

lemma mark_other:
  "b_id b \<notin> found_ids BANK_SIDE rs \<Longrightarrow> bank_mark now batch rs b = b"
  "f_goalTransactionCode f \<notin> found_ids GOAL_SIDE rs \<Longrightarrow> fund_mark now batch rs f = f"
  unfolding bank_mark_def fund_mark_def found_ids_def by (erule updated_other)+

lemma mark_found:
  "b_id b \<in> found_ids BANK_SIDE rs \<Longrightarrow> \<exists>reason. bank_mark now batch rs b = resolve_bank now batch reason b"
  "f_goalTransactionCode f \<in> found_ids GOAL_SIDE rs \<Longrightarrow> \<exists>reason. fund_mark now batch rs f = resolve_fund now batch reason f"
proof -
  assume "b_id b \<in> found_ids BANK_SIDE rs"
  then have "\<exists>r :: resolution. bank_mark now batch rs b = resolve_bank now batch (re_reason r) b"
    using updated_once [of "\<lambda>r. resolve_bank now batch (re_reason r)" b_id b "filter (\<lambda>r. re_source r = BANK_SIDE) rs"]
    by (simp add: bank_mark_def found_ids_def resolve_bank_def)
  then show "\<exists>reason. bank_mark now batch rs b = resolve_bank now batch reason b" by blast
next
  assume "f_goalTransactionCode f \<in> found_ids GOAL_SIDE rs"
  then have "\<exists>r :: resolution. fund_mark now batch rs f = resolve_fund now batch (re_reason r) f"
    using updated_once [of "\<lambda>r. resolve_fund now batch (re_reason r)" f_goalTransactionCode f "filter (\<lambda>r. re_source r = GOAL_SIDE) rs"]
    by (simp add: fund_mark_def found_ids_def resolve_fund_def)
  then show "\<exists>reason. fund_mark now batch rs f = resolve_fund now batch reason f" by blast
qed

lemma mark_keeps:
  "bank_unresolved (bank_mark now batch rs b) = bank_unresolved b" "fund_unresolved (fund_mark now batch rs f) = fund_unresolved f"
  unfolding bank_mark_def fund_mark_def by (rule updated_keeps, simp)+

lemma mark_fields [simp]:
  "f_goalId (fund_mark now batch rs f) = f_goalId f" "f_transactionType (fund_mark now batch rs f) = f_transactionType f"
  "f_goalTransactionCode (fund_mark now batch rs f) = f_goalTransactionCode f" "f_amount (fund_mark now batch rs f) = f_amount f"
  "f_transactionId (fund_mark now batch rs f) = f_transactionId f" "f_transactionDate (fund_mark now batch rs f) = f_transactionDate f"
  "b_goalNumber (bank_mark now batch rs b) = b_goalNumber b" "b_transactionType (bank_mark now batch rs b) = b_transactionType b"
  "b_totalAmount (bank_mark now batch rs b) = b_totalAmount b" "b_transactionId (bank_mark now batch rs b) = b_transactionId b"
  "b_transactionDate (bank_mark now batch rs b) = b_transactionDate b"
  by (metis mark_keeps fields_of_unresolved)+

section \<open>Looking again\<close>

text \<open>Marking does not change what the searches see.\<close>

lemma goal_lookup:
  assumes db': "db' = mark_as_resolved now batch rs db"
  shows "fund_of_goal db' n f \<longleftrightarrow> fund_of_goal db n f" "fund_of_goal db n (fund_mark now batch rs f) \<longleftrightarrow> fund_of_goal db n f"
  by (simp_all add: fund_of_goal_def db' marked)

lemma candidate_after:
  assumes db': "db' = mark_as_resolved now batch rs db"
  shows "goal_candidate db' q (fund_mark now batch rs f) \<longleftrightarrow> goal_candidate db q f"
  by (simp add: goal_candidate_def goal_lookup [OF db'])

lemma has_goal_after:
  assumes db': "db' = mark_as_resolved now batch rs db"
    and a: "\<And>f. P (fund_mark now batch rs f) = P f"
  shows "has_goal db' q P = has_goal db q P"
proof -
  have fund: "db_fund db' = map (fund_mark now batch rs) (db_fund db)" by (simp add: db' marked)
  show ?thesis
    unfolding has_goal_def fund filter_map list.map_comp list_ex_iff set_map bex_simps comp_def by (simp add: candidate_after [OF db'] a)
qed

lemma candidates_after:
  assumes db': "db' = mark_as_resolved now batch rs db"
    and a: "\<And>b. P (bank_mark now batch rs b) = P b"
  shows "bank_candidates db' q P = map (bank_mark now batch rs) (bank_candidates db q P)"
  by (simp add: bank_candidates_def db' marked filter_map comp_def a)

lemma found_after:
  assumes db': "db' = mark_as_resolved now batch rs db"
  shows "goal_found db' q = goal_found db q" "bank_found db' q = bank_found db q"
    "goal_aligned db' q = goal_aligned db q" "bank_aligned db' q = bank_aligned db q"
  by (simp_all add: goal_found_def bank_found_def goal_aligned_def bank_aligned_def has_goal_after [OF db'] candidates_after [OF db'])

lemma tagged_bank_after:
  assumes db': "db' = mark_as_resolved now batch rs db"
    and a: "b \<in> set (tagged_bank tag period db')"
  shows "b \<in> set (tagged_bank tag period db)" "b_id b \<notin> found_ids BANK_SIDE rs"
proof -
  obtain b0 where b0: "b0 \<in> set (db_bank db)" "b = bank_mark now batch rs b0"
    and b: "b_reviewTag b = Some tag" "\<not> b_varianceResolved b" "in_range period (b_transactionDate b)"
    using a by (auto simp: tagged_bank_def db' marked)
  have "b_id b0 \<notin> found_ids BANK_SIDE rs" using b(2) by (simp add: b0(2) mark_flags)
  then have "b = b0" "b_id b \<notin> found_ids BANK_SIDE rs" using mark_other(1) [of b0 rs now batch] b0(2) by simp_all
  then show "b \<in> set (tagged_bank tag period db)" "b_id b \<notin> found_ids BANK_SIDE rs" using b0(1) b by (simp_all add: tagged_bank_def)
qed

lemma tagged_fund_after:
  "tagged_fund tag period (fund_mark now batch rs f) \<longleftrightarrow> tagged_fund tag period f \<and> f_goalTransactionCode f \<notin> found_ids GOAL_SIDE rs"
proof (cases "f_goalTransactionCode f \<in> found_ids GOAL_SIDE rs")
  case True
  then show ?thesis by (simp add: tagged_fund_def mark_flags)
next
  case False
  then show ?thesis by (simp add: mark_other)
qed

lemma tagged_goals_after:
  assumes db': "db' = mark_as_resolved now batch rs db"
    and a: "g \<in> set (tagged_goals tag period db')"
  shows "g \<in> set (tagged_goals tag period db)" "fst (fst g) \<notin> found_ids GOAL_SIDE rs"
proof -
  obtain k ys where g: "g = (k, ys)" by (rule prod.exhaust)
  let ?rows = "\<lambda>db. join_goals db (filter (tagged_fund tag period) (db_fund db))"
  have ys: "ys = filter (\<lambda>x. goal_key x = k) (?rows db')" "ys \<noteq> []"
    using a unfolding g tagged_goals_def in_group_by by blast+
  have join: "join_goals db' fs = join_goals db fs" for fs by (simp add: join_goals_def db' marked)
  have code: "f_goalTransactionCode (snd x) = fst k" if "x \<in> set ys" for x
    using that unfolding ys(1) by (auto simp: goal_key_def split: prod.splits)
  have "f_goalTransactionCode (snd x) \<notin> found_ids GOAL_SIDE rs" if "x \<in> set ys" for x
  proof -
    have "snd x \<in> set (filter (tagged_fund tag period) (db_fund db'))" using that by (auto simp: ys(1) join_goals_def)
    then show ?thesis by (auto simp: db' marked tagged_fund_after)
  qed
  then have k: "fst k \<notin> found_ids GOAL_SIDE rs" using ys(2) code by (metis list.set_intros(1) neq_Nil_conv)
  then show "fst (fst g) \<notin> found_ids GOAL_SIDE rs" by (simp add: g)
  have "filter (\<lambda>x. goal_key x = k) (join_goals db (filter (tagged_fund tag period) (map (fund_mark now batch rs) fs))) =
      filter (\<lambda>x. goal_key x = k) (join_goals db (filter (tagged_fund tag period) fs))" for fs
  proof (induction fs)
    case (Cons f fs)
    define joined where "joined f = map (\<lambda>g. (go_number g, f)) (filter (\<lambda>g. go_id g = f_goalId f) (db_goals db))" for f :: fund_txn
    have one: "join_goals db (f # xs) = joined f @ join_goals db xs" for f xs by (simp add: join_goals_def joined_def)
    have other: "filter (\<lambda>x. goal_key x = k) (joined f) = []" if "f_goalTransactionCode f \<noteq> fst k" for f
      using that by (auto simp: joined_def goal_key_def filter_empty_conv)
    show ?case
    proof (cases "f_goalTransactionCode f = fst k")
      case True
      then have "fund_mark now batch rs f = f" using k by (simp add: mark_other)
      then show ?thesis using Cons by (simp add: one)
    next
      case False
      then show ?thesis using Cons other [of f] other [of "fund_mark now batch rs f"] by (simp add: one)
    qed
  qed (simp add: join_goals_def)
  then have "ys = filter (\<lambda>x. goal_key x = k) (?rows db)" by (simp add: ys(1) join) (simp add: db' marked)
  then show "g \<in> set (tagged_goals tag period db)" using ys(2) unfolding g tagged_goals_def in_group_by by blast
qed

text \<open>A second detection finds nothing.\<close>

lemma nothing_found_again:
  assumes "db' = mark_as_resolved now batch (detected pick period db) db"
  shows "detected pick' period db' = []"
proof -
  note after = found_after [OF assms] tagged_bank_after [OF assms] tagged_goals_after [OF assms]
  have bank: "\<not> bank_resolvable period db b" if "b \<in> set (tagged_bank tag period db')" for b tag
    using after(5,6) [OF that] unfolding found_bank_ids by (auto simp: tagged_bank_def)
  have code: "\<not> code_resolvable period db (fst (fst g))" if "g \<in> set (tagged_goals tag period db')" for g tag
    using after(8) [OF that] unfolding found_goal_codes by simp
  have "\<not> goal_found db (bank_sought b)" if "b \<in> set (tagged_bank MISSING_IN_GOAL period db')" for b
    using bank [OF that] after(5) [OF that] by (auto simp: bank_resolvable_def tagged_bank_def)
  moreover have "\<not> goal_aligned db (bank_sought b)" if "b \<in> set (tagged_bank TIMING_DIFFERENCE period db')" for b
    using bank [OF that] after(5) [OF that] by (auto simp: bank_resolvable_def tagged_bank_def)
  moreover have "\<not> bank_found db (goal_sought g)" if "g \<in> set (tagged_goals MISSING_IN_BANK period db')" for g
    using code [OF that] after(7) [OF that] unfolding code_resolvable_def list_ex_iff by blast
  moreover have "\<not> bank_aligned db (goal_sought g)" if "g \<in> set (tagged_goals TIMING_DIFFERENCE period db')" for g
    using code [OF that] after(7) [OF that] unfolding code_resolvable_def list_ex_iff by blast
  moreover have empty: "List.map_filter f xs = []" if "\<And>x. x \<in> set xs \<Longrightarrow> f x = None" for f :: "'a \<Rightarrow> resolution option" and xs
    using that by (induction xs) (simp_all add: map_filter_simps)
  ultimately show ?thesis
    unfolding detected_def check_missing_in_goal_def check_missing_in_bank_def check_timing_difference_def append_is_Nil_conv
    by (intro conjI empty) (simp_all add: bank_resolution_def goal_resolution_def finders after(1-4))
qed

section \<open>Properties\<close>

text \<open>C7: a detection marks exactly the tagged transactions that have found a counterpart: of the bank side those whose search
  succeeds, of the goal side every fund row of a code one of whose tagged groups succeeds. A marked row gets the flag, the time,
  a reason and the batch, a marked bank row also the time as its \<open>updatedAt\<close>; its other columns, and all other rows and tables,
  stay as they are, and which of several counterparts the database returns makes no difference.\<close>

theorem detection_marks_exactly:
  assumes "distinct (map b_id (db_bank db))"
  shows "let db' = fst (detect_resolved_variances pick now batch period db)
    in list_all2 (\<lambda>b b'. if bank_resolvable period db b
         then \<exists>reason. b' = b\<lparr>b_varianceResolved := True, b_resolvedAt := Some now, b_resolvedReason := Some reason,
                b_resolvedByBatchId := batch, b_updatedAt := now\<rparr>
         else b' = b) (db_bank db) (db_bank db')
     \<and> list_all2 (\<lambda>f f'. if code_resolvable period db (f_goalTransactionCode f)
         then \<exists>reason. f' = f\<lparr>f_varianceResolved := True, f_resolvedAt := Some now, f_resolvedReason := Some reason,
                f_resolvedByBatchId := batch\<rparr>
         else f' = f) (db_fund db) (db_fund db')
     \<and> db_goals db' = db_goals db \<and> db_accounts db' = db_accounts db \<and> db_clients db' = db_clients db"
proof -
  let ?rs = "detected pick period db"
  have bank: "b_id b \<in> found_ids BANK_SIDE ?rs \<longleftrightarrow> bank_resolvable period db b" if "b \<in> set (db_bank db)" for b
    using assms that unfolding found_bank_ids by (auto simp: distinct_map dest: inj_onD)
  have code: "f_goalTransactionCode f \<in> found_ids GOAL_SIDE ?rs \<longleftrightarrow> code_resolvable period db (f_goalTransactionCode f)" for f
    by (simp add: found_goal_codes)
  show ?thesis
    unfolding detection_effect marked Let_def
    using mark_found(1) [of _ ?rs now batch, unfolded resolve_bank_def] mark_found(2) [of _ ?rs now batch, unfolded resolve_fund_def]
      mark_other [of _ ?rs now batch]
    by (auto simp: list_all2_map2 list_all2_same bank code)
qed

text \<open>C28: detection is done after one run: a second one over the same period resolves nothing and leaves the database as it
  is, whatever the order in which the database returns rows, the time and the batch.\<close>

theorem detection_idempotent:
  "let db' = fst (detect_resolved_variances pick now batch period db); (db'', again) = detect_resolved_variances pick' now' batch' period db'
   in db'' = db' \<and> de_resolved again = 0 \<and> de_details again = []"
  using nothing_found_again [OF detection_effect, where pick' = pick']
  by (simp add: detect_resolved_variances_def Let_def)

text \<open>What is pending: tagged bank transactions that are not resolved, and tagged goal transactions (codes) none of whose
  rows is. The statistics differ from it by what resolved codes of several rows count too much.\<close>

definition tagged_codes :: "database \<Rightarrow> review_tag \<Rightarrow> string list" where
  "tagged_codes db tag = remdups (map f_goalTransactionCode (filter (\<lambda>f. f_reviewTag f = Some tag) (db_fund db)))"

definition resolved_rows :: "database \<Rightarrow> review_tag \<Rightarrow> string \<Rightarrow> nat" where
  "resolved_rows db tag code =
     length (filter (\<lambda>f. f_reviewTag f = Some tag \<and> f_varianceResolved f \<and> f_goalTransactionCode f = code) (db_fund db))"

definition really_pending :: "database \<Rightarrow> review_tag \<Rightarrow> int" where
  "really_pending db tag =
     int (length (filter (\<lambda>b. b_reviewTag b = Some tag \<and> \<not> b_varianceResolved b) (db_bank db))) +
     int (length (filter (\<lambda>code. resolved_rows db tag code = 0) (tagged_codes db tag)))"

definition counted_too_often :: "database \<Rightarrow> review_tag \<Rightarrow> int" where
  "counted_too_often db tag = sum_list (map (\<lambda>code. int (resolved_rows db tag code - 1)) (tagged_codes db tag))"

lemma length_by_key: "length (filter P xs) = sum_list (map (\<lambda>k. length (filter (\<lambda>x. P x \<and> key x = k) xs)) (remdups (map key xs)))"
proof -
  have "length (filter P ys) = (\<Sum>k \<in> key ` set xs. length (filter (\<lambda>x. P x \<and> key x = k) ys))" if "set ys \<subseteq> set xs" for ys
    using that
  proof (induction ys)
    case (Cons y ys)
    have one: "(\<Sum>k \<in> key ` set xs. if key y = k then 1 else (0 :: nat)) = 1" using Cons.prems by (simp add: sum.delta)
    have "length (filter (\<lambda>x. P x \<and> key x = k) (y # ys)) =
        (if P y then (if key y = k then 1 else 0) else 0) + length (filter (\<lambda>x. P x \<and> key x = k) ys)" for k by simp
    then have "(\<Sum>k \<in> key ` set xs. length (filter (\<lambda>x. P x \<and> key x = k) (y # ys))) =
        (if P y then 1 else 0) + (\<Sum>k \<in> key ` set xs. length (filter (\<lambda>x. P x \<and> key x = k) ys))"
      using one by (simp only: sum.distrib) simp
    then show ?case using Cons by simp
  qed simp
  then show ?thesis by (simp add: sum_list_distinct_conv_sum_set)
qed

lemma codes_less_rows:
  "int (length cs) - int (sum_list (map n cs)) = int (length (filter (\<lambda>c. n c = 0) cs)) - sum_list (map (\<lambda>c. int (n c - 1)) cs)"
  by (induction cs) auto

lemma tag_pending: "ts_pending (tag_statistics db tag) = really_pending db tag - counted_too_often db tag"
proof -
  have rows: "length (filter f_varianceResolved (filter (\<lambda>f. f_reviewTag f = Some tag) (db_fund db))) =
      sum_list (map (resolved_rows db tag) (tagged_codes db tag))"
    unfolding tagged_codes_def length_by_key [where key = f_goalTransactionCode, of f_varianceResolved]
    by (intro arg_cong [of _ _ sum_list] map_cong refl) (simp add: resolved_rows_def conj_ac)
  have bank: "int (length bs) - int (length (filter b_varianceResolved bs)) = int (length (filter (\<lambda>b. \<not> b_varianceResolved b) bs))"
    for bs :: "bank_txn list" by (induction bs) simp_all
  show ?thesis
    using codes_less_rows [of "tagged_codes db tag" "resolved_rows db tag"] rows bank [of "filter (\<lambda>b. b_reviewTag b = Some tag) (db_bank db)"]
    by (simp add: tag_statistics_def Let_def bank_stats_def goal_stats_def really_pending_def counted_too_often_def tagged_codes_def [symmetric] conj_ac)
qed

lemma tag_unused: "\<not> tag_in_use db tag \<Longrightarrow> really_pending db tag = 0 \<and> counted_too_often db tag = 0"
proof -
  assume "\<not> tag_in_use db tag"
  then have "filter (\<lambda>b. b_reviewTag b = Some tag \<and> \<not> b_varianceResolved b) (db_bank db) = []" "filter (\<lambda>f. f_reviewTag f = Some tag) (db_fund db) = []"
    by (auto simp: tag_in_use_def list_ex_iff filter_empty_conv)
  then show ?thesis by (simp add: really_pending_def counted_too_often_def tagged_codes_def)
qed

text \<open>C29: the statistics count tagged goal transactions by code and resolved ones by row. In every database, the pending
  resolutions they give for a tag are those that are pending (unresolved bank transactions and codes without a resolved row)
  less one for every resolved row of a code beyond its first, so the number can be negative; the total is the sum over the
  three tags.\<close>

theorem pending_resolutions_formula:
  "list_all (\<lambda>(tag, s). ts_pending s = really_pending db tag - counted_too_often db tag) (st_byTag (resolution_statistics db)) \<and>
   st_pending (resolution_statistics db) =
     sum_list (map (\<lambda>tag. really_pending db tag - counted_too_often db tag) [MISSING_IN_GOAL, MISSING_IN_BANK, TIMING_DIFFERENCE])"
proof
  show "list_all (\<lambda>(tag, s). ts_pending s = really_pending db tag - counted_too_often db tag) (st_byTag (resolution_statistics db))"
    by (simp add: resolution_statistics_def Let_def list_all_iff tag_pending)
  have pending: "ts_total (tag_statistics db t) - ts_resolved (tag_statistics db t) = ts_pending (tag_statistics db t)" for t
    by (simp add: tag_statistics_def Let_def)
  have sums: "sum_list (map (\<lambda>r. ts_total (snd r)) rows) - sum_list (map (\<lambda>r. ts_resolved (snd r)) rows) =
      sum_list (map (\<lambda>r. ts_total (snd r) - ts_resolved (snd r)) rows)" for rows :: "(review_tag \<times> tag_stats) list"
    by (induction rows) simp_all
  have "st_pending (resolution_statistics db) =
      sum_list (map (\<lambda>t. really_pending db t - counted_too_often db t) (filter (tag_in_use db) resolvable_tags))"
    by (simp add: resolution_statistics_def Let_def sums comp_def pending tag_pending)
  also have "\<dots> = sum_list (map (\<lambda>t. really_pending db t - counted_too_often db t) resolvable_tags)"
    by (rule sum_list_map_filter) (use tag_unused in auto)
  finally show "st_pending (resolution_statistics db) =
     sum_list (map (\<lambda>tag. really_pending db tag - counted_too_often db tag) [MISSING_IN_GOAL, MISSING_IN_BANK, TIMING_DIFFERENCE])"
    by (simp only: resolvable_tags_def)
qed

lemma report_amounts:
  fixes rows :: "(('k \<times> 'l) \<times> fund_txn) list"
  shows "sum_list (map (\<lambda>(k, ys). sum_list (map f_amount (map snd ys))) (group_by key rows)) = sum_list (map (\<lambda>x. f_amount (snd x)) rows)"
proof -
  have "sum_list (map (\<lambda>x. f_amount (snd x)) (concat (map snd (group_by key rows)))) = sum_list (map (\<lambda>x. f_amount (snd x)) rows)"
    by (rule sum_list_map_mset [OF mset_concat_group_by])
  then show ?thesis by (simp add: sum_list_map_concat comp_def case_prod_unfold)
qed

lemma sum_single_labels:
  fixes amount :: "'a \<Rightarrow> rat"
  assumes "list_all (\<lambda>x. length (lab x) = 1) xs"
  shows "sum_list (map (\<lambda>y. amount (snd y)) (concat (map (\<lambda>x. map (\<lambda>l. (l, x)) (lab x)) (filter P xs)))) = sum_list (map amount (filter P xs))"
  using assms
proof (induction xs)
  case (Cons x xs)
  then obtain l where "lab x = [l]" by (auto simp: length_Suc_conv)
  then show ?case using Cons by simp
qed simp

lemma resolved_bank_amount:
  assumes "list_all (\<lambda>b. length (label_of_bank db b) = 1) bs"
  shows "sum_list (map ro_amount (resolved_bank (db\<lparr>db_bank := bs\<rparr>))) = sum_list (map b_totalAmount (filter b_varianceResolved bs))"
    and "length (resolved_bank (db\<lparr>db_bank := bs\<rparr>)) = length (filter b_varianceResolved bs)"
proof -
  have lab: "label_of_bank (db\<lparr>db_bank := bs\<rparr>) b = label_of_bank db b" for b bs by (simp add: label_of_bank_def)
  show "sum_list (map ro_amount (resolved_bank (db\<lparr>db_bank := bs\<rparr>))) = sum_list (map b_totalAmount (filter b_varianceResolved bs))"
    "length (resolved_bank (db\<lparr>db_bank := bs\<rparr>)) = length (filter b_varianceResolved bs)"
    using assms by (induction bs) (auto simp: resolved_bank_def lab length_Suc_conv)
qed

lemma resolved_sources:
  "r \<in> set (resolved_bank db) \<Longrightarrow> ro_source r = BANK_SIDE" "r \<in> set (resolved_goal collate db) \<Longrightarrow> ro_source r = GOAL_SIDE"
  by (auto simp: resolved_bank_def resolved_goal_def Let_def)

lemma resolved_goal_amount:
  assumes "list_all (\<lambda>f. length (label_of_fund db f) = 1) (db_fund db)"
  shows "sum_list (map ro_amount (resolved_goal collate db)) = sum_list (map f_amount (filter f_varianceResolved (db_fund db)))"
proof -
  let ?rows = "concat (map (\<lambda>f. map (\<lambda>l. (l, f)) (label_of_fund db f)) (filter f_varianceResolved (db_fund db)))"
  have "sum_list (map ro_amount (resolved_goal collate db)) =
      sum_list (map (\<lambda>(k, ys). sum_list (map f_amount (map snd ys))) (group_by resolved_key ?rows))"
    unfolding resolved_goal_def map_map by (intro arg_cong [of _ _ sum_list] map_cong refl) (auto simp: Let_def)
  also have "\<dots> = sum_list (map f_amount (filter f_varianceResolved (db_fund db)))"
    unfolding report_amounts by (rule sum_single_labels [OF assms])
  finally show ?thesis .
qed

text \<open>Without filters the report leaves nothing out: it lists every resolved bank transaction once, and its amounts add up to
  those of the resolved bank and fund rows, provided every row has its client, account and goal.\<close>

theorem report_conserves:
  fixes ilike :: "string \<Rightarrow> string \<Rightarrow> bool" and collate :: "string \<Rightarrow> nat" and db :: database
  assumes "list_all (\<lambda>b. length (label_of_bank db b) = 1) (db_bank db)" "list_all (\<lambda>f. length (label_of_fund db f) = 1) (db_fund db)"
  defines "r \<equiv> resolved_variances_report ilike collate None \<lparr>rf_goalNumber = None, rf_clientSearch = None, rf_originalTag = None\<rparr> db"
  shows "rp_bank r = length (filter b_varianceResolved (db_bank db)) \<and> rp_total r = rp_bank r + rp_goal r
    \<and> sum_list (map ro_amount (rp_data r)) =
        sum_list (map b_totalAmount (filter b_varianceResolved (db_bank db))) + sum_list (map f_amount (filter f_varianceResolved (db_fund db)))"
proof -
  let ?rows = "resolved_bank db @ resolved_goal collate db"
  have "filter (report_where ilike None \<lparr>rf_goalNumber = None, rf_clientSearch = None, rf_originalTag = None\<rparr>) ?rows = ?rows"
    by (simp add: report_where_def in_range_def when_given_def)
  then have r: "rp_data r = sort_key (\<lambda>r. (newest_first (ro_resolvedAt r), collate (ro_goal r))) ?rows"
    "rp_total r = length (rp_data r)" "rp_bank r = length (filter (\<lambda>r. ro_source r = BANK_SIDE) (rp_data r))"
    "rp_goal r = length (filter (\<lambda>r. ro_source r \<noteq> BANK_SIDE) (rp_data r))"
    by (simp_all add: r_def resolved_variances_report_def Let_def)
  have perm: "mset (rp_data r) = mset ?rows" by (simp add: r(1))
  have "length (filter (\<lambda>r. ro_source r = BANK_SIDE) (rp_data r)) = length (filter (\<lambda>r. ro_source r = BANK_SIDE) ?rows)"
    using perm by (metis mset_filter size_mset)
  also have "filter (\<lambda>r. ro_source r = BANK_SIDE) ?rows = resolved_bank db"
    using resolved_sources(1) [of _ db] resolved_sources(2) [of _ collate db] by (auto simp: filter_empty_conv filter_id_conv)
  finally have "rp_bank r = length (filter b_varianceResolved (db_bank db))"
    using resolved_bank_amount(2) [OF assms(1)] by (simp add: r(3))
  moreover have "rp_total r = rp_bank r + rp_goal r"
    unfolding r(2-4) by (rule sum_length_filter_compl [symmetric])
  moreover have "sum_list (map ro_amount (rp_data r)) = sum_list (map ro_amount ?rows)" by (rule sum_list_map_mset [OF perm])
  ultimately show ?thesis
    using resolved_bank_amount(1) [OF assms(1)] resolved_goal_amount [OF assms(2), of collate] by simp
qed

section \<open>Examples\<close>

text \<open>A deposit tagged as missing on the goal side has found its goal transaction, which two funds share.\<close>

definition ex_tagged_db :: database where
  "ex_tagged_db = \<lparr>db_bank = [(ex_bank ''b1'' ''T1'' 1 5000 None)\<lparr>b_reviewTag := Some MISSING_IN_GOAL\<rparr>],
     db_fund = [ex_fund ''f1'' ''c1'' ''T1'' 1 3000, ex_fund ''f2'' ''c1'' ''T1'' 1 2000],
     db_goals = [\<lparr>go_id = ''g'', go_accountId = ''a'', go_number = ''G''\<rparr>],
     db_accounts = [\<lparr>ac_id = ''a'', ac_clientId = ''c'', ac_number = ''A''\<rparr>], db_clients = [\<lparr>cl_id = ''c'', cl_name = ''N''\<rparr>]\<rparr>"

theorem detection_marks_exactly_witness:
  "map b_varianceResolved (db_bank (fst (detect_resolved_variances (\<lambda>_. 0) 9 None None ex_tagged_db))) = [True]"
proof -
  obtain b where "db_bank ex_tagged_db = [b]" "distinct (map b_id (db_bank ex_tagged_db))" by (simp add: ex_tagged_db_def)
  moreover have "map (bank_resolvable None ex_tagged_db) (db_bank ex_tagged_db) = [True]" by code_simp
  ultimately show ?thesis
    using detection_marks_exactly [of ex_tagged_db "\<lambda>_. 0" 9 None None] by (auto simp: Let_def list_all2_Cons1)
qed

definition ex_resolved_db :: database where
  "ex_resolved_db = ex_tagged_db\<lparr>db_bank := [],
     db_fund := map (\<lambda>f. f\<lparr>f_reviewTag := Some MISSING_IN_BANK, f_varianceResolved := True\<rparr>) (db_fund ex_tagged_db)\<rparr>"

lemma ex_pending_negative: "st_pending (resolution_statistics ex_resolved_db) = - 1"
  by code_simp

theorem report_conserves_witness:
  "sum_list (map ro_amount (rp_data (resolved_variances_report (\<lambda>_ _. True) (\<lambda>_. 0) None
     \<lparr>rf_goalNumber = None, rf_clientSearch = None, rf_originalTag = None\<rparr> ex_resolved_db))) = 5000"
proof -
  have "list_all (\<lambda>b. length (label_of_bank ex_resolved_db b) = 1) (db_bank ex_resolved_db)"
    "list_all (\<lambda>f. length (label_of_fund ex_resolved_db f) = 1) (db_fund ex_resolved_db)"
    "sum_list (map b_totalAmount (filter b_varianceResolved (db_bank ex_resolved_db))) +
     sum_list (map f_amount (filter f_varianceResolved (db_fund ex_resolved_db))) = 5000"
    by code_simp+
  then show ?thesis using report_conserves [of ex_resolved_db "\<lambda>_ _. True" "\<lambda>_. 0"] by simp
qed

end
