(* ===== verification/FundPrice.thy ===== *)
theory FundPrice
  imports Domain
begin

text \<open>
  \<open>FundPriceService\<close> and the part of \<open>UnitRegistryService\<close> that reads prices: the table of fund prices, its upload row by
  row, the lists, the latest prices per fund and their cache. A price date is a date column, so it is the day of an
  instant; \<open>createdAt\<close> is left out, and so is the rounding of the decimal columns, but not their range. The
  cache is the one key of Redis the service uses; its answers are taken to arrive.
\<close>

section \<open>Values per fund\<close>

text \<open>The objects \<open>{ XUMMF, XUBF, XUDEF, XUREF }\<close>.\<close>

datatype 'a per_fund = Per_Fund (xummf: 'a) (xubf: 'a) (xudef: 'a) (xuref: 'a)

definition each_fund :: "(string \<Rightarrow> 'a) \<Rightarrow> 'a per_fund" where
  "each_fund f = Per_Fund (f ''XUMMF'') (f ''XUBF'') (f ''XUDEF'') (f ''XUREF'')"

fun fund_value :: "'a per_fund \<Rightarrow> string \<Rightarrow> 'a option" where
  "fund_value (Per_Fund a b c d) code =
     (if code = ''XUMMF'' then Some a else if code = ''XUBF'' then Some b
      else if code = ''XUDEF'' then Some c else if code = ''XUREF'' then Some d else None)"

fun set_fund :: "'a per_fund \<Rightarrow> string \<Rightarrow> 'a \<Rightarrow> 'a per_fund" where
  "set_fund (Per_Fund a b c d) code v =
     (if code = ''XUMMF'' then Per_Fund v b c d else if code = ''XUBF'' then Per_Fund a v c d
      else if code = ''XUDEF'' then Per_Fund a b v d else if code = ''XUREF'' then Per_Fund a b c v else Per_Fund a b c d)"

text \<open>\<open>Object.values(values).reduce((sum, v) => sum + v, 0)\<close>\<close>

fun fund_total :: "rat per_fund \<Rightarrow> rat" where
  "fund_total (Per_Fund a b c d) = a + b + c + d"

definition registry_codes :: "string list" where
  "registry_codes = [''XUMMF'', ''XUBF'', ''XUDEF'', ''XUREF'']"

section \<open>Tables\<close>

record fund_info =
  fi_id :: row_id
  fi_code :: string
  fi_name :: string
  fi_active :: bool

record price_row =
  pr_id :: nat
  pr_fundId :: row_id
  pr_date :: int
  pr_bid :: rat
  pr_mid :: rat
  pr_offer :: rat
  pr_nav :: "rat option"

record price_db =
  pt_funds :: "fund_info list"
  pt_prices :: "price_row list"
  pt_nextId :: nat

record price_data =
  pd_fundCode :: string
  pd_priceDate :: instant
  pd_bid :: rat
  pd_mid :: rat
  pd_offer :: rat
  pd_nav :: "rat option"

section \<open>Uploading\<close>

datatype price_error = PE_FundNotFound string | PE_InvalidPrices | PE_OutOfRange

record price_upload =
  pu_success :: bool
  pu_totalRecords :: nat
  pu_inserted :: nat
  pu_updated :: nat
  pu_failed :: nat
  pu_errors :: "(nat \<times> price_error \<times> price_data) list"

definition fund_ids :: "price_db \<Rightarrow> (string, row_id) jsmap" where
  "fund_ids db = foldl (\<lambda>m f. map_set m (fi_code f) (fi_id f)) [] (pt_funds db)"

definition misordered :: "price_data \<Rightarrow> bool" where
  "misordered p = (pd_bid p > pd_mid p \<or> pd_mid p > pd_offer p)"

text \<open>\<open>Decimal(18,6)\<close>: a larger value makes the database call fail.\<close>

definition fits_column :: "rat \<Rightarrow> bool" where
  "fits_column v = (\<bar>v\<bar> < 10 ^ 12)"

definition storable :: "price_data \<Rightarrow> bool" where
  "storable p = (fits_column (pd_bid p) \<and> fits_column (pd_mid p) \<and> fits_column (pd_offer p) \<and>
     (case pd_nav p of None \<Rightarrow> True | Some v \<Rightarrow> fits_column v))"

definition find_price :: "price_db \<Rightarrow> row_id \<Rightarrow> int \<Rightarrow> price_row option" where
  "find_price db fundId day = List.find (\<lambda>r. pr_fundId r = fundId \<and> pr_date r = day) (pt_prices db)"

text \<open>An undefined \<open>nav\<close> leaves the column of an existing row as it is.\<close>

definition update_price :: "price_db \<Rightarrow> price_row \<Rightarrow> price_data \<Rightarrow> price_db" where
  "update_price db r p =
     db\<lparr>pt_prices := update_where (\<lambda>x. pr_id x = pr_id r)
          (\<lambda>x. x\<lparr>pr_bid := pd_bid p, pr_mid := pd_mid p, pr_offer := pd_offer p,
                 pr_nav := (case pd_nav p of None \<Rightarrow> pr_nav x | Some v \<Rightarrow> Some v)\<rparr>) (pt_prices db)\<rparr>"

definition create_price :: "price_db \<Rightarrow> row_id \<Rightarrow> price_data \<Rightarrow> price_db" where
  "create_price db fundId p =
     db\<lparr>pt_prices := pt_prices db @
          [\<lparr>pr_id = pt_nextId db, pr_fundId = fundId, pr_date = iso_day (pd_priceDate p), pr_bid = pd_bid p,
            pr_mid = pd_mid p, pr_offer = pd_offer p, pr_nav = pd_nav p\<rparr>],
        pt_nextId := Suc (pt_nextId db)\<rparr>"

definition price_failed :: "nat \<Rightarrow> price_error \<Rightarrow> price_data \<Rightarrow> price_upload \<Rightarrow> price_upload" where
  "price_failed i e p res = res\<lparr>pu_errors := pu_errors res @ [(i + 2, e, p)], pu_failed := pu_failed res + 1\<rparr>"

definition upload_price ::
    "(string, row_id) jsmap \<Rightarrow> price_db \<times> price_upload \<Rightarrow> nat \<times> price_data \<Rightarrow> price_db \<times> price_upload" where
  "upload_price fundMap st ip =
     (case (st, ip) of ((db, res), (i, p)) \<Rightarrow>
        if \<not> truthy_str (map_get fundMap (pd_fundCode p)) then (db, price_failed i (PE_FundNotFound (pd_fundCode p)) p res)
        else if misordered p then (db, price_failed i PE_InvalidPrices p res)
        else if \<not> storable p then (db, price_failed i PE_OutOfRange p res)
        else let fundId = the (map_get fundMap (pd_fundCode p))
             in (case find_price db fundId (iso_day (pd_priceDate p)) of
                   Some r \<Rightarrow> (update_price db r p, res\<lparr>pu_updated := pu_updated res + 1\<rparr>)
                 | None \<Rightarrow> (create_price db fundId p, res\<lparr>pu_inserted := pu_inserted res + 1\<rparr>)))"

definition upload_prices :: "price_db \<Rightarrow> price_data list \<Rightarrow> price_db \<times> price_upload" where
  "upload_prices db prices =
     (let res0 = \<lparr>pu_success = False, pu_totalRecords = length prices, pu_inserted = 0, pu_updated = 0, pu_failed = 0,
                  pu_errors = []\<rparr>;
          (db', res) = foldl (upload_price (fund_ids db)) (db, res0) (enumerate 0 prices)
      in (db', res\<lparr>pu_success := (pu_failed res = 0)\<rparr>))"

section \<open>Reading\<close>

record price_filter =
  pf_code :: "string option"
  pf_start :: "instant option"
  pf_end :: "instant option"
  pf_limit :: nat
  pf_offset :: nat

record price_entry =
  pe_fund :: fund_info
  pe_row :: price_row

text \<open>The relation of a price to its fund; \<open>fundId\<close> is a foreign key to the primary key of funds.\<close>

definition price_entries :: "price_db \<Rightarrow> price_entry list" where
  "price_entries db =
     concat (map (\<lambda>r. map (\<lambda>f. \<lparr>pe_fund = f, pe_row = r\<rparr>) (filter (\<lambda>f. fi_id f = pr_fundId r) (pt_funds db))) (pt_prices db))"

definition price_wanted :: "price_filter \<Rightarrow> price_entry \<Rightarrow> bool" where
  "price_wanted q e =
     ((\<not> truthy_str (pf_code q) \<or> Some (fi_code (pe_fund e)) = pf_code q) \<and>
      (case pf_start q of None \<Rightarrow> True | Some t \<Rightarrow> iso_day t \<le> pr_date (pe_row e)) \<and>
      (case pf_end q of None \<Rightarrow> True | Some t \<Rightarrow> pr_date (pe_row e) \<le> iso_day t))"

definition wanted_prices :: "(string \<Rightarrow> nat) \<Rightarrow> price_filter \<Rightarrow> price_db \<Rightarrow> price_entry list" where
  "wanted_prices collate q db =
     sort_key (\<lambda>e. - pr_date (pe_row e))
       (sort_key (\<lambda>e. collate (fi_code (pe_fund e))) (filter (price_wanted q) (price_entries db)))"

definition get_prices :: "(string \<Rightarrow> nat) \<Rightarrow> price_filter \<Rightarrow> price_db \<Rightarrow> price_entry list \<times> nat" where
  "get_prices collate q db =
     (take (pf_limit q) (drop (pf_offset q) (wanted_prices collate q db)), length (wanted_prices collate q db))"

definition newest_price_first :: "price_row list \<Rightarrow> price_row list" where
  "newest_price_first rs = sort_key (\<lambda>r. - pr_date r) rs"

definition prices_of_fund :: "price_db \<Rightarrow> fund_info \<Rightarrow> price_row list" where
  "prices_of_fund db f = filter (\<lambda>r. pr_fundId r = fi_id f) (pt_prices db)"

definition first_of :: "'a list \<Rightarrow> 'a option" where
  "first_of xs = (case xs of [] \<Rightarrow> None | x # _ \<Rightarrow> Some x)"

definition get_latest_prices :: "(string \<Rightarrow> nat) \<Rightarrow> price_db \<Rightarrow> (string \<times> string \<times> price_row option) list" where
  "get_latest_prices collate db =
     map (\<lambda>f. (fi_code f, fi_name f, first_of (newest_price_first (prices_of_fund db f))))
       (sort_key (\<lambda>f. collate (fi_code f)) (filter fi_active (pt_funds db)))"

definition get_price_by_fund_and_date :: "price_db \<Rightarrow> string \<Rightarrow> instant \<Rightarrow> (fund_info \<times> price_row) option" where
  "get_price_by_fund_and_date db fundCode priceDate =
     (case List.find (\<lambda>f. fi_code f = fundCode) (pt_funds db) of
        None \<Rightarrow> None
      | Some f \<Rightarrow> map_option (\<lambda>r. (f, r))
          (first_of (filter (\<lambda>r. pr_date r = iso_day priceDate) (prices_of_fund db f))))"

text \<open>A missing row makes \<open>delete\<close> throw.\<close>

definition delete_price :: "price_db \<Rightarrow> nat \<Rightarrow> price_db option" where
  "delete_price db i =
     (if list_ex (\<lambda>r. pr_id r = i) (pt_prices db)
      then Some (db\<lparr>pt_prices := filter (\<lambda>r. pr_id r \<noteq> i) (pt_prices db)\<rparr>) else None)"

section \<open>The latest mid prices and their cache\<close>

record fund_quotes =
  fq_prices :: "rat option per_fund"
  fq_asOf :: "int option"

text \<open>
  \<open>funds LEFT JOIN fund_prices\<close>, newest price first; with a date, prices after it are left out, and so are funds
  without a price.
\<close>

definition quote_rows :: "price_db \<Rightarrow> int option \<Rightarrow> (string \<times> price_row option) list" where
  "quote_rows db asOf =
     concat (map (\<lambda>f.
         let rs = prices_of_fund db f; joined = (if rs = [] then [None] else map Some rs)
         in map (\<lambda>r. (fi_code f, r))
              (filter (\<lambda>r. case (asOf, r) of (None, _) \<Rightarrow> True | (Some d, None) \<Rightarrow> False | (Some d, Some p) \<Rightarrow> pr_date p \<le> d) joined))
       (filter (\<lambda>f. fi_code f \<in> set registry_codes) (pt_funds db)))"

definition quote_order :: "(string \<times> price_row option) list \<Rightarrow> (string \<times> price_row option) list" where
  "quote_order rows =
     sort_key (\<lambda>r. case snd r of None \<Rightarrow> 1 | Some _ \<Rightarrow> (0 :: nat))
       (sort_key (\<lambda>r. case snd r of None \<Rightarrow> 0 | Some p \<Rightarrow> - pr_date p) rows)"

text \<open>\<open>SELECT DISTINCT ON (fundCode)\<close>: the first row of each fund.\<close>

definition distinct_on_fund :: "(string \<times> price_row option) list \<Rightarrow> (string \<times> price_row option) list" where
  "distinct_on_fund rows = map (\<lambda>g. hd (snd g)) (group_by fst rows)"

definition later_date :: "int option \<Rightarrow> int \<Rightarrow> int option" where
  "later_date asOf d = (case asOf of None \<Rightarrow> Some d | Some a \<Rightarrow> Some (if d > a then d else a))"

definition add_quote :: "fund_quotes \<Rightarrow> string \<times> price_row option \<Rightarrow> fund_quotes" where
  "add_quote q row =
     (case snd row of
        None \<Rightarrow> q
      | Some p \<Rightarrow> \<lparr>fq_prices = set_fund (fq_prices q) (fst row) (Some (pr_mid p)), fq_asOf = later_date (fq_asOf q) (pr_date p)\<rparr>)"

definition no_quotes :: fund_quotes where
  "no_quotes = \<lparr>fq_prices = Per_Fund None None None None, fq_asOf = None\<rparr>"

definition latest_quotes :: "price_db \<Rightarrow> int option \<Rightarrow> fund_quotes" where
  "latest_quotes db asOf = foldl add_quote no_quotes (distinct_on_fund (quote_order (quote_rows db asOf)))"

text \<open>\<open>invalidatePricesCache\<close> follows an upload that wrote a row and a successful deletion.\<close>

record price_state =
  st_db :: price_db
  st_cache :: "fund_quotes option"

text \<open>A read past an empty cache is two calls: the query, then the storing of its result.\<close>

definition store_quotes :: "fund_quotes \<Rightarrow> price_state \<Rightarrow> price_state" where
  "store_quotes q st = st\<lparr>st_cache := Some q\<rparr>"

definition read_quotes :: "price_state \<Rightarrow> int option \<Rightarrow> fund_quotes \<times> price_state" where
  "read_quotes st asOf =
     (case asOf of
        Some d \<Rightarrow> (latest_quotes (st_db st) (Some d), st)
      | None \<Rightarrow>
          (case st_cache st of
             Some q \<Rightarrow> (q, st)
           | None \<Rightarrow> let q = latest_quotes (st_db st) None in (q, store_quotes q st)))"

definition invalidate_prices :: "price_state \<Rightarrow> price_state" where
  "invalidate_prices st = st\<lparr>st_cache := None\<rparr>"

definition upload_request :: "price_state \<Rightarrow> price_data list \<Rightarrow> price_upload \<times> price_state" where
  "upload_request st prices =
     (let (db', res) = upload_prices (st_db st) prices; st' = st\<lparr>st_db := db'\<rparr>
      in (res, if pu_inserted res > 0 \<or> pu_updated res > 0 then invalidate_prices st' else st'))"

definition delete_request :: "price_state \<Rightarrow> nat \<Rightarrow> bool \<times> price_state" where
  "delete_request st i =
     (case delete_price (st_db st) i of
        None \<Rightarrow> (False, st)
      | Some db' \<Rightarrow> (True, invalidate_prices (st\<lparr>st_db := db'\<rparr>)))"

text \<open>The requests one after the other, and the expiry of the cached prices after an hour.\<close>

datatype price_op = Read_Quotes "int option" | Upload_Prices "price_data list" | Delete_Price nat | Cache_Expires

datatype price_reply = Quotes fund_quotes | Uploaded price_upload | Deleted bool | Silent

definition price_step :: "price_op \<Rightarrow> price_state \<Rightarrow> price_reply \<times> price_state" where
  "price_step op st =
     (case op of
        Read_Quotes asOf \<Rightarrow> (case read_quotes st asOf of (q, st') \<Rightarrow> (Quotes q, st'))
      | Upload_Prices ps \<Rightarrow> (case upload_request st ps of (r, st') \<Rightarrow> (Uploaded r, st'))
      | Delete_Price i \<Rightarrow> (case delete_request st i of (b, st') \<Rightarrow> (Deleted b, st'))
      | Cache_Expires \<Rightarrow> (Silent, st\<lparr>st_cache := None\<rparr>))"

fun price_run :: "price_op list \<Rightarrow> price_state \<Rightarrow> price_reply list \<times> price_state" where
  "price_run [] st = ([], st)"
| "price_run (op # ops) st =
     (let (r, st') = price_step op st; (rs, st'') = price_run ops st' in (r # rs, st''))"

end
