(* ===== verification/FundPriceProperties.thy ===== *)
theory FundPriceProperties
  imports FundPrice
begin

text \<open>
  What uploading fund prices does to the table, as a refinement of a finite map from fund and day to prices, that it may
  be repeated, which price counts as the latest, and that the cache cannot be noticed.
\<close>

section \<open>The table as a map\<close>

definition price_table_ok :: "price_db \<Rightarrow> bool" where
  "price_table_ok db = (distinct (map pr_id (pt_prices db)) \<and> list_all (\<lambda>r. pr_id r < pt_nextId db) (pt_prices db) \<and>
     distinct (map (\<lambda>r. (pr_fundId r, pr_date r)) (pt_prices db)))"

type_synonym price_map = "row_id \<times> int \<Rightarrow> (rat \<times> rat \<times> rat) option"

definition price_at :: "price_db \<Rightarrow> price_map" where
  "price_at db k = map_option (\<lambda>r. (pr_bid r, pr_mid r, pr_offer r)) (find_price db (fst k) (snd k))"

definition accepted_price :: "(string, row_id) jsmap \<Rightarrow> price_data \<Rightarrow> bool" where
  "accepted_price m p = (truthy_str (map_get m (pd_fundCode p)) \<and> \<not> misordered p \<and> storable p)"

definition price_key :: "(string, row_id) jsmap \<Rightarrow> price_data \<Rightarrow> row_id \<times> int" where
  "price_key m p = (the (map_get m (pd_fundCode p)), iso_day (pd_priceDate p))"

definition put_price :: "(string, row_id) jsmap \<Rightarrow> price_map \<Rightarrow> price_data \<Rightarrow> price_map" where
  "put_price m M p = (if accepted_price m p then M(price_key m p \<mapsto> (pd_bid p, pd_mid p, pd_offer p)) else M)"

lemma find_price_Some:
  assumes "price_table_ok db" "r \<in> set (pt_prices db)"
  shows "find_price db (pr_fundId r) (pr_date r) = Some r"
proof -
  obtain x where x: "find_price db (pr_fundId r) (pr_date r) = Some x"
    using assms(2) by (cases "find_price db (pr_fundId r) (pr_date r)") (auto simp: find_price_def find_None_iff)
  then have "x \<in> set (pt_prices db)" "pr_fundId x = pr_fundId r" "pr_date x = pr_date r"
    by (auto simp: find_price_def dest: find_SomeD)
  with assms x show ?thesis by (auto simp: price_table_ok_def distinct_map dest: inj_onD)
qed

lemma find_price_iff:
  assumes "price_table_ok db"
  shows "find_price db f d = Some r \<longleftrightarrow> r \<in> set (pt_prices db) \<and> pr_fundId r = f \<and> pr_date r = d"
  using find_price_Some [OF assms] by (auto simp: find_price_def dest: find_SomeD)

lemma find_price_None: "find_price db f d = None \<longleftrightarrow> (\<forall>r \<in> set (pt_prices db). \<not> (pr_fundId r = f \<and> pr_date r = d))"
  by (auto simp: find_price_def find_None_iff)

lemma find_price_None_key: "find_price db f d = None \<longleftrightarrow> (f, d) \<notin> set (map (\<lambda>r. (pr_fundId r, pr_date r)) (pt_prices db))"
  unfolding find_price_None by auto

section \<open>One row\<close>

lemma find_append: "List.find P (xs @ ys) = (case List.find P xs of None \<Rightarrow> List.find P ys | Some x \<Rightarrow> Some x)"
  by (induction xs) auto

lemma create_price_table:
  assumes ok: "price_table_ok db" and new: "find_price db f (iso_day (pd_priceDate p)) = None"
  shows "price_table_ok (create_price db f p) \<and>
    price_at (create_price db f p) = (price_at db)((f, iso_day (pd_priceDate p)) \<mapsto> (pd_bid p, pd_mid p, pd_offer p))"
proof -
  have "find_price (create_price db f p) a b =
      (if (a, b) = (f, iso_day (pd_priceDate p))
       then Some \<lparr>pr_id = pt_nextId db, pr_fundId = f, pr_date = iso_day (pd_priceDate p), pr_bid = pd_bid p,
            pr_mid = pd_mid p, pr_offer = pd_offer p, pr_nav = pd_nav p\<rparr> else find_price db a b)" for a b
    using new by (auto simp: find_price_def create_price_def find_append split: option.splits)
  then have "price_at (create_price db f p) = (price_at db)((f, iso_day (pd_priceDate p)) \<mapsto> (pd_bid p, pd_mid p, pd_offer p))"
    by (auto simp: price_at_def fun_eq_iff)
  moreover have "price_table_ok (create_price db f p)"
    using ok new by (auto simp: price_table_ok_def create_price_def find_price_None list_all_iff less_Suc_eq)
  ultimately show ?thesis by blast
qed

definition new_prices :: "price_data \<Rightarrow> price_row \<Rightarrow> price_row" where
  "new_prices p x = x\<lparr>pr_bid := pd_bid p, pr_mid := pd_mid p, pr_offer := pd_offer p,
     pr_nav := (case pd_nav p of None \<Rightarrow> pr_nav x | Some v \<Rightarrow> Some v)\<rparr>"

lemma new_prices_columns [simp]:
  "pr_id (new_prices p x) = pr_id x" "pr_fundId (new_prices p x) = pr_fundId x" "pr_date (new_prices p x) = pr_date x"
  "pr_bid (new_prices p x) = pd_bid p" "pr_mid (new_prices p x) = pd_mid p" "pr_offer (new_prices p x) = pd_offer p"
  by (simp_all add: new_prices_def)

lemma update_price_rows:
  "pt_prices (update_price db r p) = update_where (\<lambda>x. pr_id x = pr_id r) (new_prices p) (pt_prices db)"
  by (simp add: update_price_def new_prices_def [abs_def])

lemma update_price_columns:
  "map pr_id (pt_prices (update_price db r p)) = map pr_id (pt_prices db)"
  "map (\<lambda>r. (pr_fundId r, pr_date r)) (pt_prices (update_price db r p)) = map (\<lambda>r. (pr_fundId r, pr_date r)) (pt_prices db)"
  "length (pt_prices (update_price db r p)) = length (pt_prices db)"
  unfolding update_price_rows by (simp_all add: update_where_map_same)

lemma update_price_rest: "pt_nextId (update_price db r p) = pt_nextId db" "pt_funds (update_price db r p) = pt_funds db"
  by (simp_all add: update_price_def)

lemma in_update_price:
  "x \<in> set (pt_prices db) \<Longrightarrow> (if pr_id x = pr_id r then new_prices p x else x) \<in> set (pt_prices (update_price db r p))"
  unfolding update_price_rows in_update_where by auto

lemma update_price_table_ok: "price_table_ok db \<Longrightarrow> price_table_ok (update_price db r p)"
proof -
  have ids: "list_all (\<lambda>r. pr_id r < n) rs \<longleftrightarrow> list_all (\<lambda>i. i < n) (map pr_id rs)" for n rs
    by (simp add: list_all_iff)
  show "price_table_ok db \<Longrightarrow> price_table_ok (update_price db r p)"
    unfolding price_table_ok_def ids update_price_columns update_price_rest .
qed

lemma update_price_table:
  assumes ok: "price_table_ok db" and r: "find_price db f d = Some r"
  shows "price_at (update_price db r p) = (price_at db)((f, d) \<mapsto> (pd_bid p, pd_mid p, pd_offer p))"
proof
  fix k :: "row_id \<times> int"
  let ?db = "update_price db r p"
  obtain a b where k: "k = (a, b)" by (cases k)
  have ok': "price_table_ok ?db" using ok by (rule update_price_table_ok)
  have r_in: "r \<in> set (pt_prices db)" "pr_fundId r = f" "pr_date r = d"
    using r find_price_iff [OF ok] by auto
  show "price_at ?db k = ((price_at db)((f, d) \<mapsto> (pd_bid p, pd_mid p, pd_offer p))) k"
  proof (cases "find_price db a b")
    case None
    then have "find_price ?db a b = None" unfolding find_price_None_key update_price_columns .
    moreover have "(a, b) \<noteq> (f, d)" using None r by (metis option.distinct(1) prod.inject)
    ultimately show ?thesis using None by (simp add: price_at_def k)
  next
    case (Some x)
    then have x: "x \<in> set (pt_prices db)" "pr_fundId x = a" "pr_date x = b" using find_price_iff [OF ok] by auto
    have same: "pr_id x = pr_id r \<longleftrightarrow> x = r"
      using x(1) r_in(1) ok unfolding price_table_ok_def distinct_map by (metis inj_onD)
    have key: "(a, b) = (f, d) \<longleftrightarrow> x = r" using x(2,3) r_in(2,3) Some r by (metis option.inject prod.inject)
    have "find_price ?db a b = Some (if x = r then new_prices p x else x)"
      unfolding find_price_iff [OF ok'] using in_update_price [OF x(1), of r p] x(2,3) same by (cases "x = r") simp_all
    with Some key show ?thesis by (simp add: price_at_def k)
  qed
qed

section \<open>The whole upload\<close>

lemma upload_price_cases:
  "upload_price m (db, res) (i, p) =
     (if accepted_price m p
      then (case find_price db (fst (price_key m p)) (snd (price_key m p)) of
              Some r \<Rightarrow> (update_price db r p, res\<lparr>pu_updated := pu_updated res + 1\<rparr>)
            | None \<Rightarrow> (create_price db (fst (price_key m p)) p, res\<lparr>pu_inserted := pu_inserted res + 1\<rparr>))
      else (db, price_failed i (if \<not> truthy_str (map_get m (pd_fundCode p)) then PE_FundNotFound (pd_fundCode p)
                                else if misordered p then PE_InvalidPrices else PE_OutOfRange) p res))"
  by (simp add: upload_price_def accepted_price_def price_key_def Let_def split: option.splits)

text \<open>What one row changes.\<close>

lemma upload_price_step:
  assumes "price_table_ok db" "upload_price m (db, res) (i, p) = (db', res')"
  shows "price_table_ok db'" "price_at db' = put_price m (price_at db) p" "pt_funds db' = pt_funds db"
    and "pu_inserted res' + pu_updated res' + pu_failed res' = Suc (pu_inserted res + pu_updated res + pu_failed res)"
    and "map fst (pu_errors res') = map fst (pu_errors res) @ (if accepted_price m p then [] else [i + 2])"
    and "pu_failed res' = pu_failed res + (if accepted_price m p then 0 else 1)"
    and "pu_inserted res' = pu_inserted res + (if accepted_price m p \<and> price_at db (price_key m p) = None then 1 else 0)"
    and "length (pt_prices db') + pu_inserted res = length (pt_prices db) + pu_inserted res'"
    and "pu_totalRecords res' = pu_totalRecords res"
    and "pu_inserted res' + pu_updated res' = pu_inserted res + pu_updated res \<Longrightarrow> db' = db"
proof -
  obtain f d where key: "price_key m p = (f, d)" by (cases "price_key m p")
  then have d: "iso_day (pd_priceDate p) = d" by (simp add: price_key_def)
  note ok = assms(1)
  have "price_table_ok db' \<and> price_at db' = put_price m (price_at db) p \<and> pt_funds db' = pt_funds db \<and>
      pu_inserted res' + pu_updated res' + pu_failed res' = Suc (pu_inserted res + pu_updated res + pu_failed res) \<and>
      map fst (pu_errors res') = map fst (pu_errors res) @ (if accepted_price m p then [] else [i + 2]) \<and>
      pu_failed res' = pu_failed res + (if accepted_price m p then 0 else 1) \<and>
      pu_inserted res' = pu_inserted res + (if accepted_price m p \<and> price_at db (price_key m p) = None then 1 else 0) \<and>
      length (pt_prices db') + pu_inserted res = length (pt_prices db) + pu_inserted res' \<and>
      pu_totalRecords res' = pu_totalRecords res \<and>
      (pu_inserted res' + pu_updated res' = pu_inserted res + pu_updated res \<longrightarrow> db' = db)"
  proof (cases "accepted_price m p")
    case False
    then have "db' = db" "\<exists>e. res' = price_failed i e p res" using assms(2) by (auto simp: upload_price_cases)
    with False ok show ?thesis by (auto simp: put_price_def price_failed_def)
  next
    case True
    show ?thesis
    proof (cases "find_price db f d")
      case None
      then have eq: "db' = create_price db f p" "res' = res\<lparr>pu_inserted := pu_inserted res + 1\<rparr>"
        using True assms(2) by (simp_all add: upload_price_cases key)
      show ?thesis
        using create_price_table [OF ok, of f p] None True unfolding eq
        by (simp add: put_price_def key d price_at_def create_price_def)
    next
      case (Some r)
      then have eq: "db' = update_price db r p" "res' = res\<lparr>pu_updated := pu_updated res + 1\<rparr>"
        using True assms(2) by (simp_all add: upload_price_cases key)
      have none: "price_at db (f, d) \<noteq> None" using Some by (simp add: price_at_def)
      show ?thesis
        using update_price_table_ok [OF ok, of r p] update_price_table [OF ok Some, of p] True none unfolding eq
        by (simp add: put_price_def key update_price_columns update_price_rest)
    qed
  qed
  then show "price_table_ok db'" "price_at db' = put_price m (price_at db) p" "pt_funds db' = pt_funds db"
    "pu_inserted res' + pu_updated res' + pu_failed res' = Suc (pu_inserted res + pu_updated res + pu_failed res)"
    "map fst (pu_errors res') = map fst (pu_errors res) @ (if accepted_price m p then [] else [i + 2])"
    "pu_failed res' = pu_failed res + (if accepted_price m p then 0 else 1)"
    "pu_inserted res' = pu_inserted res + (if accepted_price m p \<and> price_at db (price_key m p) = None then 1 else 0)"
    "length (pt_prices db') + pu_inserted res = length (pt_prices db) + pu_inserted res'"
    "pu_totalRecords res' = pu_totalRecords res"
    "pu_inserted res' + pu_updated res' = pu_inserted res + pu_updated res \<Longrightarrow> db' = db"
    by blast+
qed

text \<open>The numbers of the rows reported as errors; the first row of a file is row 2.\<close>

definition rejected_rows :: "(string, row_id) jsmap \<Rightarrow> nat \<Rightarrow> price_data list \<Rightarrow> nat list" where
  "rejected_rows m n ps = map (\<lambda>ip. fst ip + 2) (filter (\<lambda>ip. \<not> accepted_price m (snd ip)) (enumerate n ps))"

lemma rejected_rows_simps [simp]:
  "rejected_rows m n [] = []"
  "rejected_rows m n (p # ps) = (if accepted_price m p then [] else [n + 2]) @ rejected_rows m (Suc n) ps"
  by (simp_all add: rejected_rows_def)

lemma upload_fold:
  assumes "price_table_ok db" "foldl (upload_price m) (db, res) (enumerate n ps) = (db', res')"
  shows "price_table_ok db' \<and> price_at db' = foldl (put_price m) (price_at db) ps \<and> pt_funds db' = pt_funds db \<and>
    pu_inserted res' + pu_updated res' + pu_failed res' = pu_inserted res + pu_updated res + pu_failed res + length ps \<and>
    map fst (pu_errors res') = map fst (pu_errors res) @ rejected_rows m n ps \<and>
    pu_failed res' = pu_failed res + length (rejected_rows m n ps) \<and>
    length (pt_prices db') + pu_inserted res = length (pt_prices db) + pu_inserted res' \<and>
    pu_totalRecords res' = pu_totalRecords res"
  using assms
proof (induction ps arbitrary: db res n)
  case (Cons p ps)
  obtain db1 res1 where step: "upload_price m (db, res) (n, p) = (db1, res1)" by (metis surj_pair)
  note facts = upload_price_step [OF Cons.prems(1) step]
  have "foldl (upload_price m) (db1, res1) (enumerate (Suc n) ps) = (db', res')"
    using Cons.prems(2) by (simp add: step)
  note IH = Cons.IH [OF facts(1) this]
  show ?case
    using IH facts(2-9) by simp
qed simp

lemma no_rejected_rows: "rejected_rows m n ps = [] \<longleftrightarrow> list_all (accepted_price m) ps"
  by (induction ps arbitrary: n) auto

lemma upload_prices_fold:
  assumes "upload_prices db ps = (db', res)"
  obtains res1 where "foldl (upload_price (fund_ids db))
      (db, \<lparr>pu_success = False, pu_totalRecords = length ps, pu_inserted = 0, pu_updated = 0, pu_failed = 0, pu_errors = []\<rparr>)
      (enumerate 0 ps) = (db', res1)" "res = res1\<lparr>pu_success := (pu_failed res1 = 0)\<rparr>"
  using assms by (auto simp: upload_prices_def Let_def split: prod.splits)

lemma upload_prices_outcome:
  assumes "price_table_ok db" "upload_prices db ps = (db', res)"
  shows "price_table_ok db' \<and> price_at db' = foldl (put_price (fund_ids db)) (price_at db) ps \<and> pt_funds db' = pt_funds db \<and>
    pu_totalRecords res = length ps \<and> pu_inserted res + pu_updated res + pu_failed res = length ps \<and>
    map fst (pu_errors res) = rejected_rows (fund_ids db) 0 ps \<and>
    (pu_success res \<longleftrightarrow> list_all (accepted_price (fund_ids db)) ps) \<and>
    length (pt_prices db') = length (pt_prices db) + pu_inserted res"
proof -
  obtain res1 where fold: "foldl (upload_price (fund_ids db))
      (db, \<lparr>pu_success = False, pu_totalRecords = length ps, pu_inserted = 0, pu_updated = 0, pu_failed = 0, pu_errors = []\<rparr>)
      (enumerate 0 ps) = (db', res1)" and res: "res = res1\<lparr>pu_success := (pu_failed res1 = 0)\<rparr>"
    using upload_prices_fold [OF assms(2)] .
  show ?thesis
    using upload_fold [OF assms(1) fold] by (simp add: res no_rejected_rows)
qed

text \<open>Uploading fund prices. The table stays well formed, with one row per fund and day, and as a map from fund and
  day to prices it becomes what entering the accepted rows one after the other makes of it: the last row of a
  fund and day wins, and rejected rows change nothing. The counts add up to the number of rows, the reported
  row numbers are exactly those of the rejected rows, the upload succeeds iff there are none, and the table grows by the
  inserted rows.\<close>

theorem upload_prices_correct:
  assumes "price_table_ok db" "upload_prices db ps = (db', res)"
  shows "price_table_ok db' \<and> price_at db' = foldl (put_price (fund_ids db)) (price_at db) ps \<and> pt_funds db' = pt_funds db \<and>
    pu_totalRecords res = length ps \<and> pu_inserted res + pu_updated res + pu_failed res = length ps \<and>
    map fst (pu_errors res) = rejected_rows (fund_ids db) 0 ps \<and>
    (pu_success res \<longleftrightarrow> list_all (accepted_price (fund_ids db)) ps) \<and>
    length (pt_prices db') = length (pt_prices db) + pu_inserted res"
  using assms by (rule upload_prices_outcome)

definition ex_priced_fund :: fund_info where
  "ex_priced_fund = \<lparr>fi_id = ''f1'', fi_code = ''XUBF'', fi_name = ''Bond Fund'', fi_active = True\<rparr>"

definition ex_price_db :: price_db where
  "ex_price_db = \<lparr>pt_funds = [ex_priced_fund], pt_prices = [], pt_nextId = 0\<rparr>"

definition ex_price :: "string \<Rightarrow> rat \<Rightarrow> price_data" where
  "ex_price code mid = \<lparr>pd_fundCode = code, pd_priceDate = 0, pd_bid = 1, pd_mid = mid, pd_offer = 3, pd_nav = None\<rparr>"

definition ex_prices :: "price_data list" where
  "ex_prices = [ex_price ''XUBF'' 2, ex_price ''XUEQ'' 2, ex_price ''XUBF'' (5 / 2), ex_price ''XUBF'' 4]"

lemma ex_price_table_ok: "price_table_ok ex_price_db"
  by (simp add: price_table_ok_def ex_price_db_def)

lemmas upload_evaluation = ex_prices_def ex_price_def ex_price_db_def ex_priced_fund_def upload_prices_def upload_price_def
  fund_ids_def map_set_def map_get_def misordered_def storable_def fits_column_def find_price_def create_price_def
  update_price_def update_where_def price_failed_def iso_day_def Let_def

lemma ex_upload:
  "fst (upload_prices ex_price_db ex_prices) =
     \<lparr>pt_funds = [ex_priced_fund], pt_prices = [\<lparr>pr_id = 0, pr_fundId = ''f1'', pr_date = 0, pr_bid = 1, pr_mid = 5 / 2, pr_offer = 3,
        pr_nav = None\<rparr>], pt_nextId = 1\<rparr>"
  "pu_inserted (snd (upload_prices ex_price_db ex_prices)) = 1"
  "pu_updated (snd (upload_prices ex_price_db ex_prices)) = 1"
  by (simp_all add: upload_evaluation)

theorem upload_prices_correct_witness:
  "map fst (pu_errors (snd (upload_prices ex_price_db ex_prices))) = [3, 5] \<and>
   price_at (fst (upload_prices ex_price_db ex_prices)) (''f1'', 0) = Some (1, 5 / 2, 3)"
  using upload_prices_correct [OF ex_price_table_ok surjective_pairing [of "upload_prices ex_price_db ex_prices"]]
  by (simp add: rejected_rows_def accepted_price_def put_price_def price_key_def price_at_def upload_evaluation)

section \<open>Uploading again\<close>

lemma put_price_add: "put_price m (M ++ N) p = M ++ put_price m N p"
  by (simp add: put_price_def)

lemma put_price_map_add: "foldl (put_price m) M ps = M ++ foldl (put_price m) Map.empty ps"
  by (induction ps rule: rev_induct) (simp_all add: put_price_add)

lemma dom_put_price: "dom (put_price m M p) = (if accepted_price m p then insert (price_key m p) (dom M) else dom M)"
  by (simp add: put_price_def)

lemma dom_put_prices: "dom (foldl (put_price m) M ps) = dom M \<union> price_key m ` set (filter (accepted_price m) ps)"
  by (induction ps rule: rev_induct) (auto simp: dom_put_price)

lemma upload_fold_updates:
  assumes "price_table_ok db" "foldl (upload_price m) (db, res) (enumerate n ps) = (db', res')"
    and "\<forall>p \<in> set ps. accepted_price m p \<longrightarrow> price_at db (price_key m p) \<noteq> None"
  shows "pu_inserted res' = pu_inserted res"
  using assms
proof (induction ps arbitrary: db res n)
  case (Cons p ps)
  obtain db1 res1 where step: "upload_price m (db, res) (n, p) = (db1, res1)" by (metis surj_pair)
  note facts = upload_price_step [OF Cons.prems(1) step]
  have rest: "foldl (upload_price m) (db1, res1) (enumerate (Suc n) ps) = (db', res')"
    using Cons.prems(2) by (simp add: step)
  have "\<forall>q \<in> set ps. accepted_price m q \<longrightarrow> price_at db1 (price_key m q) \<noteq> None"
    using Cons.prems(3) by (simp add: facts(2) put_price_def)
  with Cons.IH [OF facts(1) rest] show ?case using facts(7) Cons.prems(3) by auto
qed simp

text \<open>Uploading the same prices a second time inserts nothing, updates every row that was accepted the first
  time, rejects the same rows and leaves the prices as they are.\<close>

theorem second_upload_only_updates:
  assumes "price_table_ok db" "upload_prices db ps = (db1, first)" "upload_prices db1 ps = (db2, second)"
  shows "pu_inserted second = 0 \<and> pu_updated second = pu_inserted first + pu_updated first \<and>
    map fst (pu_errors second) = map fst (pu_errors first) \<and> price_at db2 = price_at db1 \<and>
    length (pt_prices db2) = length (pt_prices db1)"
proof -
  let ?m = "fund_ids db"
  note one = upload_fold
  obtain res1 where fold1: "foldl (upload_price ?m)
      (db, \<lparr>pu_success = False, pu_totalRecords = length ps, pu_inserted = 0, pu_updated = 0, pu_failed = 0, pu_errors = []\<rparr>)
      (enumerate 0 ps) = (db1, res1)" and first: "first = res1\<lparr>pu_success := (pu_failed res1 = 0)\<rparr>"
    using upload_prices_fold [OF assms(2)] .
  note facts1 = upload_fold [OF assms(1) fold1]
  have same: "fund_ids db1 = ?m" using facts1 by (simp add: fund_ids_def)
  obtain res2 where fold2: "foldl (upload_price ?m)
      (db1, \<lparr>pu_success = False, pu_totalRecords = length ps, pu_inserted = 0, pu_updated = 0, pu_failed = 0, pu_errors = []\<rparr>)
      (enumerate 0 ps) = (db2, res2)" and second: "second = res2\<lparr>pu_success := (pu_failed res2 = 0)\<rparr>"
    using upload_prices_fold [OF assms(3)] unfolding same .
  have ok1: "price_table_ok db1" using facts1 by simp
  note facts2 = upload_fold [OF ok1 fold2]
  have M: "price_at db1 = foldl (put_price ?m) (price_at db) ps" using facts1 by simp
  have "\<forall>p \<in> set ps. accepted_price ?m p \<longrightarrow> price_at db1 (price_key ?m p) \<noteq> None"
  proof (intro ballI impI)
    fix p assume "p \<in> set ps" "accepted_price ?m p"
    then have "price_key ?m p \<in> dom (price_at db1)" unfolding M dom_put_prices by simp
    then show "price_at db1 (price_key ?m p) \<noteq> None" by (simp add: domIff)
  qed
  then have "pu_inserted res2 = 0" using upload_fold_updates [OF ok1 fold2] by simp
  moreover have "price_at db2 = price_at db1"
    using facts2 by (simp add: M) (metis put_price_map_add map_add_assoc map_add_subsumed2 map_le_refl)
  ultimately show ?thesis using facts1 facts2 by (simp add: first second)
qed

theorem second_upload_only_updates_witness:
  "pu_inserted (snd (upload_prices (fst (upload_prices ex_price_db ex_prices)) ex_prices)) = 0 \<and>
   pu_updated (snd (upload_prices (fst (upload_prices ex_price_db ex_prices)) ex_prices)) = 2"
  using second_upload_only_updates [OF ex_price_table_ok surjective_pairing surjective_pairing, of ex_prices]
  by (simp add: ex_upload)

section \<open>The cache\<close>

lemma upload_without_writes:
  "foldl (upload_price m) (db, res) ips = (db', res') \<Longrightarrow>
   pu_inserted res + pu_updated res \<le> pu_inserted res' + pu_updated res' \<and>
   (pu_inserted res' + pu_updated res' = pu_inserted res + pu_updated res \<longrightarrow> db' = db)"
proof (induction ips arbitrary: db res)
  case (Cons ip ips)
  obtain i p where ip: "ip = (i, p)" by (cases ip)
  obtain db1 res1 where step: "upload_price m (db, res) (i, p) = (db1, res1)" by (metis surj_pair)
  have "pu_inserted res + pu_updated res \<le> pu_inserted res1 + pu_updated res1 \<and>
      (pu_inserted res1 + pu_updated res1 = pu_inserted res + pu_updated res \<longrightarrow> db1 = db)"
    using step by (auto simp: upload_price_cases price_failed_def split: if_splits option.splits)
  moreover have "foldl (upload_price m) (db1, res1) ips = (db', res')" using Cons.prems by (simp add: ip step)
  ultimately show ?case using Cons.IH [of db1 res1] by auto
qed simp

lemma upload_prices_unchanged:
  assumes "upload_prices db ps = (db', res)" "\<not> (pu_inserted res > 0 \<or> pu_updated res > 0)"
  shows "db' = db"
proof -
  obtain res1 where fold: "foldl (upload_price (fund_ids db))
      (db, \<lparr>pu_success = False, pu_totalRecords = length ps, pu_inserted = 0, pu_updated = 0, pu_failed = 0, pu_errors = []\<rparr>)
      (enumerate 0 ps) = (db', res1)" and res: "res = res1\<lparr>pu_success := (pu_failed res1 = 0)\<rparr>"
    using upload_prices_fold [OF assms(1)] .
  show ?thesis using upload_without_writes [OF fold] assms(2) by (simp add: res)
qed

text \<open>The requests as they would be without a cache: the specification.\<close>

definition uncached_step :: "price_op \<Rightarrow> price_db \<Rightarrow> price_reply \<times> price_db" where
  "uncached_step op db =
     (case op of
        Read_Quotes asOf \<Rightarrow> (Quotes (latest_quotes db asOf), db)
      | Upload_Prices ps \<Rightarrow> (case upload_prices db ps of (db', res) \<Rightarrow> (Uploaded res, db'))
      | Delete_Price i \<Rightarrow> (case delete_price db i of None \<Rightarrow> (Deleted False, db) | Some db' \<Rightarrow> (Deleted True, db'))
      | Cache_Expires \<Rightarrow> (Silent, db))"

fun uncached_run :: "price_op list \<Rightarrow> price_db \<Rightarrow> price_reply list \<times> price_db" where
  "uncached_run [] db = ([], db)"
| "uncached_run (op # ops) db =
     (let (r, db') = uncached_step op db; (rs, db'') = uncached_run ops db' in (r # rs, db''))"

definition cache_coherent :: "price_state \<Rightarrow> bool" where
  "cache_coherent st = (case st_cache st of None \<Rightarrow> True | Some q \<Rightarrow> q = latest_quotes (st_db st) None)"

lemma cached_step:
  assumes "cache_coherent st" "price_step op st = (r, st')"
  shows "uncached_step op (st_db st) = (r, st_db st') \<and> cache_coherent st'"
proof (cases op)
  case (Read_Quotes asOf)
  then show ?thesis
    using assms by (cases asOf; cases "st_cache st")
      (auto simp: price_step_def uncached_step_def read_quotes_def store_quotes_def cache_coherent_def Let_def)
next
  case (Upload_Prices ps)
  obtain db' res where up: "upload_prices (st_db st) ps = (db', res)" by (metis surj_pair)
  then show ?thesis
    using assms Upload_Prices upload_prices_unchanged [OF up]
    by (auto simp: price_step_def uncached_step_def upload_request_def invalidate_prices_def cache_coherent_def Let_def
        split: option.splits if_splits)
next
  case (Delete_Price i)
  then show ?thesis
    using assms by (cases "delete_price (st_db st) i")
      (auto simp: price_step_def uncached_step_def delete_request_def invalidate_prices_def cache_coherent_def)
next
  case Cache_Expires
  then show ?thesis using assms by (auto simp: price_step_def uncached_step_def cache_coherent_def)
qed

text \<open>C31: as long as requests do not overlap, nobody can tell that the latest prices are cached: any sequence of reads,
  uploads, deletions and expiries answers what it would answer if every read went to the tables, and leaves the same tables
  and a cache that is empty or holds the latest prices.\<close>

theorem cache_unnoticed:
  assumes "cache_coherent st" "price_run ops st = (rs, st')"
  shows "uncached_run ops (st_db st) = (rs, st_db st') \<and> cache_coherent st'"
  using assms
proof (induction ops arbitrary: st rs)
  case (Cons op ops)
  obtain r st1 where step: "price_step op st = (r, st1)" by (metis surj_pair)
  obtain rs1 st2 where run: "price_run ops st1 = (rs1, st2)" by (metis surj_pair)
  have "rs = r # rs1" "st' = st2" using Cons.prems(2) by (simp_all add: step run)
  then show ?case
    using cached_step [OF Cons.prems(1) step] Cons.IH [of st1 rs1] run by simp
qed simp

definition ex_price_state :: price_state where
  "ex_price_state = \<lparr>st_db = ex_price_db, st_cache = None\<rparr>"

definition ex_ops :: "price_op list" where
  "ex_ops = [Upload_Prices [ex_price ''XUBF'' 2], Read_Quotes None, Upload_Prices [ex_price ''XUBF'' (5 / 2)], Read_Quotes None]"

lemmas quotes_evaluation = latest_quotes_def quote_rows_def prices_of_fund_def registry_codes_def quote_order_def
  distinct_on_fund_def group_by_def accumulate_def add_quote_def no_quotes_def later_date_def

lemma ex_quotes:
  "uncached_run ex_ops ex_price_db = (rs, db) \<Longrightarrow>
   rs ! 3 = Quotes \<lparr>fq_prices = Per_Fund None (Some (5 / 2)) None None, fq_asOf = Some 0\<rparr>"
  by (auto simp: ex_ops_def uncached_step_def quotes_evaluation upload_evaluation)

theorem cache_unnoticed_witness:
  "fst (price_run ex_ops ex_price_state) ! 3 = Quotes \<lparr>fq_prices = Per_Fund None (Some (5 / 2)) None None, fq_asOf = Some 0\<rparr>"
proof -
  have "cache_coherent ex_price_state" by (simp add: cache_coherent_def ex_price_state_def)
  from cache_unnoticed [OF this surjective_pairing, of ex_ops] show ?thesis
    using ex_quotes by (simp add: ex_price_state_def)
qed

text \<open>A read that overlaps an upload stores what it found before the upload; the prices stay stale although the upload has
  invalidated the cache, until they expire or the next upload.\<close>

lemma overlapping_read_is_stale:
  assumes "latest_quotes (st_db st') None \<noteq> latest_quotes (st_db st) None"
    and "upload_request st ps = (res, st')" "q = latest_quotes (st_db st) None"
  shows "\<not> cache_coherent (store_quotes q st') \<and> fst (read_quotes (store_quotes q st') None) = latest_quotes (st_db st) None"
  using assms by (simp add: cache_coherent_def store_quotes_def read_quotes_def)

section \<open>The latest prices\<close>

definition before_date :: "int option \<Rightarrow> price_row \<Rightarrow> bool" where
  "before_date asOf r = (case asOf of None \<Rightarrow> True | Some d \<Rightarrow> pr_date r \<le> d)"

text \<open>The newest price of a fund, up to a date if one is given.\<close>

definition quoted_price :: "price_db \<Rightarrow> int option \<Rightarrow> string \<Rightarrow> price_row option" where
  "quoted_price db asOf c =
     (case List.find (\<lambda>f. fi_code f = c) (pt_funds db) of
        None \<Rightarrow> None
      | Some f \<Rightarrow> first_of (newest_price_first (filter (before_date asOf) (prices_of_fund db f))))"

lemma insort_key_map: "insort_key k (f x) (map f xs) = map f (insort_key (\<lambda>x. k (f x)) x xs)"
  by (induction xs) auto

lemma sort_key_of_map: "sort_key k (map f xs) = map f (sort_key (\<lambda>x. k (f x)) xs)"
  by (induction xs) (simp_all add: insort_key_map)

lemma quote_order_filter: "filter (\<lambda>r. fst r = c) (quote_order rows) = quote_order (filter (\<lambda>r. fst r = c) rows)"
  by (simp add: quote_order_def filter_sort)

lemma quote_order_prices: "quote_order (map (\<lambda>r. (c, Some r)) rs) = map (\<lambda>r. (c, Some r)) (newest_price_first rs)"
  by (simp add: quote_order_def sort_key_of_map newest_price_first_def sort_key_const)

definition joined_fund_prices :: "price_db \<Rightarrow> int option \<Rightarrow> fund_info \<Rightarrow> (string \<times> price_row option) list" where
  "joined_fund_prices db asOf f =
     (if prices_of_fund db f = [] then (if asOf = None then [(fi_code f, None)] else [])
      else map (\<lambda>r. (fi_code f, Some r)) (filter (before_date asOf) (prices_of_fund db f)))"

lemma quote_rows_alt:
  "quote_rows db asOf = concat (map (joined_fund_prices db asOf) (filter (\<lambda>f. fi_code f \<in> set registry_codes) (pt_funds db)))"
  unfolding quote_rows_def joined_fund_prices_def Let_def
  by (cases asOf) (auto simp: before_date_def [abs_def] filter_map o_def intro!: arg_cong [where f = concat] map_cong)

lemma fund_rows_code: "r \<in> set (joined_fund_prices db asOf f) \<Longrightarrow> fst r = fi_code f"
  by (auto simp: joined_fund_prices_def split: if_splits)

lemma rows_of_one_fund:
  assumes "distinct (map fi_code fs)"
  shows "filter (\<lambda>r. fst r = c) (concat (map (joined_fund_prices db asOf) fs)) =
    (case List.find (\<lambda>f. fi_code f = c) fs of None \<Rightarrow> [] | Some f \<Rightarrow> joined_fund_prices db asOf f)"
  using assms
proof (induction fs)
  case (Cons f fs)
  have own: "filter (\<lambda>r. fst r = c) (joined_fund_prices db asOf f) = (if fi_code f = c then joined_fund_prices db asOf f else [])"
    using fund_rows_code by (auto simp: filter_empty_conv intro!: filter_True)
  have "fi_code f = c \<Longrightarrow> List.find (\<lambda>f. fi_code f = c) fs = None"
    using Cons.prems by (auto simp: find_None_iff) (metis imageI)
  with Cons own show ?case by auto
qed simp

lemma find_filtered: "(\<And>x. P x \<Longrightarrow> Q x) \<Longrightarrow> List.find P (filter Q xs) = List.find P xs"
  by (induction xs) auto

lemma group_of_code:
  assumes "distinct (map fi_code (pt_funds db))" "c \<in> set registry_codes"
  shows "filter (\<lambda>r. fst r = c) (quote_order (quote_rows db asOf)) =
    (case List.find (\<lambda>f. fi_code f = c) (pt_funds db) of None \<Rightarrow> []
     | Some f \<Rightarrow> quote_order (joined_fund_prices db asOf f))"
proof -
  let ?fs = "filter (\<lambda>f. fi_code f \<in> set registry_codes) (pt_funds db)"
  have "distinct (map fi_code ?fs)" using assms(1) by (simp add: distinct_map_filter)
  moreover have "List.find (\<lambda>f. fi_code f = c) ?fs = List.find (\<lambda>f. fi_code f = c) (pt_funds db)"
    using assms(2) by (intro find_filtered) auto
  ultimately show ?thesis
    unfolding quote_order_filter quote_rows_alt by (simp add: rows_of_one_fund quote_order_def split: option.split)
qed

lemma distinct_on_fund_alt: "distinct_on_fund rows = map (\<lambda>(k, ys). (k, snd (hd ys))) (group_by fst rows)"
  unfolding distinct_on_fund_def
proof (rule map_cong [OF refl])
  fix g assume g_in: "g \<in> set (group_by fst rows)"
  obtain k ys where g: "g = (k, ys)" by (cases g)
  have eq: "ys = filter (\<lambda>r. fst r = k) rows" and ne: "ys \<noteq> []"
    using entry_group_by [of k ys fst rows] g_in g by blast+
  from ne have "hd ys \<in> set ys" by simp
  then have "fst (hd ys) = k" by (subst (asm) (2) eq) simp
  then show "hd (snd g) = (case g of (k, ys) \<Rightarrow> (k, snd (hd ys)))" by (simp add: g prod_eq_iff)
qed

lemma map_of_distinct_on:
  "map_of (distinct_on_fund rows) c =
     (case filter (\<lambda>r. fst r = c) rows of [] \<Rightarrow> None | r # _ \<Rightarrow> Some (snd r))"
proof -
  have "map_of (distinct_on_fund rows) c = map_option (\<lambda>ys. snd (hd ys)) (map_get (group_by fst rows) c)"
    unfolding distinct_on_fund_alt map_of_map map_get_def by simp
  also have "map_get (group_by fst rows) c =
      (if filter (\<lambda>r. fst r = c) rows = [] then None else Some (filter (\<lambda>r. fst r = c) rows))"
    by (simp add: map_get_group_by filter_empty_conv)
  finally show ?thesis by (cases "filter (\<lambda>r. fst r = c) rows") simp_all
qed

lemma distinct_keys_distinct_on: "distinct (map fst (distinct_on_fund rows))"
proof -
  have "map fst (distinct_on_fund rows) = map fst (group_by fst rows)"
    unfolding distinct_on_fund_alt by (simp add: case_prod_beta' comp_def)
  then show ?thesis by simp
qed

lemma fund_value_set: "fund_value (set_fund v c x) a = (if a = c \<and> c \<in> set registry_codes then Some x else fund_value v a)"
  by (cases v) (auto simp: registry_codes_def)

lemma add_quotes_value:
  assumes "distinct (map fst rows)" "c \<in> set registry_codes"
  shows "fund_value (fq_prices (foldl add_quote q rows)) c =
    (case map_of rows c of Some (Some p) \<Rightarrow> Some (Some (pr_mid p)) | _ \<Rightarrow> fund_value (fq_prices q) c)"
  using assms(1)
proof (induction rows arbitrary: q)
  case (Cons r rows)
  then have notin: "fst r = c \<Longrightarrow> map_of rows c = None" by (auto simp: map_of_eq_None_iff)
  show ?case
    using Cons notin assms(2)
    by (cases r; cases "snd r") (auto simp: add_quote_def fund_value_set split: option.splits)
qed simp

lemma later_dates: "foldl later_date (Some a) ds = Some (Max (set (a # ds)))"
proof (induction ds arbitrary: a)
  case (Cons d ds)
  have "later_date (Some a) d = Some (max a d)" by (simp add: later_date_def max_def)
  with Cons show ?case by (cases "ds = []") (simp_all add: max.assoc)
qed simp

lemma later_dates_none: "foldl later_date None ds = (if set ds = {} then None else Some (Max (set ds)))"
proof (cases ds)
  case (Cons d ds')
  then have "foldl later_date None ds = foldl later_date (Some d) ds'" by (simp add: later_date_def)
  then show ?thesis unfolding later_dates using Cons by simp
qed simp

lemma in_map_filter_iff: "y \<in> set (List.map_filter f xs) \<longleftrightarrow> (\<exists>x \<in> set xs. f x = Some y)"
  by (induction xs) (auto split: option.splits)

lemma add_quotes_date:
  "fq_asOf (foldl add_quote q rows) = foldl later_date (fq_asOf q) (map pr_date (List.map_filter snd rows))"
proof (induction rows arbitrary: q)
  case (Cons r rows)
  then show ?case by (cases r; cases "snd r") (simp_all add: add_quote_def List.map_filter_simps)
qed (simp add: List.map_filter_simps)

lemma fund_value_per_fund: "c \<in> set registry_codes \<Longrightarrow> fund_value (each_fund f) c = Some (f c)"
  by (auto simp: each_fund_def registry_codes_def)

lemma per_fund_eqI:
  assumes "\<And>c. c \<in> set registry_codes \<Longrightarrow> fund_value v c = Some (f c)"
  shows "v = each_fund f"
  using assms [of "''XUMMF''"] assms [of "''XUBF''"] assms [of "''XUDEF''"] assms [of "''XUREF''"]
  by (cases v) (simp add: each_fund_def registry_codes_def)

lemma first_of_map: "first_of (map f xs) = map_option f (first_of xs)"
  by (simp add: first_of_def split: list.split)

lemma quoted_row:
  assumes "distinct (map fi_code (pt_funds db))" "c \<in> set registry_codes"
  shows "map_of (distinct_on_fund (quote_order (quote_rows db asOf))) c =
    (case quoted_price db asOf c of Some p \<Rightarrow> Some (Some p)
     | None \<Rightarrow> if asOf = None \<and> List.find (\<lambda>f. fi_code f = c) (pt_funds db) \<noteq> None then Some None else None)"
proof -
  have pick: "(case xs of [] \<Rightarrow> None | r # _ \<Rightarrow> Some (snd r)) = map_option snd (first_of xs)" for xs :: "('a \<times> 'b) list"
    by (simp add: first_of_def split: list.split)
  have all: "filter (before_date None) rs = rs" for rs by (simp add: before_date_def)
  have none: "quote_order [(c, None)] = [(c, None)]" by (simp add: quote_order_def)
  have ne: "rs \<noteq> [] \<Longrightarrow> first_of (newest_price_first rs) \<noteq> None" for rs :: "price_row list"
    by (metis first_of_def list.case_eq_if newest_price_first_def option.distinct(1) set_empty set_sort)
  show ?thesis
    unfolding map_of_distinct_on group_of_code [OF assms] quoted_price_def
  proof (cases "List.find (\<lambda>f. fi_code f = c) (pt_funds db)")
    case None
    then show "(case case List.find (\<lambda>f. fi_code f = c) (pt_funds db) of None \<Rightarrow> [] | Some f \<Rightarrow> quote_order (joined_fund_prices db asOf f)
        of [] \<Rightarrow> None | r # _ \<Rightarrow> Some (snd r)) =
      (case case List.find (\<lambda>f. fi_code f = c) (pt_funds db) of None \<Rightarrow> None
        | Some f \<Rightarrow> first_of (newest_price_first (filter (before_date asOf) (prices_of_fund db f))) of
       None \<Rightarrow> if asOf = None \<and> List.find (\<lambda>f. fi_code f = c) (pt_funds db) \<noteq> None then Some None else None
       | Some p \<Rightarrow> Some (Some p))" by simp
  next
    case (Some f)
    then have code: "fi_code f = c" by (auto dest: find_SomeD)
    show "(case case List.find (\<lambda>f. fi_code f = c) (pt_funds db) of None \<Rightarrow> [] | Some f \<Rightarrow> quote_order (joined_fund_prices db asOf f)
        of [] \<Rightarrow> None | r # _ \<Rightarrow> Some (snd r)) =
      (case case List.find (\<lambda>f. fi_code f = c) (pt_funds db) of None \<Rightarrow> None
        | Some f \<Rightarrow> first_of (newest_price_first (filter (before_date asOf) (prices_of_fund db f))) of
       None \<Rightarrow> if asOf = None \<and> List.find (\<lambda>f. fi_code f = c) (pt_funds db) \<noteq> None then Some None else None
       | Some p \<Rightarrow> Some (Some p))"
    proof (cases "prices_of_fund db f = []")
      case True
      have "quote_order [] = []" by (simp add: quote_order_def)
      with True Some code show ?thesis
        unfolding pick by (auto simp: joined_fund_prices_def none first_of_def newest_price_first_def)
    next
      case False
      then have "first_of (newest_price_first (filter (before_date asOf) (prices_of_fund db f))) = None \<Longrightarrow> asOf \<noteq> None"
        using ne all by metis
      with False Some code show ?thesis
        unfolding pick by (cases asOf) (auto simp: joined_fund_prices_def quote_order_prices first_of_map split: option.splits)
    qed
  qed
qed

lemma latest_quotes_newest:
  assumes "distinct (map fi_code (pt_funds db))"
  shows "fq_prices (latest_quotes db asOf) = each_fund (\<lambda>c. map_option pr_mid (quoted_price db asOf c)) \<and>
    fq_asOf (latest_quotes db asOf) =
      (let ds = map pr_date (List.map_filter (quoted_price db asOf) registry_codes) in if ds = [] then None else Some (Max (set ds)))"
proof -
  let ?rows = "distinct_on_fund (quote_order (quote_rows db asOf))"
  have codes: "fst ` set ?rows \<subseteq> set registry_codes"
  proof
    fix c assume "c \<in> fst ` set ?rows"
    then have "map_of ?rows c \<noteq> None" by (simp add: map_of_eq_None_iff)
    then have "\<exists>r \<in> set (quote_rows db asOf). fst r = c"
      by (auto simp: map_of_distinct_on quote_order_def filter_empty_conv split: list.splits)
        (metis (mono_tags, lifting) Cons_eq_filterD in_set_conv_decomp set_sort)
    then show "c \<in> set registry_codes" by (auto simp: quote_rows_alt dest: fund_rows_code)
  qed
  have prices: "fq_prices (latest_quotes db asOf) = each_fund (\<lambda>c. map_option pr_mid (quoted_price db asOf c))"
  proof (rule per_fund_eqI)
    fix c assume c: "c \<in> set registry_codes"
    then have "fund_value (fq_prices no_quotes) c = Some None" by (auto simp: no_quotes_def registry_codes_def)
    then show "fund_value (fq_prices (latest_quotes db asOf)) c = Some (map_option pr_mid (quoted_price db asOf c))"
      unfolding latest_quotes_def add_quotes_value [OF distinct_keys_distinct_on c] quoted_row [OF assms c]
      by (simp split: option.split)
  qed
  have dates: "set (List.map_filter snd ?rows) = set (List.map_filter (quoted_price db asOf) registry_codes)"
  proof -
    have "Some p \<in> snd ` set ?rows \<longleftrightarrow> (\<exists>c \<in> set registry_codes. quoted_price db asOf c = Some p)" for p
    proof -
      have "Some p \<in> snd ` set ?rows \<longleftrightarrow> (\<exists>c. map_of ?rows c = Some (Some p))"
        using distinct_keys_distinct_on by (force simp: map_of_eq_Some_iff)
      also have "\<dots> \<longleftrightarrow> (\<exists>c \<in> set registry_codes. map_of ?rows c = Some (Some p))"
        using codes by (metis image_eqI fst_conv map_of_SomeD subsetD)
      also have "\<dots> \<longleftrightarrow> (\<exists>c \<in> set registry_codes. quoted_price db asOf c = Some p)"
        by (rule bex_cong [OF refl]) (simp add: quoted_row [OF assms] split: option.split)
      finally show ?thesis .
    qed
    then show ?thesis by (auto simp: in_map_filter_iff image_iff) (metis snd_conv)+
  qed
  have "fq_asOf (latest_quotes db asOf) = foldl later_date None (map pr_date (List.map_filter snd ?rows))"
    by (simp add: latest_quotes_def add_quotes_date no_quotes_def)
  also have "\<dots> = (if set (map pr_date (List.map_filter (quoted_price db asOf) registry_codes)) = {} then None
      else Some (Max (set (map pr_date (List.map_filter (quoted_price db asOf) registry_codes)))))"
    unfolding later_dates_none set_map dates ..
  finally show ?thesis using prices by (simp add: Let_def)
qed

text \<open>The latest prices. The query with its join and \<open>DISTINCT ON\<close> gives every fund the mid price of its newest
  price, or the newest up to a date, none if it has none, and the date of the result is the latest of the
  dates of those prices.\<close>

theorem latest_quotes_correct:
  assumes "distinct (map fi_code (pt_funds db))"
  shows "fq_prices (latest_quotes db asOf) = each_fund (\<lambda>c. map_option pr_mid (quoted_price db asOf c)) \<and>
    fq_asOf (latest_quotes db asOf) =
      (let ds = map pr_date (List.map_filter (quoted_price db asOf) registry_codes) in if ds = [] then None else Some (Max (set ds)))"
  using assms by (rule latest_quotes_newest)

theorem latest_quotes_correct_witness:
  "fq_asOf (latest_quotes (fst (upload_prices ex_price_db ex_prices)) None) = Some 0 \<and>
   fq_prices (latest_quotes (fst (upload_prices ex_price_db ex_prices)) None) = Per_Fund None (Some (5 / 2)) None None"
  using latest_quotes_correct [of "fst (upload_prices ex_price_db ex_prices)" None]
  by (simp add: ex_upload each_fund_def quoted_price_def ex_priced_fund_def prices_of_fund_def first_of_def newest_price_first_def
      registry_codes_def before_date_def)

end
