(* ===== verification/FundPriceParse.thy ===== *)
theory FundPriceParse
  imports FundPriceProperties ParseProperties
begin

text \<open>
  \<open>FundPriceParser\<close>: price files with one row per price, or with the three sheets bid, mid and offer and one column per
  fund. The readers of CSV and Excel are outside the model; a row is its cells as text. The engine's parsing of a text
  that is no calendar date is the parameter \<open>native\<close>.
\<close>

section \<open>Cells\<close>

text \<open>\<open>getField\<close>: the first column with a value; a value of blanks only counts and comes out empty.\<close>

definition price_field :: "file_row \<Rightarrow> string list \<Rightarrow> string option" where
  "price_field row names =
     first_result (\<lambda>name. case cell row name of None \<Rightarrow> None | Some v \<Rightarrow> if v \<noteq> [] then Some (trim v) else None) names"

definition parse_price :: "string \<Rightarrow> rat option" where
  "parse_price s =
     (case parse_float (filter (\<lambda>c. is_digit c \<or> one_of ''.-'' c) s) of
        None \<Rightarrow> None
      | Some v \<Rightarrow> if v < 0 then None else Some v)"

definition iso_price_date :: "(string \<Rightarrow> instant option) \<Rightarrow> string \<Rightarrow> instant option" where
  "iso_price_date native s =
     (case match_parts [digits_part 4 4, dash_part, digits_part 2 2, dash_part, digits_part 2 2] s of
        Some [y, m, d] \<Rightarrow>
          (let c = \<lparr>c_year = digits_value y, c_month = digits_value m, c_day = digits_value d\<rparr>
           in if valid_civil c then Some (start_of_day c) else native (s @ ''T00:00:00Z''))
      | _ \<Rightarrow> None)"

definition slash_price_date :: "string \<Rightarrow> instant option" where
  "slash_price_date s =
     (case match_parts [digits_part 1 2, slash_part, digits_part 1 2, slash_part, digits_part 4 4] s of
        Some [d, m, y] \<Rightarrow> Some (date_utc (int_of y) (int_of m - 1) (int_of d))
      | _ \<Rightarrow> None)"

definition gap_part :: re_part where
  "gap_part = Rep (\<lambda>c. c = CHR ''-'' \<or> js_space c) 1 (Some 1) False"

definition named_price_date :: "string \<Rightarrow> instant option" where
  "named_price_date s =
     (case match_parts [digits_part 1 2, gap_part, Rep is_letter 3 (Some 3) True, gap_part, digits_part 2 4] s of
        Some [d, name, y] \<Rightarrow>
          (case map_of month_abbrev (to_lower name) of
             None \<Rightarrow> None
           | Some month \<Rightarrow> Some (date_utc (if int_of y < 100 then int_of y + 2000 else int_of y) month (int_of d)))
      | _ \<Rightarrow> None)"

text \<open>Two numbers and a year between dashes: month first, unless the first number is no month.\<close>

definition dashed_price_date :: "string \<Rightarrow> instant option" where
  "dashed_price_date s =
     (case match_parts [digits_part 1 2, dash_part, digits_part 1 2, dash_part, digits_part 4 4] s of
        Some [a, b, y] \<Rightarrow>
          Some (if int_of a \<le> 12 then date_utc (int_of y) (int_of a - 1) (int_of b)
                else date_utc (int_of y) (int_of b - 1) (int_of a))
      | _ \<Rightarrow> None)"

definition native_price_date :: "(string \<Rightarrow> instant option) \<Rightarrow> string \<Rightarrow> instant option" where
  "native_price_date native s =
     map_option (\<lambda>t. let day = iso_day t; c = civil_of_day day in date_utc (year_of_day day) (int (c_month c) - 1) (int (c_day c)))
       (native s)"

definition parse_price_date :: "(string \<Rightarrow> instant option) \<Rightarrow> string \<Rightarrow> instant option" where
  "parse_price_date native s =
     first_result (\<lambda>f. f (trim s))
       [iso_price_date native, slash_price_date, named_price_date, dashed_price_date, native_price_date native]"

section \<open>One row per price\<close>

datatype price_row_error = MissingPriceFields | InvalidPriceDate string | InvalidPriceValues | InvalidPriceOrder

definition nonempty_field :: "file_row \<Rightarrow> string list \<Rightarrow> string option" where
  "nonempty_field row names = (if truthy_str (price_field row names) then price_field row names else None)"

definition parse_price_row :: "(string \<Rightarrow> instant option) \<Rightarrow> file_row \<Rightarrow> price_row_error + price_data" where
  "parse_price_row native row =
     (let date = nonempty_field row [''Date'', ''date'', ''Price Date'', ''priceDate'', ''PRICE_DATE''];
          fundCode = nonempty_field row [''Fund Code'', ''fundCode'', ''FUND_CODE'', ''Fund'', ''fund''];
          bid = nonempty_field row [''Bid Price'', ''bidPrice'', ''BID_PRICE'', ''Bid'', ''bid''];
          mid = nonempty_field row [''Mid Price'', ''midPrice'', ''MID_PRICE'', ''Mid'', ''mid''];
          offer = nonempty_field row [''Offer Price'', ''offerPrice'', ''OFFER_PRICE'', ''Offer'', ''offer''];
          nav = nonempty_field row [''NAV'', ''nav'', ''Net Asset Value'', ''netAssetValue'']
      in (case (date, fundCode, bid, mid, offer) of
            (Some date, Some fundCode, Some bid, Some mid, Some offer) \<Rightarrow>
              (case parse_price_date native date of
                 None \<Rightarrow> Inl (InvalidPriceDate date)
               | Some priceDate \<Rightarrow>
                   (case (parse_price bid, parse_price mid, parse_price offer) of
                      (Some b, Some m, Some p) \<Rightarrow>
                        if b > m \<or> m > p then Inl InvalidPriceOrder
                        else Inr \<lparr>pd_fundCode = to_upper (trim fundCode), pd_priceDate = priceDate, pd_bid = b, pd_mid = m,
                               pd_offer = p, pd_nav = Option.bind nav parse_price\<rparr>
                    | _ \<Rightarrow> Inl InvalidPriceValues))
          | _ \<Rightarrow> Inl MissingPriceFields))"

datatype price_file_error = UnsupportedPriceFile | NoValidPrices | UnreadablePriceFile

definition process_price_rows :: "(string \<Rightarrow> instant option) \<Rightarrow> file_row list \<Rightarrow> price_file_error + price_data list" where
  "process_price_rows native rows =
     (let prices = List.map_filter (\<lambda>row. case parse_price_row native row of Inl _ \<Rightarrow> None | Inr p \<Rightarrow> Some p) rows
      in if prices = [] then Inl NoValidPrices else Inr prices)"

section \<open>Three sheets\<close>

definition date_from_row :: "(string \<Rightarrow> instant option) \<Rightarrow> file_row \<Rightarrow> instant option" where
  "date_from_row native row =
     Option.bind (nonempty_field row [''Date'', ''date'', ''DATE'', ''Price Date'', ''priceDate'']) (parse_price_date native)"

definition fund_price_from_row :: "file_row \<Rightarrow> string \<Rightarrow> rat option" where
  "fund_price_from_row row fundCode =
     Option.bind (nonempty_field row [fundCode, to_lower fundCode, to_upper fundCode]) parse_price"

type_synonym price_point = "instant \<times> string"

text \<open>The prices of a sheet in the order of its rows, then of the funds.\<close>

definition sheet_prices :: "(string \<Rightarrow> instant option) \<Rightarrow> file_row list \<Rightarrow> (price_point \<times> rat) list" where
  "sheet_prices native rows =
     concat (map (\<lambda>row.
       case date_from_row native row of
         None \<Rightarrow> []
       | Some date \<Rightarrow> List.map_filter (\<lambda>c. map_option (\<lambda>v. ((date, c), v)) (fund_price_from_row row c)) registry_codes) rows)"

definition set_bid :: "(price_point, price_data) jsmap \<Rightarrow> price_point \<times> rat \<Rightarrow> (price_point, price_data) jsmap" where
  "set_bid m e =
     (case e of ((date, c), v) \<Rightarrow>
        map_set m (date, c)
          \<lparr>pd_fundCode = c, pd_priceDate = date, pd_bid = v,
           pd_mid = (case map_get m (date, c) of None \<Rightarrow> 0 | Some x \<Rightarrow> pd_mid x),
           pd_offer = (case map_get m (date, c) of None \<Rightarrow> 0 | Some x \<Rightarrow> pd_offer x), pd_nav = None\<rparr>)"

text \<open>A mid or offer price without a bid price is dropped.\<close>

definition set_mid :: "(price_point, price_data) jsmap \<Rightarrow> price_point \<times> rat \<Rightarrow> (price_point, price_data) jsmap" where
  "set_mid m e = (case map_get m (fst e) of None \<Rightarrow> m | Some x \<Rightarrow> map_set m (fst e) (x\<lparr>pd_mid := snd e\<rparr>))"

definition set_offer :: "(price_point, price_data) jsmap \<Rightarrow> price_point \<times> rat \<Rightarrow> (price_point, price_data) jsmap" where
  "set_offer m e = (case map_get m (fst e) of None \<Rightarrow> m | Some x \<Rightarrow> map_set m (fst e) (x\<lparr>pd_offer := snd e\<rparr>))"

definition price_map_of ::
    "(price_point \<times> rat) list \<Rightarrow> (price_point \<times> rat) list \<Rightarrow> (price_point \<times> rat) list \<Rightarrow> (price_point, price_data) jsmap" where
  "price_map_of bids mids offers = foldl set_offer (foldl set_mid (foldl set_bid [] bids) mids) offers"

definition complete_price :: "price_data \<Rightarrow> bool" where
  "complete_price p = (pd_bid p > 0 \<and> pd_mid p > 0 \<and> pd_offer p > 0 \<and> pd_bid p \<le> pd_mid p \<and> pd_mid p \<le> pd_offer p)"

definition parse_three_tabs ::
    "(string \<Rightarrow> instant option) \<Rightarrow> file_row list \<Rightarrow> file_row list \<Rightarrow> file_row list \<Rightarrow> price_file_error + price_data list" where
  "parse_three_tabs native bidData midData offerData =
     (let m = price_map_of (sheet_prices native bidData) (sheet_prices native midData) (sheet_prices native offerData);
          prices = filter complete_price (map snd m)
      in if prices = [] then Inl NoValidPrices else Inr prices)"

section \<open>Files\<close>

type_synonym workbook = "(string \<times> file_row list) list"

definition find_sheet :: "workbook \<Rightarrow> string \<Rightarrow> file_row list option" where
  "find_sheet wb name = map_option snd (List.find (\<lambda>s. to_lower (fst s) = name) wb)"

definition parse_price_workbook :: "(string \<Rightarrow> instant option) \<Rightarrow> workbook \<Rightarrow> price_file_error + price_data list" where
  "parse_price_workbook native wb =
     (case (find_sheet wb ''bid'', find_sheet wb ''mid'', find_sheet wb ''offer'') of
        (Some bids, Some mids, Some offers) \<Rightarrow> parse_three_tabs native bids mids offers
      | _ \<Rightarrow> process_price_rows native (case wb of [] \<Rightarrow> [] | s # _ \<Rightarrow> snd s))"

definition parse_price_file ::
    "(string \<Rightarrow> instant option) \<Rightarrow> string \<Rightarrow> file_row list option \<Rightarrow> workbook option \<Rightarrow> price_file_error + price_data list" where
  "parse_price_file native path csv excel =
     (let ext = last (split_on CHR ''.'' (to_lower path))
      in if ext = ''csv'' then (case csv of None \<Rightarrow> Inl UnreadablePriceFile | Some rows \<Rightarrow> process_price_rows native rows)
         else if ext = ''xlsx'' \<or> ext = ''xls''
         then (case excel of None \<Rightarrow> Inl UnreadablePriceFile | Some wb \<Rightarrow> parse_price_workbook native wb)
         else Inl UnsupportedPriceFile)"

text \<open>\<open>POST /api/fund-prices/upload\<close>: the file is parsed and its prices are uploaded.\<close>

definition upload_price_file ::
    "(string \<Rightarrow> instant option) \<Rightarrow> string \<Rightarrow> file_row list option \<Rightarrow> workbook option \<Rightarrow> price_state \<Rightarrow>
     (price_file_error + price_upload) \<times> price_state" where
  "upload_price_file native path csv excel st =
     (case parse_price_file native path csv excel of
        Inl e \<Rightarrow> (Inl e, st)
      | Inr prices \<Rightarrow> (case upload_request st prices of (res, st') \<Rightarrow> (Inr res, st')))"

end
