(* ===== verification/FundPriceFiles.thy ===== *)
theory FundPriceFiles
  imports FundPriceParse
begin

text \<open>
  What is read from a price file: the three sheets are joined by date and fund, parsed prices are in order, and
  what an uploaded file leaves in the table.
\<close>

section \<open>Joining the sheets\<close>

definition last_price :: "(price_point \<times> rat) list \<Rightarrow> price_point \<Rightarrow> rat option" where
  "last_price es k = map_of (rev es) k"

lemma last_price_snoc: "last_price (es @ [(k', v)]) k = (if k = k' then Some v else last_price es k)"
  by (simp add: last_price_def)

definition with_bid :: "price_point \<Rightarrow> rat \<Rightarrow> price_data" where
  "with_bid k b = \<lparr>pd_fundCode = snd k, pd_priceDate = fst k, pd_bid = b, pd_mid = 0, pd_offer = 0, pd_nav = None\<rparr>"

lemma bids_map: "map_get (foldl set_bid [] es) k = map_option (with_bid k) (last_price es k)"
proof (induction es arbitrary: k rule: rev_induct)
  case Nil
  show ?case by (simp add: last_price_def jsm.get_empty)
next
  case (snoc e es)
  obtain d c v where e: "e = ((d, c), v)" by (metis surj_pair)
  have entry: "set_bid (foldl set_bid [] es) e = map_set (foldl set_bid [] es) (d, c) (with_bid (d, c) v)"
    by (cases "last_price es (d, c)") (simp_all add: set_bid_def e snoc with_bid_def)
  show ?case
    unfolding foldl_append foldl_Cons foldl_Nil entry by (simp add: e last_price_snoc jsm.get_put snoc)
qed

lemma set_mid_get: "map_get (set_mid m (k', v)) k = map_option (\<lambda>x. if k = k' then x\<lparr>pd_mid := v\<rparr> else x) (map_get m k)"
  by (cases "map_get m k'"; cases "k = k'") (simp_all add: set_mid_def jsm.get_put option.map_ident)

lemma mids_map:
  "map_get (foldl set_mid m es) k =
     map_option (\<lambda>x. case last_price es k of None \<Rightarrow> x | Some v \<Rightarrow> x\<lparr>pd_mid := v\<rparr>) (map_get m k)"
proof (induction es arbitrary: k rule: rev_induct)
  case Nil
  show ?case by (simp add: last_price_def option.map_ident)
next
  case (snoc e es)
  obtain k' v where e: "e = (k', v)" by (cases e)
  have "map_get (foldl set_mid m (es @ [e])) k =
      map_option (\<lambda>x. if k = k' then x\<lparr>pd_mid := v\<rparr> else x) (map_get (foldl set_mid m es) k)"
    by (simp add: e set_mid_get)
  then show ?case
    unfolding snoc by (cases "map_get m k"; cases "last_price es k"; cases "k = k'") (simp_all add: e last_price_snoc)
qed

lemma set_offer_get: "map_get (set_offer m (k', v)) k = map_option (\<lambda>x. if k = k' then x\<lparr>pd_offer := v\<rparr> else x) (map_get m k)"
  by (cases "map_get m k'"; cases "k = k'") (simp_all add: set_offer_def jsm.get_put option.map_ident)

lemma offers_map:
  "map_get (foldl set_offer m es) k =
     map_option (\<lambda>x. case last_price es k of None \<Rightarrow> x | Some v \<Rightarrow> x\<lparr>pd_offer := v\<rparr>) (map_get m k)"
proof (induction es arbitrary: k rule: rev_induct)
  case Nil
  show ?case by (simp add: last_price_def option.map_ident)
next
  case (snoc e es)
  obtain k' v where e: "e = (k', v)" by (cases e)
  have "map_get (foldl set_offer m (es @ [e])) k =
      map_option (\<lambda>x. if k = k' then x\<lparr>pd_offer := v\<rparr> else x) (map_get (foldl set_offer m es) k)"
    by (simp add: e set_offer_get)
  then show ?case
    unfolding snoc by (cases "map_get m k"; cases "last_price es k"; cases "k = k'") (simp_all add: e last_price_snoc)
qed

definition joined_price :: "price_point \<Rightarrow> rat \<Rightarrow> rat \<Rightarrow> rat \<Rightarrow> price_data" where
  "joined_price k b m p = \<lparr>pd_fundCode = snd k, pd_priceDate = fst k, pd_bid = b, pd_mid = m, pd_offer = p, pd_nav = None\<rparr>"

definition missing_as_zero :: "rat option \<Rightarrow> rat" where
  "missing_as_zero v = (case v of None \<Rightarrow> 0 | Some x \<Rightarrow> x)"

lemma price_map_get:
  "map_get (price_map_of bids mids offers) k =
     map_option (\<lambda>b. joined_price k b (missing_as_zero (last_price mids k)) (missing_as_zero (last_price offers k))) (last_price bids k)"
  unfolding price_map_of_def offers_map mids_map bids_map
  by (cases "last_price bids k"; cases "last_price mids k"; cases "last_price offers k")
    (simp_all add: with_bid_def joined_price_def missing_as_zero_def)

lemma distinct_map_set: "distinct (map fst m) \<Longrightarrow> distinct (map fst (map_set m k v))"
  using jsm.distinct_keys_put [of m k v] by (simp add: map_keys_def)

lemma distinct_price_map: "distinct (map fst (price_map_of bids mids offers))"
proof -
  have 1: "distinct (map fst (foldl set_bid m es))" if "distinct (map fst m)" for m es
    using that
    by (induction es arbitrary: m) (auto simp: set_bid_def distinct_map_set split: prod.split)
  have 2: "distinct (map fst (foldl set_mid m es))" if "distinct (map fst m)" for m es
    using that
    by (induction es arbitrary: m) (auto simp: set_mid_def distinct_map_set split: option.split)
  have 3: "distinct (map fst (foldl set_offer m es))" if "distinct (map fst m)" for m es
    using that
    by (induction es arbitrary: m) (auto simp: set_offer_def distinct_map_set split: option.split)
  show ?thesis unfolding price_map_of_def by (intro 1 2 3) simp
qed

lemma in_price_map:
  "(k, p) \<in> set (price_map_of bids mids offers) \<longleftrightarrow> map_get (price_map_of bids mids offers) k = Some p"
  using distinct_price_map by (simp add: map_get_def map_of_eq_Some_iff)

definition parsed_prices :: "price_file_error + price_data list \<Rightarrow> price_data list" where
  "parsed_prices r = (case r of Inl _ \<Rightarrow> [] | Inr ps \<Rightarrow> ps)"

text \<open>C32: a workbook with the sheets bid, mid and offer. Exactly those dates and funds come out for which all three
  sheets have a price, the three being positive and in order, once each and with the last price each sheet gives. Whatever is
  incomplete or out of order is left out, and a file without any such price is an error.\<close>

theorem three_tabs_joined:
  "set (parsed_prices (parse_three_tabs native bidData midData offerData)) =
     {p. \<exists>k b m q. last_price (sheet_prices native bidData) k = Some b \<and> last_price (sheet_prices native midData) k = Some m \<and>
        last_price (sheet_prices native offerData) k = Some q \<and> 0 < b \<and> b \<le> m \<and> m \<le> q \<and> p = joined_price k b m q} \<and>
   distinct (map (\<lambda>p. (pd_priceDate p, pd_fundCode p)) (parsed_prices (parse_three_tabs native bidData midData offerData))) \<and>
   (parse_three_tabs native bidData midData offerData = Inl NoValidPrices \<longleftrightarrow>
      parsed_prices (parse_three_tabs native bidData midData offerData) = [])"
proof -
  let ?m = "price_map_of (sheet_prices native bidData) (sheet_prices native midData) (sheet_prices native offerData)"
  have result: "parsed_prices (parse_three_tabs native bidData midData offerData) = filter complete_price (map snd ?m)"
    by (simp add: parsed_prices_def parse_three_tabs_def Let_def)
  have key: "(pd_priceDate (snd e), pd_fundCode (snd e)) = fst e" if e_in: "e \<in> set ?m" for e
  proof -
    obtain b m q where "snd e = joined_price (fst e) b m q"
      using e_in in_price_map [of "fst e" "snd e"] by (auto simp: price_map_get) metis
    then show ?thesis by (simp add: joined_price_def)
  qed
  have "distinct (map (\<lambda>p. (pd_priceDate p, pd_fundCode p)) (map snd ?m))"
    using distinct_price_map key by (simp add: comp_def cong: map_cong)
  then have "distinct (map (\<lambda>p. (pd_priceDate p, pd_fundCode p)) (filter complete_price (map snd ?m)))"
    by (rule distinct_map_filter)
  moreover have "p \<in> set (filter complete_price (map snd ?m)) \<longleftrightarrow>
      (\<exists>k. map_get ?m k = Some p) \<and> complete_price p" for p
    unfolding in_price_map [symmetric] by (auto simp: image_iff) (metis snd_conv)+
  moreover have "(\<exists>k. map_get ?m k = Some p) \<and> complete_price p \<longleftrightarrow>
      (\<exists>k b m q. last_price (sheet_prices native bidData) k = Some b \<and> last_price (sheet_prices native midData) k = Some m \<and>
        last_price (sheet_prices native offerData) k = Some q \<and> 0 < b \<and> b \<le> m \<and> m \<le> q \<and> p = joined_price k b m q)" for p
    unfolding price_map_get
    by (fastforce simp: complete_price_def joined_price_def missing_as_zero_def split: option.splits)
  ultimately show ?thesis
    unfolding result by (auto simp: parse_three_tabs_def Let_def)
qed

section \<open>Prices in order\<close>

definition price_in_order :: "price_data \<Rightarrow> bool" where
  "price_in_order p = (0 \<le> pd_bid p \<and> pd_bid p \<le> pd_mid p \<and> pd_mid p \<le> pd_offer p \<and>
     (case pd_nav p of None \<Rightarrow> True | Some v \<Rightarrow> 0 \<le> v))"

lemma parse_price_nonneg: "parse_price s = Some v \<Longrightarrow> 0 \<le> v"
  by (auto simp: parse_price_def split: option.splits if_splits)

lemma nav_nonneg: "Option.bind nav parse_price = Some v \<Longrightarrow> 0 \<le> v"
  using parse_price_nonneg by (cases nav) auto

lemma parse_price_row_in_order: "parse_price_row native row = Inr p \<Longrightarrow> price_in_order p"
  by (auto simp: parse_price_row_def Let_def price_in_order_def parse_price_nonneg dest: nav_nonneg split: option.splits if_splits)

lemma row_result: "(case r of Inl _ \<Rightarrow> None | Inr p \<Rightarrow> Some p) = Some x \<longleftrightarrow> r = Inr x"
  by (cases r) auto

lemma process_price_rows_in_order:
  "process_price_rows native rows = Inr ps \<Longrightarrow> ps \<noteq> [] \<and> list_all price_in_order ps"
  by (auto simp: process_price_rows_def Let_def list_all_iff in_map_filter_iff row_result parse_price_row_in_order split: if_splits)

lemma three_tabs_in_order: "parse_three_tabs native b m q = Inr ps \<Longrightarrow> ps \<noteq> [] \<and> list_all price_in_order ps"
proof -
  assume r: "parse_three_tabs native b m q = Inr ps"
  then have ps: "ps = filter complete_price (map snd (price_map_of (sheet_prices native b) (sheet_prices native m) (sheet_prices native q)))"
    "ps \<noteq> []"
    by (auto simp: parse_three_tabs_def Let_def split: if_splits)
  have "price_in_order p" if p_in: "p \<in> set ps" for p
  proof -
    have "p \<in> set (parsed_prices (parse_three_tabs native b m q))" using p_in r by (simp add: parsed_prices_def)
    then show ?thesis using three_tabs_joined [of native b m q] by (auto simp: price_in_order_def joined_price_def)
  qed
  then show ?thesis using ps(2) by (simp add: list_all_iff)
qed

text \<open>Both layouts.\<close>

lemma parsed_prices_in_order:
  "parse_price_file native path csv excel = Inr ps \<Longrightarrow> ps \<noteq> [] \<and> list_all price_in_order ps"
  by (auto simp: parse_price_file_def parse_price_workbook_def Let_def dest: process_price_rows_in_order three_tabs_in_order
      split: if_splits option.splits)

text \<open>C30: from the file to the table. A file that can be read and is accepted by the parser changes the table as entering its
  prices for known funds that fit the columns, one after the other, does; no price is ever turned away for its
  order, the upload succeeds iff all funds are known and all prices fit, and a file the parser refuses changes nothing.\<close>

theorem price_file_uploaded:
  assumes "price_table_ok (st_db st)" "upload_price_file native path csv excel st = (r, st')"
  shows "case parse_price_file native path csv excel of
      Inl e \<Rightarrow> r = Inl e \<and> st' = st
    | Inr ps \<Rightarrow> list_all price_in_order ps \<and> price_table_ok (st_db st') \<and>
        price_at (st_db st') = foldl (put_price (fund_ids (st_db st))) (price_at (st_db st)) ps \<and>
        (\<exists>res. r = Inr res \<and> pu_totalRecords res = length ps \<and>
          (pu_success res \<longleftrightarrow> list_all (\<lambda>p. truthy_str (map_get (fund_ids (st_db st)) (pd_fundCode p)) \<and> storable p) ps))"
proof (cases "parse_price_file native path csv excel")
  case (Inl e)
  then show ?thesis using assms(2) by (simp add: upload_price_file_def)
next
  case (Inr ps)
  have order: "list_all price_in_order ps" using parsed_prices_in_order [OF Inr] by simp
  obtain db' res where up: "upload_prices (st_db st) ps = (db', res)" by (metis surj_pair)
  have r: "r = Inr res" "st_db st' = db'"
    using assms(2) Inr up by (auto simp: upload_price_file_def upload_request_def invalidate_prices_def Let_def split: if_splits)
  have "list_all (accepted_price (fund_ids (st_db st))) ps \<longleftrightarrow>
      list_all (\<lambda>p. truthy_str (map_get (fund_ids (st_db st)) (pd_fundCode p)) \<and> storable p) ps"
    using order by (auto simp: list_all_iff accepted_price_def misordered_def price_in_order_def)
  with upload_prices_outcome [OF assms(1) up] order Inr r show ?thesis by simp
qed

definition ex_sheet :: "string \<Rightarrow> file_row list" where
  "ex_sheet price = [[(''Date'', ''15-Dec-25''), (''XUBF'', price)]]"

definition ex_workbook :: workbook where
  "ex_workbook = [(''Bid'', ex_sheet ''1.5''), (''Mid'', ex_sheet ''2.5''), (''Offer'', ex_sheet ''3.5'')]"

lemma ex_workbook_parsed:
  "parse_price_file (\<lambda>_. None) ''p.xlsx'' None (Some ex_workbook) =
     Inr [\<lparr>pd_fundCode = ''XUBF'', pd_priceDate = 1765756800000, pd_bid = 3 / 2, pd_mid = 5 / 2, pd_offer = 7 / 2, pd_nav = None\<rparr>]"
  by code_simp

theorem price_file_uploaded_witness:
  "price_at (st_db (snd (upload_price_file (\<lambda>_. None) ''p.xlsx'' None (Some ex_workbook) ex_price_state))) (''f1'', 20437) =
     Some (3 / 2, 5 / 2, 7 / 2)"
proof -
  have "price_table_ok (st_db ex_price_state)" by (simp add: ex_price_state_def ex_price_table_ok)
  from price_file_uploaded [OF this surjective_pairing, of "\<lambda>_. None" "''p.xlsx''" None "Some ex_workbook"] show ?thesis
    by (simp add: ex_workbook_parsed ex_price_state_def put_price_def price_key_def accepted_price_def upload_evaluation)
qed

end
