(* ===== verification/UnitRegistry.thy ===== *)
theory UnitRegistry
  imports FundPrice
begin

text \<open>
  \<open>UnitRegistryService\<close>: the units each account holds in the four funds and what they are worth, read from the materialized
  view \<open>account_unit_balances\<close> or, for a past day, from the fund transactions; the breakdown of an account by
  goal; and \<open>UnitRegistryService.slow.ts\<close>, the version the view replaced. Parameters are the pattern match \<open>LIKE\<close>
  (and \<open>contains\<close> of the slow version), the orders of texts in the database and of \<open>localeCompare\<close>, and the order of the
  values of \<open>AccountType\<close>. A day given as text is read by the database.
\<close>

section \<open>Tables and the view\<close>

record registry_account = account_row +
  ra_type :: string
  ra_category :: string

record registry_goal = goal_row +
  rg_title :: string

record registry_db =
  rd_clients :: "client_row list"
  rd_accounts :: "registry_account list"
  rd_goals :: "registry_goal list"
  rd_fund :: "fund_txn list"

text \<open>One row of an overview before prices are applied: of the view, or of the query for a past day.\<close>

record unit_balance =
  ub_accountId :: row_id
  ub_clientName :: string
  ub_accountNumber :: string
  ub_type :: string
  ub_category :: string
  ub_lastDate :: "int option"
  ub_units :: "rat per_fund"
  ub_totalUnits :: rat

definition fund_units_of :: "fund_txn list \<Rightarrow> rat per_fund" where
  "fund_units_of ts = each_fund (\<lambda>c. sum_list (map (\<lambda>t. if f_fundCode t = c then f_units t else 0) ts))"

definition last_date :: "fund_txn list \<Rightarrow> int option" where
  "last_date ts = (if ts = [] then None else Some (Max (set (map (\<lambda>t. iso_day (f_transactionDate t)) ts))))"

definition balance_of :: "registry_account \<Rightarrow> client_row \<Rightarrow> fund_txn list \<Rightarrow> unit_balance" where
  "balance_of a c ts =
     \<lparr>ub_accountId = ac_id a, ub_clientName = cl_name c, ub_accountNumber = ac_number a, ub_type = ra_type a,
      ub_category = ra_category a, ub_lastDate = last_date ts, ub_units = fund_units_of ts, ub_totalUnits = sum_list (map f_units ts)\<rparr>"

definition account_unit_balances :: "registry_db \<Rightarrow> unit_balance list" where
  "account_unit_balances db =
     concat (map (\<lambda>a. map (\<lambda>c. balance_of a c (filter (\<lambda>t. f_accountId t = ac_id a) (rd_fund db)))
       (filter (\<lambda>c. cl_id c = ac_clientId a) (rd_clients db))) (rd_accounts db))"

record registry_state =
  rs_db :: registry_db
  rs_prices :: price_state
  rs_view :: "unit_balance list"

text \<open>\<open>MaterializedViewService.refreshAccountBalances\<close>: \<open>REFRESH MATERIALIZED VIEW\<close>.\<close>

definition refresh_account_balances :: "registry_state \<Rightarrow> registry_state" where
  "refresh_account_balances st = st\<lparr>rs_view := account_unit_balances (rs_db st)\<rparr>"

record view_stats =
  vs_totalAccounts :: nat
  vs_withBalances :: nat
  vs_zeroBalance :: nat

definition get_view_stats :: "registry_state \<Rightarrow> view_stats" where
  "get_view_stats st =
     \<lparr>vs_totalAccounts = length (rs_view st), vs_withBalances = length (filter (\<lambda>b. ub_totalUnits b > 0) (rs_view st)),
      vs_zeroBalance = length (filter (\<lambda>b. ub_totalUnits b = 0) (rs_view st))\<rparr>"

text \<open>The registry needs a refresh when the view was never refreshed or more than 24 hours ago.\<close>

definition needs_refresh :: "instant option \<Rightarrow> instant \<Rightarrow> bool" where
  "needs_refresh lastRefreshed now =
     (case lastRefreshed of None \<Rightarrow> True | Some t \<Rightarrow> of_int (now - t) / (1000 * 60 * 60) > (24 :: rat))"

section \<open>Values\<close>

definition or_null :: "rat option \<Rightarrow> rat" where
  "or_null v = (case v of None \<Rightarrow> 0 | Some x \<Rightarrow> x)"

definition used_prices :: "fund_quotes \<Rightarrow> rat per_fund" where
  "used_prices q = map_per_fund or_null (fq_prices q)"

fun fund_products :: "rat per_fund \<Rightarrow> rat per_fund \<Rightarrow> rat per_fund" where
  "fund_products (Per_Fund a b c d) (Per_Fund p q r s) = Per_Fund (a * p) (b * q) (c * r) (d * s)"

definition values_of :: "fund_quotes \<Rightarrow> rat per_fund \<Rightarrow> rat per_fund" where
  "values_of q units = fund_products units (used_prices q)"

definition total_value :: "fund_quotes \<Rightarrow> rat per_fund \<Rightarrow> rat" where
  "total_value q units = fund_total (values_of q units)"

section \<open>The registry\<close>

record registry_query =
  rq_onlyFunded :: bool
  rq_threshold :: rat
  rq_search :: "string option"
  rq_type :: "string option"
  rq_category :: "string option"
  rq_limit :: nat
  rq_offset :: nat
  rq_sortBy :: string
  rq_sortOrder :: string

definition equals_given :: "string option \<Rightarrow> string \<Rightarrow> bool" where
  "equals_given wanted v = (\<not> truthy_str wanted \<or> wanted = Some v)"

definition search_matches :: "(string \<Rightarrow> string \<Rightarrow> bool) \<Rightarrow> string option \<Rightarrow> string \<Rightarrow> string \<Rightarrow> bool" where
  "search_matches like search number client =
     (case search of
        None \<Rightarrow> True
      | Some s \<Rightarrow> s = [] \<or> like (to_lower number) (''%'' @ to_lower s @ ''%'') \<or> like (to_lower client) (''%'' @ to_lower s @ ''%''))"

definition balance_selected :: "(string \<Rightarrow> string \<Rightarrow> bool) \<Rightarrow> registry_query \<Rightarrow> unit_balance \<Rightarrow> bool" where
  "balance_selected like q b =
     (search_matches like (rq_search q) (ub_accountNumber b) (ub_clientName b) \<and>
      equals_given (rq_type q) (ub_type b) \<and> equals_given (rq_category q) (ub_category b))"

definition balance_funded :: "fund_quotes \<Rightarrow> registry_query \<Rightarrow> unit_balance \<Rightarrow> bool" where
  "balance_funded fq q b = (\<not> rq_onlyFunded q \<or> total_value fq (ub_units b) \<ge> rq_threshold q)"

text \<open>The columns of \<open>ORDER BY\<close>; a null is the greatest value.\<close>

definition sort_column :: "(string \<Rightarrow> nat) \<Rightarrow> (string \<Rightarrow> nat) \<Rightarrow> fund_quotes \<Rightarrow> string \<Rightarrow> unit_balance \<Rightarrow> rat option" where
  "sort_column collate type_rank fq sortBy b =
     (if sortBy = ''accountNumber'' then Some (of_nat (collate (ub_accountNumber b)))
      else if sortBy = ''accountType'' then Some (of_nat (type_rank (ub_type b)))
      else if sortBy = ''lastTransactionDate'' then map_option of_int (ub_lastDate b)
      else if sortBy = ''xummfUnits'' then Some (xummf (ub_units b))
      else if sortBy = ''xubfUnits'' then Some (xubf (ub_units b))
      else if sortBy = ''xudefUnits'' then Some (xudef (ub_units b))
      else if sortBy = ''xurefUnits'' then Some (xuref (ub_units b))
      else if sortBy = ''totalUnits'' then Some (ub_totalUnits b)
      else if sortBy = ''totalValue'' then Some (total_value fq (ub_units b))
      else Some (of_nat (collate (ub_clientName b))))"

definition order_by :: "bool \<Rightarrow> ('a \<Rightarrow> rat option) \<Rightarrow> 'a list \<Rightarrow> 'a list" where
  "order_by desc key xs =
     sort_key (\<lambda>x. case key x of None \<Rightarrow> if desc then 0 else 2 | Some _ \<Rightarrow> (1 :: nat))
       (sort_key (\<lambda>x. case key x of None \<Rightarrow> 0 | Some v \<Rightarrow> if desc then - v else v) xs)"

definition registry_rows ::
    "(string \<Rightarrow> string \<Rightarrow> bool) \<Rightarrow> (string \<Rightarrow> nat) \<Rightarrow> (string \<Rightarrow> nat) \<Rightarrow> fund_quotes \<Rightarrow> registry_query \<Rightarrow> unit_balance list \<Rightarrow> unit_balance list" where
  "registry_rows like collate type_rank fq q view =
     order_by (to_upper (rq_sortOrder q) = ''DESC'') (sort_column collate type_rank fq (rq_sortBy q))
       (filter (\<lambda>b. balance_selected like q b \<and> balance_funded fq q b) view)"

record registry_entry =
  re_balance :: unit_balance
  re_goalCount :: nat
  re_values :: "rat per_fund"
  re_totalValue :: rat

record registry_summary =
  ry_totalClients :: nat
  ry_totalUnits :: "rat per_fund"
  ry_totalValues :: "rat per_fund"
  ry_totalValue :: rat

record registry_answer =
  rg_entries :: "registry_entry list"
  rg_asOf :: "int option"
  rg_prices :: "rat option per_fund"
  rg_summary :: registry_summary
  rg_total :: nat

definition goal_count :: "registry_db \<Rightarrow> row_id \<Rightarrow> nat" where
  "goal_count db accountId = length (filter (\<lambda>g. go_accountId g = accountId) (rd_goals db))"

definition registry_entry_of :: "registry_db \<Rightarrow> fund_quotes \<Rightarrow> unit_balance \<Rightarrow> registry_entry" where
  "registry_entry_of db fq b =
     \<lparr>re_balance = b, re_goalCount = goal_count db (ub_accountId b), re_values = values_of fq (ub_units b),
      re_totalValue = total_value fq (ub_units b)\<rparr>"

definition sum_funds :: "rat per_fund list \<Rightarrow> rat per_fund" where
  "sum_funds us = Per_Fund (sum_list (map xummf us)) (sum_list (map xubf us)) (sum_list (map xudef us)) (sum_list (map xuref us))"

definition registry_summary_of :: "fund_quotes \<Rightarrow> unit_balance list \<Rightarrow> registry_summary" where
  "registry_summary_of fq rows =
     (let units = sum_funds (map ub_units rows)
      in \<lparr>ry_totalClients = length rows, ry_totalUnits = units, ry_totalValues = values_of fq units,
          ry_totalValue = total_value fq units\<rparr>)"

definition registry_answer_of :: "registry_db \<Rightarrow> fund_quotes \<Rightarrow> registry_query \<Rightarrow> unit_balance list \<Rightarrow> registry_answer" where
  "registry_answer_of db fq q rows =
     \<lparr>rg_entries = map (registry_entry_of db fq) (take (rq_limit q) (drop (rq_offset q) rows)), rg_asOf = fq_asOf fq,
      rg_prices = fq_prices fq, rg_summary = registry_summary_of fq rows, rg_total = length rows\<rparr>"

text \<open>For a past day: the transactions up to the day, joined to the account of their goal and grouped by it.\<close>

definition joined_accounts :: "registry_db \<Rightarrow> fund_txn \<Rightarrow> (registry_account \<times> client_row) list" where
  "joined_accounts db t =
     concat (map (\<lambda>g. concat (map (\<lambda>a. map (\<lambda>c. (a, c)) (filter (\<lambda>c. cl_id c = ac_clientId a) (rd_clients db)))
         (filter (\<lambda>a. ac_id a = go_accountId g) (rd_accounts db))))
       (filter (\<lambda>g. go_id g = f_goalId t) (rd_goals db)))"

definition balances_as_of :: "registry_db \<Rightarrow> int \<Rightarrow> unit_balance list" where
  "balances_as_of db day =
     map (\<lambda>((a, c), js). balance_of a c (map snd js))
       (group_by fst (concat (map (\<lambda>t. map (\<lambda>ac. (ac, t)) (joined_accounts db t))
         (filter (\<lambda>t. iso_day (f_transactionDate t) \<le> day) (rd_fund db)))))"

text \<open>The sort of the as-of registry knows three columns; any other compares as \<open>NaN\<close> and leaves the order.\<close>

definition sort_as_of :: "(string \<Rightarrow> nat) \<Rightarrow> fund_quotes \<Rightarrow> registry_query \<Rightarrow> unit_balance list \<Rightarrow> unit_balance list" where
  "sort_as_of locale_rank fq q rows =
     (let sign = (if rq_sortOrder q = ''asc'' then 1 else - 1 :: rat)
      in if rq_sortBy q = ''clientName'' then sort_key (\<lambda>b. sign * of_nat (locale_rank (ub_clientName b))) rows
         else if rq_sortBy q = ''accountNumber'' then sort_key (\<lambda>b. sign * of_nat (locale_rank (ub_accountNumber b))) rows
         else if rq_sortBy q = ''totalValue'' then sort_key (\<lambda>b. sign * total_value fq (ub_units b)) rows
         else rows)"

definition registry_as_of ::
    "(string \<Rightarrow> string \<Rightarrow> bool) \<Rightarrow> (string \<Rightarrow> nat) \<Rightarrow> registry_state \<Rightarrow> int \<Rightarrow> registry_query \<Rightarrow> registry_answer" where
  "registry_as_of like locale_rank st day q =
     (let fq = fst (read_quotes (rs_prices st) (Some day))
      in registry_answer_of (rs_db st) fq q
           (sort_as_of locale_rank fq q (filter (balance_funded fq q) (filter (balance_selected like q) (balances_as_of (rs_db st) day)))))"

definition get_unit_registry ::
    "(string \<Rightarrow> string \<Rightarrow> bool) \<Rightarrow> (string \<Rightarrow> nat) \<Rightarrow> (string \<Rightarrow> nat) \<Rightarrow> (string \<Rightarrow> nat) \<Rightarrow> registry_state \<Rightarrow> int option \<Rightarrow>
     registry_query \<Rightarrow> registry_answer \<times> registry_state" where
  "get_unit_registry like collate locale_rank type_rank st asOfDate q =
     (case asOfDate of
        Some day \<Rightarrow> (registry_as_of like locale_rank st day q, st)
      | None \<Rightarrow>
          (case read_quotes (rs_prices st) None of
             (fq, prices') \<Rightarrow>
               (registry_answer_of (rs_db st) fq q (registry_rows like collate type_rank fq q (rs_view st)),
                st\<lparr>rs_prices := prices'\<rparr>)))"

section \<open>The goals of an account\<close>

record goal_balance =
  gb_goalId :: row_id
  gb_goalNumber :: string
  gb_goalTitle :: string
  gb_units :: "rat per_fund"
  gb_values :: "rat per_fund"
  gb_totalValue :: rat

definition goal_balance_of :: "fund_quotes \<Rightarrow> registry_goal \<times> fund_txn list \<Rightarrow> goal_balance" where
  "goal_balance_of fq e =
     (case e of (g, ts) \<Rightarrow>
        \<lparr>gb_goalId = go_id g, gb_goalNumber = go_number g, gb_goalTitle = rg_title g, gb_units = fund_units_of ts,
         gb_values = values_of fq (fund_units_of ts), gb_totalValue = total_value fq (fund_units_of ts)\<rparr>)"

definition in_period :: "int option \<Rightarrow> fund_txn \<Rightarrow> bool" where
  "in_period asOf t = (case asOf of None \<Rightarrow> True | Some d \<Rightarrow> iso_day (f_transactionDate t) \<le> d)"

definition goal_rows :: "registry_db \<Rightarrow> row_id \<Rightarrow> int option \<Rightarrow> (registry_goal \<times> fund_txn) list" where
  "goal_rows db accountId asOf =
     concat (map (\<lambda>t. map (\<lambda>g. (g, t)) (filter (\<lambda>g. go_id g = f_goalId t \<and> go_accountId g = accountId) (rd_goals db)))
       (filter (in_period asOf) (rd_fund db)))"

definition get_account_goal_breakdown ::
    "(string \<Rightarrow> nat) \<Rightarrow> registry_state \<Rightarrow> row_id \<Rightarrow> int option \<Rightarrow> goal_balance list \<times> registry_state" where
  "get_account_goal_breakdown collate st accountId asOf =
     (case read_quotes (rs_prices st) asOf of
        (fq, prices') \<Rightarrow>
          (sort_key (\<lambda>g. collate (gb_goalNumber g))
             (map (\<lambda>(g, js). goal_balance_of fq (g, map snd js)) (group_by fst (goal_rows (rs_db st) accountId asOf))),
           st\<lparr>rs_prices := prices'\<rparr>))"

section \<open>The slow version\<close>

definition slow_latest_prices :: "price_db \<Rightarrow> fund_quotes" where
  "slow_latest_prices db =
     foldl (\<lambda>q c.
         case List.find (\<lambda>f. fi_code f = c) (pt_funds db) of
           None \<Rightarrow> q
         | Some f \<Rightarrow>
             (case first_of (newest_price_first (prices_of_fund db f)) of
                None \<Rightarrow> q
              | Some p \<Rightarrow> \<lparr>fq_prices = set_fund (fq_prices q) c (Some (pr_mid p)), fq_asOf = later_date (fq_asOf q) (pr_date p)\<rparr>))
       no_quotes registry_codes"

fun add_fund :: "rat per_fund \<Rightarrow> string \<Rightarrow> rat \<Rightarrow> rat per_fund" where
  "add_fund (Per_Fund a b c d) code v =
     (if code = ''XUMMF'' then Per_Fund (a + v) b c d else if code = ''XUBF'' then Per_Fund a (b + v) c d
      else if code = ''XUDEF'' then Per_Fund a b (c + v) d else if code = ''XUREF'' then Per_Fund a b c (d + v)
      else Per_Fund a b c d)"

definition slow_add :: "rat per_fund \<times> int option \<Rightarrow> fund_txn \<Rightarrow> rat per_fund \<times> int option" where
  "slow_add acc t =
     (case acc of (units, latest) \<Rightarrow>
        if f_fundCode t \<in> set registry_codes
        then (add_fund units (f_fundCode t) (f_units t), later_date latest (iso_day (f_transactionDate t)))
        else (units, latest))"

record slow_entry =
  se_clientName :: string
  se_accountNumber :: string
  se_type :: string
  se_lastDate :: "int option"
  se_units :: "rat per_fund"
  se_values :: "rat per_fund"
  se_totalValue :: rat

definition slow_entry_of :: "registry_db \<Rightarrow> fund_quotes \<Rightarrow> registry_account \<times> client_row \<Rightarrow> slow_entry" where
  "slow_entry_of db fq ac =
     (case ac of (a, c) \<Rightarrow>
        (case foldl slow_add (Per_Fund 0 0 0 0, None) (filter (\<lambda>t. f_accountId t = ac_id a) (rd_fund db)) of
           (units, latest) \<Rightarrow>
             \<lparr>se_clientName = cl_name c, se_accountNumber = ac_number a, se_type = ra_type a, se_lastDate = latest,
              se_units = units, se_values = values_of fq units, se_totalValue = total_value fq units\<rparr>))"

definition accounts_with_client :: "registry_db \<Rightarrow> (registry_account \<times> client_row) list" where
  "accounts_with_client db =
     concat (map (\<lambda>a. map (\<lambda>c. (a, c)) (filter (\<lambda>c. cl_id c = ac_clientId a) (rd_clients db))) (rd_accounts db))"

record slow_answer =
  sa_entries :: "slow_entry list"
  sa_asOf :: "int option"
  sa_prices :: "rat option per_fund"
  sa_totalClients :: nat
  sa_totalUnits :: "rat per_fund"
  sa_totalValue :: rat

definition slow_unit_registry ::
    "(string \<Rightarrow> string \<Rightarrow> bool) \<Rightarrow> (string \<Rightarrow> nat) \<Rightarrow> registry_state \<Rightarrow> bool \<Rightarrow> string option \<Rightarrow> slow_answer" where
  "slow_unit_registry contains collate st includeZeroBalances search =
     (let fq = slow_latest_prices (st_db (rs_prices st));
          found = filter (\<lambda>(a, c). \<not> truthy_str search \<or> contains (ac_number a) (the search) \<or> contains (cl_name c) (the search))
            (accounts_with_client (rs_db st));
          accounts = sort_key (\<lambda>(a, c). collate (cl_name c)) (sort_key (\<lambda>(a, c). collate (ac_number a)) found);
          entries = filter (\<lambda>e. includeZeroBalances \<or> fund_total (se_units e) \<noteq> 0) (map (slow_entry_of (rs_db st) fq) accounts)
      in \<lparr>sa_entries = entries, sa_asOf = fq_asOf fq, sa_prices = fq_prices fq, sa_totalClients = length entries,
          sa_totalUnits = sum_funds (map se_units entries), sa_totalValue = sum_list (map se_totalValue entries)\<rparr>)"

end
