(* ===== verification/Dashboard.thy ===== *)
theory Dashboard
  imports UnitRegistry Calendar
begin

text \<open>
  \<open>DashboardService\<close>: the latest prices as the dashboard reads them, assets under management in total and by category, and
  deposits and withdrawals by month. The current day is an argument.
\<close>

section \<open>Prices\<close>

definition newest_rows :: "price_db \<Rightarrow> (string \<times> price_row) list" where
  "newest_rows db =
     concat (map (\<lambda>r.
         if pr_date r = Max (set (map pr_date (filter (\<lambda>x. pr_fundId x = pr_fundId r) (pt_prices db))))
         then map (\<lambda>f. (fi_code f, r)) (filter (\<lambda>f. fi_id f = pr_fundId r) (pt_funds db)) else []) (pt_prices db))"

record dashboard_prices =
  dp_prices :: "rat per_fund"
  dp_asOf :: "int option"

text \<open>
  The date is kept as text, and a \<open>Date\<close> is compared with it as numbers: the text becomes \<open>NaN\<close>, so that only a first
  date is ever taken.
\<close>

definition add_dashboard_price :: "dashboard_prices \<Rightarrow> string \<times> price_row \<Rightarrow> dashboard_prices" where
  "add_dashboard_price d row =
     \<lparr>dp_prices = set_fund (dp_prices d) (fst row) (pr_mid (snd row)),
      dp_asOf = (case dp_asOf d of None \<Rightarrow> Some (pr_date (snd row)) | Some day \<Rightarrow> Some day)\<rparr>"

definition dashboard_latest_prices :: "price_db \<Rightarrow> dashboard_prices" where
  "dashboard_latest_prices db = foldl add_dashboard_price \<lparr>dp_prices = Per_Fund 0 0 0 0, dp_asOf = None\<rparr> (newest_rows db)"

section \<open>Assets under management\<close>

definition value_at :: "rat per_fund \<Rightarrow> unit_balance \<Rightarrow> rat" where
  "value_at prices b = fund_total (fund_products (ub_units b) prices)"

definition funded_limit :: rat where
  "funded_limit = 5000"

definition funded_accounts :: "rat per_fund \<Rightarrow> unit_balance list \<Rightarrow> unit_balance list" where
  "funded_accounts prices view = filter (\<lambda>b. value_at prices b \<ge> funded_limit) view"

definition category_of :: "unit_balance \<Rightarrow> string" where
  "category_of b =
     (if ub_type b = ''PERSONAL'' \<and> ub_category b = ''GENERAL'' then ''Personal''
      else if ub_type b = ''POOLED'' \<and> ub_category b = ''GENERAL'' then ''Corporate''
      else if ub_category b = ''INVESTMENT_CLUBS'' then ''Investment Clubs''
      else if ub_category b = ''RETIREMENTS_BENEFIT_SCHEME'' then ''Retirement Benefits Schemes''
      else if ub_category b = ''SACCO'' then ''SACCO'' else ''Other'')"

record category_aum =
  ca_category :: string
  ca_aum :: rat
  ca_accountCount :: nat
  ca_percentage :: rat

definition category_aum_of :: "rat per_fund \<Rightarrow> rat \<Rightarrow> string \<times> unit_balance list \<Rightarrow> category_aum" where
  "category_aum_of prices totalAUM g =
     (let aum = sum_list (map (value_at prices) (snd g))
      in \<lparr>ca_category = fst g, ca_aum = aum, ca_accountCount = length (snd g),
          ca_percentage = (if totalAUM > 0 then aum / totalAUM * 100 else 0)\<rparr>)"

definition aum_by_category :: "rat per_fund \<Rightarrow> rat \<Rightarrow> unit_balance list \<Rightarrow> category_aum list" where
  "aum_by_category prices totalAUM view =
     sort_key (\<lambda>c. - ca_aum c) (map (category_aum_of prices totalAUM) (group_by category_of view))"

section \<open>Months\<close>

text \<open>\<open>CURRENT_DATE - INTERVAL '12 months'\<close>: the same day of the year before, or the last day of its month.\<close>

definition twelve_months_before :: "int \<Rightarrow> int" where
  "twelve_months_before today =
     (let c = civil_of_day today; y = int (c_year c) - 1
      in make_day y (int (c_month c) - 1) (int (min (c_day c) (days_in_month (leap_year y) (c_month c - 1)))))"

definition month_of :: "fund_txn \<Rightarrow> nat \<times> nat" where
  "month_of t = (let c = civil_of_day (iso_day (f_transactionDate t)) in (c_year c, c_month c))"

record monthly_transactions =
  mt_month :: "nat \<times> nat"
  mt_amount :: rat
  mt_count :: nat

definition recent_of_type :: "transaction_type \<Rightarrow> int \<Rightarrow> fund_txn \<Rightarrow> bool" where
  "recent_of_type ty today t = (f_transactionType t = ty \<and> iso_day (f_transactionDate t) \<ge> twelve_months_before today)"

definition by_month :: "(rat \<Rightarrow> rat) \<Rightarrow> transaction_type \<Rightarrow> int \<Rightarrow> fund_txn list \<Rightarrow> monthly_transactions list" where
  "by_month shown ty today ts =
     sort_key (\<lambda>m. - (int (fst (mt_month m)) * 12 + int (snd (mt_month m))))
       (map (\<lambda>g. \<lparr>mt_month = fst g, mt_amount = shown (sum_list (map f_amount (snd g))), mt_count = length (snd g)\<rparr>)
         (group_by month_of (filter (recent_of_type ty today) ts)))"

section \<open>The dashboard\<close>

record dashboard_metrics =
  dm_lastUpload :: "int option"
  dm_totalAUM :: rat
  dm_fundedAccounts :: nat
  dm_byCategory :: "category_aum list"
  dm_deposits :: "monthly_transactions list"
  dm_withdrawals :: "monthly_transactions list"
  dm_asOf :: "int option"
  dm_prices :: "rat per_fund"

definition get_dashboard_metrics :: "registry_state \<Rightarrow> int \<Rightarrow> dashboard_metrics" where
  "get_dashboard_metrics st today =
     (let price_data = dashboard_latest_prices (st_db (rs_prices st)); prices = dp_prices price_data; ts = rd_fund (rs_db st);
          funded = funded_accounts prices (rs_view st); totalAUM = sum_list (map (value_at prices) funded)
      in \<lparr>dm_lastUpload = last_date ts, dm_totalAUM = totalAUM, dm_fundedAccounts = length funded,
          dm_byCategory = aum_by_category prices totalAUM (rs_view st),
          dm_deposits = by_month (\<lambda>v. v) DEPOSIT today ts, dm_withdrawals = by_month abs WITHDRAWAL today ts,
          dm_asOf = dp_asOf price_data, dm_prices = prices\<rparr>)"

end
