(* ===== verification/TransactionComparison.thy ===== *)
theory TransactionComparison
  imports BankReconcile
begin

text \<open>
  The comparison of \<open>bankUploadRoutes.ts\<close>: bank transactions grouped by goal and transaction id beside the fund
  transactions with the same goal and transaction id, the fund side that has no bank transaction, and the export. The
  queries are modelled clause by clause. \<open>ilike\<close> is the pattern match of the database and \<open>collate\<close> the rank it gives
  to texts. The title of a goal is left out on the fund side; numbers in the export are kept as numbers.
\<close>

section \<open>Filters\<close>

record comparison_query =
  cq_page :: "nat option"
  cq_limit :: "nat option"
  cq_start :: "instant option"
  cq_end :: "instant option"
  cq_goal :: "string option"
  cq_account :: "string option"
  cq_client :: "string option"
  cq_status :: "string option"

definition recon_status_name :: "reconciliation_status \<Rightarrow> string" where
  "recon_status_name s = (case s of
     RS_PENDING \<Rightarrow> ''PENDING'' | RS_MATCHED \<Rightarrow> ''MATCHED'' | RS_VARIANCE_DETECTED \<Rightarrow> ''VARIANCE_DETECTED''
   | RS_AUTO_APPROVED \<Rightarrow> ''AUTO_APPROVED'' | RS_MANUAL_REVIEW \<Rightarrow> ''MANUAL_REVIEW'' | RS_APPROVED \<Rightarrow> ''APPROVED''
   | RS_REJECTED \<Rightarrow> ''REJECTED'' | RS_MISSING_IN_FUND \<Rightarrow> ''MISSING_IN_FUND'')"

text \<open>The order of the enumeration in the schema.\<close>

definition recon_status_rank :: "reconciliation_status \<Rightarrow> nat" where
  "recon_status_rank s = (case s of
     RS_PENDING \<Rightarrow> 0 | RS_MATCHED \<Rightarrow> 1 | RS_VARIANCE_DETECTED \<Rightarrow> 2 | RS_AUTO_APPROVED \<Rightarrow> 3
   | RS_MANUAL_REVIEW \<Rightarrow> 4 | RS_APPROVED \<Rightarrow> 5 | RS_REJECTED \<Rightarrow> 6 | RS_MISSING_IN_FUND \<Rightarrow> 7)"

definition matches_given :: "(string \<Rightarrow> string \<Rightarrow> bool) \<Rightarrow> string option \<Rightarrow> string \<Rightarrow> bool" where
  "matches_given ilike v text = (if truthy_str v then ilike text (''%'' @ the v @ ''%'') else True)"

definition in_dates :: "comparison_query \<Rightarrow> instant \<Rightarrow> bool" where
  "in_dates q t =
     ((case cq_start q of None \<Rightarrow> True | Some s \<Rightarrow> s \<le> t) \<and> (case cq_end q of None \<Rightarrow> True | Some e \<Rightarrow> t \<le> e))"

text \<open>\<open>clientSearch.trim().split(/\s+/)\<close>: a blank search leaves one empty word.\<close>

definition client_words :: "string \<Rightarrow> string list" where
  "client_words s = (let ws = search_words (trim s) in if ws = [] then [[]] else ws)"

definition client_matches :: "(string \<Rightarrow> string \<Rightarrow> bool) \<Rightarrow> string option \<Rightarrow> stored_bank \<Rightarrow> bool" where
  "client_matches ilike v r =
     (if truthy_str v
      then list_all (\<lambda>w. ilike (sb_firstName r) (''%'' @ w @ ''%'') \<or> ilike (sb_lastName r) (''%'' @ w @ ''%'')) (client_words (the v))
      else True)"

text \<open>\<open>LEFT JOIN accounts\<close>: a missing account satisfies no condition.\<close>

definition joined_account :: "bank_store \<Rightarrow> stored_bank \<Rightarrow> string option" where
  "joined_account db r = map_option ac_number (List.find (\<lambda>a. ac_id a = b_accountId r) (bu_accounts db))"

definition bank_conditions :: "(string \<Rightarrow> string \<Rightarrow> bool) \<Rightarrow> bank_store \<Rightarrow> comparison_query \<Rightarrow> stored_bank \<Rightarrow> bool" where
  "bank_conditions ilike db q r =
     (in_dates q (b_transactionDate r) \<and> matches_given ilike (cq_goal q) (b_goalNumber r) \<and>
      (truthy_str (cq_account q) \<longrightarrow>
         (case joined_account db r of None \<Rightarrow> False | Some n \<Rightarrow> ilike n (''%'' @ the (cq_account q) @ ''%''))) \<and>
      client_matches ilike (cq_client q) r)"

text \<open>\<open>matchStatus && matchStatus !== 'ALL'\<close>.\<close>

definition status_wanted :: "comparison_query \<Rightarrow> string option" where
  "status_wanted q = (if truthy_str (cq_status q) \<and> cq_status q \<noteq> Some ''ALL'' then cq_status q else None)"

definition status_condition :: "comparison_query \<Rightarrow> stored_bank \<Rightarrow> bool" where
  "status_condition q r =
     (case status_wanted q of
        None \<Rightarrow> True
      | Some s \<Rightarrow>
          if s = ''MATCHED'' then b_matchedGoalTransactionCode r \<noteq> None \<or> b_reconciliationStatus r = RS_MATCHED
          else if s = ''VARIANCE_DETECTED'' \<or> s = ''MISSING_IN_FUND''
          then b_matchedGoalTransactionCode r = None \<and> b_reconciliationStatus r \<noteq> RS_MATCHED
          else recon_status_name (b_reconciliationStatus r) = s)"

section \<open>Groups of bank transactions\<close>

definition min_text :: "(string \<Rightarrow> nat) \<Rightarrow> string list \<Rightarrow> string" where
  "min_text collate xs = fold (\<lambda>x m. if collate x < collate m then x else m) (tl xs) (hd xs)"

definition max_status :: "reconciliation_status list \<Rightarrow> reconciliation_status" where
  "max_status xs = fold (\<lambda>x m. if recon_status_rank m < recon_status_rank x then x else m) (tl xs) (hd xs)"

definition first_date :: "instant list \<Rightarrow> instant" where
  "first_date ts = fold min (tl ts) (hd ts)"

record bank_group =
  bp_goal :: string
  bp_txn :: string
  bp_date :: instant
  bp_firstName :: string
  bp_lastName :: string
  bp_goalTitle :: string
  bp_account :: string
  bp_count :: nat
  bp_total :: money
  bp_funds :: "money list"
  bp_ids :: "row_id list"
  bp_status :: reconciliation_status
  bp_code :: "string option"

text \<open>\<open>MIN\<close> and \<open>MAX\<close> leave nulls out.\<close>

definition max_code :: "(string \<Rightarrow> nat) \<Rightarrow> string option list \<Rightarrow> string option" where
  "max_code collate xs =
     (case List.map_filter id xs of [] \<Rightarrow> None
      | y # ys \<Rightarrow> Some (fold (\<lambda>x m. if collate m < collate x then x else m) ys y))"

definition bank_group_of :: "(string \<Rightarrow> nat) \<Rightarrow> bank_store \<Rightarrow> (string \<times> string) \<times> stored_bank list \<Rightarrow> bank_group" where
  "bank_group_of collate db g =
     (case g of ((goal, txn), rows) \<Rightarrow>
       \<lparr>bp_goal = goal, bp_txn = txn, bp_date = first_date (map b_transactionDate rows),
        bp_firstName = min_text collate (map sb_firstName rows), bp_lastName = min_text collate (map sb_lastName rows),
        bp_goalTitle = min_text collate (map sb_goalTitle rows),
        bp_account = (case List.map_filter (joined_account db) rows of [] \<Rightarrow> [] | ns \<Rightarrow> min_text collate ns),
        bp_count = length rows, bp_total = sum_list (map b_totalAmount rows),
        bp_funds = [sum_list (map b_xummfAmount rows), sum_list (map b_xubfAmount rows), sum_list (map b_xudefAmount rows),
          sum_list (map b_xurefAmount rows)],
        bp_ids = map b_id rows, bp_status = max_status (map b_reconciliationStatus rows),
        bp_code = max_code collate (map b_matchedGoalTransactionCode rows)\<rparr>)"

text \<open>\<open>ORDER BY MIN(transactionDate) DESC\<close> leaves the order of groups of the same date open, and it may be another one in
  every request: the parameter \<open>tie\<close> ranks them for one request.\<close>

definition bank_groups :: "(bank_group \<Rightarrow> nat) \<Rightarrow> (string \<Rightarrow> nat) \<Rightarrow> bank_store \<Rightarrow> (stored_bank \<Rightarrow> bool) \<Rightarrow> bank_group list" where
  "bank_groups tie collate db P =
     sort_key (\<lambda>g. - bp_date g) (sort_key tie
       (map (bank_group_of collate db) (group_by (\<lambda>r. (b_goalNumber r, b_transactionId r)) (filter P (bu_rows db)))))"

section \<open>The fund side of a group\<close>

definition group_fund_rows :: "bank_store \<Rightarrow> bank_group \<Rightarrow> fund_txn list" where
  "group_fund_rows db g =
     filter (\<lambda>f. fund_of_goal (as_database db) (bp_goal g) f \<and> f_transactionId f = Some (bp_txn g)) (bu_fund db)"

text \<open>The sums per fund; a fund outside the four gets an entry of its own that is not read.\<close>

definition fund_sum :: "string \<Rightarrow> fund_txn list \<Rightarrow> money" where
  "fund_sum code fts =
     (case map_get (foldl (\<lambda>m ft. map_set m (f_fundCode ft) ((case map_get m (f_fundCode ft) of None \<Rightarrow> 0 | Some a \<Rightarrow> a) + f_amount ft))
          [(''XUMMF'', 0), (''XUBF'', 0), (''XUDEF'', 0), (''XUREF'', 0)] fts) code of None \<Rightarrow> 0 | Some a \<Rightarrow> a)"

definition comparison_tolerance :: "money \<Rightarrow> money" where
  "comparison_tolerance fundTotal = max (fundTotal * (1 / 100)) 1000"

interpretation comparison_tol: tolerance_policy comparison_tolerance 1000
  by unfold_locales (simp_all add: comparison_tolerance_def)

datatype comparison_status = CS_MATCHED | CS_VARIANCE_DETECTED | CS_MISSING_IN_FUND | CS_MISSING_IN_BANK

definition comparison_status_name :: "comparison_status \<Rightarrow> string" where
  "comparison_status_name s = (case s of
     CS_MATCHED \<Rightarrow> ''MATCHED'' | CS_VARIANCE_DETECTED \<Rightarrow> ''VARIANCE_DETECTED''
   | CS_MISSING_IN_FUND \<Rightarrow> ''MISSING_IN_FUND'' | CS_MISSING_IN_BANK \<Rightarrow> ''MISSING_IN_BANK'')"

record fund_part =
  fp_code :: string
  fp_date :: "instant option"
  fp_client :: string
  fp_total :: money
  fp_funds :: "money list"
  fp_count :: nat

record comparison_row =
  cr_status :: comparison_status
  cr_bank :: bank_group
  cr_fund :: "fund_part option"
  cr_totalDiff :: money
  cr_fundDiffs :: "money list"
  cr_hasVariance :: bool

text \<open>The first value that is not empty.\<close>

definition first_given :: "string list \<Rightarrow> string" where
  "first_given xs = (case List.find (\<lambda>x. x \<noteq> []) xs of None \<Rightarrow> [] | Some x \<Rightarrow> x)"

definition fund_client :: "bank_store \<Rightarrow> fund_txn \<Rightarrow> string" where
  "fund_client db f = (case List.find (\<lambda>c. cl_id c = f_clientId f) (bu_clients db) of None \<Rightarrow> [] | Some c \<Rightarrow> cl_name c)"

definition fund_part_of :: "bank_store \<Rightarrow> fund_txn list \<Rightarrow> fund_part option" where
  "fund_part_of db fts =
     (if fts = [] then None
      else Some \<lparr>fp_code = first_given (map f_goalTransactionCode fts), fp_date = Some (f_transactionDate (hd fts)),
             fp_client = first_given (map (fund_client db) fts), fp_total = sum_list (map f_amount fts),
             fp_funds = map (\<lambda>c. fund_sum c fts) fund_codes, fp_count = length fts\<rparr>)"

definition comparison_status_of :: "string option \<Rightarrow> fund_txn list \<Rightarrow> money \<Rightarrow> comparison_status" where
  "comparison_status_of code fts totalDiff =
     (if truthy_str code then CS_MATCHED
      else if fts = [] then CS_MISSING_IN_FUND
      else if \<bar>totalDiff\<bar> \<le> comparison_tolerance (sum_list (map f_amount fts)) then CS_MATCHED
      else CS_VARIANCE_DETECTED)"

definition compare_group :: "bank_store \<Rightarrow> bank_group \<Rightarrow> comparison_row" where
  "compare_group db g =
     (let fts = group_fund_rows db g; fundTotal = sum_list (map f_amount fts); totalDiff = bp_total g - fundTotal
      in \<lparr>cr_status = comparison_status_of (bp_code g) fts totalDiff, cr_bank = g, cr_fund = fund_part_of db fts,
          cr_totalDiff = totalDiff, cr_fundDiffs = map (\<lambda>(b, c). b - fund_sum c fts) (zip (bp_funds g) fund_codes),
          cr_hasVariance = (\<bar>totalDiff\<bar> > comparison_tolerance fundTotal)\<rparr>)"

section \<open>The answer\<close>

record comparison_aggregates =
  ca_bankTotal :: money
  ca_fundTotal :: money
  ca_varianceAmount :: money
  ca_matched :: nat
  ca_variance :: nat
  ca_missingInFund :: nat
  ca_missingInBank :: nat
  ca_matchRate :: rat

definition fund_total_of :: "comparison_row \<Rightarrow> money" where
  "fund_total_of r = (case cr_fund r of None \<Rightarrow> 0 | Some p \<Rightarrow> fp_total p)"

definition comparison_aggregates_of :: "comparison_row list \<Rightarrow> comparison_aggregates" where
  "comparison_aggregates_of rows =
     (let bankTotal = sum_list (map (\<lambda>r. bp_total (cr_bank r)) rows); fundTotal = sum_list (map fund_total_of rows);
          count = (\<lambda>s. length (filter (\<lambda>r. cr_status r = s) rows))
      in \<lparr>ca_bankTotal = bankTotal, ca_fundTotal = fundTotal, ca_varianceAmount = \<bar>bankTotal - fundTotal\<bar>,
          ca_matched = count CS_MATCHED, ca_variance = count CS_VARIANCE_DETECTED,
          ca_missingInFund = count CS_MISSING_IN_FUND, ca_missingInBank = 0,
          ca_matchRate = of_int (js_round ((if rows = [] then 0 else of_nat (count CS_MATCHED) / of_nat (length rows) * 100) * 100)) / 100\<rparr>)"

record comparison_answer =
  cn_data :: "comparison_row list"
  cn_aggregates :: comparison_aggregates
  cn_total :: nat
  cn_pages :: nat

definition compare_bank_groups ::
    "(bank_group \<Rightarrow> nat) \<Rightarrow> (string \<Rightarrow> string \<Rightarrow> bool) \<Rightarrow> (string \<Rightarrow> nat) \<Rightarrow> comparison_query \<Rightarrow> bank_store \<Rightarrow> comparison_answer" where
  "compare_bank_groups tie ilike collate q db =
     (let page = nat_or (cq_page q) 1; limit = nat_or (cq_limit q) 50;
          groups = bank_groups tie collate db (\<lambda>r. bank_conditions ilike db q r \<and> status_condition q r);
          rows = map (compare_group db) (page_of page limit groups);
          shown = (case status_wanted q of None \<Rightarrow> rows
                   | Some s \<Rightarrow> filter (\<lambda>r. comparison_status_name (cr_status r) = s) rows)
      in \<lparr>cn_data = shown, cn_aggregates = comparison_aggregates_of shown, cn_total = length groups,
          cn_pages = page_count limit (length groups)\<rparr>)"

section \<open>Fund transactions without bank transaction\<close>

record joined_fund =
  jf_goal :: string
  jf_account :: string
  jf_client :: string
  jf_row :: fund_txn

definition fund_joins :: "bank_store \<Rightarrow> fund_txn \<Rightarrow> joined_fund list" where
  "fund_joins db f =
     concat (map (\<lambda>g. concat (map (\<lambda>a.
           map (\<lambda>c. \<lparr>jf_goal = go_number g, jf_account = ac_number a, jf_client = cl_name c, jf_row = f\<rparr>)
             (filter (\<lambda>c. cl_id c = f_clientId f) (bu_clients db)))
         (filter (\<lambda>a. ac_id a = go_accountId g) (bu_accounts db))))
       (filter (\<lambda>g. go_id g = f_goalId f) (bu_goals db)))"

definition joined_funds :: "bank_store \<Rightarrow> joined_fund list" where
  "joined_funds db = concat (map (fund_joins db) (bu_fund db))"

definition fund_conditions :: "(string \<Rightarrow> string \<Rightarrow> bool) \<Rightarrow> comparison_query \<Rightarrow> joined_fund \<Rightarrow> bool" where
  "fund_conditions ilike q j =
     (in_dates q (f_transactionDate (jf_row j)) \<and> matches_given ilike (cq_goal q) (jf_goal j) \<and>
      matches_given ilike (cq_account q) (jf_account j) \<and> matches_given ilike (cq_client q) (jf_client j))"

text \<open>\<open>NOT EXISTS\<close>: a missing transaction id equals no bank transaction id.\<close>

definition without_bank :: "bank_store \<Rightarrow> string \<times> string option \<Rightarrow> bool" where
  "without_bank db k = (\<not> list_ex (\<lambda>b. b_goalNumber b = fst k \<and> Some (b_transactionId b) = snd k) (bu_rows db))"

record missing_group =
  mg_goal :: string
  mg_txn :: "string option"
  mg_date :: instant
  mg_client :: string
  mg_account :: string
  mg_total :: money
  mg_funds :: "money list"
  mg_count :: nat
  mg_code :: string

definition missing_group_of :: "(string \<Rightarrow> nat) \<Rightarrow> (string \<times> string option) \<times> joined_fund list \<Rightarrow> missing_group" where
  "missing_group_of collate g =
     (case g of ((goal, txn), js) \<Rightarrow>
       let fs = map jf_row js
       in \<lparr>mg_goal = goal, mg_txn = txn, mg_date = first_date (map f_transactionDate fs),
           mg_client = min_text collate (map jf_client js), mg_account = min_text collate (map jf_account js),
           mg_total = sum_list (map f_amount fs),
           mg_funds = map (\<lambda>c. sum_list (map (\<lambda>f. if f_fundCode f = c then f_amount f else 0) fs)) fund_codes,
           mg_count = length fs, mg_code = min_text collate (map f_goalTransactionCode fs)\<rparr>)"

definition missing_groups :: "(missing_group \<Rightarrow> nat) \<Rightarrow> (string \<Rightarrow> string \<Rightarrow> bool) \<Rightarrow> (string \<Rightarrow> nat) \<Rightarrow> comparison_query \<Rightarrow> bank_store \<Rightarrow> missing_group list" where
  "missing_groups tie ilike collate q db =
     sort_key (\<lambda>g. - mg_date g) (sort_key tie
       (map (missing_group_of collate)
         (filter (\<lambda>g. without_bank db (fst g))
           (group_by (\<lambda>j. (jf_goal j, f_transactionId (jf_row j))) (filter (fund_conditions ilike q) (joined_funds db))))))"

record missing_answer =
  ma_data :: "missing_group list"
  ma_fundTotal :: money
  ma_total :: nat
  ma_pages :: nat

definition compare_missing_in_bank ::
    "(missing_group \<Rightarrow> nat) \<Rightarrow> (string \<Rightarrow> string \<Rightarrow> bool) \<Rightarrow> (string \<Rightarrow> nat) \<Rightarrow> comparison_query \<Rightarrow> bank_store \<Rightarrow> missing_answer" where
  "compare_missing_in_bank tie ilike collate q db =
     (let page = nat_or (cq_page q) 1; limit = nat_or (cq_limit q) 50; groups = missing_groups tie ilike collate q db;
          shown = page_of page limit groups
      in \<lparr>ma_data = shown, ma_fundTotal = sum_list (map mg_total shown), ma_total = length groups,
          ma_pages = page_count limit (length groups)\<rparr>)"

definition comparison_route ::
    "(missing_group \<Rightarrow> nat) \<Rightarrow> (bank_group \<Rightarrow> nat) \<Rightarrow> (string \<Rightarrow> string \<Rightarrow> bool) \<Rightarrow> (string \<Rightarrow> nat) \<Rightarrow> comparison_query \<Rightarrow> bank_store \<Rightarrow> missing_answer + comparison_answer" where
  "comparison_route mtie btie ilike collate q db =
     (if cq_status q = Some ''MISSING_IN_BANK'' then Inl (compare_missing_in_bank mtie ilike collate q db)
      else Inr (compare_bank_groups btie ilike collate q db))"

section \<open>The export\<close>

record export_row =
  xr_goal :: string
  xr_txn :: string
  xr_date :: string
  xr_client :: string
  xr_account :: string
  xr_count :: nat
  xr_status :: comparison_status
  xr_total :: "money \<times> money \<times> money"
  xr_funds :: "(money \<times> money \<times> money) list"

definition export_group :: "bank_store \<Rightarrow> bank_group \<Rightarrow> export_row" where
  "export_group db g =
     (let fts = group_fund_rows db g; fundTotal = sum_list (map f_amount fts); totalDiff = bp_total g - fundTotal
      in \<lparr>xr_goal = bp_goal g, xr_txn = bp_txn g, xr_date = iso_date (bp_date g),
          xr_client = bp_firstName g @ '' '' @ bp_lastName g, xr_account = bp_account g, xr_count = bp_count g,
          xr_status = (if fts = [] then CS_MISSING_IN_FUND
                       else if \<bar>totalDiff\<bar> \<le> comparison_tolerance fundTotal then CS_MATCHED else CS_VARIANCE_DETECTED),
          xr_total = (bp_total g, fundTotal, totalDiff),
          xr_funds = map (\<lambda>(b, c). (b, fund_sum c fts, b - fund_sum c fts)) (zip (bp_funds g) fund_codes)\<rparr>)"

definition export_batch :: nat where
  "export_batch = 100"

function export_loop :: "bank_store \<Rightarrow> bank_group list \<Rightarrow> nat \<Rightarrow> export_row list \<Rightarrow> export_row list" where
  "export_loop db groups i rows =
     (if i < length groups
      then export_loop db groups (i + export_batch) (rows @ map (export_group db) (take export_batch (drop i groups)))
      else rows)"
  by pat_completeness auto

termination export_loop
  by (relation "measure (\<lambda>(db, groups, i, rows). length groups - i)") (auto simp: export_batch_def)

declare export_loop.simps [simp del]

text \<open>The status is compared with the stored one.\<close>

definition export_condition :: "comparison_query \<Rightarrow> stored_bank \<Rightarrow> bool" where
  "export_condition q r = (case status_wanted q of None \<Rightarrow> True | Some s \<Rightarrow> recon_status_name (b_reconciliationStatus r) = s)"

definition export_comparison ::
    "(bank_group \<Rightarrow> nat) \<Rightarrow> (string \<Rightarrow> string \<Rightarrow> bool) \<Rightarrow> (string \<Rightarrow> nat) \<Rightarrow> comparison_query \<Rightarrow> bank_store \<Rightarrow> export_row list" where
  "export_comparison tie ilike collate q db =
     export_loop db (bank_groups tie collate db (\<lambda>r. bank_conditions ilike db q r \<and> export_condition q r)) 0 []"

end
