(* ===== verification/ComparisonProperties.thy ===== *)
theory ComparisonProperties
  imports TransactionComparison
begin

text \<open>
  Properties of the comparison: its pages together hold every group once, the export shows the same groups, and bank and
  fund amounts are accounted for without loss or repetition.
\<close>

section \<open>Sums over groups\<close>

lemma sum_by_key:
  fixes amount :: "'x \<Rightarrow> rat"
  assumes "distinct ks"
  shows "sum_list (map (\<lambda>k. sum_list (map amount (filter (\<lambda>x. kf x = k) xs))) ks) =
    sum_list (map amount (filter (\<lambda>x. kf x \<in> set ks) xs))"
proof -
  let ?ys = "filter (\<lambda>x. kf x \<in> set ks) xs"
  have "sum_list (map amount ?ys) = sum_list (map amount (concat (map (\<lambda>k. filter (\<lambda>x. kf x = k) ?ys) ks)))"
    by (rule sum_list_map_mset [OF mset_concat_partition [OF assms, symmetric]]) auto
  also have "\<dots> = sum_list (map (\<lambda>k. sum_list (map amount (filter (\<lambda>x. kf x = k) ?ys))) ks)"
    by (simp add: sum_list_map_concat comp_def)
  also have "\<dots> = sum_list (map (\<lambda>k. sum_list (map amount (filter (\<lambda>x. kf x = k) xs))) ks)"
    by (intro arg_cong [of _ _ sum_list] map_cong refl arg_cong [of _ _ "\<lambda>ys. sum_list (map amount ys)"]) (auto intro: filter_cong)
  finally show ?thesis by simp
qed

lemma sum_chosen_groups:
  fixes amount :: "'x \<Rightarrow> rat"
  shows "sum_list (map (\<lambda>g. sum_list (map amount (snd g))) (filter (\<lambda>g. P (fst g)) (group_by kf xs))) =
    sum_list (map amount (filter (\<lambda>x. P (kf x)) xs))"
proof -
  let ?ks = "map fst (group_by kf xs)"
  have "filter (\<lambda>g. P (fst g)) (group_by kf xs) = map (\<lambda>k. (k, filter (\<lambda>x. kf x = k) xs)) (filter P ?ks)"
    by (subst group_by_as_map) (simp add: filter_map comp_def)
  then have "sum_list (map (\<lambda>g. sum_list (map amount (snd g))) (filter (\<lambda>g. P (fst g)) (group_by kf xs))) =
      sum_list (map (\<lambda>k. sum_list (map amount (filter (\<lambda>x. kf x = k) xs))) (filter P ?ks))"
    by (simp add: comp_def)
  also have "\<dots> = sum_list (map amount (filter (\<lambda>x. kf x \<in> set (filter P ?ks)) xs))"
    by (rule sum_by_key) (simp add: distinct_filter)
  also have "filter (\<lambda>x. kf x \<in> set (filter P ?ks)) xs = filter (\<lambda>x. P (kf x)) xs"
    by (intro filter_cong refl) auto
  finally show ?thesis .
qed

section \<open>Pages\<close>

lemma page_count_enough:
  assumes "0 < n"
  shows "m \<le> page_count n m * n"
proof -
  define r where "r = (m + n - 1) mod n"
  have "m + n - 1 = page_count n m * n + r" by (simp add: r_def page_count_def)
  moreover have "r < n" using assms by (simp add: r_def)
  ultimately show ?thesis using assms by linarith
qed

lemma first_pages: "concat (map (\<lambda>p. page_of p n xs) [1 ..< Suc k]) = take (k * n) xs"
proof (induction k)
  case (Suc k)
  have "concat (map (\<lambda>p. page_of p n xs) [1 ..< Suc (Suc k)]) = take (k * n) xs @ take n (drop (k * n) xs)"
    using Suc by (simp add: page_of_def)
  also have "\<dots> = take (k * n + n) xs" by (rule take_add [symmetric])
  finally show ?case by (simp add: add.commute)
qed simp

lemma all_pages:
  assumes "0 < n"
  shows "concat (map (\<lambda>p. page_of p n xs) [1 ..< Suc (page_count n (length xs))]) = xs"
  unfolding first_pages using page_count_enough [OF assms, of "length xs"] by simp

lemma nat_or_pos: "0 < d \<Longrightarrow> 0 < nat_or n d"
  by (simp add: nat_or_def split: option.split)

section \<open>The export\<close>

lemma export_all: "export_loop db groups 0 [] = map (export_group db) groups"
proof -
  have "export_loop db groups i rows = rows @ map (export_group db) (drop i groups)" for i rows
  proof (induction db groups i rows rule: export_loop.induct)
    case (1 db groups i rows)
    show ?case
    proof (cases "i < length groups")
      case True
      have "take export_batch (drop i groups) @ drop (i + export_batch) groups = drop i groups"
        by (metis append_take_drop_id drop_drop add.commute)
      then show ?thesis
        using 1 [OF True] True by (simp add: export_loop.simps [of db groups i rows] map_append [symmetric] del: map_append)
    next
      case False
      then show ?thesis by (simp add: export_loop.simps [of db groups i rows])
    qed
  qed
  then show ?thesis by simp
qed

lemma bank_groups_perm: "mset (bank_groups tie collate db P) =
    mset (map (bank_group_of collate db) (group_by (\<lambda>r. (b_goalNumber r, b_transactionId r)) (filter P (bu_rows db))))"
  by (simp add: bank_groups_def)

lemma bank_group_keys [simp]: "bp_goal (bank_group_of collate db g) = fst (fst g)" "bp_txn (bank_group_of collate db g) = snd (fst g)"
  "bp_total (bank_group_of collate db g) = sum_list (map b_totalAmount (snd g))"
  by (simp_all add: bank_group_of_def split: prod.split)

lemma distinct_group_keys: "distinct (map (\<lambda>g. (bp_goal g, bp_txn g)) (bank_groups tie collate db P))"
  by (simp add: bank_groups_def distinct_map_sort_key comp_def)

lemma group_key_set: "(\<lambda>g. (bp_goal g, bp_txn g)) ` set (bank_groups tie collate db P) = (\<lambda>r. (b_goalNumber r, b_transactionId r)) ` set (filter P (bu_rows db))"
proof -
  have "(\<lambda>g. (bp_goal g, bp_txn g)) ` set (bank_groups tie collate db P) =
      fst ` set (group_by (\<lambda>r. (b_goalNumber r, b_transactionId r)) (filter P (bu_rows db)))"
    by (simp add: bank_groups_def image_image)
  then show ?thesis by simp
qed

text \<open>If no two groups have the same date, the order of ties does not matter.\<close>

lemma distinct_dates_one_order:
  assumes "distinct (map bp_date (bank_groups tie' collate db P))"
  shows "bank_groups tie collate db P = bank_groups tie' collate db P"
proof -
  let ?gs = "map (bank_group_of collate db) (group_by (\<lambda>r. (b_goalNumber r, b_transactionId r)) (filter P (bu_rows db)))"
  have inj: "inj_on (\<lambda>g. - bp_date g) (set (sort_key tie ?gs))"
    using assms by (simp add: bank_groups_def distinct_map inj_on_def)
  show ?thesis
    unfolding bank_groups_def by (rule sort_key_inj_key_eq [OF _ inj]) simp_all
qed


section \<open>Conservation\<close>

definition no_filter :: comparison_query where
  "no_filter = \<lparr>cq_page = None, cq_limit = None, cq_start = None, cq_end = None, cq_goal = None, cq_account = None,
     cq_client = None, cq_status = None\<rparr>"

lemma no_filter_passes [simp]: "bank_conditions ilike db no_filter r" "status_condition no_filter r" "fund_conditions ilike no_filter j"
  by (simp_all add: no_filter_def bank_conditions_def status_condition_def status_wanted_def fund_conditions_def in_dates_def
      matches_given_def client_matches_def)

text \<open>The foreign keys: goal ids are unique and every fund row has its goal, account and client.\<close>

definition references_hold :: "bank_store \<Rightarrow> bool" where
  "references_hold db = (distinct (map go_id (bu_goals db)) \<and> list_all (\<lambda>f. length (fund_joins db f) = 1) (bu_fund db))"

lemma joined_once:
  assumes "references_hold db" "f \<in> set (bu_fund db)"
  shows "\<exists>j. fund_joins db f = [j] \<and> jf_row j = f \<and> (fund_of_goal (as_database db) n f \<longleftrightarrow> jf_goal j = n)"
proof -
  obtain j where j: "fund_joins db f = [j]"
    using assms by (auto simp: references_hold_def list_all_iff length_Suc_conv)
  then have "j \<in> set (fund_joins db f)" by simp
  then obtain g where g: "g \<in> set (bu_goals db)" "go_id g = f_goalId f" "jf_goal j = go_number g" "jf_row j = f"
    by (auto simp: fund_joins_def)
  have inj: "inj_on go_id (set (bu_goals db))" using assms(1) by (simp add: references_hold_def distinct_map)
  have only: "h = g" if "h \<in> set (bu_goals db)" "go_id h = f_goalId f" for h
    using inj_onD [OF inj _ that(1) g(1)] that(2) g(2) by simp
  have "fund_of_goal (as_database db) n f \<longleftrightarrow> go_number g = n"
  proof
    assume "fund_of_goal (as_database db) n f"
    then obtain h where "h \<in> set (bu_goals db)" "go_id h = f_goalId f" "go_number h = n"
      by (auto simp: fund_of_goal_def as_database_def)
    then show "go_number g = n" using only by simp
  next
    assume "go_number g = n"
    then show "fund_of_goal (as_database db) n f" using g(1,2) by (auto simp: fund_of_goal_def as_database_def)
  qed
  then show ?thesis using j g(3,4) by simp
qed

lemma joined_rows:
  assumes "references_hold db"
  shows "map jf_row (filter (\<lambda>j. P (jf_goal j) (jf_row j)) (joined_funds db)) =
    filter (\<lambda>f. \<exists>n. fund_of_goal (as_database db) n f \<and> P n f) (bu_fund db)"
proof -
  have "map jf_row (filter (\<lambda>j. P (jf_goal j) (jf_row j)) (concat (map (fund_joins db) fs))) =
      filter (\<lambda>f. \<exists>n. fund_of_goal (as_database db) n f \<and> P n f) fs" if "set fs \<subseteq> set (bu_fund db)" for fs
    using that
  proof (induction fs)
    case (Cons f fs)
    have f: "f \<in> set (bu_fund db)" using Cons.prems by simp
    obtain j where j: "fund_joins db f = [j]" "jf_row j = f" using joined_once [OF assms f] by blast
    have "fund_of_goal (as_database db) n f \<longleftrightarrow> jf_goal j = n" for n using joined_once [OF assms f, of n] j by auto
    then show ?case using Cons j by auto
  qed simp
  then show ?thesis by (simp add: joined_funds_def)
qed

lemma missing_total:
  "sum_list (map mg_total (missing_groups mtie ilike collate no_filter db)) =
    sum_list (map (\<lambda>j. f_amount (jf_row j)) (filter (\<lambda>j. without_bank db (jf_goal j, f_transactionId (jf_row j))) (joined_funds db)))"
proof -
  have total: "mg_total (missing_group_of collate g) = sum_list (map (\<lambda>j. f_amount (jf_row j)) (snd g))" for g
    by (simp add: missing_group_of_def Let_def comp_def split: prod.split)
  have "sum_list (map mg_total (missing_groups mtie ilike collate no_filter db)) =
      sum_list (map (\<lambda>g. sum_list (map (\<lambda>j. f_amount (jf_row j)) (snd g)))
        (filter (\<lambda>g. without_bank db (fst g)) (group_by (\<lambda>j. (jf_goal j, f_transactionId (jf_row j))) (joined_funds db))))"
    unfolding missing_groups_def
    by (simp only: sum_list_map_mset [OF mset_sort]) (simp add: comp_def total)
  also have "\<dots> = sum_list (map (\<lambda>j. f_amount (jf_row j)) (filter (\<lambda>j. without_bank db (jf_goal j, f_transactionId (jf_row j))) (joined_funds db)))"
    by (rule sum_chosen_groups)
  finally show ?thesis .
qed

lemma without_bank_iff: "without_bank db (n, t) \<longleftrightarrow> (n, t) \<notin> (\<lambda>r. (b_goalNumber r, Some (b_transactionId r))) ` set (bu_rows db)"
  by (auto simp: without_bank_def list_ex_iff)

lemma fund_of_groups:
  assumes "references_hold db"
  shows "sum_list (map (\<lambda>g. sum_list (map f_amount (group_fund_rows db g))) (bank_groups tie collate db (\<lambda>_. True))) =
    sum_list (map (\<lambda>j. f_amount (jf_row j)) (filter (\<lambda>j. \<not> without_bank db (jf_goal j, f_transactionId (jf_row j))) (joined_funds db)))"
proof -
  let ?key = "\<lambda>j. (jf_goal j, f_transactionId (jf_row j))" and ?am = "\<lambda>j. f_amount (jf_row j)"
  let ?G = "bank_groups tie collate db (\<lambda>_. True)"
  let ?ks = "map (\<lambda>g. (bp_goal g, Some (bp_txn g))) ?G"
  have rows: "group_fund_rows db g = map jf_row (filter (\<lambda>j. ?key j = (bp_goal g, Some (bp_txn g))) (joined_funds db))" for g
    using joined_rows [OF assms, of "\<lambda>n f. n = bp_goal g \<and> f_transactionId f = Some (bp_txn g)"] by (simp add: group_fund_rows_def)
  have "map (\<lambda>(n, t). (n, Some t)) (map (\<lambda>g. (bp_goal g, bp_txn g)) ?G) = ?ks" by simp
  moreover have "distinct (map (\<lambda>(n, t). (n, Some t)) (map (\<lambda>g. (bp_goal g, bp_txn g)) ?G))"
    using distinct_group_keys [of tie collate db "\<lambda>_. True"] by (subst distinct_map) (auto simp: inj_on_def)
  ultimately have dist: "distinct ?ks" by metis
  have keys: "set ?ks = (\<lambda>r. (b_goalNumber r, Some (b_transactionId r))) ` set (bu_rows db)"
  proof -
    have "set ?ks = (\<lambda>(n, t). (n, Some t)) ` ((\<lambda>g. (bp_goal g, bp_txn g)) ` set ?G)" by (simp add: image_image)
    then show ?thesis unfolding group_key_set by (simp add: image_image)
  qed
  have "sum_list (map (\<lambda>g. sum_list (map f_amount (group_fund_rows db g))) ?G) =
      sum_list (map (\<lambda>k. sum_list (map ?am (filter (\<lambda>j. ?key j = k) (joined_funds db)))) ?ks)"
    by (simp add: rows comp_def)
  also have "\<dots> = sum_list (map ?am (filter (\<lambda>j. ?key j \<in> set ?ks) (joined_funds db)))" by (rule sum_by_key [OF dist])
  finally show ?thesis by (simp only: keys without_bank_iff not_not)
qed

lemma map_select: "sum_list (map f (filter P xs)) + sum_list (map f (filter (\<lambda>x. \<not> P x) xs)) = sum_list (map f xs)" for f :: "'a \<Rightarrow> rat"
  by (induction xs) simp_all

lemma compared_fund: "fund_total_of (compare_group db g) = sum_list (map f_amount (group_fund_rows db g))"
  by (simp add: fund_total_of_def compare_group_def fund_part_of_def Let_def)

text \<open>C8: without filters nothing is lost and nothing is counted twice: over all groups the bank totals of the comparison add up
  to all bank transactions, and its fund totals together with those of the list of transactions missing in the bank add
  up to all fund transactions.\<close>

theorem comparison_conserves_amounts:
  assumes "references_hold db"
  shows "sum_list (map bp_total (bank_groups tie collate db (\<lambda>r. bank_conditions ilike db no_filter r \<and> status_condition no_filter r))) =
      sum_list (map b_totalAmount (bu_rows db))
    \<and> sum_list (map (\<lambda>g. fund_total_of (compare_group db g))
        (bank_groups tie collate db (\<lambda>r. bank_conditions ilike db no_filter r \<and> status_condition no_filter r)))
      + sum_list (map mg_total (missing_groups mtie ilike collate no_filter db)) = sum_list (map f_amount (bu_fund db))"
proof
  have "sum_list (map bp_total (bank_groups tie collate db (\<lambda>_. True))) =
      sum_list (map (\<lambda>g. sum_list (map b_totalAmount (snd g)))
        (filter (\<lambda>g. (\<lambda>_. True) (fst g)) (group_by (\<lambda>r. (b_goalNumber r, b_transactionId r)) (bu_rows db))))"
    unfolding bank_groups_def by (simp only: sum_list_map_mset [OF mset_sort]) (simp add: comp_def)
  also have "\<dots> = sum_list (map b_totalAmount (bu_rows db))" by (subst sum_chosen_groups) simp
  finally show "sum_list (map bp_total (bank_groups tie collate db (\<lambda>r. bank_conditions ilike db no_filter r \<and> status_condition no_filter r))) =
      sum_list (map b_totalAmount (bu_rows db))" by simp
  have "map jf_row (joined_funds db) = bu_fund db"
  proof -
    have "map jf_row (concat (map (fund_joins db) fs)) = fs" if "set fs \<subseteq> set (bu_fund db)" for fs
      using that
    proof (induction fs)
      case (Cons f fs)
      then obtain j where "fund_joins db f = [j]" "jf_row j = f" using joined_once [OF assms, of f] by auto
      then show ?case using Cons by simp
    qed simp
    then show ?thesis by (simp add: joined_funds_def)
  qed
  then have "sum_list (map (\<lambda>j. f_amount (jf_row j)) (joined_funds db)) = sum_list (map f_amount (bu_fund db))"
    by (metis (no_types, lifting) list.map_comp comp_def map_cong)
  then show "sum_list (map (\<lambda>g. fund_total_of (compare_group db g))
        (bank_groups tie collate db (\<lambda>r. bank_conditions ilike db no_filter r \<and> status_condition no_filter r)))
      + sum_list (map mg_total (missing_groups mtie ilike collate no_filter db)) = sum_list (map f_amount (bu_fund db))"
    using map_select [of "\<lambda>j. f_amount (jf_row j)" "\<lambda>j. without_bank db (jf_goal j, f_transactionId (jf_row j))" "joined_funds db"]
    by (simp add: compared_fund fund_of_groups [OF assms] missing_total add.commute)
qed

section \<open>Examples\<close>

lemma ex_references: "references_hold (ex_recon_store\<lparr>bu_accounts := [\<lparr>ac_id = ''a'', ac_clientId = ''c'', ac_number = ''A''\<rparr>],
    bu_clients := [\<lparr>cl_id = ''c'', cl_name = ''N''\<rparr>]\<rparr>)"
  by code_simp

theorem comparison_conserves_amounts_witness:
  "sum_list (map bp_total (bank_groups (\<lambda>_. 0) (\<lambda>_. 0) (ex_recon_store\<lparr>bu_accounts := [\<lparr>ac_id = ''a'', ac_clientId = ''c'', ac_number = ''A''\<rparr>],
     bu_clients := [\<lparr>cl_id = ''c'', cl_name = ''N''\<rparr>]\<rparr>) (\<lambda>_. True))) = 100100"
proof -
  have "sum_list (map b_totalAmount (bu_rows ex_recon_store)) = 100100" by code_simp
  then show ?thesis using comparison_conserves_amounts [OF ex_references, of "\<lambda>_. 0" "\<lambda>_. 0" "\<lambda>_ _. True"] by simp
qed

text \<open>Two groups of different dates: the requests may rank ties as they like.\<close>

definition ex_two_groups :: bank_store where
  "ex_two_groups = ex_recon_store\<lparr>bu_rows := [ex_stored_bank ''r1'' ''T1'' 80 100 0, ex_stored_bank ''r2'' ''T2'' 81 200 0]\<rparr>"


text \<open>Two groups of the same date: if the database ranks them otherwise for the second page, one group is on both pages and the
  other on none.\<close>

lemma ties_repeat_groups:
  "let db = ex_recon_store\<lparr>bu_rows := [ex_stored_bank ''r1'' ''T1'' 80 100 0, ex_stored_bank ''r2'' ''T2'' 80 200 0]\<rparr>;
       rank = (\<lambda>p g. if (bp_txn g = ''T1'') = (p = 1) then 0 else 1);
       page = (\<lambda>p. cn_data (compare_bank_groups (rank p) (\<lambda>_ _. True) (\<lambda>_. 0) (no_filter\<lparr>cq_limit := Some 1, cq_page := Some p\<rparr>) db))
   in map (\<lambda>p. map (\<lambda>r. bp_txn (cr_bank r)) (page p)) [1, 2 :: nat] = [[''T1''], [''T1'']]"
  by code_simp

text \<open>The number of results and of pages is counted before the status is calculated: a page can be empty although one
  result is reported.\<close>

lemma filtered_page_can_be_empty:
  "let a = compare_bank_groups (\<lambda>_. 0) (\<lambda>_ _. True) (\<lambda>_. 0) (no_filter\<lparr>cq_status := Some ''VARIANCE_DETECTED''\<rparr>)
       (ex_recon_store\<lparr>bu_rows := [ex_stored_bank ''r3'' ''none'' 80 100 0]\<rparr>)
   in cn_data a = [] \<and> cn_total a = 1"
  by code_simp

end
