(* ===== verification/UnitRegistryProperties.thy ===== *)
theory UnitRegistryProperties
  imports UnitRegistry FundPriceProperties ComparisonProperties
begin

text \<open>
  The unit registry against the tables: its summary is the sum of its pages, the registry of today is the registry as of a day
  after the last transaction, the version it replaced gave the same positions, and the goals of an account add up
  to the account.
\<close>

section \<open>Sums of values per fund\<close>

lemma sum_funds_Nil: "sum_funds [] = Per_Fund 0 0 0 0"
  by (simp add: sum_funds_def)

lemma total_value_alt: "total_value fq u = xummf u * xummf (used_prices fq) + xubf u * xubf (used_prices fq) +
    xudef u * xudef (used_prices fq) + xuref u * xuref (used_prices fq)"
  by (cases u; cases "used_prices fq") (simp add: total_value_def values_of_def)

lemma sum_funds_Cons: "xummf (sum_funds (u # us)) = xummf u + xummf (sum_funds us)"
    "xubf (sum_funds (u # us)) = xubf u + xubf (sum_funds us)" "xudef (sum_funds (u # us)) = xudef u + xudef (sum_funds us)"
    "xuref (sum_funds (u # us)) = xuref u + xuref (sum_funds us)"
  by (simp_all add: sum_funds_def)

lemma total_value_Cons: "total_value fq (sum_funds (u # us)) = total_value fq u + total_value fq (sum_funds us)"
  unfolding total_value_alt sum_funds_Cons distrib_right by (simp only: add_ac)

lemma total_value_sum: "total_value fq (sum_funds us) = sum_list (map (total_value fq) us)"
proof (induction us)
  case Nil
  show ?case by (simp add: total_value_alt sum_funds_Nil)
next
  case (Cons u us)
  then show ?case by (simp only: total_value_Cons list.map sum_list.Cons)
qed

lemma sum_funds_mset:
  assumes "mset xs = mset ys"
  shows "sum_funds xs = sum_funds ys"
  unfolding sum_funds_def by (simp only: sum_list_map_mset [OF assms])

lemma fund_units_parts:
  "xummf (fund_units_of ts) = sum_list (map (\<lambda>t. if f_fundCode t = ''XUMMF'' then f_units t else 0) ts)"
  "xubf (fund_units_of ts) = sum_list (map (\<lambda>t. if f_fundCode t = ''XUBF'' then f_units t else 0) ts)"
  "xudef (fund_units_of ts) = sum_list (map (\<lambda>t. if f_fundCode t = ''XUDEF'' then f_units t else 0) ts)"
  "xuref (fund_units_of ts) = sum_list (map (\<lambda>t. if f_fundCode t = ''XUREF'' then f_units t else 0) ts)"
  by (simp_all add: fund_units_of_def each_fund_def)

lemma units_of_concat: "fund_units_of (concat tss) = sum_funds (map fund_units_of tss)"
  by (rule per_fund.expand) (simp only: sum_funds_def fund_units_parts per_fund.sel map_map comp_def sum_list_map_concat simp_thms)

lemma units_of_mset:
  assumes "mset ts = mset us"
  shows "fund_units_of ts = fund_units_of us"
  unfolding fund_units_of_def each_fund_def by (simp only: sum_list_map_mset [OF assms])

section \<open>The pages and the summary\<close>

lemma registry_answer_fields:
  "rg_summary (registry_answer_of db fq q rows) = registry_summary_of fq rows" "rg_total (registry_answer_of db fq q rows) = length rows"
  "rg_prices (registry_answer_of db fq q rows) = fq_prices fq" "rg_asOf (registry_answer_of db fq q rows) = fq_asOf fq"
  by (simp_all add: registry_answer_of_def)

lemma rows_ignore_page:
  "registry_rows like collate type_rank fq (q\<lparr>rq_offset := n\<rparr>) view = registry_rows like collate type_rank fq q view"
  by (simp add: registry_rows_def balance_selected_def balance_funded_def)

lemma mset_registry_rows: "mset (registry_rows like collate type_rank fq q view) =
    mset (filter (\<lambda>b. balance_selected like q b \<and> balance_funded fq q b) view)"
  by (simp add: registry_rows_def order_by_def)

lemma registry_pages:
  assumes "0 < rq_limit q"
  shows "concat (map (\<lambda>p. rg_entries (registry_answer_of db fq (q\<lparr>rq_offset := (p - 1) * rq_limit q\<rparr>) rows))
    [1 ..< Suc (page_count (rq_limit q) (length rows))]) = map (registry_entry_of db fq) rows"
proof -
  have "concat (map (\<lambda>p. rg_entries (registry_answer_of db fq (q\<lparr>rq_offset := (p - 1) * rq_limit q\<rparr>) rows)) ps)
      = map (registry_entry_of db fq) (concat (map (\<lambda>p. page_of p (rq_limit q) rows) ps))" for ps
    by (induction ps) (simp_all add: registry_answer_of_def page_of_def)
  then show ?thesis by (simp only: all_pages [OF assms])
qed

text \<open>The answer of the registry of today when prices are read from a coherent cache.\<close>

lemma coherent_read: "cache_coherent ps \<Longrightarrow> fst (read_quotes ps None) = latest_quotes (st_db ps) None"
  by (simp add: cache_coherent_def read_quotes_def Let_def split: option.splits)

lemma registry_today:
  "cache_coherent (rs_prices st) \<Longrightarrow> fst (get_unit_registry like collate locale_rank type_rank st None q) =
     registry_answer_of (rs_db st) (latest_quotes (st_db (rs_prices st)) None) q
       (registry_rows like collate type_rank (latest_quotes (st_db (rs_prices st)) None) q (rs_view st))"
  by (simp add: get_unit_registry_def coherent_read [symmetric] split: prod.split)

text \<open>The pages of the registry together list every selected account once, and the summary shown on each page
  is that of all of them: as many accounts, their units added up per fund, and a total value that is the sum of the values
  listed.\<close>

theorem registry_summary_adds_up:
  fixes like :: "string \<Rightarrow> string \<Rightarrow> bool" and collate locale_rank type_rank :: "string \<Rightarrow> nat" and q :: registry_query
  assumes "0 < rq_limit q" "cache_coherent (rs_prices st)"
  defines "page n \<equiv> fst (get_unit_registry like collate locale_rank type_rank st None (q\<lparr>rq_offset := (n - 1) * rq_limit q\<rparr>))"
  defines "entries \<equiv> concat (map (\<lambda>n. rg_entries (page n)) [1 ..< Suc (page_count (rq_limit q) (rg_total (page 1)))])"
  shows "mset (map re_balance entries) = mset (filter (\<lambda>b. balance_selected like q b \<and>
      balance_funded (latest_quotes (st_db (rs_prices st)) None) q b) (rs_view st)) \<and>
    ry_totalClients (rg_summary (page n)) = length entries \<and>
    ry_totalUnits (rg_summary (page n)) = sum_funds (map (\<lambda>e. ub_units (re_balance e)) entries) \<and>
    ry_totalValue (rg_summary (page n)) = sum_list (map re_totalValue entries) \<and>
    fund_total (ry_totalValues (rg_summary (page n))) = ry_totalValue (rg_summary (page n))"
proof -
  let ?fq = "latest_quotes (st_db (rs_prices st)) None"
  let ?rows = "registry_rows like collate type_rank ?fq q (rs_view st)"
  have page: "page n = registry_answer_of (rs_db st) ?fq (q\<lparr>rq_offset := (n - 1) * rq_limit q\<rparr>) ?rows" for n
    by (simp add: page_def registry_today [OF assms(2)] rows_ignore_page)
  have entries: "entries = map (registry_entry_of (rs_db st) ?fq) ?rows"
    unfolding entries_def page registry_answer_fields by (rule registry_pages [OF assms(1)])
  show ?thesis
    unfolding entries page registry_answer_fields
    by (simp add: registry_summary_of_def Let_def registry_entry_of_def comp_def total_value_sum mset_registry_rows
        total_value_def [symmetric])
qed

definition registry_ok :: "registry_db \<Rightarrow> bool" where
  "registry_ok db =
     (distinct (map ac_id (rd_accounts db)) \<and> distinct (map cl_id (rd_clients db)) \<and> distinct (map go_id (rd_goals db)) \<and>
      list_all (\<lambda>a. list_ex (\<lambda>c. cl_id c = ac_clientId a) (rd_clients db)) (rd_accounts db) \<and>
      list_all (\<lambda>g. list_ex (\<lambda>a. ac_id a = go_accountId g) (rd_accounts db)) (rd_goals db) \<and>
      list_all (\<lambda>t. list_ex (\<lambda>g. go_id g = f_goalId t \<and> go_accountId g = f_accountId t) (rd_goals db)) (rd_fund db))"

section \<open>An example\<close>

definition ex_reg_txn :: "string \<Rightarrow> rat \<Rightarrow> fund_txn" where
  "ex_reg_txn i units = \<lparr>f_id = i, f_goalTransactionCode = ''c'', f_transactionId = None, f_source = None, f_clientId = ''k'',
     f_accountId = ''a'', f_goalId = ''g'', f_fundCode = ''XUBF'', f_uploadBatchId = ''u'', f_transactionDate = 0,
     f_transactionType = DEPOSIT, f_amount = 1, f_units = units, f_reviewTag = None, f_reviewNotes = None, f_reviewedAt = None,
     f_reviewedBy = None, f_varianceResolved = False, f_resolvedAt = None, f_resolvedReason = None, f_resolvedByBatchId = None,
     f_rowNumber = 0\<rparr>"

definition ex_reg_db :: registry_db where
  "ex_reg_db =
     \<lparr>rd_clients = [\<lparr>cl_id = ''k'', cl_name = ''Doe''\<rparr>],
      rd_accounts = [\<lparr>ac_id = ''a'', ac_clientId = ''k'', ac_number = ''1'', ra_type = ''PERSONAL'', ra_category = ''GENERAL''\<rparr>],
      rd_goals = [\<lparr>go_id = ''g'', go_accountId = ''a'', go_number = ''1a'', rg_title = ''House''\<rparr>],
      rd_fund = [ex_reg_txn ''1'' 4, ex_reg_txn ''2'' (- 1)]\<rparr>"

definition ex_reg_state :: registry_state where
  "ex_reg_state =
     \<lparr>rs_db = ex_reg_db, rs_prices = \<lparr>st_db = fst (upload_prices ex_price_db ex_prices), st_cache = None\<rparr>,
      rs_view = account_unit_balances ex_reg_db\<rparr>"

definition ex_reg_query :: "bool \<Rightarrow> registry_query" where
  "ex_reg_query funded = \<lparr>rq_onlyFunded = funded, rq_threshold = 1, rq_search = None, rq_type = None, rq_category = None,
     rq_limit = 10, rq_offset = 0, rq_sortBy = ''clientName'', rq_sortOrder = ''asc''\<rparr>"

lemma ex_reg_facts:
  "cache_coherent (rs_prices ex_reg_state)" "rs_view ex_reg_state = account_unit_balances (rs_db ex_reg_state)"
  "distinct (map fi_code (pt_funds (st_db (rs_prices ex_reg_state))))"
  "\<forall>r \<in> set (pt_prices (st_db (rs_prices ex_reg_state))). pr_date r \<le> 0"
  by (simp_all add: ex_reg_state_def cache_coherent_def ex_upload)

lemma ex_reg_ok: "registry_ok (rs_db ex_reg_state)"
  by (simp add: registry_ok_def ex_reg_state_def ex_reg_db_def ex_reg_txn_def)

lemma ex_reg_txns: "\<forall>t \<in> set (rd_fund (rs_db ex_reg_state)). iso_day (f_transactionDate t) \<le> 0"
  "\<forall>t \<in> set (rd_fund (rs_db ex_reg_state)). f_fundCode t \<in> set registry_codes"
  by (simp_all add: ex_reg_state_def ex_reg_db_def ex_reg_txn_def iso_day_def registry_codes_def)

lemma ex_reg_view: "length (rs_view ex_reg_state) = 1"
  by (simp add: ex_reg_state_def account_unit_balances_def ex_reg_db_def)

lemma ex_reg_quotes: "latest_quotes (st_db (rs_prices ex_reg_state)) asOf =
    (case asOf of None \<Rightarrow> \<lparr>fq_prices = Per_Fund None (Some (5 / 2)) None None, fq_asOf = Some 0\<rparr>
     | Some d \<Rightarrow> if 0 \<le> d then \<lparr>fq_prices = Per_Fund None (Some (5 / 2)) None None, fq_asOf = Some 0\<rparr> else no_quotes)"
  by (cases asOf) (simp_all add: ex_reg_state_def ex_upload ex_priced_fund_def quotes_evaluation map_set_def map_get_def)

lemma ex_reg_balance: "hd (rs_view ex_reg_state) =
    \<lparr>ub_accountId = ''a'', ub_clientName = ''Doe'', ub_accountNumber = ''1'', ub_type = ''PERSONAL'', ub_category = ''GENERAL'',
     ub_lastDate = Some 0, ub_units = Per_Fund 0 3 0 0, ub_totalUnits = 3\<rparr>"
  by (simp add: ex_reg_state_def account_unit_balances_def ex_reg_db_def ex_reg_txn_def balance_of_def last_date_def iso_day_def
      fund_units_of_def each_fund_def)

theorem registry_summary_adds_up_witness:
  "fund_total (ry_totalValues (rg_summary (fst (get_unit_registry (\<lambda>_ _. True) length length length ex_reg_state None
       (ex_reg_query True))))) =
   ry_totalValue (rg_summary (fst (get_unit_registry (\<lambda>_ _. True) length length length ex_reg_state None (ex_reg_query True))))"
proof -
  have "ex_reg_query True = (ex_reg_query True)\<lparr>rq_offset := (1 - 1) * rq_limit (ex_reg_query True)\<rparr>"
    by (simp add: ex_reg_query_def)
  moreover have "0 < rq_limit (ex_reg_query True)" by (simp add: ex_reg_query_def)
  ultimately show ?thesis
    using registry_summary_adds_up [of "ex_reg_query True" ex_reg_state "\<lambda>_ _. True" length length length 1] ex_reg_facts(1)
    by metis
qed

section \<open>The registry of a past day\<close>

lemma filter_by_id: "distinct (map idf xs) \<Longrightarrow> x \<in> set xs \<Longrightarrow> idf x = i \<Longrightarrow> filter (\<lambda>y. idf y = i) xs = [x]"
proof (induction xs)
  case (Cons y ys)
  show ?case
  proof (cases "x = y")
    case True
    with Cons have "filter (\<lambda>z. idf z = i) ys = []" by (auto simp: filter_empty_conv) (metis imageI)
    with True Cons show ?thesis by simp
  next
    case False
    with Cons have "idf y \<noteq> i" by (auto simp: image_iff) 
    with False Cons show ?thesis by simp
  qed
qed simp

lemma accounts_with_client_alt:
  assumes "registry_ok db"
  obtains client where "accounts_with_client db = map (\<lambda>a. (a, client a)) (rd_accounts db)"
    "\<And>a. a \<in> set (rd_accounts db) \<Longrightarrow> filter (\<lambda>c. cl_id c = ac_clientId a) (rd_clients db) = [client a]"
proof -
  have "\<exists>c. filter (\<lambda>c. cl_id c = ac_clientId a) (rd_clients db) = [c]" if "a \<in> set (rd_accounts db)" for a
  proof -
    obtain c where "c \<in> set (rd_clients db)" "cl_id c = ac_clientId a"
      using assms \<open>a \<in> _\<close> by (auto simp: registry_ok_def list_all_iff list_ex_iff)
    then show ?thesis using assms filter_by_id [of cl_id "rd_clients db" c] by (auto simp: registry_ok_def)
  qed
  then obtain client where client: "filter (\<lambda>c. cl_id c = ac_clientId a) (rd_clients db) = [client a]" if "a \<in> set (rd_accounts db)" for a
    by metis
  have "accounts_with_client db = concat (map (\<lambda>a. [(a, client a)]) (rd_accounts db))"
    unfolding accounts_with_client_def by (intro arg_cong [of _ _ concat] map_cong refl) (simp add: client)
  also have "\<dots> = map (\<lambda>a. (a, client a)) (rd_accounts db)" by (induction "rd_accounts db") simp_all
  finally show thesis using that client by blast
qed

lemma account_keys_distinct:
  assumes ok: "registry_ok db"
  shows "distinct (map (\<lambda>k. ac_id (fst k)) (accounts_with_client db))"
proof -
  obtain client where "accounts_with_client db = map (\<lambda>a. (a, client a)) (rd_accounts db)"
    by (rule accounts_with_client_alt [OF ok])
  with ok show ?thesis by (simp add: comp_def registry_ok_def)
qed

lemma account_key_inject:
  assumes "registry_ok db" "k \<in> set (accounts_with_client db)" "l \<in> set (accounts_with_client db)" "ac_id (fst k) = ac_id (fst l)"
  shows "k = l"
  using account_keys_distinct [OF assms(1)] assms(2-4) unfolding distinct_map by (meson inj_onD)

lemma joined_account:
  assumes ok: "registry_ok db" and t: "t \<in> set (rd_fund db)"
  obtains k where "k \<in> set (accounts_with_client db)" "joined_accounts db t = [k]" "ac_id (fst k) = f_accountId t"
proof -
  obtain client where awc: "accounts_with_client db = map (\<lambda>a. (a, client a)) (rd_accounts db)"
    and client: "\<And>a. a \<in> set (rd_accounts db) \<Longrightarrow> filter (\<lambda>c. cl_id c = ac_clientId a) (rd_clients db) = [client a]"
    using accounts_with_client_alt [OF ok] by blast
  obtain g where g: "g \<in> set (rd_goals db)" "go_id g = f_goalId t" "go_accountId g = f_accountId t"
    using ok t by (auto simp: registry_ok_def list_all_iff list_ex_iff)
  obtain a where a: "a \<in> set (rd_accounts db)" "ac_id a = go_accountId g"
    using ok g(1) by (auto simp: registry_ok_def list_all_iff list_ex_iff)
  have "filter (\<lambda>g. go_id g = f_goalId t) (rd_goals db) = [g]"
    using ok g by (intro filter_by_id) (auto simp: registry_ok_def)
  moreover have "filter (\<lambda>a. ac_id a = go_accountId g) (rd_accounts db) = [a]"
    using ok a by (intro filter_by_id) (auto simp: registry_ok_def)
  ultimately have "joined_accounts db t = [(a, client a)]"
    by (simp add: joined_accounts_def client [OF a(1)])
  moreover have "(a, client a) \<in> set (accounts_with_client db)" using a(1) by (simp add: awc)
  ultimately show thesis using that a(2) g(3) by simp
qed

definition joined_rows :: "registry_db \<Rightarrow> fund_txn list \<Rightarrow> ((registry_account \<times> client_row) \<times> fund_txn) list" where
  "joined_rows db ts = concat (map (\<lambda>t. map (\<lambda>ac. (ac, t)) (joined_accounts db t)) ts)"

definition rows_of_account :: "fund_txn list \<Rightarrow> registry_account \<times> client_row \<Rightarrow> fund_txn list" where
  "rows_of_account ts k = filter (\<lambda>t. f_accountId t = ac_id (fst k)) ts"

lemma joined_rows_of:
  assumes ok: "registry_ok db" and k: "k \<in> set (accounts_with_client db)"
  shows "set ts \<subseteq> set (rd_fund db) \<Longrightarrow> map snd (filter (\<lambda>x. fst x = k) (joined_rows db ts)) = rows_of_account ts k"
proof (induction ts)
  case (Cons t ts)
  obtain l where l: "l \<in> set (accounts_with_client db)" "joined_accounts db t = [l]" "ac_id (fst l) = f_accountId t"
    using joined_account [OF ok, of t] Cons.prems by auto
  have "l = k \<longleftrightarrow> f_accountId t = ac_id (fst k)" using account_key_inject [OF ok l(1) k] l(3) by auto
  with Cons l(2) show ?case by (auto simp: joined_rows_def rows_of_account_def)
qed (simp add: joined_rows_def rows_of_account_def)

lemma joined_keys:
  assumes ok: "registry_ok db" and ts: "set ts \<subseteq> set (rd_fund db)"
  shows "mset (map fst (group_by fst (joined_rows db ts))) =
    mset (filter (\<lambda>k. rows_of_account ts k \<noteq> []) (accounts_with_client db))"
proof -
  have "k \<in> fst ` set (joined_rows db ts) \<longleftrightarrow> k \<in> set (accounts_with_client db) \<and> rows_of_account ts k \<noteq> []" for k
  proof
    assume "k \<in> fst ` set (joined_rows db ts)"
    then obtain t where t: "t \<in> set ts" "k \<in> set (joined_accounts db t)" by (auto simp: joined_rows_def)
    obtain l where "l \<in> set (accounts_with_client db)" "joined_accounts db t = [l]" "ac_id (fst l) = f_accountId t"
      using joined_account [OF ok, of t] t(1) ts by auto
    with t show "k \<in> set (accounts_with_client db) \<and> rows_of_account ts k \<noteq> []"
      by (auto simp: rows_of_account_def filter_empty_conv)
  next
    assume r: "k \<in> set (accounts_with_client db) \<and> rows_of_account ts k \<noteq> []"
    with joined_rows_of [OF ok _ ts, of k] have "filter (\<lambda>x. fst x = k) (joined_rows db ts) \<noteq> []" by (metis list.map_disc_iff)
    then show "k \<in> fst ` set (joined_rows db ts)" by (force simp: filter_empty_conv)
  qed
  moreover have "distinct (accounts_with_client db)" using account_keys_distinct [OF ok] by (simp add: distinct_map)
  ultimately show ?thesis by (intro set_eq_iff_mset_eq_distinct [THEN iffD1]) auto
qed

definition balance_of_key :: "fund_txn list \<Rightarrow> registry_account \<times> client_row \<Rightarrow> unit_balance" where
  "balance_of_key ts k = balance_of (fst k) (snd k) (rows_of_account ts k)"

lemma view_alt: "account_unit_balances db = map (balance_of_key (rd_fund db)) (accounts_with_client db)"
  by (simp add: account_unit_balances_def accounts_with_client_def balance_of_key_def rows_of_account_def map_concat comp_def)

lemma balances_as_of_perm:
  fixes day :: int
  assumes ok: "registry_ok db"
  defines "ts \<equiv> filter (\<lambda>t. iso_day (f_transactionDate t) \<le> day) (rd_fund db)"
  shows "mset (balances_as_of db day) =
    mset (map (balance_of_key ts) (filter (\<lambda>k. rows_of_account ts k \<noteq> []) (accounts_with_client db)))"
proof -
  have sub: "set ts \<subseteq> set (rd_fund db)" by (auto simp: ts_def)
  let ?G = "group_by fst (joined_rows db ts)"
  have keys: "set (map fst ?G) \<subseteq> set (accounts_with_client db)"
  proof -
    have "set_mset (mset (map fst ?G)) \<subseteq> set (accounts_with_client db)" unfolding joined_keys [OF ok sub] by auto
    then show ?thesis by simp
  qed
  have "balances_as_of db day = map (\<lambda>((a, c), js). balance_of a c (map snd js)) ?G"
    by (simp add: balances_as_of_def joined_rows_def ts_def)
  also have "\<dots> = map (\<lambda>k. balance_of (fst k) (snd k) (map snd (filter (\<lambda>x. fst x = k) (joined_rows db ts)))) (map fst ?G)"
    by (subst group_by_as_map) (simp add: case_prod_beta' comp_def)
  also have "\<dots> = map (balance_of_key ts) (map fst ?G)"
  proof (rule map_cong [OF refl])
    fix k assume "k \<in> set (map fst ?G)"
    with keys show "balance_of (fst k) (snd k) (map snd (filter (\<lambda>x. fst x = k) (joined_rows db ts))) = balance_of_key ts k"
      using joined_rows_of [OF ok _ sub, of k] by (auto simp: balance_of_key_def)
  qed
  finally show ?thesis unfolding mset_map [of "balance_of_key ts"] joined_keys [OF ok sub, symmetric] by (simp del: map_map)
qed

lemma no_rows_no_value: "total_value fq (fund_units_of []) = 0"
  by (simp add: total_value_alt fund_units_parts)

lemma unfunded_without_rows:
  assumes "rq_onlyFunded q" "0 < rq_threshold q" "balance_funded fq q (balance_of_key ts k)"
  shows "rows_of_account ts k \<noteq> []"
  using assms by (auto simp: balance_funded_def balance_of_key_def balance_of_def no_rows_no_value)

lemma filter_map_restricted:
  "(\<And>x. x \<in> set xs \<Longrightarrow> P (f x) \<Longrightarrow> Q x) \<Longrightarrow> filter P (map f (filter Q xs)) = filter P (map f xs)"
  by (induction xs) auto

lemma mset_sort_as_of [simp]: "mset (sort_as_of locale_rank fq q rows) = mset rows"
  by (simp add: sort_as_of_def Let_def)

lemma registry_summary_mset:
  assumes "mset rows = mset rows'"
  shows "registry_summary_of fq rows = registry_summary_of fq rows'"
proof -
  have "mset (map ub_units rows) = mset (map ub_units rows')" by (simp add: assms)
  then have "sum_funds (map ub_units rows) = sum_funds (map ub_units rows')" by (rule sum_funds_mset)
  moreover have "length rows = length rows'" using assms by (metis size_mset)
  ultimately show ?thesis by (simp add: registry_summary_of_def)
qed

lemma same_rows_same_answer:
  assumes "mset rows = mset rows'" "rq_offset q = 0" "length rows \<le> rq_limit q"
  shows "mset (rg_entries (registry_answer_of db fq q rows)) = mset (rg_entries (registry_answer_of db fq q rows'))"
    "registry_summary_of fq rows = registry_summary_of fq rows'" "length rows = length rows'"
proof -
  show len: "length rows = length rows'" using assms(1) by (metis size_mset)
  show "mset (rg_entries (registry_answer_of db fq q rows)) = mset (rg_entries (registry_answer_of db fq q rows'))"
    using assms len by (simp add: registry_answer_of_def)
  show "registry_summary_of fq rows = registry_summary_of fq rows'" by (rule registry_summary_mset [OF assms(1)])
qed

lemma quotes_after_last_price:
  assumes "distinct (map fi_code (pt_funds db))" "\<forall>r \<in> set (pt_prices db). pr_date r \<le> day"
  shows "latest_quotes db (Some day) = latest_quotes db None"
proof -
  have "quoted_price db (Some day) = quoted_price db None"
  proof
    fix c
    have "filter (before_date (Some day)) (prices_of_fund db f) = filter (before_date None) (prices_of_fund db f)" for f
      using assms(2) by (intro filter_cong) (auto simp: before_date_def prices_of_fund_def)
    then show "quoted_price db (Some day) c = quoted_price db None c" by (simp add: quoted_price_def split: option.split)
  qed
  then show ?thesis
    using latest_quotes_newest [OF assms(1), of "Some day"] latest_quotes_newest [OF assms(1), of None]
    by (intro fund_quotes.equality) simp_all
qed

text \<open>C33: the registry of today, read from a fresh view with cached prices, and the registry as of a day not before the last
  transaction and the last price, computed from the transactions, list the same accounts with the same dates, units
  and values, and the same summary, provided only accounts above a positive threshold are asked for. (The former joins
  a transaction to its account, the latter to the account of its goal.)\<close>

theorem registry_as_of_agrees:
  assumes "registry_ok (rs_db st)" "rs_view st = account_unit_balances (rs_db st)"
    and "cache_coherent (rs_prices st)" "distinct (map fi_code (pt_funds (st_db (rs_prices st))))"
    and "\<forall>t \<in> set (rd_fund (rs_db st)). iso_day (f_transactionDate t) \<le> day"
    and "\<forall>r \<in> set (pt_prices (st_db (rs_prices st))). pr_date r \<le> day"
    and "rq_onlyFunded q" "0 < rq_threshold q" "rq_offset q = 0"
    and "rg_total (fst (get_unit_registry like collate locale_rank type_rank st None q)) \<le> rq_limit q"
  shows "mset (rg_entries (fst (get_unit_registry like collate locale_rank type_rank st (Some day) q))) =
      mset (rg_entries (fst (get_unit_registry like collate locale_rank type_rank st None q))) \<and>
    rg_summary (fst (get_unit_registry like collate locale_rank type_rank st (Some day) q)) =
      rg_summary (fst (get_unit_registry like collate locale_rank type_rank st None q)) \<and>
    rg_total (fst (get_unit_registry like collate locale_rank type_rank st (Some day) q)) =
      rg_total (fst (get_unit_registry like collate locale_rank type_rank st None q)) \<and>
    rg_prices (fst (get_unit_registry like collate locale_rank type_rank st (Some day) q)) =
      rg_prices (fst (get_unit_registry like collate locale_rank type_rank st None q)) \<and>
    rg_asOf (fst (get_unit_registry like collate locale_rank type_rank st (Some day) q)) =
      rg_asOf (fst (get_unit_registry like collate locale_rank type_rank st None q))"
proof -
  let ?db = "rs_db st"
  let ?fq = "latest_quotes (st_db (rs_prices st)) None"
  let ?awc = "accounts_with_client ?db"
  let ?P = "\<lambda>b. balance_selected like q b \<and> balance_funded ?fq q b"
  let ?rows = "registry_rows like collate type_rank ?fq q (rs_view st)"
  define past where "past = sort_as_of locale_rank ?fq q (filter (balance_funded ?fq q) (filter (balance_selected like q) (balances_as_of ?db day)))"
  have quotes: "fst (read_quotes (rs_prices st) (Some day)) = ?fq"
    using quotes_after_last_price [OF assms(4,6)] by (simp add: read_quotes_def)
  have ts: "filter (\<lambda>t. iso_day (f_transactionDate t) \<le> day) (rd_fund ?db) = rd_fund ?db"
    using assms(5) by (simp add: filter_id_conv)
  have "mset past = filter_mset ?P (mset (balances_as_of ?db day))"
    by (simp add: past_def filter_filter_mset conj_commute)
  also have "\<dots> = mset (filter ?P (map (balance_of_key (rd_fund ?db)) (filter (\<lambda>k. rows_of_account (rd_fund ?db) k \<noteq> []) ?awc)))"
    unfolding balances_as_of_perm [OF assms(1), of day, unfolded ts] by (simp only: mset_filter)
  also have "\<dots> = mset (filter ?P (map (balance_of_key (rd_fund ?db)) ?awc))"
    by (subst filter_map_restricted) (use unfunded_without_rows [OF assms(7,8)] in auto)
  also have "\<dots> = mset ?rows"
    unfolding mset_registry_rows assms(2) view_alt ..
  finally have perm: "mset ?rows = mset past" ..
  have now_eq: "fst (get_unit_registry like collate locale_rank type_rank st None q) = registry_answer_of ?db ?fq q ?rows"
    by (rule registry_today [OF assms(3)])
  have past_eq: "fst (get_unit_registry like collate locale_rank type_rank st (Some day) q) = registry_answer_of ?db ?fq q past"
    by (simp add: get_unit_registry_def registry_as_of_def quotes Let_def past_def)
  have "length ?rows \<le> rq_limit q" using assms(10) by (simp add: now_eq registry_answer_fields)
  then show ?thesis
    unfolding now_eq past_eq registry_answer_fields
    using same_rows_same_answer [OF perm assms(9)] by simp
qed

theorem registry_as_of_agrees_witness:
  "rg_summary (fst (get_unit_registry (\<lambda>_ _. True) length length length ex_reg_state (Some 0) (ex_reg_query True))) =
   rg_summary (fst (get_unit_registry (\<lambda>_ _. True) length length length ex_reg_state None (ex_reg_query True)))"
proof -
  have "rg_total (fst (get_unit_registry (\<lambda>_ _. True) length length length ex_reg_state None (ex_reg_query True))) \<le> length (rs_view ex_reg_state)"
    by (simp add: registry_today [OF ex_reg_facts(1)] registry_answer_fields registry_rows_def order_by_def)
  then show ?thesis
    using registry_as_of_agrees [OF ex_reg_ok ex_reg_facts(2) ex_reg_facts(1) ex_reg_facts(3) ex_reg_txns(1) ex_reg_facts(4),
      of "ex_reg_query True" "\<lambda>_ _. True" length length length]
    by (simp add: ex_reg_view ex_reg_query_def)
qed

section \<open>The version without the view\<close>

lemma add_fund_parts:
  "xummf (add_fund u c v) = xummf u + (if c = ''XUMMF'' then v else 0)" "xubf (add_fund u c v) = xubf u + (if c = ''XUBF'' then v else 0)"
  "xudef (add_fund u c v) = xudef u + (if c = ''XUDEF'' then v else 0)" "xuref (add_fund u c v) = xuref u + (if c = ''XUREF'' then v else 0)"
  by (cases u; simp)+

lemma slow_add_parts:
  "xummf (fst (slow_add acc t)) = xummf (fst acc) + (if f_fundCode t = ''XUMMF'' then f_units t else 0)"
  "xubf (fst (slow_add acc t)) = xubf (fst acc) + (if f_fundCode t = ''XUBF'' then f_units t else 0)"
  "xudef (fst (slow_add acc t)) = xudef (fst acc) + (if f_fundCode t = ''XUDEF'' then f_units t else 0)"
  "xuref (fst (slow_add acc t)) = xuref (fst acc) + (if f_fundCode t = ''XUREF'' then f_units t else 0)"
  by (cases acc; simp add: slow_add_def add_fund_parts registry_codes_def)+

lemma slow_units_parts:
  "xummf (fst (foldl slow_add acc ts)) = xummf (fst acc) + xummf (fund_units_of ts)"
  "xubf (fst (foldl slow_add acc ts)) = xubf (fst acc) + xubf (fund_units_of ts)"
  "xudef (fst (foldl slow_add acc ts)) = xudef (fst acc) + xudef (fund_units_of ts)"
  "xuref (fst (foldl slow_add acc ts)) = xuref (fst acc) + xuref (fund_units_of ts)"
  unfolding fund_units_parts
  by (induction ts arbitrary: acc) (simp_all add: slow_add_parts)

lemma slow_units: "fst (foldl slow_add (Per_Fund 0 0 0 0, None) ts) = fund_units_of ts"
  by (rule per_fund.expand) (simp add: slow_units_parts)

lemma slow_last_date:
  assumes "\<forall>t \<in> set ts. f_fundCode t \<in> set registry_codes"
  shows "snd (foldl slow_add (Per_Fund 0 0 0 0, None) ts) = last_date ts"
proof -
  have "snd (foldl slow_add acc ts) = foldl later_date (snd acc) (map (\<lambda>t. iso_day (f_transactionDate t)) ts)" for acc
    using assms by (induction ts arbitrary: acc) (simp_all add: slow_add_def split: prod.split)
  then show ?thesis by (simp add: later_dates_none last_date_def)
qed

lemma slow_quotes:
  assumes "distinct (map fi_code (pt_funds db))"
  shows "slow_latest_prices db = latest_quotes db None"
proof -
  let ?rows = "map (\<lambda>c. (c, quoted_price db None c)) registry_codes"
  have all: "filter (before_date None) rs = rs" for rs by (simp add: before_date_def)
  have "slow_latest_prices db = foldl add_quote no_quotes ?rows"
    unfolding slow_latest_prices_def foldl_map
    by (rule foldl_cong) (simp_all add: add_quote_def quoted_price_def all split: option.split)
  moreover have "fq_prices (foldl add_quote no_quotes ?rows) = each_fund (\<lambda>c. map_option pr_mid (quoted_price db None c))"
  proof (rule per_fund_eqI)
    fix c assume c: "c \<in> set registry_codes"
    then have "fund_value (fq_prices no_quotes) c = Some None" by (auto simp: no_quotes_def registry_codes_def)
    moreover have "map_of ?rows c = Some (quoted_price db None c)" using c by (simp add: map_of_map_restrict)
    moreover have "distinct (map fst ?rows)" by (simp add: registry_codes_def)
    ultimately show "fund_value (fq_prices (foldl add_quote no_quotes ?rows)) c = Some (map_option pr_mid (quoted_price db None c))"
      using add_quotes_value [of ?rows c no_quotes] c by (simp split: option.split)
  qed
  moreover have "fq_asOf (foldl add_quote no_quotes ?rows) =
      foldl later_date None (map pr_date (List.map_filter (quoted_price db None) registry_codes))"
  proof -
    have "List.map_filter snd (map (\<lambda>c. (c, f c)) cs) = List.map_filter f cs" for f :: "string \<Rightarrow> price_row option" and cs
      by (induction cs) (simp_all split: option.split)
    then show ?thesis by (simp add: add_quotes_date no_quotes_def)
  qed
  ultimately show ?thesis
    using latest_quotes_newest [OF assms, of None]
    by (intro fund_quotes.equality) (simp_all add: later_dates_none Let_def)
qed

definition as_slow :: "registry_entry \<Rightarrow> slow_entry" where
  "as_slow e = (let b = re_balance e in
     \<lparr>se_clientName = ub_clientName b, se_accountNumber = ub_accountNumber b, se_type = ub_type b, se_lastDate = ub_lastDate b,
      se_units = ub_units b, se_values = re_values e, se_totalValue = re_totalValue e\<rparr>)"

lemma slow_entry_alt:
  assumes "\<forall>t \<in> set (rd_fund db). f_fundCode t \<in> set registry_codes"
  shows "slow_entry_of db fq k = as_slow (registry_entry_of db fq (balance_of_key (rd_fund db) k))"
proof -
  obtain a c where k: "k = (a, c)" by (cases k)
  let ?ts = "rows_of_account (rd_fund db) k"
  have "\<forall>t \<in> set ?ts. f_fundCode t \<in> set registry_codes" using assms by (simp add: rows_of_account_def)
  then have "foldl slow_add (Per_Fund 0 0 0 0, None) ?ts = (fund_units_of ?ts, last_date ?ts)"
    using slow_units slow_last_date by (simp add: prod_eq_iff)
  then show ?thesis
    by (simp add: slow_entry_of_def as_slow_def registry_entry_of_def balance_of_key_def balance_of_def rows_of_account_def k)
qed

text \<open>C34: the slow version of the registry and the one that replaced it agree: asked for all accounts, both report the same
  positions with the same prices and totals, if the view is fresh, the cache coherent, and there are only the four
  funds.\<close>

theorem slow_registry_agrees:
  assumes "rs_view st = account_unit_balances (rs_db st)" "cache_coherent (rs_prices st)"
    and "distinct (map fi_code (pt_funds (st_db (rs_prices st))))"
    and "\<forall>t \<in> set (rd_fund (rs_db st)). f_fundCode t \<in> set registry_codes"
    and "\<not> rq_onlyFunded q" "rq_search q = None" "rq_type q = None" "rq_category q = None" "rq_offset q = 0"
    and "length (rs_view st) \<le> rq_limit q"
  shows "mset (map as_slow (rg_entries (fst (get_unit_registry like collate locale_rank type_rank st None q)))) =
      mset (sa_entries (slow_unit_registry contains collate st True None)) \<and>
    sa_totalClients (slow_unit_registry contains collate st True None) =
      ry_totalClients (rg_summary (fst (get_unit_registry like collate locale_rank type_rank st None q))) \<and>
    sa_totalUnits (slow_unit_registry contains collate st True None) =
      ry_totalUnits (rg_summary (fst (get_unit_registry like collate locale_rank type_rank st None q))) \<and>
    sa_totalValue (slow_unit_registry contains collate st True None) =
      ry_totalValue (rg_summary (fst (get_unit_registry like collate locale_rank type_rank st None q))) \<and>
    sa_prices (slow_unit_registry contains collate st True None) =
      rg_prices (fst (get_unit_registry like collate locale_rank type_rank st None q)) \<and>
    sa_asOf (slow_unit_registry contains collate st True None) =
      rg_asOf (fst (get_unit_registry like collate locale_rank type_rank st None q))"
proof -
  let ?db = "rs_db st"
  let ?fq = "latest_quotes (st_db (rs_prices st)) None"
  let ?rows = "registry_rows like collate type_rank ?fq q (rs_view st)"
  let ?slow = "slow_unit_registry contains collate st True None"
  define ks where "ks = sort_key (\<lambda>(a, c). collate (cl_name c)) (sort_key (\<lambda>(a, c). collate (ac_number a)) (accounts_with_client ?db))"
  have "mset ?rows = mset (rs_view st)"
    using assms(5-8) by (simp add: mset_registry_rows balance_selected_def balance_funded_def search_matches_def equals_given_def)
  also have "\<dots> = mset (map (balance_of_key (rd_fund ?db)) ks)"
    by (simp add: assms(1) view_alt ks_def)
  finally have rows: "mset ?rows = mset (map (balance_of_key (rd_fund ?db)) ks)" .
  have len: "length ?rows \<le> rq_limit q"
    using assms(10) rows by (metis size_mset assms(1) view_alt ks_def length_map length_sort)
  have entries: "sa_entries ?slow = map (slow_entry_of ?db ?fq) ks"
    by (simp add: slow_unit_registry_def slow_quotes [OF assms(3)] ks_def case_prod_beta' Let_def)
  have slow: "slow_entry_of ?db ?fq = as_slow \<circ> registry_entry_of ?db ?fq \<circ> balance_of_key (rd_fund ?db)"
    using slow_entry_alt [OF assms(4)] by (simp add: fun_eq_iff)
  have now_eq: "fst (get_unit_registry like collate locale_rank type_rank st None q) = registry_answer_of ?db ?fq q ?rows"
    by (rule registry_today [OF assms(2)])
  have now_entries: "rg_entries (registry_answer_of ?db ?fq q ?rows) = map (registry_entry_of ?db ?fq) ?rows"
    using len assms(9) by (simp add: registry_answer_of_def)
  have sum: "registry_summary_of ?fq ?rows = registry_summary_of ?fq (map (balance_of_key (rd_fund ?db)) ks)"
    by (rule registry_summary_mset [OF rows])
  have units: "map se_units (sa_entries ?slow) = map ub_units (map (balance_of_key (rd_fund ?db)) ks)"
    "map se_totalValue (sa_entries ?slow) = map (total_value ?fq) (map ub_units (map (balance_of_key (rd_fund ?db)) ks))"
    unfolding entries slow by (simp_all add: as_slow_def registry_entry_of_def Let_def)
  have fields: "sa_totalClients ?slow = length (sa_entries ?slow)" "sa_totalUnits ?slow = sum_funds (map se_units (sa_entries ?slow))"
    "sa_totalValue ?slow = sum_list (map se_totalValue (sa_entries ?slow))" "sa_prices ?slow = fq_prices ?fq" "sa_asOf ?slow = fq_asOf ?fq"
    by (simp_all add: slow_unit_registry_def slow_quotes [OF assms(3)] Let_def)
  have "mset (map as_slow (map (registry_entry_of ?db ?fq) ?rows)) = mset (sa_entries ?slow)"
    unfolding entries slow mset_map [of "as_slow"] mset_map [of "registry_entry_of ?db ?fq"] rows by (simp add: image_mset.compositionality comp_assoc)
  then show ?thesis
    unfolding now_eq registry_answer_fields now_entries sum fields units
    by (simp add: registry_summary_of_def Let_def total_value_sum entries)
qed

theorem slow_registry_agrees_witness:
  "sa_totalValue (slow_unit_registry (\<lambda>_ _. True) length ex_reg_state True None) =
   ry_totalValue (rg_summary (fst (get_unit_registry (\<lambda>_ _. True) length length length ex_reg_state None (ex_reg_query False))))"
  using slow_registry_agrees [OF ex_reg_facts(2) ex_reg_facts(1) ex_reg_facts(3) ex_reg_txns(2), of "ex_reg_query False"
    "\<lambda>_ _. True" length length length "\<lambda>_ _. True"]
  by (simp add: ex_reg_view ex_reg_query_def)

section \<open>The goals of an account\<close>

definition balances_at :: "registry_db \<Rightarrow> int option \<Rightarrow> unit_balance list" where
  "balances_at db asOf = (case asOf of None \<Rightarrow> account_unit_balances db | Some d \<Rightarrow> balances_as_of db d)"

lemma balance_units:
  assumes ok: "registry_ok db" and b: "b \<in> set (balances_at db asOf)"
  shows "ub_units b = fund_units_of (filter (\<lambda>t. f_accountId t = ub_accountId b) (filter (in_period asOf) (rd_fund db)))"
proof -
  have "\<exists>k. b = balance_of_key (filter (in_period asOf) (rd_fund db)) k"
  proof (cases asOf)
    case None
    then show ?thesis using b by (auto simp: balances_at_def view_alt in_period_def [abs_def])
  next
    case (Some d)
    have "b \<in> set_mset (mset (balances_as_of db d))" using b Some by (simp add: balances_at_def)
    then show ?thesis unfolding balances_as_of_perm [OF ok] using Some by (auto simp: in_period_def [abs_def])
  qed
  then show ?thesis by (auto simp: balance_of_key_def balance_of_def rows_of_account_def)
qed

lemma goal_rows_txns:
  assumes ok: "registry_ok db"
  shows "map snd (goal_rows db accountId asOf) = filter (\<lambda>t. f_accountId t = accountId) (filter (in_period asOf) (rd_fund db))"
proof -
  have one: "map snd (map (\<lambda>g. (g, t)) (filter (\<lambda>g. go_id g = f_goalId t \<and> go_accountId g = accountId) (rd_goals db))) =
      (if f_accountId t = accountId then [t] else [])" if t: "t \<in> set (rd_fund db)" for t
  proof -
    obtain g where g: "g \<in> set (rd_goals db)" "go_id g = f_goalId t" "go_accountId g = f_accountId t"
      using ok t by (auto simp: registry_ok_def list_all_iff list_ex_iff)
    have "filter (\<lambda>g. go_id g = f_goalId t) (rd_goals db) = [g]"
      using ok g by (intro filter_by_id) (auto simp: registry_ok_def)
    moreover have "filter (\<lambda>g. go_id g = f_goalId t \<and> go_accountId g = accountId) (rd_goals db) =
        filter (\<lambda>g. go_accountId g = accountId) (filter (\<lambda>g. go_id g = f_goalId t) (rd_goals db))"
      by (simp add: conj_commute)
    ultimately show ?thesis using g(3) by simp
  qed
  have "map snd (concat (map (\<lambda>t. map (\<lambda>g. (g, t)) (filter (\<lambda>g. go_id g = f_goalId t \<and> go_accountId g = accountId) (rd_goals db))) ts)) =
      filter (\<lambda>t. f_accountId t = accountId) ts" if "set ts \<subseteq> set (rd_fund db)" for ts
    using that one by (induction ts) auto
  then show ?thesis by (simp add: goal_rows_def)
qed

text \<open>The goals listed for an account add up to its row in the registry, per fund and in value, today and for any past day;
  every goal is listed once.\<close>

theorem goals_add_up_to_account:
  assumes "registry_ok (rs_db st)" "cache_coherent (rs_prices st)" "b \<in> set (balances_at (rs_db st) asOf)"
  shows "sum_funds (map gb_units (fst (get_account_goal_breakdown collate st (ub_accountId b) asOf))) = ub_units b \<and>
    sum_list (map gb_totalValue (fst (get_account_goal_breakdown collate st (ub_accountId b) asOf))) =
      total_value (latest_quotes (st_db (rs_prices st)) asOf) (ub_units b) \<and>
    distinct (map gb_goalId (fst (get_account_goal_breakdown collate st (ub_accountId b) asOf)))"
proof -
  let ?fq = "latest_quotes (st_db (rs_prices st)) asOf"
  let ?G = "group_by fst (goal_rows (rs_db st) (ub_accountId b) asOf)"
  define goals where "goals = map (\<lambda>(g, js). goal_balance_of ?fq (g, map snd js)) ?G"
  have quotes: "fst (read_quotes (rs_prices st) asOf) = ?fq"
    using coherent_read [OF assms(2)] by (cases asOf) (simp_all add: read_quotes_def)
  have result: "fst (get_account_goal_breakdown collate st (ub_accountId b) asOf) = sort_key (\<lambda>g. collate (gb_goalNumber g)) goals"
    using quotes by (cases "read_quotes (rs_prices st) asOf") (simp add: get_account_goal_breakdown_def goals_def)
  have fields: "map gb_units goals = map (\<lambda>e. fund_units_of (map snd (snd e))) ?G"
    "map gb_totalValue goals = map (total_value ?fq) (map gb_units goals)" "map gb_goalId goals = map (\<lambda>e. go_id (fst e)) ?G"
    by (simp_all add: goals_def goal_balance_of_def case_prod_beta' comp_def)
  have "sum_funds (map gb_units goals) = fund_units_of (map snd (concat (map snd ?G)))"
    unfolding fields by (simp add: units_of_concat map_concat comp_def)
  also have "\<dots> = fund_units_of (map snd (goal_rows (rs_db st) (ub_accountId b) asOf))"
    by (rule units_of_mset) (simp add: mset_concat_group_by)
  finally have units: "sum_funds (map gb_units goals) = ub_units b"
    by (simp add: goal_rows_txns [OF assms(1)] balance_units [OF assms(1,3)])
  have keys: "set (map fst ?G) \<subseteq> set (rd_goals (rs_db st))" by (auto simp: goal_rows_def)
  have "inj_on go_id (set (rd_goals (rs_db st)))" using assms(1) by (simp add: registry_ok_def distinct_map)
  then have "distinct (map go_id (map fst ?G))"
    unfolding distinct_map [of go_id] by (intro conjI distinct_keys_group_by) (rule inj_on_subset [OF _ keys])
  then have ids: "distinct (map gb_goalId goals)" unfolding fields by (simp add: comp_def)
  have "mset (map gb_units (sort_key (\<lambda>g. collate (gb_goalNumber g)) goals)) = mset (map gb_units goals)" by simp
  then have "sum_funds (map gb_units (sort_key (\<lambda>g. collate (gb_goalNumber g)) goals)) = sum_funds (map gb_units goals)"
    by (rule sum_funds_mset)
  moreover have "sum_list (map gb_totalValue (sort_key (\<lambda>g. collate (gb_goalNumber g)) goals)) = sum_list (map gb_totalValue goals)"
    by (rule sum_list_map_mset) simp
  moreover have "sum_list (map gb_totalValue goals) = total_value ?fq (sum_funds (map gb_units goals))"
    unfolding fields(2) total_value_sum ..
  ultimately show ?thesis
    unfolding result distinct_map_sort_key using units ids by simp
qed

theorem goals_add_up_to_account_witness:
  "sum_list (map gb_totalValue (fst (get_account_goal_breakdown length ex_reg_state ''a'' None))) = 15 / 2"
proof -
  have "hd (rs_view ex_reg_state) \<in> set (rs_view ex_reg_state)" using ex_reg_view by (intro hd_in_set) auto
  then have "hd (rs_view ex_reg_state) \<in> set (balances_at (rs_db ex_reg_state) None)"
    by (simp add: balances_at_def ex_reg_facts(2))
  from goals_add_up_to_account [OF ex_reg_ok ex_reg_facts(1) this, of length] show ?thesis
    by (simp add: ex_reg_balance ex_reg_quotes total_value_alt used_prices_def or_null_def)
qed

end
