(* ===== verification/DashboardProperties.thy ===== *)
theory DashboardProperties
  imports Dashboard UnitRegistryProperties
begin

text \<open>
  The dashboard against the unit registry and the tables: its assets under management are the total value of the
  registry, its percentages do not add up to a hundred, and its months account for every recent payment.
\<close>

section \<open>Prices\<close>

lemma dashboard_fold_value:
  assumes "c \<in> set registry_codes" "\<And>r. r \<in> set rows \<Longrightarrow> fst r = c \<Longrightarrow> pr_mid (snd r) = v"
  shows "fund_value (dp_prices (foldl add_dashboard_price d rows)) c =
    (if c \<in> fst ` set rows then Some v else fund_value (dp_prices d) c)"
  using assms(2)
proof (induction rows arbitrary: d)
  case (Cons r rows)
  then show ?case
    using assms(1) by (auto simp: add_dashboard_price_def fund_value_set)
qed simp

lemma newest_price_is_first:
  assumes "distinct (map pr_date rs)" "rs \<noteq> []"
  shows "first_of (newest_price_first rs) = Some r \<longleftrightarrow> r \<in> set rs \<and> pr_date r = Max (set (map pr_date rs))"
proof -
  obtain x xs where s: "newest_price_first rs = x # xs"
    using assms(2) by (metis newest_price_first_def neq_Nil_conv set_empty set_sort)
  have set: "set rs = insert x (set xs)" using arg_cong [OF s, of set] by (simp add: newest_price_first_def)
  have "sorted (map (\<lambda>r. - pr_date r) (x # xs))" unfolding s [symmetric] newest_price_first_def by (rule sorted_sort_key)
  then have max: "pr_date x = Max (set (map pr_date rs))"
    by (intro Max_eqI [symmetric]) (auto simp: set)
  have inj: "inj_on pr_date (set rs)" using assms(1) by (simp add: distinct_map)
  have x: "x \<in> set rs" by (simp add: set)
  have "r \<in> set rs \<Longrightarrow> pr_date r = Max (set (map pr_date rs)) \<Longrightarrow> r = x" using inj x max by (metis inj_onD)
  then show ?thesis using x max by (auto simp: first_of_def s simp del: set_map)
qed

lemma prices_of_fund_dates: "price_table_ok db \<Longrightarrow> distinct (map pr_date (prices_of_fund db f))"
  unfolding price_table_ok_def prices_of_fund_def distinct_map inj_on_def by auto

lemma set_concat_if: "set (concat (map (\<lambda>x. if P x then g x else []) xs)) = (\<Union>x \<in> {x \<in> set xs. P x}. set (g x))"
  by (induction xs) auto

lemma in_newest_rows: "(c, r) \<in> set (newest_rows db) \<longleftrightarrow>
    r \<in> set (pt_prices db) \<and> pr_date r = Max (set (map pr_date (filter (\<lambda>x. pr_fundId x = pr_fundId r) (pt_prices db)))) \<and>
    (\<exists>f \<in> set (pt_funds db). fi_id f = pr_fundId r \<and> fi_code f = c)"
  unfolding newest_rows_def set_concat_if by auto

lemma newest_row_iff:
  assumes "price_table_ok db" "distinct (map fi_code (pt_funds db))"
  shows "(c, r) \<in> set (newest_rows db) \<longleftrightarrow> quoted_price db None c = Some r"
proof -
  have all: "filter (before_date None) rs = rs" for rs by (simp add: before_date_def)
  have unique: "List.find (\<lambda>f. fi_code f = c) (pt_funds db) = Some f" if "f \<in> set (pt_funds db)" "fi_code f = c" for f
  proof (cases "List.find (\<lambda>f. fi_code f = c) (pt_funds db)")
    case None
    with that show ?thesis by (auto simp: find_None_iff)
  next
    case (Some g)
    then have "g \<in> set (pt_funds db)" "fi_code g = c" by (auto dest: find_SomeD)
    with Some that assms(2) show ?thesis by (auto simp: distinct_map dest: inj_onD)
  qed
  have "(c, r) \<in> set (newest_rows db) \<longleftrightarrow>
      (\<exists>f \<in> set (pt_funds db). fi_code f = c \<and> r \<in> set (prices_of_fund db f) \<and>
         pr_date r = Max (set (map pr_date (prices_of_fund db f))))"
    unfolding in_newest_rows prices_of_fund_def by auto
  also have "\<dots> \<longleftrightarrow> (\<exists>f. List.find (\<lambda>f. fi_code f = c) (pt_funds db) = Some f \<and> r \<in> set (prices_of_fund db f) \<and>
         pr_date r = Max (set (map pr_date (prices_of_fund db f))))"
    using unique by (auto dest: find_SomeD)
  also have "\<dots> \<longleftrightarrow> (\<exists>f. List.find (\<lambda>f. fi_code f = c) (pt_funds db) = Some f \<and>
         first_of (newest_price_first (prices_of_fund db f)) = Some r)"
  proof -
    have "r \<in> set (prices_of_fund db f) \<and> pr_date r = Max (set (map pr_date (prices_of_fund db f))) \<longleftrightarrow>
        first_of (newest_price_first (prices_of_fund db f)) = Some r" for f
    proof (cases "prices_of_fund db f = []")
      case True
      then show ?thesis by (simp add: newest_price_first_def first_of_def)
    next
      case False
      show ?thesis using newest_price_is_first [OF prices_of_fund_dates [OF assms(1)] False] by simp
    qed
    then show ?thesis by simp
  qed
  also have "\<dots> \<longleftrightarrow> quoted_price db None c = Some r"
    by (simp add: quoted_price_def all split: option.split)
  finally show ?thesis .
qed

lemma dashboard_prices_used:
  assumes "price_table_ok db" "distinct (map fi_code (pt_funds db))"
  shows "dp_prices (dashboard_latest_prices db) = used_prices (latest_quotes db None)"
proof -
  have "dp_prices (dashboard_latest_prices db) = each_fund (\<lambda>c. or_null (map_option pr_mid (quoted_price db None c)))"
  proof (rule per_fund_eqI)
    fix c assume c: "c \<in> set registry_codes"
    have zero: "fund_value (Per_Fund 0 0 0 0) c = Some (0 :: rat)" using c by (auto simp: registry_codes_def)
    show "fund_value (dp_prices (dashboard_latest_prices db)) c = Some (or_null (map_option pr_mid (quoted_price db None c)))"
    proof (cases "quoted_price db None c")
      case None
      then have "c \<notin> fst ` set (newest_rows db)" using newest_row_iff [OF assms, of c] by auto
      moreover have "pr_mid (snd x) = 0" if "x \<in> set (newest_rows db)" "fst x = c" for x
        using that calculation by (metis imageI)
      ultimately show ?thesis
        using dashboard_fold_value [OF c, of "newest_rows db" 0] None zero
        by (simp add: dashboard_latest_prices_def or_null_def)
    next
      case (Some r)
      have "(c, r) \<in> set (newest_rows db)" using newest_row_iff [OF assms, of c r] Some by simp
      then have "c \<in> fst ` set (newest_rows db)" by force
      moreover have "pr_mid (snd x) = pr_mid r" if "x \<in> set (newest_rows db)" "fst x = c" for x
        using that newest_row_iff [OF assms, of c "snd x"] Some by (metis option.inject prod.collapse)
      ultimately show ?thesis
        using dashboard_fold_value [OF c, of "newest_rows db" "pr_mid r"] Some
        by (simp add: dashboard_latest_prices_def or_null_def)
    qed
  qed
  then show ?thesis
    using latest_quotes_newest [OF assms(2), of None] by (simp add: used_prices_def each_fund_def)
qed

section \<open>Assets under management\<close>

lemma value_at_total: "value_at (used_prices fq) b = total_value fq (ub_units b)"
  by (simp add: value_at_def total_value_def values_of_def)

text \<open>The categories cover all accounts of the view, funded or not.\<close>

lemma category_sums: "sum_list (map ca_aum (aum_by_category prices aum view)) = sum_list (map (value_at prices) view)"
  "sum_list (map ca_accountCount (aum_by_category prices aum view)) = length view"
proof -
  have "sum_list (map ca_aum (aum_by_category prices aum view)) =
      sum_list (map ca_aum (map (category_aum_of prices aum) (group_by category_of view)))"
    unfolding aum_by_category_def by (rule sum_list_map_mset) simp
  also have "\<dots> = sum_list (map (value_at prices) (concat (map snd (group_by category_of view))))"
    by (simp add: category_aum_of_def Let_def sum_list_map_concat comp_def)
  also have "\<dots> = sum_list (map (value_at prices) view)" by (rule sum_list_map_mset [OF mset_concat_group_by])
  finally show "sum_list (map ca_aum (aum_by_category prices aum view)) = sum_list (map (value_at prices) view)" .
  have "mset (map ca_accountCount (aum_by_category prices aum view)) =
      mset (map (\<lambda>g. length (snd g)) (group_by category_of view))"
    unfolding aum_by_category_def by (simp add: category_aum_of_def Let_def comp_def image_mset.compositionality)
  then have "sum_list (map ca_accountCount (aum_by_category prices aum view)) = sum_list (map (\<lambda>g. length (snd g)) (group_by category_of view))"
    by (metis sum_mset_sum_list)
  also have "\<dots> = length (concat (map snd (group_by category_of view)))" by (simp add: length_concat comp_def)
  also have "\<dots> = length view" using mset_concat_group_by [of category_of view] by (metis size_mset)
  finally show "sum_list (map ca_accountCount (aum_by_category prices aum view)) = length view" .
qed

lemma sum_split_at: "sum_list (map v xs) = sum_list (map v (filter (\<lambda>x. c \<le> v x) xs)) + sum_list (map v (filter (\<lambda>x. v x < c) xs))"
  for v :: "'a \<Rightarrow> rat"
  by (induction xs) (auto simp: not_le)

lemma percentages_sum:
  assumes "0 < aum"
  shows "sum_list (map ca_percentage (aum_by_category prices aum view)) = sum_list (map (value_at prices) view) / aum * 100"
proof -
  have "sum_list (map ca_percentage (aum_by_category prices aum view)) = sum_list (map (\<lambda>c. ca_aum c * (100 / aum)) (aum_by_category prices aum view))"
    using assms by (intro arg_cong [of _ _ sum_list] map_cong refl)
      (auto simp: aum_by_category_def category_aum_of_def Let_def)
  also have "\<dots> = sum_list (map ca_aum (aum_by_category prices aum view)) * (100 / aum)" by (rule sum_list_mult_const)
  finally show ?thesis by (simp add: category_sums)
qed

text \<open>C35: the dashboard agrees with the unit registry: its assets under management and its number of funded accounts
  are the total value and the number of accounts the registry shows for the default threshold, at the same prices. Its categories
  cover all accounts, so their amounts add up to more than that total by the value of the accounts below the
  threshold, and their percentages to more than a hundred by as much.\<close>

theorem dashboard_agrees_with_registry:
  assumes "price_table_ok (st_db (rs_prices st))" "distinct (map fi_code (pt_funds (st_db (rs_prices st))))"
    and "cache_coherent (rs_prices st)" "rq_onlyFunded q" "rq_threshold q = funded_limit" "rq_search q = None" "rq_type q = None"
    and "rq_category q = None" "0 < dm_totalAUM (get_dashboard_metrics st today)"
  shows "dm_totalAUM (get_dashboard_metrics st today) =
      ry_totalValue (rg_summary (fst (get_unit_registry like collate locale_rank type_rank st None q))) \<and>
    dm_fundedAccounts (get_dashboard_metrics st today) =
      ry_totalClients (rg_summary (fst (get_unit_registry like collate locale_rank type_rank st None q))) \<and>
    dm_prices (get_dashboard_metrics st today) =
      map_per_fund or_null (rg_prices (fst (get_unit_registry like collate locale_rank type_rank st None q))) \<and>
    sum_list (map ca_accountCount (dm_byCategory (get_dashboard_metrics st today))) = length (rs_view st) \<and>
    sum_list (map ca_aum (dm_byCategory (get_dashboard_metrics st today))) =
      dm_totalAUM (get_dashboard_metrics st today) +
      sum_list (map (value_at (dm_prices (get_dashboard_metrics st today)))
        (filter (\<lambda>b. value_at (dm_prices (get_dashboard_metrics st today)) b < funded_limit) (rs_view st))) \<and>
    sum_list (map ca_percentage (dm_byCategory (get_dashboard_metrics st today))) =
      sum_list (map ca_aum (dm_byCategory (get_dashboard_metrics st today))) / dm_totalAUM (get_dashboard_metrics st today) * 100"
proof -
  let ?fq = "latest_quotes (st_db (rs_prices st)) None"
  let ?prices = "used_prices ?fq"
  let ?rows = "registry_rows like collate type_rank ?fq q (rs_view st)"
  let ?aum = "sum_list (map (value_at ?prices) (funded_accounts ?prices (rs_view st)))"
  note prices = dashboard_prices_used [OF assms(1,2)]
  have m: "dm_totalAUM (get_dashboard_metrics st today) = ?aum" "dm_prices (get_dashboard_metrics st today) = ?prices"
    "dm_fundedAccounts (get_dashboard_metrics st today) = length (funded_accounts ?prices (rs_view st))"
    "dm_byCategory (get_dashboard_metrics st today) = aum_by_category ?prices ?aum (rs_view st)"
    by (simp_all add: get_dashboard_metrics_def prices Let_def)
  have now_eq: "fst (get_unit_registry like collate locale_rank type_rank st None q) = registry_answer_of (rs_db st) ?fq q ?rows"
    by (rule registry_today [OF assms(3)])
  have rows: "mset ?rows = mset (funded_accounts ?prices (rs_view st))"
    using assms(4-8) by (simp add: mset_registry_rows funded_accounts_def balance_selected_def balance_funded_def
        search_matches_def equals_given_def value_at_total)
  have len: "length ?rows = length (funded_accounts ?prices (rs_view st))" using rows by (metis size_mset)
  have "total_value ?fq (sum_funds (map ub_units ?rows)) = sum_list (map (value_at ?prices) ?rows)"
    by (simp add: total_value_sum value_at_total [symmetric] comp_def)
  also have "\<dots> = ?aum" by (rule sum_list_map_mset [OF rows])
  finally have total: "ry_totalValue (registry_summary_of ?fq ?rows) = ?aum" by (simp add: registry_summary_of_def Let_def)
  have "sum_list (map (value_at ?prices) (rs_view st)) =
      sum_list (map (value_at ?prices) (filter (\<lambda>b. funded_limit \<le> value_at ?prices b) (rs_view st))) +
      sum_list (map (value_at ?prices) (filter (\<lambda>b. value_at ?prices b < funded_limit) (rs_view st)))"
    by (rule sum_split_at)
  then have split: "sum_list (map (value_at ?prices) (rs_view st)) =
      ?aum + sum_list (map (value_at ?prices) (filter (\<lambda>b. value_at ?prices b < funded_limit) (rs_view st)))"
    by (simp add: funded_accounts_def)
  have pos: "0 < ?aum" using assms(9) by (simp add: m)
  have clients: "ry_totalClients (registry_summary_of ?fq ?rows) = length (funded_accounts ?prices (rs_view st))"
    by (simp add: registry_summary_of_def len Let_def)
  show ?thesis
    unfolding m now_eq registry_answer_fields used_prices_def [symmetric] category_sums percentages_sum [OF pos] total clients
    using split by simp
qed

text \<open>The months account for every payment of the last twelve months.\<close>

lemma months_add_up:
  "sum_list (map mt_amount (dm_deposits (get_dashboard_metrics st today))) =
     sum_list (map f_amount (filter (recent_of_type DEPOSIT today) (rd_fund (rs_db st))))"
  "distinct (map mt_month (dm_deposits (get_dashboard_metrics st today)))"
proof -
  let ?ts = "filter (recent_of_type DEPOSIT today) (rd_fund (rs_db st))"
  let ?months = "map (\<lambda>g. \<lparr>mt_month = fst g, mt_amount = sum_list (map f_amount (snd g)), mt_count = length (snd g)\<rparr>) (group_by month_of ?ts)"
  have deposits: "dm_deposits (get_dashboard_metrics st today) =
      sort_key (\<lambda>m. - (int (fst (mt_month m)) * 12 + int (snd (mt_month m)))) ?months"
    by (simp add: get_dashboard_metrics_def by_month_def Let_def)
  have "sum_list (map mt_amount (dm_deposits (get_dashboard_metrics st today))) = sum_list (map mt_amount ?months)"
    unfolding deposits by (rule sum_list_map_mset) simp
  also have "\<dots> = sum_list (map f_amount (concat (map snd (group_by month_of ?ts))))"
    by (simp add: sum_list_map_concat comp_def)
  also have "\<dots> = sum_list (map f_amount ?ts)" by (rule sum_list_map_mset [OF mset_concat_group_by])
  finally show "sum_list (map mt_amount (dm_deposits (get_dashboard_metrics st today))) = sum_list (map f_amount ?ts)" .
  show "distinct (map mt_month (dm_deposits (get_dashboard_metrics st today)))"
    unfolding deposits distinct_map_sort_key by (simp add: comp_def)
qed

text \<open>The date shown with the prices is that of the first row of the query, not the latest.\<close>

lemma dashboard_date_is_first: "dp_asOf (dashboard_latest_prices db) = map_option (\<lambda>r. pr_date (snd r)) (first_of (newest_rows db))"
proof -
  have "dp_asOf (foldl add_dashboard_price d rows) = dp_asOf d" if "dp_asOf d \<noteq> None" for d rows
    using that by (induction rows arbitrary: d) (auto simp: add_dashboard_price_def)
  then show ?thesis
    by (cases "newest_rows db") (simp_all add: dashboard_latest_prices_def first_of_def add_dashboard_price_def)
qed

section \<open>An example\<close>

definition ex_rich_state :: registry_state where
  "ex_rich_state = ex_reg_state\<lparr>rs_view := [(hd (rs_view ex_reg_state))\<lparr>ub_units := Per_Fund 0 4000 0 0\<rparr>, hd (rs_view ex_reg_state)]\<rparr>"

lemma ex_rich_facts:
  "price_table_ok (st_db (rs_prices ex_rich_state))" "distinct (map fi_code (pt_funds (st_db (rs_prices ex_rich_state))))"
  "cache_coherent (rs_prices ex_rich_state)"
  by (simp_all add: ex_rich_state_def ex_reg_state_def ex_upload price_table_ok_def cache_coherent_def)

lemma ex_rich_total: "dm_totalAUM (get_dashboard_metrics ex_rich_state 0) = 10000"
proof -
  have "dp_prices (dashboard_latest_prices (st_db (rs_prices ex_rich_state))) = Per_Fund 0 (5 / 2) 0 0"
    unfolding dashboard_prices_used [OF ex_rich_facts(1,2)]
    using ex_reg_quotes [of None] by (simp add: used_prices_def or_null_def ex_rich_state_def)
  then show ?thesis
    by (simp add: get_dashboard_metrics_def funded_accounts_def value_at_def funded_limit_def ex_rich_state_def ex_reg_balance Let_def)
qed

theorem dashboard_agrees_with_registry_witness:
  "ry_totalValue (rg_summary (fst (get_unit_registry (\<lambda>_ _. True) length length length ex_rich_state None
     ((ex_reg_query True)\<lparr>rq_threshold := funded_limit\<rparr>)))) = 10000"
proof -
  have "0 < dm_totalAUM (get_dashboard_metrics ex_rich_state 0)" by (simp add: ex_rich_total)
  then show ?thesis
    using dashboard_agrees_with_registry [OF ex_rich_facts, of "(ex_reg_query True)\<lparr>rq_threshold := funded_limit\<rparr>" 0
      "\<lambda>_ _. True" length length length]
    by (simp add: ex_reg_query_def ex_rich_total)
qed

end
