(* ===== verification/GoalReport.thy ===== *)
theory GoalReport
  imports UnitRegistry TransactionComparison GoalCode
begin

text \<open>
  \<open>GoalTransactionService\<close>: goal transactions, that is the fund transactions of one goal transaction code taken together, read
  from the materialized view \<open>goal_transactions_view\<close> or computed from the fund transactions, their aggregates,
  statistics and the export. \<open>ILIKE\<close> and the order of texts are parameters. The view is given as its rows.
\<close>

section \<open>The view\<close>

record report_row =
  rr_txn :: fund_txn
  rr_client :: client_row
  rr_account :: registry_account
  rr_goal :: registry_goal

definition report_rows :: "registry_db \<Rightarrow> report_row list" where
  "report_rows db =
     concat (map (\<lambda>t. concat (map (\<lambda>c. concat (map (\<lambda>a. map (\<lambda>g. \<lparr>rr_txn = t, rr_client = c, rr_account = a, rr_goal = g\<rparr>)
           (filter (\<lambda>g. go_id g = f_goalId t) (rd_goals db)))
         (filter (\<lambda>a. ac_id a = f_accountId t) (rd_accounts db))))
       (filter (\<lambda>c. cl_id c = f_clientId t) (rd_clients db)))) (rd_fund db))"

record goal_transaction =
  gt_code :: string
  gt_day :: int
  gt_transactionId :: "string option"
  gt_source :: "string option"
  gt_clientId :: row_id
  gt_clientName :: string
  gt_accountId :: row_id
  gt_accountNumber :: string
  gt_goalId :: row_id
  gt_goalNumber :: string
  gt_goalTitle :: string
  gt_totalAmount :: money
  gt_funds :: "money per_fund"
  gt_totalUnits :: rat
  gt_count :: nat
  gt_deposits :: nat
  gt_withdrawals :: nat
  gt_types :: string

type_synonym report_key = "string \<times> int \<times> (row_id \<times> string) \<times> (row_id \<times> string) \<times> (row_id \<times> string \<times> string)"

definition report_key_of :: "report_row \<Rightarrow> report_key" where
  "report_key_of r =
     (f_goalTransactionCode (rr_txn r), iso_day (f_transactionDate (rr_txn r)), (cl_id (rr_client r), cl_name (rr_client r)),
      (ac_id (rr_account r), ac_number (rr_account r)), (go_id (rr_goal r), go_number (rr_goal r), rg_title (rr_goal r)))"

definition source_text :: "transaction_source \<Rightarrow> string" where
  "source_text s = (case List.find (\<lambda>e. snd e = s) source_names of None \<Rightarrow> [] | Some e \<Rightarrow> fst e)"

definition min_given :: "(string \<Rightarrow> nat) \<Rightarrow> string list \<Rightarrow> string option" where
  "min_given collate xs = (if xs = [] then None else Some (min_text collate xs))"

definition amounts_of :: "fund_txn list \<Rightarrow> money per_fund" where
  "amounts_of ts = each_fund (\<lambda>c. sum_list (map f_amount (filter (\<lambda>t. f_fundCode t = c) ts)))"

definition view_row_of :: "(string \<Rightarrow> nat) \<Rightarrow> report_key \<times> report_row list \<Rightarrow> goal_transaction" where
  "view_row_of collate e =
     (case e of ((code, day, (clientId, clientName), (accountId, accountNumber), (goalId, goalNumber, goalTitle)), rs) \<Rightarrow>
        let ts = map rr_txn rs
        in \<lparr>gt_code = code, gt_day = day, gt_transactionId = min_given collate (List.map_filter f_transactionId ts),
            gt_source = min_given collate (map source_text (List.map_filter f_source ts)), gt_clientId = clientId,
            gt_clientName = clientName, gt_accountId = accountId, gt_accountNumber = accountNumber, gt_goalId = goalId,
            gt_goalNumber = goalNumber, gt_goalTitle = goalTitle, gt_totalAmount = sum_list (map f_amount ts),
            gt_funds = amounts_of ts, gt_totalUnits = sum_list (map f_units ts), gt_count = length ts,
            gt_deposits = length (filter (\<lambda>t. f_transactionType t = DEPOSIT) ts),
            gt_withdrawals = length (filter (\<lambda>t. f_transactionType t = WITHDRAWAL) ts),
            gt_types = join_with CHR '','' (sort_key collate (js_unique (map (\<lambda>t. type_name (f_transactionType t)) ts)))\<rparr>)"

definition goal_transactions_view :: "(string \<Rightarrow> nat) \<Rightarrow> registry_db \<Rightarrow> goal_transaction list" where
  "goal_transactions_view collate db = map (view_row_of collate) (group_by report_key_of (report_rows db))"

section \<open>Reading the view\<close>

record report_query =
  gq_clientId :: "string option"
  gq_accountId :: "string option"
  gq_goalId :: "string option"
  gq_start :: "instant option"
  gq_end :: "instant option"
  gq_type :: "string option"
  gq_txn :: "string option"
  gq_source :: "string option"
  gq_search :: "string option"
  gq_limit :: "nat option"
  gq_offset :: "nat option"

definition search_fields :: "(string \<Rightarrow> string \<Rightarrow> bool) \<Rightarrow> string \<Rightarrow> goal_transaction \<Rightarrow> bool" where
  "search_fields ilike p g =
     (ilike (gt_accountNumber g) p \<or> ilike (gt_goalTitle g) p \<or> ilike (gt_goalNumber g) p \<or> ilike (gt_code g) p)"

definition report_search :: "(string \<Rightarrow> string \<Rightarrow> bool) \<Rightarrow> string option \<Rightarrow> goal_transaction \<Rightarrow> bool" where
  "report_search ilike search g =
     (if truthy_str search
      then let words = search_words (trim (the search)); whole = ''%'' @ trim (the search) @ ''%''
           in (if length words > 1 then list_all (\<lambda>w. ilike (gt_clientName g) (''%'' @ w @ ''%'')) words
               else ilike (gt_clientName g) whole) \<or> search_fields ilike whole g
      else True)"

definition report_wanted :: "(string \<Rightarrow> string \<Rightarrow> bool) \<Rightarrow> report_query \<Rightarrow> goal_transaction \<Rightarrow> bool" where
  "report_wanted ilike q g =
     (equals_given (gq_clientId q) (gt_clientId g) \<and> equals_given (gq_accountId q) (gt_accountId g) \<and>
      equals_given (gq_goalId q) (gt_goalId g) \<and>
      (\<not> truthy_str (gq_txn q) \<or>
       (case gt_transactionId g of None \<Rightarrow> False | Some i \<Rightarrow> ilike i (''%'' @ the (gq_txn q) @ ''%''))) \<and>
      (\<not> truthy_str (gq_source q) \<or> gt_source g = gq_source q) \<and>
      (case gq_start q of None \<Rightarrow> True | Some s \<Rightarrow> iso_day s \<le> gt_day g) \<and>
      (case gq_end q of None \<Rightarrow> True | Some e \<Rightarrow> gt_day g \<le> iso_day e) \<and> report_search ilike (gq_search q) g)"

text \<open>The view has no column \<open>transactionType\<close>: a condition on it makes the query fail.\<close>

definition unknown_column :: "report_query \<Rightarrow> bool" where
  "unknown_column q = truthy_str (gq_type q)"

definition optional_take :: "nat option \<Rightarrow> 'a list \<Rightarrow> 'a list" where
  "optional_take n xs = (case n of None \<Rightarrow> xs | Some k \<Rightarrow> if k = 0 then xs else take k xs)"

definition optional_drop :: "nat option \<Rightarrow> 'a list \<Rightarrow> 'a list" where
  "optional_drop n xs = (case n of None \<Rightarrow> xs | Some k \<Rightarrow> drop k xs)"

definition empty_as_null :: "string option \<Rightarrow> string option" where
  "empty_as_null v = (if truthy_str v then v else None)"

definition shown_transaction :: "goal_transaction \<Rightarrow> goal_transaction" where
  "shown_transaction g = g\<lparr>gt_transactionId := empty_as_null (gt_transactionId g), gt_source := empty_as_null (gt_source g)\<rparr>"

definition selected_transactions :: "(string \<Rightarrow> string \<Rightarrow> bool) \<Rightarrow> report_query \<Rightarrow> goal_transaction list \<Rightarrow> goal_transaction list" where
  "selected_transactions ilike q view = sort_key (\<lambda>g. - gt_day g) (filter (report_wanted ilike q) view)"

definition list_goal_transactions ::
    "(string \<Rightarrow> string \<Rightarrow> bool) \<Rightarrow> report_query \<Rightarrow> goal_transaction list \<Rightarrow> goal_transaction list option" where
  "list_goal_transactions ilike q view =
     (if unknown_column q then None
      else Some (map shown_transaction (optional_take (gq_limit q) (optional_drop (gq_offset q) (selected_transactions ilike q view)))))"

definition get_goal_transaction_by_code :: "string \<Rightarrow> goal_transaction list \<Rightarrow> goal_transaction option" where
  "get_goal_transaction_by_code code view = map_option shown_transaction (List.find (\<lambda>g. gt_code g = code) view)"

definition fund_transactions_for_goal :: "(string \<Rightarrow> nat) \<Rightarrow> registry_db \<Rightarrow> string \<Rightarrow> fund_txn list" where
  "fund_transactions_for_goal collate db code =
     sort_key (\<lambda>t. collate (f_fundCode t)) (filter (\<lambda>t. f_goalTransactionCode t = code) (rd_fund db))"

record report_aggregates =
  ag_count :: nat
  ag_amount :: money
  ag_funds :: "money per_fund"

definition get_report_aggregates ::
    "(string \<Rightarrow> string \<Rightarrow> bool) \<Rightarrow> report_query \<Rightarrow> goal_transaction list \<Rightarrow> report_aggregates option" where
  "get_report_aggregates ilike q view =
     (if unknown_column q then None
      else let rows = filter (report_wanted ilike q) view
           in Some \<lparr>ag_count = length rows, ag_amount = sum_list (map gt_totalAmount rows), ag_funds = sum_funds (map gt_funds rows)\<rparr>)"

record report_page =
  rp_data :: "goal_transaction list"
  rp_total :: nat
  rp_pages :: nat
  rp_aggregates :: report_aggregates

definition goal_transactions_route ::
    "(string \<Rightarrow> string \<Rightarrow> bool) \<Rightarrow> nat option \<Rightarrow> nat option \<Rightarrow> report_query \<Rightarrow> goal_transaction list \<Rightarrow> report_page option" where
  "goal_transactions_route ilike page limit q view =
     (let p = (case page of None \<Rightarrow> 1 | Some k \<Rightarrow> k); n = (case limit of None \<Rightarrow> 50 | Some k \<Rightarrow> k)
      in (case (list_goal_transactions ilike (q\<lparr>gq_limit := Some n, gq_offset := Some ((p - 1) * n)\<rparr>) view,
                get_report_aggregates ilike q view) of
            (Some data, Some agg) \<Rightarrow>
              Some \<lparr>rp_data = data, rp_total = ag_count agg, rp_pages = page_count n (ag_count agg), rp_aggregates = agg\<rparr>
          | _ \<Rightarrow> None))"

section \<open>Computed from the transactions\<close>

definition computed_wanted :: "report_query \<Rightarrow> report_row \<Rightarrow> bool" where
  "computed_wanted q r =
     (let t = rr_txn r; day = iso_day (f_transactionDate t)
      in equals_given (gq_clientId q) (f_clientId t) \<and> equals_given (gq_accountId q) (f_accountId t) \<and>
         equals_given (gq_goalId q) (f_goalId t) \<and> equals_given (gq_type q) (type_name (f_transactionType t)) \<and>
         (case gq_start q of None \<Rightarrow> True | Some s \<Rightarrow> iso_day s \<le> day) \<and>
         (case gq_end q of None \<Rightarrow> True | Some e \<Rightarrow> day \<le> iso_day e))"

text \<open>\<open>take\<close> and \<open>skip\<close> cut the fund transactions, not the goal transactions.\<close>

definition computed_rows :: "report_query \<Rightarrow> registry_db \<Rightarrow> report_row list" where
  "computed_rows q db =
     (let rows = sort_key (\<lambda>r. - iso_day (f_transactionDate (rr_txn r))) (filter (computed_wanted q) (report_rows db));
          rest = optional_drop (gq_offset q) rows
      in (case gq_limit q of None \<Rightarrow> rest | Some n \<Rightarrow> take n rest))"

definition computed_summary :: "string \<times> report_row list \<Rightarrow> goal_transaction" where
  "computed_summary e =
     (case e of (code, rs) \<Rightarrow>
        let r = hd rs; ts = map rr_txn rs
        in \<lparr>gt_code = code, gt_day = iso_day (f_transactionDate (rr_txn r)), gt_transactionId = empty_as_null (f_transactionId (rr_txn r)),
            gt_source = empty_as_null (map_option source_text (f_source (rr_txn r))), gt_clientId = f_clientId (rr_txn r),
            gt_clientName = cl_name (rr_client r), gt_accountId = f_accountId (rr_txn r),
            gt_accountNumber = ac_number (rr_account r), gt_goalId = f_goalId (rr_txn r), gt_goalNumber = go_number (rr_goal r),
            gt_goalTitle = rg_title (rr_goal r), gt_totalAmount = sum_list (map f_amount ts), gt_funds = amounts_of ts,
            gt_totalUnits = sum_list (map f_units ts), gt_count = length ts,
            gt_deposits = length (filter (\<lambda>t. f_transactionType t = DEPOSIT) ts),
            gt_withdrawals = length (filter (\<lambda>t. f_transactionType t = WITHDRAWAL) ts),
            gt_types = join_with CHR '','' (js_unique (map (\<lambda>t. type_name (f_transactionType t)) ts))\<rparr>)"

definition get_goal_transactions_computed :: "report_query \<Rightarrow> registry_db \<Rightarrow> goal_transaction list" where
  "get_goal_transactions_computed q db =
     map computed_summary (group_by_code (\<lambda>r. f_goalTransactionCode (rr_txn r)) (computed_rows q db))"

section \<open>The export\<close>

definition to_fixed2 :: "rat \<Rightarrow> string" where
  "to_fixed2 v =
     (let n = nat \<lfloor>\<bar>v\<bar> * 100 + 1 / 2\<rfloor>
      in (if v < 0 then ''-'' else []) @ nat_digits (n div 100) @ ''.'' @ pad2 (n mod 100))"

definition export_headers :: "string list" where
  "export_headers = [''transactionDate'', ''clientName'', ''accountNumber'', ''goalTitle'', ''goalNumber'', ''Amount'',
     ''XUMMF'', ''XUBF'', ''XUDEF'', ''XUREF'']"

definition export_fields :: "goal_transaction \<Rightarrow> string list" where
  "export_fields g =
     [iso_date (gt_day g * ms_per_day), gt_clientName g, gt_accountNumber g, gt_goalTitle g, gt_goalNumber g,
      to_fixed2 (gt_totalAmount g), to_fixed2 (xummf (gt_funds g)), to_fixed2 (xubf (gt_funds g)),
      to_fixed2 (xudef (gt_funds g)), to_fixed2 (xuref (gt_funds g))]"

definition export_goal_transactions_csv ::
    "(string \<Rightarrow> string \<Rightarrow> bool) \<Rightarrow> report_query \<Rightarrow> goal_transaction list \<Rightarrow> string option" where
  "export_goal_transactions_csv ilike q view =
     map_option (\<lambda>gts. join_with (CHR 10) (join_with CHR '','' export_headers # map (\<lambda>g. join_with CHR '','' (export_fields g)) gts))
       (list_goal_transactions ilike q view)"

section \<open>Statistics\<close>

record report_breakdown =
  fb_count :: nat
  fb_amount :: money
  fb_percentage :: rat

record report_statistics =
  st_count :: nat
  st_totalAmount :: money
  st_totalUnits :: rat
  st_averageAmount :: rat
  st_breakdown :: "report_breakdown per_fund"

definition report_breakdown_of :: "goal_transaction list \<Rightarrow> money \<Rightarrow> (money per_fund \<Rightarrow> money) \<Rightarrow> report_breakdown" where
  "report_breakdown_of gts totalAmount fund =
     (let amount = sum_list (map (\<lambda>g. fund (gt_funds g)) gts)
      in \<lparr>fb_count = length (filter (\<lambda>g. fund (gt_funds g) > 0) gts), fb_amount = amount,
          fb_percentage = (if totalAmount > 0 then amount / totalAmount * 100 else 0)\<rparr>)"

definition get_report_statistics ::
    "(string \<Rightarrow> string \<Rightarrow> bool) \<Rightarrow> report_query \<Rightarrow> goal_transaction list \<Rightarrow> report_statistics option" where
  "get_report_statistics ilike q view =
     map_option (\<lambda>gts.
         let totalAmount = sum_list (map gt_totalAmount gts)
         in \<lparr>st_count = length gts, st_totalAmount = totalAmount, st_totalUnits = sum_list (map gt_totalUnits gts),
             st_averageAmount = (if length gts > 0 then totalAmount / of_nat (length gts) else 0),
             st_breakdown = Per_Fund (report_breakdown_of gts totalAmount xummf) (report_breakdown_of gts totalAmount xubf)
               (report_breakdown_of gts totalAmount xudef) (report_breakdown_of gts totalAmount xuref)\<rparr>)
       (list_goal_transactions ilike q view)"

end
