(* ===== verification/GoalReportProperties.thy ===== *)
theory GoalReportProperties
  imports GoalReport UnitRegistryProperties ManualMatchProperties
begin

text \<open>
  The report of goal transactions: its pages and its aggregates cover the same rows, the rows computed from the transactions are
  those of the view, and the export can be read back when no text contains a separator.
\<close>

section \<open>Pages and aggregates\<close>

lemma wanted_ignores_page:
  "report_wanted ilike (q\<lparr>gq_limit := l, gq_offset := n\<rparr>) = report_wanted ilike q"
  "unknown_column (q\<lparr>gq_limit := l, gq_offset := n\<rparr>) = unknown_column q"
  by (simp_all add: report_wanted_def unknown_column_def fun_eq_iff split: option.split)

lemma route_page:
  assumes "\<not> unknown_column q" "0 < n"
  shows "goal_transactions_route ilike (Some p) (Some n) q view = Some
    \<lparr>rp_data = map shown_transaction (page_of p n (selected_transactions ilike q view)),
     rp_total = length (filter (report_wanted ilike q) view), rp_pages = page_count n (length (filter (report_wanted ilike q) view)),
     rp_aggregates = the (get_report_aggregates ilike q view)\<rparr>"
  using assms
  by (simp add: goal_transactions_route_def list_goal_transactions_def get_report_aggregates_def wanted_ignores_page
      selected_transactions_def optional_take_def optional_drop_def page_of_def Let_def)

lemma shown_amounts [simp]: "gt_totalAmount (shown_transaction g) = gt_totalAmount g" "gt_funds (shown_transaction g) = gt_funds g"
  by (simp_all add: shown_transaction_def)

text \<open>The pages of the report together list every selected goal transaction once, newest first, and the aggregates shown
  with each page are the sums over all of them.\<close>

lemma report_pages_and_aggregates:
  fixes q :: report_query and ilike :: "string \<Rightarrow> string \<Rightarrow> bool" and view :: "goal_transaction list" and n :: nat
  assumes "\<not> unknown_column q" "0 < n"
  defines "answer p \<equiv> the (goal_transactions_route ilike (Some p) (Some n) q view)"
  defines "rows \<equiv> concat (map (\<lambda>p. rp_data (answer p)) [1 ..< Suc (rp_pages (answer 1))])"
  shows "rows = map shown_transaction (selected_transactions ilike q view) \<and> rp_total (answer p) = length rows \<and>
    ag_amount (rp_aggregates (answer p)) = sum_list (map gt_totalAmount rows) \<and>
    ag_funds (rp_aggregates (answer p)) = sum_funds (map gt_funds rows)"
proof -
  let ?sel = "selected_transactions ilike q view"
  let ?wanted = "filter (report_wanted ilike q) view"
  have perm: "mset ?sel = mset ?wanted" by (simp add: selected_transactions_def)
  have len: "length ?sel = length ?wanted" using perm by (metis size_mset)
  have "concat (map (\<lambda>p. map f (page_of p n xs)) ps) = map f (concat (map (\<lambda>p. page_of p n xs) ps))"
    for f :: "goal_transaction \<Rightarrow> goal_transaction" and xs ps
    by (induction ps) simp_all
  then have rows: "rows = map shown_transaction ?sel"
    unfolding rows_def answer_def route_page [OF assms(1,2)] option.sel report_page.simps len [symmetric]
    by (simp only: all_pages [OF assms(2)])
  have "sum_list (map gt_totalAmount ?sel) = sum_list (map gt_totalAmount ?wanted)" by (rule sum_list_map_mset [OF perm])
  moreover have "sum_funds (map gt_funds ?sel) = sum_funds (map gt_funds ?wanted)" by (rule sum_funds_mset) (simp add: perm)
  ultimately show ?thesis
    unfolding rows answer_def route_page [OF assms(1,2)]
    using assms(1) by (simp add: get_report_aggregates_def Let_def len comp_def)
qed

section \<open>The view and the transactions\<close>

definition codes_agree :: "registry_db \<Rightarrow> bool" where
  "codes_agree db =
     list_all (\<lambda>r. list_all (\<lambda>s. f_goalTransactionCode (rr_txn r) = f_goalTransactionCode (rr_txn s) \<longrightarrow>
         report_key_of r = report_key_of s \<and> f_transactionId (rr_txn r) = f_transactionId (rr_txn s) \<and>
         f_source (rr_txn r) = f_source (rr_txn s)) (report_rows db)) (report_rows db)"

text \<open>A row up to the order in which its types are named: the other columns, and the multiset of the names.\<close>

definition up_to_types :: "goal_transaction \<Rightarrow> goal_transaction \<times> string multiset" where
  "up_to_types g = (g\<lparr>gt_types := []\<rparr>, mset (split_on CHR '','' (gt_types g)))"

definition no_report_filter :: report_query where
  "no_report_filter = \<lparr>gq_clientId = None, gq_accountId = None, gq_goalId = None, gq_start = None, gq_end = None, gq_type = None,
     gq_txn = None, gq_source = None, gq_search = None, gq_limit = None, gq_offset = None\<rparr>"

lemma report_row_ids:
  "r \<in> set (report_rows db) \<Longrightarrow> cl_id (rr_client r) = f_clientId (rr_txn r) \<and> ac_id (rr_account r) = f_accountId (rr_txn r) \<and>
     go_id (rr_goal r) = f_goalId (rr_txn r)"
  by (auto simp: report_rows_def)

lemma min_text_const: "xs \<noteq> [] \<Longrightarrow> \<forall>x \<in> set xs. x = v \<Longrightarrow> min_text collate xs = v"
proof -
  have "fold (\<lambda>x m. if collate x < collate m then x else m) xs v = v" if "\<forall>x \<in> set xs. x = v" for xs
    using that by (induction xs) auto
  then show "xs \<noteq> [] \<Longrightarrow> \<forall>x \<in> set xs. x = v \<Longrightarrow> min_text collate xs = v"
    by (cases xs) (auto simp: min_text_def)
qed

lemma min_given_const:
  assumes "xs \<noteq> []" "\<forall>x \<in> set xs. h x = v"
  shows "min_given collate (map f (List.map_filter h xs)) = map_option f v"
proof (cases v)
  case None
  with assms(2) have "List.map_filter h xs = []" by (induction xs) auto
  with None show ?thesis by (simp add: min_given_def)
next
  case (Some w)
  have mf: "List.map_filter h xs = map (\<lambda>_. w) xs" using assms(2) Some by (induction xs) auto
  have "min_text collate (map (\<lambda>_. f w) xs) = f w" using assms(1) by (intro min_text_const) auto
  with assms(1) Some show ?thesis by (simp add: mf min_given_def comp_def)
qed

lemma amounts_of_mset:
  assumes "mset ts = mset us"
  shows "amounts_of ts = amounts_of us"
proof -
  have "sum_list (map f_amount (filter P ts)) = sum_list (map f_amount (filter P us))" for P
    by (rule sum_list_map_mset) (simp add: assms)
  then show ?thesis by (simp add: amounts_of_def)
qed

lemma type_names_plain: "CHR '','' \<notin> set (type_name t)"
  by (cases t) simp_all

text \<open>The names can be read back from the text.\<close>

lemma types_read_back:
  assumes "xs \<noteq> []" "mset xs = mset (js_unique (map (\<lambda>t. type_name (f_transactionType t)) ts))"
  shows "mset (split_on CHR '','' (join_with CHR '','' xs)) = mset (js_unique (map (\<lambda>t. type_name (f_transactionType t)) ts))"
proof -
  have "set xs = (\<lambda>t. type_name (f_transactionType t)) ` set ts" using mset_eq_setD [OF assms(2)] by simp
  then have "\<forall>x \<in> set xs. CHR '','' \<notin> set x" using type_names_plain by auto
  then show ?thesis using assms by (simp add: split_on_join)
qed

lemma same_types:
  fixes ts us :: "fund_txn list"
  assumes "ts \<noteq> []" "mset ts = mset us"
  defines "names xs \<equiv> js_unique (map (\<lambda>t. type_name (f_transactionType t)) xs)"
  shows "mset (split_on CHR '','' (join_with CHR '','' (sort_key collate (names ts)))) = mset (split_on CHR '','' (join_with CHR '','' (names us)))"
proof -
  have "set (names ts) = set (names us)" using mset_eq_setD [OF assms(2)] by (simp add: names_def)
  then have perm: "mset (names ts) = mset (names us)"
    by (intro set_eq_iff_mset_eq_distinct [THEN iffD1]) (simp_all add: names_def)
  have "set (names ts) \<noteq> {}" using assms(1) by (simp add: names_def)
  then have ne: "sort_key collate (names ts) \<noteq> []" "names us \<noteq> []"
    using perm by (metis set_empty set_sort, metis mset_zero_iff set_empty)
  show ?thesis
    using types_read_back [of "sort_key collate (names ts)" ts] types_read_back [of "names us" us] ne perm by (simp add: names_def)
qed

text \<open>One goal transaction, from the view and computed.\<close>

lemma group_shown_alike:
  assumes rows: "rs \<noteq> []" "mset us = mset rs"
    and same: "\<forall>r \<in> set rs. report_key_of r = k \<and> f_transactionId (rr_txn r) = i \<and> f_source (rr_txn r) = s"
    and ids: "\<forall>r \<in> set rs. cl_id (rr_client r) = f_clientId (rr_txn r) \<and> ac_id (rr_account r) = f_accountId (rr_txn r) \<and>
      go_id (rr_goal r) = f_goalId (rr_txn r)"
  shows "up_to_types (shown_transaction (view_row_of collate (k, rs))) = up_to_types (computed_summary (fst k, us))"
proof -
  obtain code day ci cn ai an gi gn gt where k: "k = (code, day, (ci, cn), (ai, an), (gi, gn, gt))" by (metis surj_pair)
  have "hd us \<in> set rs" using rows by (metis hd_in_set set_mset_mset mset_zero_iff)
  then have hd: "report_key_of (hd us) = k" "f_transactionId (rr_txn (hd us)) = i" "f_source (rr_txn (hd us)) = s"
    "cl_id (rr_client (hd us)) = f_clientId (rr_txn (hd us))" "ac_id (rr_account (hd us)) = f_accountId (rr_txn (hd us))"
    "go_id (rr_goal (hd us)) = f_goalId (rr_txn (hd us))"
    using same ids by auto
  have ts: "mset (map rr_txn rs) = mset (map rr_txn us)" using rows(2) by simp
  have txn: "min_given collate (List.map_filter f_transactionId (map rr_txn rs)) = i"
    using min_given_const [of "map rr_txn rs" f_transactionId i collate "\<lambda>x. x"] rows(1) same by (simp add: option.map_ident)
  have src: "min_given collate (map source_text (List.map_filter f_source (map rr_txn rs))) = map_option source_text s"
    using min_given_const [of "map rr_txn rs" f_source s collate source_text] rows(1) same by simp
  have sums: "sum_list (map f_amount (map rr_txn rs)) = sum_list (map f_amount (map rr_txn us))"
    "sum_list (map f_units (map rr_txn rs)) = sum_list (map f_units (map rr_txn us))"
    "amounts_of (map rr_txn rs) = amounts_of (map rr_txn us)" "length (map rr_txn rs) = length (map rr_txn us)"
    "length (filter (\<lambda>t. f_transactionType t = DEPOSIT) (map rr_txn rs)) = length (filter (\<lambda>t. f_transactionType t = DEPOSIT) (map rr_txn us))"
    "length (filter (\<lambda>t. f_transactionType t = WITHDRAWAL) (map rr_txn rs)) = length (filter (\<lambda>t. f_transactionType t = WITHDRAWAL) (map rr_txn us))"
    using sum_list_map_mset [OF ts] amounts_of_mset [OF ts] length_filter_mset [OF ts] arg_cong [OF ts, of size] by simp_all
  have types: "mset (split_on CHR '','' (gt_types (view_row_of collate (k, rs)))) = mset (split_on CHR '','' (gt_types (computed_summary (fst k, us))))"
    using same_types [OF _ ts, of collate] rows(1) by (simp add: view_row_of_def computed_summary_def k Let_def comp_def)
  have "(shown_transaction (view_row_of collate (k, rs)))\<lparr>gt_types := []\<rparr> = (computed_summary (fst k, us))\<lparr>gt_types := []\<rparr>"
    using hd unfolding k
    by (simp add: view_row_of_def computed_summary_def shown_transaction_def report_key_of_def Let_def txn src
        del: map_map length_map filter_map length_filter_map) (simp only: sums simp_thms)
  moreover have "gt_types (shown_transaction g) = gt_types g" for g by (simp add: shown_transaction_def)
  ultimately show ?thesis unfolding up_to_types_def by (simp only: types)
qed

lemma consistent_rows:
  assumes "codes_agree db" "r \<in> set (report_rows db)" "s \<in> set (report_rows db)"
    "f_goalTransactionCode (rr_txn r) = f_goalTransactionCode (rr_txn s)"
  shows "report_key_of r = report_key_of s" "f_transactionId (rr_txn r) = f_transactionId (rr_txn s)"
    "f_source (rr_txn r) = f_source (rr_txn s)"
  using assms(1) [unfolded codes_agree_def list_all_iff, THEN bspec, OF assms(2), THEN bspec, OF assms(3), THEN mp, OF assms(4)]
  by blast+

lemma key_code: "fst (report_key_of r) = f_goalTransactionCode (rr_txn r)"
  by (simp add: report_key_of_def)

lemma computed_as_map:
  fixes db :: registry_db
  defines "R' \<equiv> sort_key (\<lambda>r. - iso_day (f_transactionDate (rr_txn r))) (report_rows db)"
  shows "get_goal_transactions_computed no_report_filter db =
    map (\<lambda>c. computed_summary (c, filter (\<lambda>r. f_goalTransactionCode (rr_txn r) = c) R'))
      (map fst (group_by (\<lambda>r. f_goalTransactionCode (rr_txn r)) R'))"
proof -
  have "computed_rows no_report_filter db = R'"
    by (simp add: computed_rows_def computed_wanted_def no_report_filter_def equals_given_def R'_def optional_drop_def Let_def)
  then show ?thesis
    unfolding get_goal_transactions_computed_def group_by_code_def by (subst group_by_as_map) (simp add: comp_def)
qed

lemma listed_view:
  fixes db :: registry_db
  defines "R \<equiv> report_rows db"
  shows "mset (the (list_goal_transactions ilike no_report_filter (goal_transactions_view collate db))) =
    mset (map (\<lambda>k. shown_transaction (view_row_of collate (k, filter (\<lambda>r. report_key_of r = k) R)))
      (map fst (group_by report_key_of R)))"
proof -
  have "report_wanted ilike no_report_filter g" for g
    by (simp add: report_wanted_def no_report_filter_def equals_given_def report_search_def)
  then have "the (list_goal_transactions ilike no_report_filter v) = map shown_transaction (sort_key (\<lambda>g. - gt_day g) v)" for v
    by (simp add: list_goal_transactions_def unknown_column_def optional_take_def optional_drop_def selected_transactions_def
        no_report_filter_def)
  then have "mset (the (list_goal_transactions ilike no_report_filter (goal_transactions_view collate db))) =
      mset (map shown_transaction (goal_transactions_view collate db))" by simp
  moreover have "goal_transactions_view collate db =
      map (\<lambda>k. view_row_of collate (k, filter (\<lambda>r. report_key_of r = k) R)) (map fst (group_by report_key_of R))"
    unfolding goal_transactions_view_def R_def by (subst group_by_as_map) (simp add: comp_def)
  ultimately show ?thesis by (simp add: comp_def del: mset_map)
qed

text \<open>With consistent codes the keys of the view are the codes.\<close>

lemma keys_are_codes:
  assumes "codes_agree db" and "set R' = set (report_rows db)"
  shows "mset (map fst (map fst (group_by report_key_of (report_rows db)))) =
    mset (map fst (group_by (\<lambda>r. f_goalTransactionCode (rr_txn r)) R'))"
    (is "mset (map fst ?K) = mset ?C")
proof (intro set_eq_iff_mset_eq_distinct [THEN iffD1])
  have keys: "set ?K = report_key_of ` set (report_rows db)" by simp
  have "inj_on fst (set ?K)"
  proof (rule inj_onI)
    fix k l
    assume "k \<in> set ?K" "l \<in> set ?K" and same_code: "fst k = fst l"
    then obtain r s where r: "r \<in> set (report_rows db)" "k = report_key_of r"
      and s: "s \<in> set (report_rows db)" "l = report_key_of s"
      unfolding keys by blast
    from same_code have "f_goalTransactionCode (rr_txn r) = f_goalTransactionCode (rr_txn s)" by (simp add: r s key_code)
    then show "k = l" unfolding r(2) s(2) by (rule consistent_rows(1) [OF assms(1) r(1) s(1)])
  qed
  moreover have "distinct ?K" by (rule distinct_keys_group_by)
  ultimately show "distinct (map fst ?K)" by (simp only: distinct_map [of fst ?K])
  have "fst ` set ?K = set ?C" unfolding keys by (simp add: assms(2) image_image key_code)
  then show "set (map fst ?K) = set ?C" by (simp only: set_map [of fst])
qed simp

lemma view_row_computed:
  assumes consistent: "codes_agree db" and perm: "mset R' = mset (report_rows db)"
    and k: "k \<in> set (map fst (group_by report_key_of (report_rows db)))"
  shows "up_to_types (shown_transaction (view_row_of collate (k, filter (\<lambda>r. report_key_of r = k) (report_rows db)))) =
    up_to_types (computed_summary (fst k, filter (\<lambda>r. f_goalTransactionCode (rr_txn r) = fst k) R'))"
proof -
  let ?code = "\<lambda>r. f_goalTransactionCode (rr_txn r)" and ?R = "report_rows db"
  from k have "k \<in> report_key_of ` set ?R" by simp
  then obtain r where r: "r \<in> set ?R" "report_key_of r = k" by blast
  have rows: "filter (\<lambda>r. report_key_of r = k) ?R = filter (\<lambda>r. ?code r = fst k) ?R"
    using consistent_rows(1) [OF consistent _ r(1)] r(2) by (intro filter_cong) (auto simp: key_code [symmetric])
  show ?thesis unfolding rows
  proof (rule group_shown_alike)
    show "filter (\<lambda>r. ?code r = fst k) ?R \<noteq> []" using r by (auto simp: filter_empty_conv key_code [symmetric])
    show "mset (filter (\<lambda>r. ?code r = fst k) R') = mset (filter (\<lambda>r. ?code r = fst k) ?R)" using perm by simp
    show "\<forall>s \<in> set (filter (\<lambda>r. ?code r = fst k) ?R). report_key_of s = k \<and>
        f_transactionId (rr_txn s) = f_transactionId (rr_txn r) \<and> f_source (rr_txn s) = f_source (rr_txn r)"
      using consistent_rows [OF consistent _ r(1)] r(2) by (auto simp: key_code [symmetric])
    show "\<forall>r \<in> set (filter (\<lambda>r. ?code r = fst k) ?R). cl_id (rr_client r) = f_clientId (rr_txn r) \<and>
        ac_id (rr_account r) = f_accountId (rr_txn r) \<and> go_id (rr_goal r) = f_goalId (rr_txn r)"
      using report_row_ids by auto
  qed
qed

text \<open>C36: the two ways to list goal transactions agree. Computed from all fund transactions they are the rows of the
  view, with all their columns, up to the order in which the types of a row are named, provided all transactions of a code share
  their day, client, account, goal, source and bank transaction id. The day, client, account and goal are part of the view's
  grouping, and a refresh needs them unique per code, since the code is a unique index of it; of the source and the
  transaction id the view shows the least of a code, the computed report that of the newest transaction, so it needs them equal too.\<close>

theorem computed_agrees_with_view:
  assumes "codes_agree db"
  shows "mset (map up_to_types (get_goal_transactions_computed no_report_filter db)) =
    mset (map up_to_types (the (list_goal_transactions ilike no_report_filter (goal_transactions_view collate db))))"
proof -
  define R' where "R' = sort_key (\<lambda>r. - iso_day (f_transactionDate (rr_txn r))) (report_rows db)"
  have perm: "mset R' = mset (report_rows db)" by (simp add: R'_def)
  let ?K = "map fst (group_by report_key_of (report_rows db))"
  let ?g = "\<lambda>c. up_to_types (computed_summary (c, filter (\<lambda>r. f_goalTransactionCode (rr_txn r) = c) R'))"
  have "mset (map up_to_types (the (list_goal_transactions ilike no_report_filter (goal_transactions_view collate db)))) =
      mset (map (\<lambda>k. up_to_types (shown_transaction
        (view_row_of collate (k, filter (\<lambda>r. report_key_of r = k) (report_rows db))))) ?K)"
    unfolding mset_map [of up_to_types] listed_view by (simp add: image_mset.compositionality comp_def)
  also have "\<dots> = mset (map (\<lambda>k. ?g (fst k)) ?K)"
    by (rule arg_cong [of _ _ mset], rule map_cong [OF refl], rule view_row_computed [OF assms perm])
  also have "\<dots> = image_mset ?g (mset (map fst ?K))" by (simp add: image_mset.compositionality comp_def)
  also have "\<dots> = image_mset ?g (mset (map fst (group_by (\<lambda>r. f_goalTransactionCode (rr_txn r)) R')))"
    unfolding keys_are_codes [OF assms mset_eq_setD [OF perm]] ..
  also have "\<dots> = mset (map up_to_types (get_goal_transactions_computed no_report_filter db))"
    unfolding computed_as_map R'_def by (simp add: image_mset.compositionality comp_def)
  finally show ?thesis ..
qed

theorem computed_agrees_with_view_witness:
  "mset (map up_to_types (get_goal_transactions_computed no_report_filter ex_reg_db)) =
   mset (map up_to_types (the (list_goal_transactions (\<lambda>_ _. True) no_report_filter (goal_transactions_view length ex_reg_db)))) \<and>
   length (get_goal_transactions_computed no_report_filter ex_reg_db) = 1"
proof
  have rows: "codes_agree ex_reg_db" "length (get_goal_transactions_computed no_report_filter ex_reg_db) = 1"
    by code_simp+
  show "mset (map up_to_types (get_goal_transactions_computed no_report_filter ex_reg_db)) =
      mset (map up_to_types (the (list_goal_transactions (\<lambda>_ _. True) no_report_filter (goal_transactions_view length ex_reg_db))))"
    by (rule computed_agrees_with_view [OF rows(1)])
  show "length (get_goal_transactions_computed no_report_filter ex_reg_db) = 1" by (rule rows(2))
qed

section \<open>The export\<close>

definition export_safe :: "goal_transaction \<Rightarrow> bool" where
  "export_safe g = list_all (\<lambda>s. CHR '','' \<notin> set s \<and> CHR 10 \<notin> set s)
     [gt_clientName g, gt_accountNumber g, gt_goalTitle g, gt_goalNumber g]"

lemma digits_no_newline [simp]: "CHR 10 \<notin> set (nat_digits n)"
  using nat_digits_digits by (fastforce simp: is_digit_def)

lemma pad_no_separator [simp]:
  "CHR '','' \<notin> set (pad2 n)" "CHR 10 \<notin> set (pad2 n)"
  "CHR '','' \<notin> set (pad_start k (nat_digits n))" "CHR 10 \<notin> set (pad_start k (nat_digits n))"
  by (auto simp: pad2_def pad_start_def Let_def)

lemma export_fields_safe:
  "export_safe g \<Longrightarrow> w \<in> set (export_fields g) \<Longrightarrow> CHR '','' \<notin> set w \<and> CHR 10 \<notin> set w"
  by (auto simp: export_fields_def export_safe_def to_fixed2_def iso_date_def Let_def)

lemma export_fields_nonempty: "export_fields g \<noteq> []"
  by (simp add: export_fields_def)

lemma export_headers_safe:
  "export_headers \<noteq> [] \<and> (\<forall>w \<in> set export_headers. CHR '','' \<notin> set w \<and> CHR 10 \<notin> set w)"
  by (simp add: export_headers_def)

lemma cut_subset: "x \<in> set (optional_take m (optional_drop n xs)) \<Longrightarrow> x \<in> set xs"
  by (auto simp: optional_take_def optional_drop_def split: option.splits if_splits dest: in_set_takeD in_set_dropD)

text \<open>The exported report can be read back: splitting the file into lines and the lines at commas gives the
  header and the ten fields of each listed goal transaction, in order, provided no name, number or title contains a comma or a line
  feed. (Fields are not quoted.)\<close>

theorem export_read_back:
  assumes csv: "export_goal_transactions_csv ilike q view = Some csv" and safe: "list_all export_safe view"
  shows "map (split_on CHR '','') (split_on (CHR 10) csv) =
    export_headers # map export_fields (the (list_goal_transactions ilike q view))"
proof -
  obtain gts where gts: "list_goal_transactions ilike q view = Some gts"
    using csv by (auto simp: export_goal_transactions_csv_def)
  let ?rows = "export_headers # map export_fields gts"
  have csv_eq: "csv = join_with (CHR 10) (map (join_with CHR '','') ?rows)"
    using csv by (simp add: export_goal_transactions_csv_def gts comp_def)
  have "export_safe g" if "g \<in> set gts" for g
  proof -
    have "gts = map shown_transaction (optional_take (gq_limit q) (optional_drop (gq_offset q) (selected_transactions ilike q view)))"
      using gts by (simp add: list_goal_transactions_def split: if_splits)
    with that obtain h where "h \<in> set (selected_transactions ilike q view)" "g = shown_transaction h"
      using cut_subset by fastforce
    with safe show ?thesis by (auto simp: selected_transactions_def list_all_iff export_safe_def shown_transaction_def)
  qed
  then have "\<forall>r \<in> set (map export_fields gts). r \<noteq> [] \<and> (\<forall>w \<in> set r. CHR '','' \<notin> set w \<and> CHR 10 \<notin> set w)"
    using export_fields_safe by (auto simp only: set_map export_fields_nonempty)
  then have safe_words: "\<forall>r \<in> set ?rows. r \<noteq> [] \<and> (\<forall>w \<in> set r. CHR '','' \<notin> set w \<and> CHR 10 \<notin> set w)"
    using export_headers_safe by (simp del: set_map)
  have "CHR 10 \<notin> set (join_with CHR '','' r)" if "r \<in> set ?rows" for r
    using safe_words that by (intro notin_join) auto
  then have "split_on (CHR 10) csv = map (join_with CHR '','') ?rows"
    unfolding csv_eq by (intro split_on_join) auto
  moreover have "map (\<lambda>r. split_on CHR '','' (join_with CHR '','' r)) ?rows = ?rows"
    using safe_words by (intro map_idI split_on_join) auto
  ultimately show ?thesis by (simp only: map_map comp_def gts option.sel)
qed

theorem export_read_back_witness:
  "map (split_on CHR '','')
      (split_on (CHR 10) (the (export_goal_transactions_csv (\<lambda>_ _. True) no_report_filter (goal_transactions_view length ex_reg_db)))) =
   [export_headers, [''1970-01-01'', ''Doe'', ''1'', ''House'', ''1a'', ''2.00'', ''0.00'', ''2.00'', ''0.00'', ''0.00'']]"
proof -
  let ?v = "goal_transactions_view length ex_reg_db"
  have view: "list_all export_safe ?v"
    "map export_fields (the (list_goal_transactions (\<lambda>_ _. True) no_report_filter ?v)) =
      [[''1970-01-01'', ''Doe'', ''1'', ''House'', ''1a'', ''2.00'', ''0.00'', ''2.00'', ''0.00'', ''0.00'']]"
    by code_simp+
  have "export_goal_transactions_csv (\<lambda>_ _. True) no_report_filter ?v =
      Some (the (export_goal_transactions_csv (\<lambda>_ _. True) no_report_filter ?v))"
    by (simp add: export_goal_transactions_csv_def list_goal_transactions_def unknown_column_def no_report_filter_def)
  from export_read_back [OF this view(1)] show ?thesis unfolding view(2) .
qed

end
