(* ===== verification/GoalComparison.thy ===== *)
theory GoalComparison
  imports VarianceList Calendar BankStore
begin

text \<open>
  The endpoints of \<open>goalComparisonRoutes.ts\<close> over the operations of \<open>SmartMatcher\<close>: the overviews with their totals and
  pages, the transactions of a goal with their matches, the exports, and the requests that review, match and link. How a number is
  printed is the parameter \<open>show\<close>; the current day and time are arguments.
\<close>

section \<open>Periods and pages\<close>

text \<open>\<open>parseInt(text) || d\<close>: \<open>None\<close> stands for \<open>NaN\<close>.\<close>

definition int_or :: "int option \<Rightarrow> int \<Rightarrow> int" where
  "int_or v d = (case v of None \<Rightarrow> d | Some k \<Rightarrow> if k = 0 then d else k)"

text \<open>By default the last thirty days.\<close>

definition comparison_period :: "int \<Rightarrow> int option \<Rightarrow> int option \<Rightarrow> int \<times> int" where
  "comparison_period today startDate endDate =
     (let e = (case endDate of None \<Rightarrow> today | Some d \<Rightarrow> d)
      in ((case startDate of None \<Rightarrow> e - 30 | Some d \<Rightarrow> d), e))"

text \<open>\<open>xs.slice(start, end)\<close>: negative positions cnt from the end.\<close>

definition slice_position :: "nat \<Rightarrow> int \<Rightarrow> nat" where
  "slice_position n i = (if i < 0 then nat (int n + i) else min (nat i) n)"

definition js_slice :: "'a list \<Rightarrow> int \<Rightarrow> int \<Rightarrow> 'a list" where
  "js_slice xs start stop =
     (let a = slice_position (length xs) start; b = slice_position (length xs) stop in take (b - a) (drop a xs))"

definition paginated :: "int \<Rightarrow> int \<Rightarrow> 'a list \<Rightarrow> 'a list" where
  "paginated page limit xs = (let skip = (page - 1) * limit in js_slice xs skip (skip + limit))"

definition total_pages :: "nat \<Rightarrow> int \<Rightarrow> int" where
  "total_pages n limit = \<lceil>rat_of_nat n / rat_of_int limit\<rceil>"

definition match_rate :: "nat \<Rightarrow> nat \<Rightarrow> rat" where
  "match_rate matched n =
     (if n > 0 then rat_of_int (js_round (rat_of_nat matched / rat_of_nat n * 10000)) / 100 else 0)"

record overview_query =
  gc_start :: "int option"
  gc_end :: "int option"
  gc_search :: "string option"
  gc_page :: "int option"
  gc_limit :: "int option"

record 'a overview_page =
  gp_data :: "'a list"
  gp_page :: int
  gp_limit :: int
  gp_total :: nat
  gp_pages :: int

definition overview_page_of :: "overview_query \<Rightarrow> 'a list \<Rightarrow> nat \<Rightarrow> 'a overview_page" where
  "overview_page_of q rows cnt =
     (let page = int_or (gc_page q) 1; limit = int_or (gc_limit q) 50
      in \<lparr>gp_data = paginated page limit rows, gp_page = page, gp_limit = limit, gp_total = cnt, gp_pages = total_pages cnt limit\<rparr>)"

section \<open>The overview by goal\<close>

record goal_totals =
  ot_bankDeposits :: money
  ot_goalDeposits :: money
  ot_bankWithdrawals :: money
  ot_goalWithdrawals :: money
  ot_matched :: nat
  ot_variance :: nat

definition add_goal_row :: "goal_totals \<Rightarrow> goal_summary \<Rightarrow> goal_totals" where
  "add_goal_row t r =
     \<lparr>ot_bankDeposits = ot_bankDeposits t + gs_bankDeposits r, ot_goalDeposits = ot_goalDeposits t + gs_goalDeposits r,
      ot_bankWithdrawals = ot_bankWithdrawals t + gs_bankWithdrawals r,
      ot_goalWithdrawals = ot_goalWithdrawals t + gs_goalWithdrawals r,
      ot_matched = ot_matched t + (if gs_status r = SS_MATCHED then 1 else 0),
      ot_variance = ot_variance t + (if gs_status r = SS_MATCHED then 0 else 1)\<rparr>"

record goal_aggregates =
  gg_totals :: goal_totals
  gg_depositVariance :: money
  gg_withdrawalVariance :: money
  gg_matchRate :: rat

definition goal_aggregates_of :: "goal_summary list \<Rightarrow> nat \<Rightarrow> goal_aggregates" where
  "goal_aggregates_of rows cnt =
     (let t = foldl add_goal_row \<lparr>ot_bankDeposits = 0, ot_goalDeposits = 0, ot_bankWithdrawals = 0, ot_goalWithdrawals = 0,
            ot_matched = 0, ot_variance = 0\<rparr> rows
      in \<lparr>gg_totals = t, gg_depositVariance = ot_bankDeposits t - ot_goalDeposits t,
          gg_withdrawalVariance = ot_bankWithdrawals t - ot_goalWithdrawals t, gg_matchRate = match_rate (ot_matched t) cnt\<rparr>)"

definition goal_comparison ::
    "(string \<Rightarrow> string \<Rightarrow> bool) \<Rightarrow> (string \<Rightarrow> nat) \<Rightarrow> int \<Rightarrow> overview_query \<Rightarrow> goal_filter \<Rightarrow> database
       \<Rightarrow> goal_summary overview_page \<times> goal_aggregates" where
  "goal_comparison ilike collate today q flt db =
     (let (s, e) = comparison_period today (gc_start q) (gc_end q);
          (rows, cnt) = get_goal_summary ilike collate db s e (gc_search q) flt
      in (overview_page_of q rows cnt, goal_aggregates_of rows cnt))"

section \<open>The overviews by fund\<close>

definition plus_sums :: "fund_sums \<Rightarrow> fund_sums \<Rightarrow> fund_sums" where
  "plus_sums a b = \<lparr>fs_xummf = fs_xummf a + fs_xummf b, fs_xubf = fs_xubf a + fs_xubf b,
     fs_xudef = fs_xudef a + fs_xudef b, fs_xuref = fs_xuref a + fs_xuref b, fs_total = fs_total a + fs_total b\<rparr>"

record fund_totals =
  ft_bank :: fund_sums
  ft_goal :: fund_sums
  ft_matched :: nat
  ft_variance :: nat

definition no_fund_totals :: fund_totals where
  "no_fund_totals = \<lparr>ft_bank = zero_sums, ft_goal = zero_sums, ft_matched = 0, ft_variance = 0\<rparr>"

definition count_status :: "summary_status \<Rightarrow> fund_totals \<Rightarrow> fund_totals" where
  "count_status st t =
     t\<lparr>ft_matched := ft_matched t + (if st = SS_MATCHED then 1 else 0), ft_variance := ft_variance t + (if st = SS_MATCHED then 0 else 1)\<rparr>"

definition add_fund_row :: "fund_totals \<Rightarrow> fund_summary \<Rightarrow> fund_totals" where
  "add_fund_row t r =
     count_status (fu_status r) (t\<lparr>ft_bank := plus_sums (ft_bank t) (fu_bank r), ft_goal := plus_sums (ft_goal t) (fu_goal r)\<rparr>)"

record fund_aggregates =
  fg_totals :: fund_totals
  fg_variance :: fund_sums
  fg_matchRate :: rat

definition fund_aggregates_of :: "fund_totals \<Rightarrow> nat \<Rightarrow> fund_aggregates" where
  "fund_aggregates_of t cnt =
     \<lparr>fg_totals = t, fg_variance = sub_sums (ft_bank t) (ft_goal t), fg_matchRate = match_rate (ft_matched t) cnt\<rparr>"

definition fund_comparison ::
    "(string \<Rightarrow> string \<Rightarrow> bool) \<Rightarrow> (string \<Rightarrow> nat) \<Rightarrow> int \<Rightarrow> overview_query \<Rightarrow> fund_filter \<Rightarrow> database
       \<Rightarrow> fund_summary overview_page \<times> fund_aggregates" where
  "fund_comparison ilike collate today q flt db =
     (let (s, e) = comparison_period today (gc_start q) (gc_end q);
          (rows, cnt) = get_fund_summary ilike collate db s e (gc_search q) flt
      in (overview_page_of q rows cnt, fund_aggregates_of (foldl add_fund_row no_fund_totals rows) cnt))"

record account_totals =
  at_funds :: fund_totals
  at_goals :: nat
  at_matchedGoals :: nat
  at_varianceGoals :: nat

definition add_account_row :: "account_totals \<Rightarrow> account_summary \<Rightarrow> account_totals" where
  "add_account_row t r =
     (let f = at_funds t
      in \<lparr>at_funds = count_status (as_status r) (f\<lparr>ft_bank := plus_sums (ft_bank f) (as_bank r), ft_goal := plus_sums (ft_goal f) (as_goal r)\<rparr>),
          at_goals = at_goals t + as_goalCount r, at_matchedGoals = at_matchedGoals t + as_matchedGoals r,
          at_varianceGoals = at_varianceGoals t + as_varianceGoals r\<rparr>)"

record account_aggregates =
  aa_funds :: fund_aggregates
  aa_goals :: nat
  aa_matchedGoals :: nat
  aa_varianceGoals :: nat

definition account_comparison ::
    "(string \<Rightarrow> string \<Rightarrow> bool) \<Rightarrow> (string \<Rightarrow> nat) \<Rightarrow> int \<Rightarrow> overview_query \<Rightarrow> fund_filter \<Rightarrow> database
       \<Rightarrow> account_summary overview_page \<times> account_aggregates" where
  "account_comparison ilike collate today q flt db =
     (let (s, e) = comparison_period today (gc_start q) (gc_end q);
          (rows, cnt) = get_account_fund_summary ilike collate db s e (gc_search q) flt;
          t = foldl add_account_row \<lparr>at_funds = no_fund_totals, at_goals = 0, at_matchedGoals = 0, at_varianceGoals = 0\<rparr> rows
      in (overview_page_of q rows cnt,
          \<lparr>aa_funds = fund_aggregates_of (at_funds t) cnt, aa_goals = at_goals t, aa_matchedGoals = at_matchedGoals t,
           aa_varianceGoals = at_varianceGoals t\<rparr>))"

section \<open>The exports\<close>

definition status_text :: "summary_status \<Rightarrow> string" where
  "status_text s = (case s of SS_MATCHED \<Rightarrow> ''MATCHED'' | SS_VARIANCE \<Rightarrow> ''VARIANCE'')"

text \<open>\<^verbatim>\<open>"${name}"\<close>: quoted, quotation marks inside are not doubled.\<close>

definition quoted :: "string \<Rightarrow> string" where
  "quoted s = CHR 34 # s @ [CHR 34]"

definition fund_export_headers :: "string list" where
  "fund_export_headers = [''Goal Number'', ''Client Name'', ''Account Number'', ''Bank XUMMF'', ''Goal XUMMF'', ''XUMMF Variance'',
     ''Bank XUBF'', ''Goal XUBF'', ''XUBF Variance'', ''Bank XUDEF'', ''Goal XUDEF'', ''XUDEF Variance'',
     ''Bank XUREF'', ''Goal XUREF'', ''XUREF Variance'', ''Bank Total'', ''Goal Total'', ''Total Variance'', ''Status'']"

definition fund_export_row :: "(rat \<Rightarrow> string) \<Rightarrow> fund_summary \<Rightarrow> string list" where
  "fund_export_row show r =
     [gl_number (fu_label r), quoted (gl_client (fu_label r)), gl_account (fu_label r)] @
     concat (map (\<lambda>col. [show (col (fu_bank r)), show (col (fu_goal r)), show (col (fu_variance r))])
       [fs_xummf, fs_xubf, fs_xudef, fs_xuref, fs_total]) @ [status_text (fu_status r)]"

definition goal_export_headers :: "string list" where
  "goal_export_headers = [''Goal Number'', ''Client Name'', ''Account Number'', ''Bank Deposits'', ''Goal Txn Deposits'',
     ''Deposit Variance'', ''Deposit Bank Count'', ''Deposit Goal Txn Count'', ''Bank Withdrawals'', ''Goal Txn Withdrawals'',
     ''Withdrawal Variance'', ''Withdrawal Bank Count'', ''Withdrawal Goal Txn Count'', ''Status'']"

definition goal_export_row :: "(rat \<Rightarrow> string) \<Rightarrow> goal_summary \<Rightarrow> string list" where
  "goal_export_row show r =
     [gl_number (gs_label r), quoted (gl_client (gs_label r)), gl_account (gs_label r),
      show (gs_bankDeposits r), show (gs_goalDeposits r), show (gs_depositVariance r),
      nat_digits (gs_depositBankCount r), nat_digits (gs_depositGoalCount r),
      show (gs_bankWithdrawals r), show (gs_goalWithdrawals r), show (gs_withdrawalVariance r),
      nat_digits (gs_withdrawalBankCount r), nat_digits (gs_withdrawalGoalCount r), status_text (gs_status r)]"

definition csv_text :: "string list \<Rightarrow> string list list \<Rightarrow> string" where
  "csv_text headers rows = join_with (CHR 10) (map (join_with CHR '','') (headers # rows))"

definition export_goal_comparison ::
    "(string \<Rightarrow> string \<Rightarrow> bool) \<Rightarrow> (string \<Rightarrow> nat) \<Rightarrow> (rat \<Rightarrow> string) \<Rightarrow> int \<Rightarrow> overview_query \<Rightarrow> goal_filter \<Rightarrow> database \<Rightarrow> string" where
  "export_goal_comparison ilike collate show today q flt db =
     (let (s, e) = comparison_period today (gc_start q) (gc_end q)
      in csv_text goal_export_headers (map (goal_export_row show) (fst (get_goal_summary ilike collate db s e (gc_search q) flt))))"

definition export_fund_comparison ::
    "(string \<Rightarrow> string \<Rightarrow> bool) \<Rightarrow> (string \<Rightarrow> nat) \<Rightarrow> (rat \<Rightarrow> string) \<Rightarrow> int \<Rightarrow> overview_query \<Rightarrow> fund_filter \<Rightarrow> database \<Rightarrow> string" where
  "export_fund_comparison ilike collate show today q flt db =
     (let (s, e) = comparison_period today (gc_start q) (gc_end q)
      in csv_text fund_export_headers (map (fund_export_row show) (fst (get_fund_summary ilike collate db s e (gc_search q) flt))))"

section \<open>The transactions of a goal\<close>

record bank_view =
  bv_row :: bank_txn
  bv_match :: "match_result option"

record goal_txn_view =
  gv_group :: fund_group
  gv_match :: "match_result option"

record view_counts =
  vw_bank :: nat
  vw_goal :: nat
  vw_matchedBank :: nat
  vw_matchedGoal :: nat
  vw_unmatchedBank :: nat
  vw_unmatchedGoal :: nat
  vw_exact :: nat
  vw_amount :: nat
  vw_split :: nat

record goal_view =
  gw_goalNumber :: string
  gw_bank :: "bank_view list"
  gw_goal :: "goal_txn_view list"
  gw_matches :: "match_result list"
  gw_summary :: view_counts

definition view_period :: "instant \<Rightarrow> instant option \<Rightarrow> instant option \<Rightarrow> instant \<times> instant" where
  "view_period now startDate endDate =
     (let e = (case endDate of None \<Rightarrow> now | Some t \<Rightarrow> t)
      in ((case startDate of None \<Rightarrow> e - 30 * ms_per_day | Some t \<Rightarrow> t), e))"

definition bank_view_of :: "match_result list \<Rightarrow> bank_txn \<Rightarrow> bank_view" where
  "bank_view_of matches b = \<lparr>bv_row = b, bv_match = List.find (\<lambda>m. b_id b \<in> set (m_bankIds m)) matches\<rparr>"

definition goal_txn_view_of :: "match_result list \<Rightarrow> fund_group \<Rightarrow> goal_txn_view" where
  "goal_txn_view_of matches g =
     \<lparr>gv_group = g, gv_match = List.find (\<lambda>m. list_ex (\<lambda>i. i \<in> set (m_fundIds m)) (g_ids g)) matches\<rparr>"

definition view_counts_of :: "goal_answer \<Rightarrow> view_counts" where
  "view_counts_of a =
     (let of_kind = (\<lambda>P. length (filter (\<lambda>m. P (m_matchType m)) (r_matches a)))
      in \<lparr>vw_bank = length (r_bankTransactions a), vw_goal = length (r_goalTransactions a),
          vw_matchedBank = length (r_bankTransactions a) - length (r_unmatchedBank a),
          vw_matchedGoal = length (r_goalTransactions a) - length (r_unmatchedGoalTxn a),
          vw_unmatchedBank = length (r_unmatchedBank a), vw_unmatchedGoal = length (r_unmatchedGoalTxn a),
          vw_exact = of_kind (\<lambda>t. t = EXACT), vw_amount = of_kind (\<lambda>t. t = AMOUNT),
          vw_split = of_kind (\<lambda>t. prefix ''SPLIT'' (match_type_name t))\<rparr>)"

definition goal_view_of :: "string \<Rightarrow> goal_answer \<Rightarrow> goal_view" where
  "goal_view_of n a =
     \<lparr>gw_goalNumber = n, gw_bank = map (bank_view_of (r_matches a)) (r_bankTransactions a),
      gw_goal = map (goal_txn_view_of (r_matches a)) (r_goalTransactions a), gw_matches = r_matches a,
      gw_summary = view_counts_of a\<rparr>"

text \<open>Reading the transactions of a goal stores the matches it finds.\<close>

definition view_goal_transactions ::
    "bool \<Rightarrow> instant \<Rightarrow> string \<Rightarrow> instant option \<Rightarrow> instant option \<Rightarrow> transaction_type option \<Rightarrow> database \<Rightarrow> goal_view \<times> database" where
  "view_goal_transactions keeps_null now n startDate endDate ttype db =
     (let (s, e) = view_period now startDate endDate; (a, db') = get_goal_transactions keeps_null now db n s e ttype
      in (goal_view_of n a, db'))"

section \<open>The variances\<close>

definition variance_page ::
    "(string \<Rightarrow> nat) \<Rightarrow> (string \<Rightarrow> nat) \<Rightarrow> int \<Rightarrow> overview_query \<Rightarrow> variance_filters \<Rightarrow> database
       \<Rightarrow> variance_row overview_page \<times> variance_counts" where
  "variance_page collate locale_rank today q flt db =
     (let (s, e) = comparison_period today (gc_start q) (gc_end q);
          (rows, cnt) = get_variance_transactions collate locale_rank db s e (flt\<lparr>vf_search := gc_search q\<rparr>)
      in (overview_page_of q rows (length rows), cnt))"

text \<open>A cell of the exported workbook.\<close>

datatype sheet_value = Text_Cell string | Number_Cell rat

definition spaced :: "string \<Rightarrow> string" where
  "spaced s = map (\<lambda>c. if c = CHR ''_'' then CHR '' '' else c) s"

definition text_or_empty :: "string option \<Rightarrow> sheet_value" where
  "text_or_empty v = Text_Cell (case v of None \<Rightarrow> [] | Some s \<Rightarrow> s)"

definition clock_time :: "instant \<Rightarrow> string" where
  "clock_time t =
     (let s = nat (t mod ms_per_day div 1000)
      in pad2 (s div 3600) @ '':'' @ pad2 (s div 60 mod 60) @ '':'' @ pad2 (s mod 60))"

definition side_name :: "variance_side \<Rightarrow> string" where
  "side_name s = (case s of BANK_SIDE \<Rightarrow> ''BANK'' | GOAL_SIDE \<Rightarrow> ''GOAL'')"

definition variance_columns :: "string list" where
  "variance_columns = [''Source'', ''Goal Number'', ''Client Name'', ''Account Number'', ''Transaction Date'', ''Type'', ''Amount'',
     ''XUMMF'', ''XUBF'', ''XUDEF'', ''XUREF'', ''Source Txn ID'', ''Review Tag'', ''Review Notes'', ''Reviewed By'', ''Reviewed At'']"

definition variance_cells :: "variance_row \<Rightarrow> sheet_value list" where
  "variance_cells r =
     [Text_Cell (side_name (v_source r)), Text_Cell (v_goal r), Text_Cell (v_client r), Text_Cell (v_account r),
      Text_Cell (iso_date (v_date r)), Text_Cell (type_name (v_type r)), Number_Cell (v_amount r), Number_Cell (v_xummf r),
      Number_Cell (v_xubf r), Number_Cell (v_xudef r), Number_Cell (v_xuref r), text_or_empty (v_txnId r),
      text_or_empty (map_option (spaced \<circ> tag_name) (v_reviewTag r)), text_or_empty (v_reviewNotes r), text_or_empty (v_reviewedBy r),
      text_or_empty (map_option (\<lambda>t. iso_date t @ '' '' @ clock_time t) (v_reviewedAt r))]"

definition tag_colour :: "review_tag \<Rightarrow> string option" where
  "tag_colour t = (case t of
     DUPLICATE_TRANSACTION \<Rightarrow> Some ''FFFFE0E0'' | NO_ACTION_NEEDED \<Rightarrow> Some ''FFE0FFE0'' | MISSING_IN_BANK \<Rightarrow> Some ''FFFFF0E0''
   | MISSING_IN_GOAL \<Rightarrow> Some ''FFE0F0FF'' | TIMING_DIFFERENCE \<Rightarrow> Some ''FFF0E0FF'' | AMOUNT_DISCREPANCY \<Rightarrow> Some ''FFFFFFE0''
   | DATA_ENTRY_ERROR \<Rightarrow> Some ''FFFFD0D0'' | UNDER_INVESTIGATION \<Rightarrow> Some ''FFD0D0FF'' | REVERSAL_NETTED \<Rightarrow> None)"

definition variance_summary_cells :: "string \<Rightarrow> variance_counts \<Rightarrow> (string \<times> sheet_value) list" where
  "variance_summary_cells period c =
     [(''Date Range'', Text_Cell period), (''Total Unmatched'', Number_Cell (rat_of_nat (vc_total c))),
      (''Pending Review'', Number_Cell (rat_of_nat (vc_pending c))), (''Reviewed'', Number_Cell (rat_of_nat (vc_reviewed c))),
      ([], Text_Cell []), (''By Tag:'', Text_Cell [])] @
     map (\<lambda>e. (spaced (tag_name (fst e)), Number_Cell (rat_of_nat (snd e)))) (vc_byTag c)"

record variance_workbook =
  wb_rows :: "sheet_value list list"
  wb_colours :: "string option list"
  wb_summary :: "(string \<times> sheet_value) list"

definition export_variances ::
    "(string \<Rightarrow> nat) \<Rightarrow> (string \<Rightarrow> nat) \<Rightarrow> int \<Rightarrow> overview_query \<Rightarrow> variance_filters \<Rightarrow> database \<Rightarrow> variance_workbook" where
  "export_variances collate locale_rank today q flt db =
     (let (s, e) = comparison_period today (gc_start q) (gc_end q);
          (rows, cnt) = get_variance_transactions collate locale_rank db s e (flt\<lparr>vf_search := gc_search q\<rparr>)
      in \<lparr>wb_rows = map Text_Cell variance_columns # map variance_cells rows,
          wb_colours = map (\<lambda>r. case v_reviewTag r of None \<Rightarrow> None | Some t \<Rightarrow> tag_colour t) rows,
          wb_summary = variance_summary_cells (iso_date (s * ms_per_day) @ '' to '' @ iso_date (e * ms_per_day)) cnt\<rparr>)"

section \<open>Requests that change the tables\<close>

text \<open>The body of a request: a missing field is \<open>None\<close>; an empty text counts as missing.\<close>

datatype comparison_request =
    View_Goal string "instant option" "instant option" "transaction_type option"
  | Review_Bank row_id "review_tag option" "string option" "string option"
  | Review_Goal string "review_tag option" "string option" "string option"
  | Review_Bulk "row_id list" "string list" "review_tag option" "string option" "string option"
  | Manual_Match "row_id list" "string list" "string option"
  | Remove_Match "row_id list" "string list"
  | Link_Reversal "string option" "string option" "string option"
  | Unlink_Reversal row_id

datatype comparison_reply =
    Bad_Request string
  | Service_Error match_error
  | Viewed goal_view
  | Reviewed_Bank bank_txn
  | Reviewed_Goal nat
  | Reviewed_Bulk nat nat
  | Matched manual_answer
  | Unmatched nat
  | Linked
  | Unlinked nat

definition notes_or_null :: "string option \<Rightarrow> string option" where
  "notes_or_null v = (if truthy_str v then v else None)"

definition review_bank_route ::
    "instant \<Rightarrow> database \<Rightarrow> row_id \<Rightarrow> review_tag option \<Rightarrow> string option \<Rightarrow> string option \<Rightarrow> comparison_reply \<times> database" where
  "review_bank_route now db i tag notes who =
     (if i = [] then (Bad_Request ''Transaction ID is required'', db)
      else if tag = None then (Bad_Request ''Review tag is required'', db)
      else if \<not> truthy_str who then (Bad_Request ''Reviewed by is required'', db)
      else (case review_bank_transaction now db i (the tag) (notes_or_null notes) (the who) of
              Inl fault \<Rightarrow> (Service_Error fault, db)
            | Inr (b, db') \<Rightarrow> (Reviewed_Bank b, db')))"

definition review_goal_route ::
    "instant \<Rightarrow> database \<Rightarrow> string \<Rightarrow> review_tag option \<Rightarrow> string option \<Rightarrow> string option \<Rightarrow> comparison_reply \<times> database" where
  "review_goal_route now db code tag notes who =
     (if code = [] then (Bad_Request ''Goal transaction code is required'', db)
      else if tag = None then (Bad_Request ''Review tag is required'', db)
      else if \<not> truthy_str who then (Bad_Request ''Reviewed by is required'', db)
      else (let (n, db') = review_goal_transaction now db code (the tag) (notes_or_null notes) (the who) in (Reviewed_Goal n, db')))"

definition review_bulk_route ::
    "instant \<Rightarrow> database \<Rightarrow> row_id list \<Rightarrow> string list \<Rightarrow> review_tag option \<Rightarrow> string option \<Rightarrow> string option
       \<Rightarrow> comparison_reply \<times> database" where
  "review_bulk_route now db ids codes tag notes who =
     (if tag = None then (Bad_Request ''Review tag is required'', db)
      else if \<not> truthy_str who then (Bad_Request ''Reviewed by is required'', db)
      else (let ((nb, ng), db') = bulk_review now db ids codes (the tag) (notes_or_null notes) (the who) in (Reviewed_Bulk nb ng, db')))"

definition manual_match_route ::
    "instant \<Rightarrow> database \<Rightarrow> row_id list \<Rightarrow> string list \<Rightarrow> string option \<Rightarrow> comparison_reply \<times> database" where
  "manual_match_route now db ids codes who =
     (if ids = [] then (Bad_Request ''At least one bank transaction is required'', db)
      else if codes = [] then (Bad_Request ''At least one goal transaction is required'', db)
      else if \<not> truthy_str who then (Bad_Request ''Matched by is required'', db)
      else (case create_manual_match now db ids codes of
              Inl fault \<Rightarrow> (Service_Error fault, db)
            | Inr (a, db') \<Rightarrow> (Matched a, db')))"

definition remove_match_route :: "instant \<Rightarrow> database \<Rightarrow> row_id list \<Rightarrow> string list \<Rightarrow> comparison_reply \<times> database" where
  "remove_match_route now db ids codes =
     (if ids = [] \<and> codes = [] then (Bad_Request ''At least one bank transaction or goal transaction is required'', db)
      else (let (n, db') = remove_manual_match now db ids codes in (Unmatched n, db')))"

definition link_reversal_route ::
    "instant \<Rightarrow> database \<Rightarrow> string option \<Rightarrow> string option \<Rightarrow> string option \<Rightarrow> comparison_reply \<times> database" where
  "link_reversal_route now db i1 i2 who =
     (if \<not> truthy_str i1 \<or> \<not> truthy_str i2 then (Bad_Request ''Both transaction IDs are required'', db)
      else if \<not> truthy_str who then (Bad_Request ''Linked by is required'', db)
      else (case link_reversal now db (the i1) (the i2) (the who) of
              Inl fault \<Rightarrow> (Service_Error fault, db)
            | Inr db' \<Rightarrow> (Linked, db')))"

definition unlink_reversal_route :: "instant \<Rightarrow> database \<Rightarrow> row_id \<Rightarrow> comparison_reply \<times> database" where
  "unlink_reversal_route now db i =
     (if i = [] then (Bad_Request ''Transaction ID is required'', db)
      else (case unlink_reversal now db i of
              Inl fault \<Rightarrow> (Service_Error fault, db)
            | Inr (n, db') \<Rightarrow> (Unlinked n, db')))"

lemmas comparison_routes = review_bank_route_def review_goal_route_def review_bulk_route_def manual_match_route_def
  remove_match_route_def link_reversal_route_def unlink_reversal_route_def

fun comparison_step :: "bool \<Rightarrow> instant \<Rightarrow> database \<Rightarrow> comparison_request \<Rightarrow> comparison_reply \<times> database" where
  "comparison_step keeps_null now db (View_Goal n startDate endDate ttype) =
     (let (v, db') = view_goal_transactions keeps_null now n startDate endDate ttype db in (Viewed v, db'))"
| "comparison_step keeps_null now db (Review_Bank i tag notes who) = review_bank_route now db i tag notes who"
| "comparison_step keeps_null now db (Review_Goal code tag notes who) = review_goal_route now db code tag notes who"
| "comparison_step keeps_null now db (Review_Bulk ids codes tag notes who) = review_bulk_route now db ids codes tag notes who"
| "comparison_step keeps_null now db (Manual_Match ids codes who) = manual_match_route now db ids codes who"
| "comparison_step keeps_null now db (Remove_Match ids codes) = remove_match_route now db ids codes"
| "comparison_step keeps_null now db (Link_Reversal i1 i2 who) = link_reversal_route now db i1 i2 who"
| "comparison_step keeps_null now db (Unlink_Reversal i) = unlink_reversal_route now db i"

text \<open>The states a sequence of requests leads to, each handled at a time of its own.\<close>

inductive comparison_reachable :: "bool \<Rightarrow> database \<Rightarrow> database \<Rightarrow> bool" for keeps_null db0 where
  start: "comparison_reachable keeps_null db0 db0"
| request: "comparison_reachable keeps_null db0 db \<Longrightarrow> comparison_step keeps_null now db req = (reply, db') \<Longrightarrow>
    comparison_reachable keeps_null db0 db'"

end
