(* ===== verification/GoalComparisonProperties.thy ===== *)
theory GoalComparisonProperties
  imports GoalComparison SummaryProperties SmartMatchProperties ComparisonProperties
begin

text \<open>
  The comparison endpoints: whatever requests are made, the columns that matching and reviewing write stay consistent and every other
  column keeps its value, so that the totals of the overviews do not move; and the overviews count every row once.
\<close>

section \<open>Rows under requests\<close>

text \<open>The columns that only uploads and resolutions write.\<close>

definition bank_kept :: "bank_txn \<Rightarrow> bank_txn" where
  "bank_kept b =
     b\<lparr>b_reconciliationStatus := RS_PENDING, b_matchedGoalTransactionCode := None, b_matchedAt := None, b_matchScore := None,
       b_reviewTag := None, b_reviewNotes := None, b_reviewedAt := None, b_reviewedBy := None, b_updatedAt := 0\<rparr>"

definition fund_kept :: "fund_txn \<Rightarrow> fund_txn" where
  "fund_kept f = f\<lparr>f_reviewTag := None, f_reviewNotes := None, f_reviewedAt := None, f_reviewedBy := None\<rparr>"

text \<open>The columns of a match are set together, those of a review too; a score is between 50 and 100; a manual code
  names no goal transaction twice.\<close>

definition bank_row_ok :: "bank_txn \<Rightarrow> bool" where
  "bank_row_ok b =
     ((b_matchedAt b = None) = (b_matchedGoalTransactionCode b = None) \<and> (b_matchScore b = None) = (b_matchedGoalTransactionCode b = None) \<and>
      (b_reviewedAt b = None) = (b_reviewTag b = None) \<and> (b_reviewedBy b = None) = (b_reviewTag b = None) \<and>
      (case b_matchScore b of None \<Rightarrow> True | Some k \<Rightarrow> 50 \<le> k \<and> k \<le> 100) \<and>
      (has_manual_code b \<longrightarrow> (case manual_goal_codes (match_code b) of None \<Rightarrow> True | Some cs \<Rightarrow> distinct cs)))"

definition fund_row_ok :: "fund_txn \<Rightarrow> bool" where
  "fund_row_ok f =
     ((f_reviewedAt f = None) = (f_reviewTag f = None) \<and> (f_reviewedBy f = None) = (f_reviewTag f = None) \<and>
      plain_code (f_goalTransactionCode f))"

definition comparison_ok :: "database \<Rightarrow> bool" where
  "comparison_ok db =
     (distinct (map b_id (db_bank db)) \<and> distinct (map f_id (db_fund db)) \<and>
      list_all bank_row_ok (db_bank db) \<and> list_all fund_row_ok (db_fund db))"

definition same_core :: "database \<Rightarrow> database \<Rightarrow> bool" where
  "same_core db db' =
     (map bank_kept (db_bank db') = map bank_kept (db_bank db) \<and> map fund_kept (db_fund db') = map fund_kept (db_fund db) \<and>
      db_goals db' = db_goals db \<and> db_accounts db' = db_accounts db \<and> db_clients db' = db_clients db)"

text \<open>What a request does to a database that is in order.\<close>

definition keeps_order :: "database \<Rightarrow> database \<Rightarrow> bool" where
  "keeps_order db db' = (same_core db db' \<and> (comparison_ok db \<longrightarrow> comparison_ok db'))"

lemma core_id: "bank_kept b' = bank_kept b \<Longrightarrow> b_id b' = b_id b" "fund_kept f' = fund_kept f \<Longrightarrow> f_id f' = f_id f"
  by (cases b, cases b', simp add: bank_kept_def) (cases f, cases f', simp add: fund_kept_def)

lemma same_core_ids:
  assumes "same_core db db'"
  shows "map b_id (db_bank db') = map b_id (db_bank db)" "map f_id (db_fund db') = map f_id (db_fund db)"
proof -
  have "map b_id (map bank_kept (db_bank db')) = map b_id (map bank_kept (db_bank db))"
    "map f_id (map fund_kept (db_fund db')) = map f_id (map fund_kept (db_fund db))"
    using assms by (simp_all only: same_core_def)
  then show "map b_id (db_bank db') = map b_id (db_bank db)" "map f_id (db_fund db') = map f_id (db_fund db)"
    by (simp_all add: comp_def bank_kept_def fund_kept_def)
qed

lemma keeps_order_refl [simp, intro]: "keeps_order db db"
  by (simp add: keeps_order_def same_core_def)

lemma keeps_order_trans: "keeps_order a b \<Longrightarrow> keeps_order b c \<Longrightarrow> keeps_order a c"
  by (simp add: keeps_order_def same_core_def)

lemma keeps_order_rows:
  assumes "db' = db\<lparr>db_bank := map u (db_bank db), db_fund := map v (db_fund db)\<rparr>"
    and bank: "\<And>b. b \<in> set (db_bank db) \<Longrightarrow> bank_kept (u b) = bank_kept b"
    "\<And>b. comparison_ok db \<Longrightarrow> b \<in> set (db_bank db) \<Longrightarrow> bank_row_ok b \<Longrightarrow> bank_row_ok (u b)"
    and fund: "\<And>f. f \<in> set (db_fund db) \<Longrightarrow> fund_kept (v f) = fund_kept f"
    "\<And>f. f \<in> set (db_fund db) \<Longrightarrow> fund_row_ok f \<Longrightarrow> fund_row_ok (v f)"
  shows "keeps_order db db'"
proof -
  have same: "same_core db db'" using bank(1) fund(1) by (simp add: assms(1) same_core_def)
  moreover have "comparison_ok db'" if ok: "comparison_ok db"
    unfolding comparison_ok_def same_core_ids [OF same]
    using ok bank(2) [OF ok] fund(2) by (auto simp: comparison_ok_def assms(1) list_all_iff)
  ultimately show ?thesis by (simp add: keeps_order_def)
qed

text \<open>An update of selected bank rows, or of selected fund rows.\<close>

lemma keeps_order_bank:
  assumes "\<And>b. b \<in> set (db_bank db) \<Longrightarrow> P b \<Longrightarrow> bank_kept (u b) = bank_kept b"
    and "\<And>b. comparison_ok db \<Longrightarrow> b \<in> set (db_bank db) \<Longrightarrow> P b \<Longrightarrow> bank_row_ok b \<Longrightarrow> bank_row_ok (u b)"
  shows "keeps_order db (db\<lparr>db_bank := update_where P u (db_bank db)\<rparr>)"
  by (rule keeps_order_rows [where u = "\<lambda>b. if P b then u b else b" and v = "\<lambda>f. f"]) (use assms in \<open>auto simp: update_where_def\<close>)

lemma keeps_order_fund:
  assumes "\<And>f. fund_kept (v f) = fund_kept f" "\<And>f. fund_row_ok f \<Longrightarrow> fund_row_ok (v f)"
  shows "keeps_order db (db\<lparr>db_fund := update_where P v (db_fund db)\<rparr>)"
  by (rule keeps_order_rows [where u = "\<lambda>b. b" and v = "\<lambda>f. if P f then v f else f"]) (use assms in \<open>auto simp: update_where_def\<close>)

section \<open>The operations on rows\<close>

lemma row_ops_core [simp]:
  "bank_kept (review_bank now tag notes who b) = bank_kept b" "fund_kept (review_fund now tag notes who f) = fund_kept f"
  "bank_kept (link_manual now code b) = bank_kept b" "bank_kept (clear_match now b) = bank_kept b"
  "bank_kept (tag_reversal now who i b) = bank_kept b" "bank_kept (untag now b) = bank_kept b"
  "bank_kept (mark_matched now code conf b) = bank_kept b"
  by (simp_all add: bank_kept_def fund_kept_def review_bank_def review_fund_def link_manual_def clear_match_def tag_reversal_def
      untag_def mark_matched_def)

lemma match_code_cong: "b_matchedGoalTransactionCode b' = b_matchedGoalTransactionCode b \<Longrightarrow>
    match_code b' = match_code b \<and> has_manual_code b' = has_manual_code b"
  by (simp add: match_code_def has_manual_code_def)

lemma review_row_ok [simp]:
  "bank_row_ok b \<Longrightarrow> bank_row_ok (review_bank now tag notes who b)"
  "bank_row_ok b \<Longrightarrow> bank_row_ok (tag_reversal now who i b)"
  "bank_row_ok b \<Longrightarrow> bank_row_ok (untag now b)"
  "fund_row_ok f \<Longrightarrow> fund_row_ok (review_fund now tag notes who f)"
  using match_code_cong [of "review_bank now tag notes who b" b] match_code_cong [of "tag_reversal now who i b" b]
    match_code_cong [of "untag now b" b]
  by (simp_all add: bank_row_ok_def fund_row_ok_def review_bank_def tag_reversal_def untag_def review_fund_def)

lemma clear_row_ok [simp]: "bank_row_ok b \<Longrightarrow> bank_row_ok (clear_match now b)"
  by (simp add: bank_row_ok_def clear_match_def has_manual_code_def)

lemma manual_row_ok:
  assumes "bank_row_ok b" "codes \<noteq> []" "distinct codes" "\<forall>c \<in> set codes. plain_code c"
  shows "bank_row_ok (link_manual now (manual_match_code now codes) b)"
proof -
  have "manual_goal_codes (manual_match_code now codes) = Some codes"
    using assms(2,4) by (intro manual_goal_codes_of_code) (auto simp: plain_code_def)
  with assms show ?thesis by (simp add: bank_row_ok_def link_manual_def match_code_def)
qed

lemma automatic_row_ok:
  assumes "bank_row_ok b" "\<not> prefix ''MANUAL:'' code" "50 \<le> js_round (conf * 100)" "js_round (conf * 100) \<le> 100"
  shows "bank_row_ok (mark_matched now code conf b)"
  using assms by (simp add: bank_row_ok_def mark_matched_def has_manual_code_def match_code_def)

section \<open>Requests\<close>

lemma stored_code_not_manual:
  assumes "persisted_code groups m = Some code" "m_matchType m \<noteq> MANUAL" "\<forall>g \<in> set groups. plain_code (g_originalCode g)"
  shows "\<not> prefix ''MANUAL:'' code"
proof -
  have plain: "\<forall>c \<in> set (goal_codes_for groups m). plain_code c" using assms(3) by (auto simp: goal_codes_for_def)
  consider (single) "goal_codes_for groups m = [code]"
    | (many) "code = match_type_name (m_matchType m) @ '':'' @ join_with CHR '','' (goal_codes_for groups m)"
    using assms(1) unfolding persisted_code_def by (cases "goal_codes_for groups m" rule: remdups_adj.cases) auto
  then show ?thesis
  proof cases
    case single
    then show ?thesis using plain by (auto simp: plain_code_def prefix_def)
  next
    case many
    then show ?thesis using type_not_manual [OF assms(2)] by simp
  qed
qed

lemma persist_core [simp]: "bank_kept (foldl (persist_row now groups) b matches) = bank_kept b"
  by (induction matches arbitrary: b) (auto simp: persist_row_def split: option.split)

lemma persist_row_ok:
  assumes "\<forall>m \<in> set matches. 50 \<le> js_round (m_confidence m * 100) \<and> js_round (m_confidence m * 100) \<le> 100"
    and "\<forall>g \<in> set groups. plain_code (g_originalCode g)" and "bank_row_ok b"
  shows "bank_row_ok (foldl (persist_row now groups) b matches)"
  using assms(1,3)
proof (induction matches arbitrary: b)
  case (Cons m matches)
  then have "bank_row_ok (persist_row now groups b m)"
    using stored_code_not_manual [OF _ _ assms(2), of m] by (auto simp: persist_row_def automatic_row_ok split: option.split)
  with Cons show ?case by simp
qed simp

text \<open>A database in order meets the hypotheses of the matching theorems.\<close>

lemma view_input_ok:
  assumes "comparison_ok db"
  shows "distinct (map b_id (sort_key k (filter P (db_bank db))))" "distinct (map f_id (sort_key j (filter Q (db_fund db))))"
    "wf_manual (sort_key k (filter P (db_bank db)))" "\<forall>f \<in> set (sort_key j (filter Q (db_fund db))). plain_code (f_goalTransactionCode f)"
proof -
  have "mset (map b_id (sort_key k (filter P (db_bank db)))) = mset (map b_id (filter P (db_bank db)))"
    "mset (map f_id (sort_key j (filter Q (db_fund db)))) = mset (map f_id (filter Q (db_fund db)))" by simp_all
  from this [THEN mset_eq_imp_distinct_iff]
  show "distinct (map b_id (sort_key k (filter P (db_bank db))))" "distinct (map f_id (sort_key j (filter Q (db_fund db))))"
    using assms by (simp_all only: comparison_ok_def distinct_map_filter)
qed (use assms in \<open>auto simp: comparison_ok_def list_all_iff wf_manual_def bank_row_ok_def fund_row_ok_def\<close>)

lemma group_codes_plain:
  assumes "\<forall>f \<in> set fts. plain_code (f_goalTransactionCode f)" "distinct (map f_id fts)"
  shows "\<forall>g \<in> set (fund_groups fts). plain_code (g_originalCode g)"
proof
  fix g assume g: "g \<in> set (fund_groups fts)"
  then obtain i where "i \<in> set (g_ids g)"
    using wf_groups_fund_groups [OF assms(2)] by (meson last_in_set wf_groups_def)
  then show "plain_code (g_originalCode g)" using mem_group_ids_iff [OF g] assms(1) by metis
qed

lemma view_keeps_order:
  assumes "get_goal_transactions keeps_null now db n s e ttype = (a, db')"
  shows "keeps_order db db'"
proof (cases "List.find (\<lambda>g. go_number g = n) (db_goals db)")
  case None
  with assms show ?thesis by (simp add: get_goal_transactions_def Let_def)
next
  case (Some goal)
  define banks where "banks = sort_key (\<lambda>b. - b_transactionDate b) (filter (bank_in_view n s e ttype) (db_bank db))"
  define fts where "fts = sort_key (\<lambda>f. - f_transactionDate f) (filter (fund_in_view keeps_null (go_id goal) s e ttype) (db_fund db))"
  let ?u = "\<lambda>b. foldl (persist_row now (fund_groups fts)) b (r_matches (goal_answer_of banks fts))"
  have db': "db' = db\<lparr>db_bank := map ?u (db_bank db), db_fund := map (\<lambda>f. f) (db_fund db)\<rparr>"
    using assms Some by (auto simp: get_goal_transactions_def Let_def banks_def fts_def persist_matches_row answer_fields(2))
  show ?thesis
  proof (rule keeps_order_rows [OF db'])
    fix b assume ok: "comparison_ok db" and b: "bank_row_ok b"
    note input = view_input_ok(1-3) [OF ok]
    have dist: "distinct (map b_id banks)" "distinct (map f_id fts)" "wf_manual banks"
      unfolding banks_def fts_def by (rule input)+
    have "\<forall>g \<in> set (fund_groups fts). plain_code (g_originalCode g)"
      using view_input_ok(4) [OF ok] dist(2) unfolding fts_def by (intro group_codes_plain)
    with confidence_bounds [OF dist] b show "bank_row_ok (?u b)" by (intro persist_row_ok) auto
  qed simp_all
qed

lemma find_in: "List.find P xs = Some x \<Longrightarrow> x \<in> set xs \<and> P x"
  by (induction xs) (auto split: if_splits)

lemma link_keeps_order: "link_reversal now db i1 i2 who = Inr db' \<Longrightarrow> keeps_order db db'"
proof -
  assume "link_reversal now db i1 i2 who = Inr db'"
  then have db': "db' = db\<lparr>db_bank := update_where (\<lambda>b. b_id b = i2) (tag_reversal now who i1)
      (db_bank (db\<lparr>db_bank := update_where (\<lambda>b. b_id b = i1) (tag_reversal now who i2) (db_bank db)\<rparr>))\<rparr>"
    by (auto simp: link_reversal_iff)
  let ?mid = "db\<lparr>db_bank := update_where (\<lambda>b. b_id b = i1) (tag_reversal now who i2) (db_bank db)\<rparr>"
  have "keeps_order db ?mid" by (rule keeps_order_bank) simp_all
  moreover have "keeps_order ?mid (?mid\<lparr>db_bank := update_where (\<lambda>b. b_id b = i2) (tag_reversal now who i1) (db_bank ?mid)\<rparr>)"
    by (rule keeps_order_bank) simp_all
  ultimately have "keeps_order db (?mid\<lparr>db_bank := update_where (\<lambda>b. b_id b = i2) (tag_reversal now who i1) (db_bank ?mid)\<rparr>)"
    by (rule keeps_order_trans)
  then show ?thesis by (simp add: db')
qed

lemma unlink_keeps_order: "unlink_reversal now db i = Inr (n, db') \<Longrightarrow> keeps_order db db'"
proof -
  assume unlink: "unlink_reversal now db i = Inr (n, db')"
  let ?mid = "db\<lparr>db_bank := update_where (\<lambda>b. b_id b = i) (untag now) (db_bank db)\<rparr>"
  have one: "keeps_order db ?mid" by (rule keeps_order_bank) simp_all
  have two: "keeps_order ?mid (?mid\<lparr>db_bank := update_where (\<lambda>b. b_id b = j) (untag now) (db_bank ?mid)\<rparr>)" for j
    by (rule keeps_order_bank) simp_all
  from unlink have "db' = ?mid \<or> (\<exists>j. db' = ?mid\<lparr>db_bank := update_where (\<lambda>b. b_id b = j) (untag now) (db_bank ?mid)\<rparr>)"
    by (auto simp: unlink_reversal_def Let_def split: option.splits if_splits)
  then show ?thesis using one keeps_order_trans [OF one two] by auto
qed

lemma manual_keeps_order:
  assumes "create_manual_match now db ids codes = Inr (a, db')" "codes \<noteq> []"
  shows "keeps_order db db'"
proof -
  have len: "length (goal_sums (filter (\<lambda>f. f_goalTransactionCode f \<in> set codes) (db_fund db))) = length codes"
    and db': "db' = db\<lparr>db_bank := update_where (\<lambda>b. b_id b \<in> set ids) (link_manual now (manual_match_code now codes)) (db_bank db)\<rparr>"
    using assms(1) by (auto simp: create_manual_match_def Let_def split: if_splits)
  note codes = all_codes_found [OF len]
  show ?thesis unfolding db'
  proof (rule keeps_order_bank)
    fix b assume "comparison_ok db" "bank_row_ok b"
    moreover from this codes have "\<forall>c \<in> set codes. plain_code c" by (auto simp: comparison_ok_def list_all_iff fund_row_ok_def)
    ultimately show "bank_row_ok (link_manual now (manual_match_code now codes) b)"
      using assms(2) codes by (intro manual_row_ok) auto
  qed simp
qed

lemma bulk_keeps_order: "keeps_order db (snd (bulk_review now db ids codes tag notes who))"
proof -
  let ?mid = "db\<lparr>db_bank := update_where (\<lambda>b. b_id b \<in> set ids) (review_bank now tag notes who) (db_bank db)\<rparr>"
  have "keeps_order db ?mid" by (rule keeps_order_bank) simp_all
  moreover have "keeps_order ?mid (?mid\<lparr>db_fund := update_where (\<lambda>f. f_goalTransactionCode f \<in> set codes)
      (review_fund now tag notes who) (db_fund ?mid)\<rparr>)"
    by (rule keeps_order_fund) simp_all
  ultimately have "keeps_order db (?mid\<lparr>db_fund := update_where (\<lambda>f. f_goalTransactionCode f \<in> set codes)
      (review_fund now tag notes who) (db_fund ?mid)\<rparr>)" by (rule keeps_order_trans)
  then show ?thesis by (simp add: bulk_review_tables)
qed

lemma step_keeps_order: "comparison_step keeps_null now db req = (reply, db') \<Longrightarrow> keeps_order db db'"
proof (cases req)
  case (View_Goal n s e t)
  moreover assume "comparison_step keeps_null now db req = (reply, db')"
  ultimately show ?thesis
    using view_keeps_order by (auto simp: view_goal_transactions_def split: prod.splits)
next
  case (Review_Bank i tag remark who)
  moreover assume "comparison_step keeps_null now db req = (reply, db')"
  ultimately show ?thesis
    by (auto simp: comparison_routes review_bank_transaction_def intro!: keeps_order_bank split: if_splits option.splits)
next
  case (Review_Goal code tag remark who)
  moreover assume "comparison_step keeps_null now db req = (reply, db')"
  ultimately show ?thesis
    by (auto simp: comparison_routes review_goal_transaction_def intro!: keeps_order_fund split: if_splits)
next
  case (Review_Bulk ids codes tag remark who)
  moreover assume "comparison_step keeps_null now db req = (reply, db')"
  ultimately show ?thesis
    using bulk_keeps_order by (auto simp: comparison_routes split: if_splits prod.splits) (metis keeps_order_refl snd_conv)+
next
  case (Manual_Match ids codes who)
  moreover assume "comparison_step keeps_null now db req = (reply, db')"
  ultimately show ?thesis using manual_keeps_order by (auto simp: comparison_routes split: if_splits sum.splits)
next
  case (Remove_Match ids codes)
  moreover assume "comparison_step keeps_null now db req = (reply, db')"
  ultimately show ?thesis
    by (auto simp: comparison_routes remove_manual_match_single_pass intro!: keeps_order_bank split: if_splits)
next
  case (Link_Reversal i1 i2 who)
  moreover assume "comparison_step keeps_null now db req = (reply, db')"
  ultimately show ?thesis using link_keeps_order by (auto simp: comparison_routes split: if_splits sum.splits)
next
  case (Unlink_Reversal i)
  moreover assume "comparison_step keeps_null now db req = (reply, db')"
  ultimately show ?thesis using unlink_keeps_order by (auto simp: comparison_routes split: if_splits sum.splits)
qed

lemma reachable_keeps_order: "comparison_reachable keeps_null db0 db \<Longrightarrow> keeps_order db0 db"
proof (induction rule: comparison_reachable.induct)
  case (request db now req reply db')
  then show ?case using step_keeps_order keeps_order_trans by blast
qed simp

text \<open>C37: requests to the comparison endpoints, in any order and number, accepted or refused, keep the tables in order. No row
  appears or goes away and only the columns of matches and reviews change; match columns are set and cleared
  together, review columns too; a stored score lies between 50 and 100 and a manual code names no goal transaction twice. So every
  reachable database meets the hypotheses of the theorems on matching.\<close>

theorem comparison_requests_safe:
  assumes "comparison_reachable keeps_null db0 db" and "comparison_ok db0"
  shows "comparison_ok db \<and> same_core db0 db"
  using reachable_keeps_order [OF assms(1)] assms(2) by (simp add: keeps_order_def)

definition ex_requested :: database where
  "ex_requested =
     snd (comparison_step True 2000 (snd (comparison_step True 1000 ex_two_db (Manual_Match [''a1'', ''a2''] [''c1''] (Some ''u''))))
       (Review_Bank ''a1'' (Some TIMING_DIFFERENCE) None (Some ''u'')))"

lemma ex_requested_reachable: "comparison_reachable True ex_two_db ex_requested"
  unfolding ex_requested_def
  by (rule comparison_reachable.request [OF comparison_reachable.request [OF comparison_reachable.start]]) (rule prod.collapse [symmetric])+

theorem comparison_requests_safe_witness:
  "comparison_ok ex_requested \<and> same_core ex_two_db ex_requested \<and> map b_matchScore (db_bank ex_requested) = [Some 100, Some 100] \<and>
   map b_reviewTag (db_bank ex_requested) = [Some TIMING_DIFFERENCE, None]"
proof -
  have "comparison_ok ex_two_db" "map b_matchScore (db_bank ex_requested) = [Some 100, Some 100]"
    "map b_reviewTag (db_bank ex_requested) = [Some TIMING_DIFFERENCE, None]" by code_simp+
  with comparison_requests_safe [OF ex_requested_reachable] show ?thesis by blast
qed

section \<open>The totals do not move\<close>

lemma map_filter_core:
  assumes "map core xs = map core ys" "\<And>x y. core x = core y \<Longrightarrow> P x = P y" "\<And>x y. core x = core y \<Longrightarrow> h x = h y"
  shows "map h (filter P xs) = map h (filter P ys)"
  using assms(1)
proof (induction xs arbitrary: ys)
  case (Cons x xs)
  then obtain y ys' where ys: "ys = y # ys'" "core x = core y" "map core xs = map core ys'" by (cases ys) auto
  with Cons.IH [of ys'] assms(2,3) [OF ys(2)] show ?case by simp
qed simp

lemma bank_kept_fields:
  assumes "bank_kept b = bank_kept b'"
  shows "b_goalNumber b = b_goalNumber b'" "b_transactionType b = b_transactionType b'" "bank_counts s e b = bank_counts s e b'"
    "b_totalAmount b = b_totalAmount b'" "b_xummfAmount b = b_xummfAmount b'" "b_xubfAmount b = b_xubfAmount b'"
    "b_xudefAmount b = b_xudefAmount b'" "b_xurefAmount b = b_xurefAmount b'"
  using assms by (cases b, cases b', simp add: bank_kept_def bank_counts_def)+

lemma fund_kept_fields:
  assumes "fund_kept f = fund_kept f'"
  shows "f_goalId f = f_goalId f'" "f_transactionType f = f_transactionType f'" "fund_counts s e f = fund_counts s e f'"
    "f_amount f = f_amount f'" "f_fundCode f = f_fundCode f'" "f_goalTransactionCode f = f_goalTransactionCode f'"
  using assms by (cases f, cases f', simp add: fund_kept_def fund_counts_def)+

lemma same_core_summaries:
  assumes "same_core db db'"
  shows "bank_summary db' n t s e = bank_summary db n t s e" "goal_txn_summary db' n t s e = goal_txn_summary db n t s e"
    "bank_fund_summary db' n s e = bank_fund_summary db n s e" "goal_fund_summary db' n s e = goal_fund_summary db n s e"
    "all_goal_info db' = all_goal_info db"
proof -
  have goal: "fund_of_goal db' n f = fund_of_goal db n f" for n f using assms by (simp add: fund_of_goal_def same_core_def)
  have bank: "map h (filter P (db_bank db')) = map h (filter P (db_bank db))"
    if "\<And>b b'. bank_kept b = bank_kept b' \<Longrightarrow> P b = P b'" "\<And>b b'. bank_kept b = bank_kept b' \<Longrightarrow> h b = h b'" for P and h :: "bank_txn \<Rightarrow> 'x"
    using assms by (intro map_filter_core [where core = bank_kept] that) (auto simp: same_core_def)
  have fund: "map h (filter P (db_fund db')) = map h (filter P (db_fund db))"
    if "\<And>f f'. fund_kept f = fund_kept f' \<Longrightarrow> P f = P f'" "\<And>f f'. fund_kept f = fund_kept f' \<Longrightarrow> h f = h f'" for P and h :: "fund_txn \<Rightarrow> 'x"
    using assms by (intro map_filter_core [where core = fund_kept] that) (auto simp: same_core_def)
  have fund_goal: "fund_of_goal db n f = fund_of_goal db n f'" if "fund_kept f = fund_kept f'" for f f'
    using fund_kept_fields(1) [OF that] by (simp add: fund_of_goal_def)
  have nil: "(xs = []) = (ys = [])" "length xs = length ys" if "map g xs = map g ys" for g :: "'x \<Rightarrow> 'y" and xs ys
    using that map_eq_imp_length_eq by (auto dest: map_eq_imp_length_eq)
  let ?B = "\<lambda>b. b_goalNumber b = n \<and> b_transactionType b = t \<and> bank_counts s e b"
  have "map b_totalAmount (filter ?B (db_bank db')) = map b_totalAmount (filter ?B (db_bank db))"
    by (rule bank) (auto dest: bank_kept_fields)
  from this nil [OF this] show "bank_summary db' n t s e = bank_summary db n t s e" by (simp add: bank_summary_def bank_rows_of_def Let_def)
  let ?F = "\<lambda>f. fund_of_goal db n f \<and> f_transactionType f = t \<and> fund_counts s e f"
  have "map (\<lambda>f. (f_amount f, f_goalTransactionCode f)) (filter ?F (db_fund db')) =
      map (\<lambda>f. (f_amount f, f_goalTransactionCode f)) (filter ?F (db_fund db))"
    by (rule fund) (auto dest: fund_kept_fields fund_goal)
  from nil(1) [OF this] arg_cong [OF this, of "map fst"] arg_cong [OF this, of "map snd"]
  show "goal_txn_summary db' n t s e = goal_txn_summary db n t s e"
    by (simp add: goal_txn_summary_def fund_rows_of_def Let_def goal comp_def)
  let ?C = "\<lambda>b. b_goalNumber b = n \<and> bank_counts s e b"
  have "map h (filter ?C (db_bank db')) = map h (filter ?C (db_bank db))"
    if "h \<in> {b_totalAmount, b_xummfAmount, b_xubfAmount, b_xudefAmount, b_xurefAmount}" for h
    using that by (intro bank) (auto dest: bank_kept_fields)
  from this [of b_totalAmount] this [of b_xummfAmount] this [of b_xubfAmount] this [of b_xudefAmount] this [of b_xurefAmount]
    nil(1) [OF this [of b_totalAmount]]
  show "bank_fund_summary db' n s e = bank_fund_summary db n s e" by (simp add: bank_fund_summary_def Let_def)
  let ?G = "\<lambda>f. fund_of_goal db n f \<and> fund_counts s e f"
  have whole: "map f_amount (filter ?G (db_fund db')) = map f_amount (filter ?G (db_fund db))"
    by (rule fund) (auto dest: fund_kept_fields fund_goal)
  have part: "sum_for_fund c (filter ?G (db_fund db')) = sum_for_fund c (filter ?G (db_fund db))" for c
  proof -
    have "map f_amount (filter (\<lambda>f. f_fundCode f = c \<and> ?G f) (db_fund db')) = map f_amount (filter (\<lambda>f. f_fundCode f = c \<and> ?G f) (db_fund db))"
      by (rule fund) (auto dest: fund_kept_fields fund_goal)
    then show ?thesis by (simp add: sum_for_fund_def conj_commute)
  qed
  from whole part nil(1) [OF whole] show "goal_fund_summary db' n s e = goal_fund_summary db n s e"
    by (simp add: goal_fund_summary_def Let_def goal)
  show "all_goal_info db' = all_goal_info db" using assms by (simp add: all_goal_info_def same_core_def)
qed

definition money_columns :: "goal_summary \<Rightarrow> goal_summary" where
  "money_columns r = r\<lparr>gs_reviewStatus := SR_NOT_APPLICABLE, gs_unreviewed := 0, gs_reviewed := 0\<rparr>"

lemma paginated_map: "map h (paginated page limit xs) = paginated page limit (map h xs)"
  by (simp add: paginated_def js_slice_def Let_def take_map drop_map)

lemma goal_rows_same:
  assumes "same_core db db'" "flt \<in> {GF_ALL, GF_MATCHED, GF_VARIANCE}"
  shows "map money_columns (fst (get_goal_summary ilike collate db' s e search flt)) =
      map money_columns (fst (get_goal_summary ilike collate db s e search flt))"
    "snd (get_goal_summary ilike collate db' s e search flt) = snd (get_goal_summary ilike collate db s e search flt)"
proof -
  note same = same_core_summaries [OF assms(1)]
  have row: "money_columns (summarise_goal db' s e l) = money_columns (summarise_goal db s e l)" for l
    by (simp add: summarise_goal_def money_columns_def same Let_def)
  have "passes_filter flt r = passes_filter flt (money_columns r)" for r
    using assms(2) by (auto simp: money_columns_def)
  then have rows: "map money_columns (filter (passes_filter flt) rs) = filter (passes_filter flt) (map money_columns rs)" for rs
    by (simp add: filter_map comp_def)
  have labels: "filter (goal_active db' s e) (goal_info (goal_search ilike search) db') =
      filter (goal_active db s e) (goal_info (goal_search ilike search) db)"
    by (simp add: goal_active_def [abs_def] goal_info_def same)
  show cols: "map money_columns (fst (get_goal_summary ilike collate db' s e search flt)) =
      map money_columns (fst (get_goal_summary ilike collate db s e search flt))"
    unfolding get_goal_summary_def Let_def fst_conv rows map_map comp_def row labels ..
  from map_eq_imp_length_eq [OF cols]
  show "snd (get_goal_summary ilike collate db' s e search flt) = snd (get_goal_summary ilike collate db s e search flt)"
    by (simp add: get_goal_summary_def Let_def)
qed

lemma goal_aggregates_columns: "goal_aggregates_of (map money_columns rows) n = goal_aggregates_of rows n"
proof -
  have "add_goal_row t (money_columns r) = add_goal_row t r" for t r by (simp add: add_goal_row_def money_columns_def)
  then have "foldl add_goal_row t (map money_columns rows) = foldl add_goal_row t rows" for t
    by (induction rows arbitrary: t) simp_all
  then show ?thesis by (simp add: goal_aggregates_of_def)
qed

lemma fund_level_same:
  assumes "same_core db db'"
  shows "goal_fund_level ok db' s e = goal_fund_level ok db s e"
  by (simp add: goal_fund_level_def goal_info_def same_core_summaries [OF assms])

text \<open>C38: matching and reviewing move no money: after any requests to the comparison endpoints, the overviews by fund and by
  account answer every query as before, and the overview by goal shows the same amounts, variances, counts and totals; only the review
  columns of its rows may differ (so the filters on the review status are left out here).\<close>

theorem comparison_totals_unaffected:
  assumes "comparison_reachable keeps_null db0 db" and "flt \<in> {GF_ALL, GF_MATCHED, GF_VARIANCE}"
  shows "fund_comparison ilike collate today q ff db = fund_comparison ilike collate today q ff db0 \<and>
    account_comparison ilike collate today q ff db = account_comparison ilike collate today q ff db0 \<and>
    snd (goal_comparison ilike collate today q flt db) = snd (goal_comparison ilike collate today q flt db0) \<and>
    map money_columns (gp_data (fst (goal_comparison ilike collate today q flt db))) =
      map money_columns (gp_data (fst (goal_comparison ilike collate today q flt db0)))"
proof (intro conjI)
  have same: "same_core db0 db" using reachable_keeps_order [OF assms(1)] by (simp add: keeps_order_def)
  show "fund_comparison ilike collate today q ff db = fund_comparison ilike collate today q ff db0"
    by (simp add: fund_comparison_def get_fund_summary_def fund_level_same [OF same])
  show "account_comparison ilike collate today q ff db = account_comparison ilike collate today q ff db0"
    by (simp add: account_comparison_def get_account_fund_summary_def fund_level_same [OF same])
  obtain s e where period: "comparison_period today (gc_start q) (gc_end q) = (s, e)" by (rule prod.exhaust)
  note rows = goal_rows_same [OF same assms(2), of ilike collate s e "gc_search q"]
  have "goal_aggregates_of (fst (get_goal_summary ilike collate db s e (gc_search q) flt)) n =
      goal_aggregates_of (fst (get_goal_summary ilike collate db0 s e (gc_search q) flt)) n" for n
    using rows(1) goal_aggregates_columns by metis
  then show "snd (goal_comparison ilike collate today q flt db) = snd (goal_comparison ilike collate today q flt db0)"
    by (simp add: goal_comparison_def period rows(2) case_prod_beta)
  show "map money_columns (gp_data (fst (goal_comparison ilike collate today q flt db))) =
      map money_columns (gp_data (fst (goal_comparison ilike collate today q flt db0)))"
    using rows(1) by (simp add: goal_comparison_def period overview_page_of_def Let_def paginated_map case_prod_beta)
qed

definition ex_overview :: overview_query where
  "ex_overview = \<lparr>gc_start = Some 0, gc_end = None, gc_search = None, gc_page = None, gc_limit = Some 1\<rparr>"

theorem comparison_totals_unaffected_witness:
  "snd (goal_comparison (\<lambda>_ _. True) length 300 ex_overview GF_ALL ex_requested) =
     snd (goal_comparison (\<lambda>_ _. True) length 300 ex_overview GF_ALL ex_two_db) \<and> db_bank ex_requested \<noteq> db_bank ex_two_db"
proof
  have "map b_matchScore (db_bank ex_requested) \<noteq> map b_matchScore (db_bank ex_two_db)" by code_simp
  then show "db_bank ex_requested \<noteq> db_bank ex_two_db" by auto
qed (use comparison_totals_unaffected [OF ex_requested_reachable] in blast)

section \<open>Pages and totals of the overview by goal\<close>

lemma slice_is_page:
  assumes "0 < p" "0 < n"
  shows "paginated (int p) (int n) xs = page_of p n xs"
proof -
  define k where "k = (p - 1) * n"
  have skip: "(int p - 1) * int n = int k" "int k + int n = int (k + n)" using assms(1) by (simp_all add: k_def of_nat_diff)
  have position: "slice_position m (int j) = min j m" for m j by (simp add: slice_position_def)
  have "paginated (int p) (int n) xs = take (min (k + n) (length xs) - min k (length xs)) (drop (min k (length xs)) xs)"
    unfolding paginated_def Let_def skip js_slice_def position ..
  also have "\<dots> = take n (drop k xs)"
    by (cases "k \<le> length xs") (auto simp: min_def)
  finally show ?thesis by (simp add: page_of_def k_def)
qed

lemma total_pages_nat: "0 < n \<Longrightarrow> total_pages m (int n) = int (page_count n m)"
proof -
  assume n: "0 < n"
  have "\<lceil>rat_of_nat m / rat_of_nat n\<rceil> = int ((m + n - 1) div n)"
  proof (rule ceiling_unique)
    have m: "m \<le> (m + n - 1) div n * n" using page_count_enough [OF n, of m] by (simp add: page_count_def)
    have "(m + n - 1) div n * n \<le> m + n - 1" by simp
    with n have "(m + n - 1) div n * n < m + n" by linarith
    then have "rat_of_nat ((m + n - 1) div n * n) < rat_of_nat (m + n)" by (simp only: of_nat_less_iff)
    then show "rat_of_int (int ((m + n - 1) div n)) - 1 < rat_of_nat m / rat_of_nat n" using n by (simp add: field_simps)
    from m have "rat_of_nat m \<le> rat_of_nat ((m + n - 1) div n * n)" by (simp only: of_nat_le_iff)
    then show "rat_of_nat m / rat_of_nat n \<le> rat_of_int (int ((m + n - 1) div n))" using n by (simp add: field_simps)
  qed
  then show ?thesis by (simp add: total_pages_def page_count_def)
qed

lemma goal_totals_sum:
  "ot_bankDeposits (foldl add_goal_row t rows) = ot_bankDeposits t + sum_list (map gs_bankDeposits rows)"
  "ot_goalDeposits (foldl add_goal_row t rows) = ot_goalDeposits t + sum_list (map gs_goalDeposits rows)"
  "ot_bankWithdrawals (foldl add_goal_row t rows) = ot_bankWithdrawals t + sum_list (map gs_bankWithdrawals rows)"
  "ot_goalWithdrawals (foldl add_goal_row t rows) = ot_goalWithdrawals t + sum_list (map gs_goalWithdrawals rows)"
  "ot_matched (foldl add_goal_row t rows) + ot_variance (foldl add_goal_row t rows) = ot_matched t + ot_variance t + length rows"
  by (induction rows arbitrary: t) (simp_all add: add_goal_row_def)

text \<open>C39: the overview by goal, without filters, over all its pages: joined they are the rows of the exported file, each once and
  in order, and the totals shown with every page are the deposits and withdrawals of registered goals in the bank and fund
  tables in the period, their differences the variances, and every row is counted either as matched or as a
  variance.\<close>

theorem goal_comparison_complete:
  fixes db :: database and q :: overview_query and ilike :: "string \<Rightarrow> string \<Rightarrow> bool" and collate :: "string \<Rightarrow> nat"
    and shown :: "rat \<Rightarrow> string" and n :: nat
  assumes "distinct (map gl_number (remdups (all_goal_info db)))" "distinct (map go_id (db_goals db))"
    and "0 < n" "gc_limit q = Some (int n)" "gc_search q = None" "comparison_period today (gc_start q) (gc_end q) = (s, e)"
  defines "answer p \<equiv> goal_comparison ilike collate today (q\<lparr>gc_page := Some p\<rparr>) GF_ALL db"
  defines "rows \<equiv> concat (map (\<lambda>p. gp_data (fst (answer (int p)))) [1 ..< Suc (nat (gp_pages (fst (answer 1))))])"
  shows "export_goal_comparison ilike collate shown today q GF_ALL db = csv_text goal_export_headers (map (goal_export_row shown) rows) \<and>
    ot_bankDeposits (gg_totals (snd (answer p))) = bank_money db DEPOSIT s e \<and>
    ot_bankWithdrawals (gg_totals (snd (answer p))) = bank_money db WITHDRAWAL s e \<and>
    ot_goalDeposits (gg_totals (snd (answer p))) = fund_money db DEPOSIT s e \<and>
    ot_goalWithdrawals (gg_totals (snd (answer p))) = fund_money db WITHDRAWAL s e \<and>
    gg_depositVariance (snd (answer p)) = bank_money db DEPOSIT s e - fund_money db DEPOSIT s e \<and>
    gg_withdrawalVariance (snd (answer p)) = bank_money db WITHDRAWAL s e - fund_money db WITHDRAWAL s e \<and>
    ot_matched (gg_totals (snd (answer p))) + ot_variance (gg_totals (snd (answer p))) = length rows"
proof -
  obtain R k where R: "get_goal_summary ilike collate db s e None GF_ALL = (R, k)" by (rule prod.exhaust)
  then have k: "k = length R" by (auto simp: get_goal_summary_def Let_def)
  note money = goal_summary_conserves [OF assms(1,2) R]
  have answer: "answer p = (overview_page_of (q\<lparr>gc_page := Some p\<rparr>) R k, goal_aggregates_of R k)" for p
    by (simp add: answer_def goal_comparison_def assms(5,6) R)
  have data: "gp_data (fst (answer (int p))) = page_of p n R" if "0 < p" for p
    using that assms(3) by (simp add: answer overview_page_of_def assms(4) int_or_def Let_def slice_is_page)
  have pages: "nat (gp_pages (fst (answer 1))) = page_count n (length R)"
    using assms(3) by (simp add: answer overview_page_of_def assms(4) int_or_def Let_def total_pages_nat k)
  have "rows = concat (map (\<lambda>p. page_of p n R) [1 ..< Suc (page_count n (length R))])"
    unfolding rows_def pages by (rule arg_cong [where f = concat], rule map_cong [OF refl], rule data) auto
  also have "\<dots> = R" by (rule all_pages [OF assms(3)])
  finally have rows: "rows = R" .
  show ?thesis
    unfolding rows answer
    using money by (simp add: goal_aggregates_of_def Let_def goal_totals_sum export_goal_comparison_def assms(5,6) R)
qed

theorem goal_comparison_complete_witness:
  "ot_bankDeposits (gg_totals (snd (goal_comparison (\<lambda>_ _. False) (\<lambda>_. 0) 300 (ex_overview\<lparr>gc_page := Some 1\<rparr>) GF_ALL ex_full_db))) =
   bank_money ex_full_db DEPOSIT 0 300"
proof -
  have "distinct (map gl_number (remdups (all_goal_info ex_full_db)))" "distinct (map go_id (db_goals ex_full_db))"
    unfolding ex_full_info by (simp_all add: ex_full_db_def ex_db_def)
  then show ?thesis
    using goal_comparison_complete [of ex_full_db 1 ex_overview 300 0 300 "\<lambda>_ _. False" "\<lambda>_. 0" "\<lambda>_. []" 1]
    by (simp add: ex_overview_def comparison_period_def)
qed

end
