(* ===== verification/FundTransactions.thy ===== *)
theory FundTransactions
  imports GoalReport BankStore
begin

text \<open>
  \<open>FundTransactionService\<close> and \<open>fundTransactionRoutes.ts\<close>: the list of fund transactions with its filters, order and pages, and the
  summary of deposits and withdrawals in total and by fund. The order of texts is a parameter. Fund ids and codes correspond, so that
  grouping by fund is grouping by code. Page and limit are natural numbers: what Prisma does with negative ones is not modelled.
\<close>

section \<open>Filters\<close>

record fund_query =
  fx_start :: instant
  fx_end :: instant
  fx_search :: "string option"
  fx_fundCode :: "string option"
  fx_type :: "string option"
  fx_accountType :: "string option"
  fx_accountCategory :: "string option"
  fx_code :: "string option"
  fx_batchId :: "string option"

definition fund_search :: "string option \<Rightarrow> report_row \<Rightarrow> bool" where
  "fund_search search r =
     (if truthy_str search then contains_ci (cl_name (rr_client r)) (the search) \<or> contains_ci (ac_number (rr_account r)) (the search)
      else True)"

definition fund_wanted :: "fund_query \<Rightarrow> report_row \<Rightarrow> bool" where
  "fund_wanted q r =
     (let t = rr_txn r
      in fx_start q \<le> f_transactionDate t \<and> f_transactionDate t \<le> fx_end q \<and> fund_search (fx_search q) r \<and>
         equals_given (fx_fundCode q) (f_fundCode t) \<and> equals_given (fx_type q) (type_name (f_transactionType t)) \<and>
         equals_given (fx_accountType q) (ra_type (rr_account r)) \<and> equals_given (fx_accountCategory q) (ra_category (rr_account r)) \<and>
         equals_given (fx_code q) (f_goalTransactionCode t) \<and> equals_given (fx_batchId q) (f_uploadBatchId t))"

text \<open>\<open>orderBy\<close>: the day, newest first, then the code, then the fund. Rows that agree in all three come in any order,
  perhaps another one in every request: the parameter \<open>tie\<close> ranks them for one request.\<close>

definition fund_order :: "(report_row \<Rightarrow> nat) \<Rightarrow> (string \<Rightarrow> nat) \<Rightarrow> report_row list \<Rightarrow> report_row list" where
  "fund_order tie collate rows =
     sort_key (\<lambda>r. - f_transactionDate (rr_txn r))
       (sort_key (\<lambda>r. collate (f_goalTransactionCode (rr_txn r)))
         (sort_key (\<lambda>r. collate (f_fundCode (rr_txn r))) (sort_key tie rows)))"

section \<open>Summary\<close>

record fund_flow =
  fl_deposits :: money
  fl_withdrawals :: money
  fl_net :: money

record flow_summary =
  fw_records :: nat
  fw_deposits :: money
  fw_withdrawals :: money
  fw_net :: money
  fw_byFund :: "fund_flow per_fund"

definition add_type_group :: "nat \<times> money \<times> money \<Rightarrow> transaction_type \<times> fund_txn list \<Rightarrow> nat \<times> money \<times> money" where
  "add_type_group acc g =
     (case acc of (n, deposits, withdrawals) \<Rightarrow>
        let amount = sum_list (map f_amount (snd g))
        in if fst g = DEPOSIT then (n + length (snd g), deposits + amount, withdrawals)
           else (n + length (snd g), deposits, withdrawals + amount))"

definition add_flow :: "transaction_type \<Rightarrow> money \<Rightarrow> fund_flow \<Rightarrow> fund_flow" where
  "add_flow ty amount fl =
     (let fl' = (if ty = DEPOSIT then fl\<lparr>fl_deposits := fl_deposits fl + amount\<rparr> else fl\<lparr>fl_withdrawals := fl_withdrawals fl + amount\<rparr>)
      in fl'\<lparr>fl_net := fl_deposits fl' - fl_withdrawals fl'\<rparr>)"

definition add_fund_group ::
    "fund_flow per_fund \<Rightarrow> (string \<times> transaction_type) \<times> fund_txn list \<Rightarrow> fund_flow per_fund" where
  "add_fund_group byFund g =
     (case fund_value byFund (fst (fst g)) of
        None \<Rightarrow> byFund
      | Some fl \<Rightarrow> set_fund byFund (fst (fst g)) (add_flow (snd (fst g)) (sum_list (map f_amount (snd g))) fl))"

definition no_flow :: fund_flow where
  "no_flow = \<lparr>fl_deposits = 0, fl_withdrawals = 0, fl_net = 0\<rparr>"

definition calculate_flow_summary :: "fund_txn list \<Rightarrow> flow_summary" where
  "calculate_flow_summary ts =
     (case foldl add_type_group (0, 0, 0) (group_by f_transactionType ts) of
        (records, deposits, withdrawals) \<Rightarrow>
          \<lparr>fw_records = records, fw_deposits = deposits, fw_withdrawals = withdrawals, fw_net = deposits - withdrawals,
           fw_byFund = foldl add_fund_group (each_fund (\<lambda>_. no_flow)) (group_by (\<lambda>t. (f_fundCode t, f_transactionType t)) ts)\<rparr>)"

section \<open>The requests\<close>

record fund_listing =
  fn_data :: "report_row list"
  fn_summary :: flow_summary
  fn_page :: nat
  fn_limit :: nat
  fn_total :: nat
  fn_pages :: nat

definition get_fund_transactions :: "(report_row \<Rightarrow> nat) \<Rightarrow> (string \<Rightarrow> nat) \<Rightarrow> nat \<Rightarrow> nat \<Rightarrow> fund_query \<Rightarrow> registry_db \<Rightarrow> fund_listing" where
  "get_fund_transactions tie collate page limit q db =
     (let rows = filter (fund_wanted q) (report_rows db)
      in \<lparr>fn_data = page_of page limit (fund_order tie collate rows), fn_summary = calculate_flow_summary (map rr_txn rows),
          fn_page = page, fn_limit = limit, fn_total = length rows, fn_pages = page_count limit (length rows)\<rparr>)"

definition get_fund_summary_only :: "fund_query \<Rightarrow> registry_db \<Rightarrow> flow_summary" where
  "get_fund_summary_only q db = calculate_flow_summary (map rr_txn (filter (fund_wanted q) (report_rows db)))"

definition get_fund_transaction_by_id :: "row_id \<Rightarrow> registry_db \<Rightarrow> report_row option" where
  "get_fund_transaction_by_id i db = List.find (\<lambda>r. f_id (rr_txn r) = i) (report_rows db)"

datatype fund_list_error = Range_Required | Range_Too_Large

text \<open>The dates of the request are given as read; \<open>None\<close> is a missing one.\<close>

definition fund_transactions_route ::
    "(report_row \<Rightarrow> nat) \<Rightarrow> (string \<Rightarrow> nat) \<Rightarrow> instant option \<Rightarrow> instant option \<Rightarrow> nat option \<Rightarrow> nat option \<Rightarrow> fund_query \<Rightarrow> registry_db
       \<Rightarrow> fund_list_error + fund_listing" where
  "fund_transactions_route tie collate startDate endDate page limit q db =
     (case (startDate, endDate) of
        (Some s, Some e) \<Rightarrow>
          if (e - s) div ms_per_day > 730 then Inl Range_Too_Large
          else Inr (get_fund_transactions tie collate (nat_or page 1) (min (nat_or limit 50) 500) (q\<lparr>fx_start := s, fx_end := e\<rparr>) db)
      | _ \<Rightarrow> Inl Range_Required)"

definition fund_summary_route ::
    "instant option \<Rightarrow> instant option \<Rightarrow> fund_query \<Rightarrow> registry_db \<Rightarrow> fund_list_error + flow_summary" where
  "fund_summary_route startDate endDate q db =
     (case (startDate, endDate) of
        (Some s, Some e) \<Rightarrow> Inr (get_fund_summary_only (q\<lparr>fx_start := s, fx_end := e\<rparr>) db)
      | _ \<Rightarrow> Inl Range_Required)"

end
