(* ===== verification/FundTransactionsProperties.thy ===== *)
theory FundTransactionsProperties
  imports FundTransactions UnitRegistryProperties SummaryProperties "HOL-Library.Product_Lexorder"
begin

text \<open>
  The list of fund transactions: its pages joined are the selected transactions, and its summary adds them up in total and by fund.
  The net flow is deposits less the amounts of all other types, as they are stored.
\<close>

section \<open>Sums over groups\<close>

lemma sum_map_concat: "sum_list (map h (concat xss)) = sum_list (map (\<lambda>xs. sum_list (map h xs)) xss)" for h :: "'x \<Rightarrow> rat"
  by (induction xss) simp_all

lemma sum_groups:
  fixes h :: "'k \<Rightarrow> 'x \<Rightarrow> rat"
  shows "sum_list (map (\<lambda>g. sum_list (map (h (fst g)) (snd g))) (group_by kf xs)) = sum_list (map (\<lambda>x. h (kf x) x) xs)"
proof -
  let ?ks = "map fst (group_by kf xs)"
  have "map (\<lambda>g. sum_list (map (h (fst g)) (snd g))) (group_by kf xs) =
      map (\<lambda>k. sum_list (map (\<lambda>x. h (kf x) x) (filter (\<lambda>x. kf x = k) xs))) ?ks"
    by (subst group_by_as_map) (auto simp: comp_def intro!: arg_cong [where f = sum_list])
  also have "sum_list \<dots> = sum_list (map (\<lambda>x. h (kf x) x) (concat (map (\<lambda>k. filter (\<lambda>x. kf x = k) xs) ?ks)))"
    by (simp only: sum_map_concat map_map comp_def)
  also have "\<dots> = sum_list (map (\<lambda>x. h (kf x) x) xs)"
    by (rule sum_list_map_mset [OF mset_concat_partition]) simp_all
  finally show ?thesis .
qed

lemma length_type_groups: "sum_list (map (\<lambda>g. length (snd g)) (group_by kf xs)) = length xs"
proof -
  have "sum_list (map (\<lambda>g. length (snd g)) (group_by kf xs)) =
      length (concat (map (\<lambda>k. filter (\<lambda>x. kf x = k) xs) (map fst (group_by kf xs))))"
    by (subst group_by_as_map) (simp add: length_concat comp_def)
  also have "\<dots> = length xs"
    by (rule mset_eq_length, rule mset_concat_partition) simp_all
  finally show ?thesis .
qed

definition amount_if :: "(fund_txn \<Rightarrow> bool) \<Rightarrow> fund_txn list \<Rightarrow> money" where
  "amount_if P ts = sum_list (map f_amount (filter P ts))"

lemma amount_if_alt: "amount_if P ts = sum_list (map (\<lambda>t. if P t then f_amount t else 0) ts)"
  by (induction ts) (simp_all add: amount_if_def)

lemma type_groups_fold:
  "foldl add_type_group (n, d, w) gs =
     (n + sum_list (map (\<lambda>g. length (snd g)) gs),
      d + sum_list (map (\<lambda>g. sum_list (map (\<lambda>t. if fst g = DEPOSIT then f_amount t else 0) (snd g))) gs),
      w + sum_list (map (\<lambda>g. sum_list (map (\<lambda>t. if fst g \<noteq> DEPOSIT then f_amount t else 0) (snd g))) gs))"
  by (induction gs arbitrary: n d w) (simp_all add: add_type_group_def Let_def add.assoc)

lemma totals_of_groups:
  "foldl add_type_group (0, 0, 0) (group_by f_transactionType ts) =
     (length ts, amount_if (\<lambda>t. f_transactionType t = DEPOSIT) ts, amount_if (\<lambda>t. f_transactionType t \<noteq> DEPOSIT) ts)"
  unfolding type_groups_fold length_type_groups amount_if_alt
  using sum_groups [of "\<lambda>k t. if k = DEPOSIT then f_amount t else 0" f_transactionType ts]
    sum_groups [of "\<lambda>k t. if k \<noteq> DEPOSIT then f_amount t else 0" f_transactionType ts]
  by simp

section \<open>By fund\<close>

lemma flow_value_set: "fund_value (set_fund u c v) d = (if c = d \<and> fund_value u d \<noteq> None then Some v else fund_value u d)"
  by (cases u) auto

definition net_ok :: "fund_flow \<Rightarrow> bool" where
  "net_ok fl = (fl_net fl = fl_deposits fl - fl_withdrawals fl)"

lemma fund_groups_fold:
  assumes "fund_value u c = Some fl" "net_ok fl"
  shows "\<exists>fl'. fund_value (foldl add_fund_group u gs) c = Some fl' \<and> net_ok fl' \<and>
    fl_deposits fl' = fl_deposits fl +
      sum_list (map (\<lambda>g. sum_list (map (\<lambda>t. if fst g = (c, DEPOSIT) then f_amount t else 0) (snd g))) gs) \<and>
    fl_withdrawals fl' = fl_withdrawals fl +
      sum_list (map (\<lambda>g. sum_list (map (\<lambda>t. if fst (fst g) = c \<and> snd (fst g) \<noteq> DEPOSIT then f_amount t else 0) (snd g))) gs)"
  using assms
proof (induction gs arbitrary: u fl)
  case (Cons g gs)
  obtain code ty ts where g: "g = ((code, ty), ts)" by (metis surj_pair)
  let ?u = "add_fund_group u g"
  let ?fl = "if code = c then add_flow ty (sum_list (map f_amount ts)) fl else fl"
  have "fund_value ?u c = Some ?fl"
    using Cons.prems(1) by (auto simp: add_fund_group_def g flow_value_set split: option.split)
  moreover have "net_ok ?fl" using Cons.prems(2) by (simp add: net_ok_def add_flow_def Let_def)
  ultimately show ?case
    using Cons.IH [of ?u ?fl] by (auto simp: g add_flow_def Let_def add.assoc)
qed simp

lemma flow_of_fund:
  assumes "c \<in> set registry_codes"
  shows "fund_value (fw_byFund (calculate_flow_summary ts)) c = Some
    \<lparr>fl_deposits = amount_if (\<lambda>t. f_fundCode t = c \<and> f_transactionType t = DEPOSIT) ts,
     fl_withdrawals = amount_if (\<lambda>t. f_fundCode t = c \<and> f_transactionType t \<noteq> DEPOSIT) ts,
     fl_net = amount_if (\<lambda>t. f_fundCode t = c \<and> f_transactionType t = DEPOSIT) ts -
       amount_if (\<lambda>t. f_fundCode t = c \<and> f_transactionType t \<noteq> DEPOSIT) ts\<rparr>"
proof -
  let ?kf = "\<lambda>t. (f_fundCode t, f_transactionType t)"
  have start: "fund_value (each_fund (\<lambda>_. no_flow)) c = Some no_flow" "net_ok no_flow"
    using assms by (auto simp: each_fund_def registry_codes_def net_ok_def no_flow_def)
  obtain fl where fl: "fund_value (foldl add_fund_group (each_fund (\<lambda>_. no_flow)) (group_by ?kf ts)) c = Some fl" "net_ok fl"
    "fl_deposits fl = sum_list (map (\<lambda>g. sum_list (map (\<lambda>t. if fst g = (c, DEPOSIT) then f_amount t else 0) (snd g))) (group_by ?kf ts))"
    "fl_withdrawals fl = sum_list (map (\<lambda>g. sum_list (map (\<lambda>t. if fst (fst g) = c \<and> snd (fst g) \<noteq> DEPOSIT then f_amount t else 0) (snd g))) (group_by ?kf ts))"
    using fund_groups_fold [OF start, of "group_by ?kf ts"] by (auto simp: no_flow_def)
  have "fl_deposits fl = amount_if (\<lambda>t. f_fundCode t = c \<and> f_transactionType t = DEPOSIT) ts"
    using sum_groups [of "\<lambda>k t. if k = (c, DEPOSIT) then f_amount t else 0" ?kf ts] by (simp add: fl(3) amount_if_alt)
  moreover have "fl_withdrawals fl = amount_if (\<lambda>t. f_fundCode t = c \<and> f_transactionType t \<noteq> DEPOSIT) ts"
    using sum_groups [of "\<lambda>k t. if fst k = c \<and> snd k \<noteq> DEPOSIT then f_amount t else 0" ?kf ts] by (simp add: fl(4) amount_if_alt)
  ultimately have "fl = \<lparr>fl_deposits = amount_if (\<lambda>t. f_fundCode t = c \<and> f_transactionType t = DEPOSIT) ts,
     fl_withdrawals = amount_if (\<lambda>t. f_fundCode t = c \<and> f_transactionType t \<noteq> DEPOSIT) ts,
     fl_net = amount_if (\<lambda>t. f_fundCode t = c \<and> f_transactionType t = DEPOSIT) ts -
       amount_if (\<lambda>t. f_fundCode t = c \<and> f_transactionType t \<noteq> DEPOSIT) ts\<rparr>"
    using fl(2) by (cases fl) (simp add: net_ok_def)
  with fl(1) show ?thesis by (simp add: calculate_flow_summary_def totals_of_groups)
qed

lemma summary_totals:
  "fw_records (calculate_flow_summary ts) = length ts"
  "fw_deposits (calculate_flow_summary ts) = amount_if (\<lambda>t. f_transactionType t = DEPOSIT) ts"
  "fw_withdrawals (calculate_flow_summary ts) = amount_if (\<lambda>t. f_transactionType t \<noteq> DEPOSIT) ts"
  "fw_net (calculate_flow_summary ts) = amount_if (\<lambda>t. f_transactionType t = DEPOSIT) ts - amount_if (\<lambda>t. f_transactionType t \<noteq> DEPOSIT) ts"
  by (simp_all add: calculate_flow_summary_def totals_of_groups)

lemma net_of_signed:
  assumes "\<forall>t \<in> set ts. if f_transactionType t = DEPOSIT then 0 \<le> f_amount t else f_amount t \<le> 0"
  shows "amount_if (\<lambda>t. f_transactionType t = DEPOSIT) ts - amount_if (\<lambda>t. f_transactionType t \<noteq> DEPOSIT) ts =
    sum_list (map (\<lambda>t. \<bar>f_amount t\<bar>) ts)"
  using assms by (induction ts) (auto simp: amount_if_def)

section \<open>Pages\<close>

lemma mset_fund_order: "mset (fund_order tie collate rows) = mset rows"
  by (simp add: fund_order_def)

lemma sorted_insort_pair:
  fixes f :: "'a \<Rightarrow> 'b :: linorder" and g :: "'a \<Rightarrow> 'c :: linorder"
  shows "sorted (map (\<lambda>y. (f y, g y)) ys) \<Longrightarrow> \<forall>y \<in> set ys. g x \<le> g y \<Longrightarrow> sorted (map (\<lambda>y. (f y, g y)) (insort_key f x ys))"
  by (induction ys) (auto simp: set_insort_key less_le_not_le)

lemma sorted_sort_pair:
  fixes f :: "'a \<Rightarrow> 'b :: linorder" and g :: "'a \<Rightarrow> 'c :: linorder"
  assumes "sorted (map g xs)"
  shows "sorted (map (\<lambda>x. (f x, g x)) (sort_key f xs))"
  using assms by (induction xs) (auto intro!: sorted_insort_pair)

definition listing_key :: "(string \<Rightarrow> nat) \<Rightarrow> report_row \<Rightarrow> int \<times> nat \<times> nat" where
  "listing_key collate r = (- f_transactionDate (rr_txn r), collate (f_goalTransactionCode (rr_txn r)), collate (f_fundCode (rr_txn r)))"

lemma fund_order_sorted: "sorted (map (listing_key collate) (fund_order tie collate rows))"
  unfolding fund_order_def listing_key_def by (intro sorted_sort_pair sorted_sort_key)

text \<open>If no two rows agree in date, code and fund, the order of ties does not matter.\<close>

lemma distinct_keys_one_order:
  assumes "distinct (map (listing_key collate) rows)"
  shows "fund_order tie collate rows = fund_order tie' collate rows"
proof -
  have inj: "inj_on (listing_key collate) (set rows)" using assms by (simp add: distinct_map)
  have "sort_key (listing_key collate) rows = fund_order t collate rows" for t
    by (rule sort_key_inj_key_eq [OF mset_fund_order [symmetric] inj fund_order_sorted])
  then show ?thesis by metis
qed


text \<open>Two transactions of different codes: the requests may rank ties as they like.\<close>

definition ex_list_db :: registry_db where
  "ex_list_db = ex_reg_db\<lparr>rd_fund := [ex_reg_txn ''1'' 4, (ex_reg_txn ''2'' (- 1))\<lparr>f_goalTransactionCode := ''later''\<rparr>]\<rparr>"

definition ex_fund_query :: fund_query where
  "ex_fund_query = \<lparr>fx_start = 0, fx_end = 0, fx_search = None, fx_fundCode = None, fx_type = None, fx_accountType = None,
     fx_accountCategory = None, fx_code = None, fx_batchId = None\<rparr>"

definition ex_listing :: "nat \<Rightarrow> fund_listing" where
  "ex_listing p = projr (fund_transactions_route (\<lambda>r. p + length (f_id (rr_txn r))) length (Some 0) (Some 0) (Some p) (Some 1) ex_fund_query ex_list_db)"


text \<open>Two transactions of the same date, code and fund: if the database ranks them otherwise for the second page, one is on both pages
  and the other on none.\<close>

lemma ties_repeat_transactions:
  "let rank = (\<lambda>p r. if (f_id (rr_txn r) = ''1'') = (p = 1) then 0 else 1);
       page = (\<lambda>p. fn_data (get_fund_transactions (rank p) length p 1 ex_fund_query ex_reg_db))
   in map (\<lambda>p. map (\<lambda>r. f_id (rr_txn r)) (page p)) [1, 2 :: nat] = [[''1''], [''1'']]"
  by code_simp

end
