(* ===== verification/Spec2Isabelle.thy ===== *)
theory Spec2Isabelle
  imports VarianceListProperties BankMatcher BankValidator FundApproval BankUploadProperties BankReconcile ResolutionProperties FundPriceFiles DashboardProperties GoalReportProperties GoalComparisonProperties FundTransactionsProperties
begin

text \<open>
  A verification library for the reconciliation of bank and fund transactions.

  The program is a TypeScript service over a PostgreSQL database reached through Prisma. Clients invest through
  goals; a goal payment appears once on the bank side (a row of \<open>bank_goal_transactions\<close>) and as up to four rows
  on the fund side (\<open>fund_transactions\<close>, one per fund). Both sides are uploaded from files, checked and stored; the
  reconciliation services then say which rows belong together, what varies, and what became of the variances.

  The parts and their theories.

  \<^item> \<open>Prelude\<close>: theorem collections, the JavaScript containers (ordered groups, \<open>Map\<close>, \<open>Set\<close>, \<open>find\<close>,
    sorting), text operations, and the interface locales used by several components. \<open>Domain\<close>: the rows and
    enumerations of \<open>prisma/schema.prisma\<close>. \<open>Calendar\<close>, \<open>TextScan\<close>: dates as day numbers with the Gregorian calendar,
    and the regular expressions and number readers of the parsers.

  \<^item> Files to rows. \<open>BankParse\<close> and \<open>FundParse\<close> model the parsers under \<open>services/bank-upload/parsers\<close> and
    \<open>services/fund-upload/parsers\<close>, starting from the cells papaparse or xlsx return. \<open>ParseProperties\<close> says which
    dates and amounts are read and how, and that parsed rows are complete.

  \<^item> Checks. \<open>FundValidator\<close>, \<open>FundGroups\<close> (\<open>GoalTransactionValidator\<close>) and \<open>BankValidator\<close>: every check of a row, a
    group or a batch, with the exact condition under which an upload is blocked. \<open>GoalCode\<close>: the goal transaction
    code, its generation, parsing and round trip.

  \<^item> The fund upload. \<open>FundEntities\<close> (\<open>EntityDetector\<close>, \<open>EntityCreator\<close>), \<open>FundStore\<close> (\<open>FundTransactionRepository\<close>,
    \<open>UploadBatchManager\<close>), \<open>FundRollback\<close> (\<open>BatchRollbackService\<close>) and \<open>FundPipeline\<close> (\<open>FundFileProcessor\<close>, the
    queue and the requests of \<open>fundUploadRoutes.ts\<close>). The pipeline is a step relation with one database call a step,
    so jobs and requests interleave; \<open>FundPipelineProperties\<close> proves its invariant over all reachable states,
    \<open>FundJobs\<close> that an undisturbed job ends with the verdict of an abstract specification, \<open>FundApproval\<close> what an
    approval and a cancellation lead to, \<open>FundStoreProperties\<close> that saving does not depend on the chunks.

  \<^item> The bank upload. \<open>BankStore\<close> (\<open>BankUploadBatchManager\<close>, \<open>BankTransactionRepository\<close>), \<open>BankUpload\<close>
    (\<open>BankFileProcessor\<close>, the requests of \<open>bankUploadRoutes.ts\<close> that change a batch) and \<open>BankUploadProperties\<close>: a file
    is stored completely or not at all.

  \<^item> Automatic reconciliation. \<open>BankMatcher\<close> is \<open>BankReconciliationMatcher\<close>: one bank row against the fund rows of its
    code or goal. \<open>BankReconcile\<close> is the run of \<open>BankTransactionRepository\<close> over pending rows: what each run does,
    that repeated runs reach every pending row, and where its verdict and that of the matcher agree and differ.

  \<^item> Smart matching. \<open>CombinationSum\<close>, \<open>SmartMatch\<close>, \<open>SmartMatchResult\<close> model the goal view of \<open>SmartMatcher.ts\<close>: grouping by
    goal transaction code, five passes (exact, amount, split bank, split fund, manual), the answer and what is
    stored. \<open>SmartMatchInv\<close> and \<open>SmartMatchPasses\<close> hold the contract of a pass, a locale that every pass instantiates;
    \<open>SmartMatchProperties\<close> the results. \<open>ManualMatch\<close> models the operations by which a person matches, unmatches,
    reviews and pairs reversals, \<open>ReviewStatus\<close> the review status of a goal, \<open>Summary\<close> the overviews per goal, fund
    and account, \<open>VarianceList\<close> the list of variances; each with a theory of properties.

  \<^item> Variances and comparison. \<open>VarianceResolution\<close> (\<open>VarianceResolutionService\<close>) marks reviewed variances whose
    counterpart has arrived; \<open>ResolutionProperties\<close> says exactly which rows it marks and that it marks them once.
    \<open>TransactionComparison\<close> is the comparison of \<open>bankUploadRoutes.ts\<close> with its export, \<open>ComparisonProperties\<close> that
    no amount is lost or repeated and how page and export relate.

  How the parts interact. Parsers feed validators, validators feed the upload pipelines, and the pipelines write the
  tables on which every later part reads. \<open>BankReconcile\<close> writes the status columns of bank rows, \<open>SmartMatchResult\<close> and
  \<open>ManualMatch\<close> the match columns, \<open>ManualMatch\<close> the review columns, \<open>VarianceResolution\<close> the resolution columns; the
  overviews and the comparison only read. Theorems that cross components relate, for example, the matcher with the
  run, the manual operations with the automatic passes that follow, and the overview with the status of a single goal.
\<close>

text \<open>
  Modelling decisions.

  Numbers. Amounts, units and prices are exact rationals: \<open>Decimal\<close> columns hold them exactly, and the rounding of
  JavaScript's floating-point sums is not modelled. Counters are natural numbers or integers. Dates are day numbers or,
  where the code keeps a time, a day and a time; all times are UTC. Identifiers (UUIDs) are numbers drawn by the tables;
  texts are lists of 8-bit characters and letter case is that of ASCII.

  Database. A table is a list of rows in table order, which is also the order of a query that asks for none. A database
  transaction is a function from tables to tables or an error; outside a database transaction every call is a step of
  its own. Foreign keys and unique constraints that an operation can violate are checks that yield an error.

  Errors are values: an exception, a rejected request or a skipped row is a branch of an option or sum type. The texts of
  messages are reduced to constructors with the values they print. Logging is left out.

  Parameters. What is not in the repository is an argument: the readers of CSV and Excel files, the parsing of free text
  as a date by the JavaScript engine, the clock, the random part of batch numbers, \<open>ILIKE\<close>, the collation of texts, and
  the row a \<open>LIMIT 1\<close> without an order returns. Theorems hold for all of them or state what they need.

  Bounds. The combination search looks at ten items at most (\<open>CombinationSum\<close>) and is complete within that bound. A job
  is tried three times; ten database calls bound an undisturbed job, and \<open>FundJobs\<close> proves that it has ended by then.
  Saving works in chunks (500 bank rows; fund rows by a configured positive size) and its loops are proved to end. The
  export reads groups in batches of 100, with fuel one more than the number of groups, which is enough because each
  batch is shorter than the last list; a run of reconciliation takes at most 2000 rows, and repeated runs end because
  every run reconciles the rows it takes. The matcher of regular expressions recurses on the text.

  Interfaces. Locales state the contracts several components share, and each is interpreted on the model in the theory
  that provides it: the passes of smart matching, the partition of a list into groups by a key, the chunked save.
  Properties of the manifest stand at the top level with their statements written out.

  Not modelled. The frontend under \<open>frontend/\<close> presents what the requests return and holds no state of its own that the
  server relies on. The routes that only pass a service's answer on, the configuration, middleware, workers and the cache
  are glue. The materialized views are defined by SQL migrations and read by the unit registry, the dashboard and the
  goal transaction report, whose queries add no state. \<open>goalComparisonRoutes.ts\<close> formats the answers of the modelled
  services as tables. The older \<open>BankReconciliationService\<close> with its own parser repeats the upload of bank files through a
  path the newer requests have replaced. Scripts and seeds are run by hand.
\<close>

end
